(* ===== verification/Prelude.thy ===== *)
theory Prelude
  imports Main "HOL-Library.Word" "HOL-Library.Sublist"
begin

section \<open>Shared vocabulary of the development\<close>

text \<open>
  Types, the error values, the result type and the generic lemmas that every component uses.

  Go strings and byte slices are both sequences of bytes; an Isabelle \<open>char\<close> is a byte, so both
  are \<open>string\<close>. Go's \<open>int\<close> and \<open>int64\<close> are modelled as \<open>int\<close>; where a
  subtraction could leave the 64-bit range, \<open>wrap64\<close> gives the machine result and a lemma shows the
  two agree. Instants are nanoseconds since the epoch (Go's \<open>time.Time\<close> on the wall clock);
  \<open>unix_sec\<close> and \<open>unix_milli\<close> are Go's \<open>Unix\<close> and \<open>UnixMilli\<close>.
\<close>

type_synonym bytes = string
type_synonym instant = int

named_theorems result_simps \<open>rewriting of computations that return a result\<close>
named_theorems keeps \<open>what an operation leaves unchanged\<close>
named_theorems wf_intros \<open>preservation of the component invariants\<close>

subsection \<open>Errors as values\<close>

text \<open>The sentinel errors of the program, and \<open>Err\<close> with the message of every other one.\<close>

datatype error =
    Err string
  | ErrClock | ErrBusy | ErrConflict | ErrCapacity
  | ErrAuditCapacity
  | ErrUnauthorized | ErrRateLimited
  | ErrAdminUnauthorized | ErrAdminForbidden | ErrAdminLimited | ErrAdminUnavailable
  | ErrManagementRequest | ErrManagementConflict | ErrManagementNotFound
  | ErrRenewal

type_synonym 'a result = "error + 'a"

text \<open>\<open>andThen m f\<close> is the Go idiom \<open>v, err := m; if err != nil { return err }; f(v)\<close>.\<close>

definition andThen :: "'a result \<Rightarrow> ('a \<Rightarrow> 'b result) \<Rightarrow> 'b result" where
  "andThen m f = (case m of Inl e \<Rightarrow> Inl e | Inr a \<Rightarrow> f a)"

lemma andThen_Inl [simp, result_simps]: "andThen (Inl e) f = Inl e"
  by (simp add: andThen_def)

lemma andThen_Inr [simp, result_simps]: "andThen (Inr a) f = f a"
  by (simp add: andThen_def)

lemma andThen_eq_Inr [result_simps]:
  "andThen m f = Inr b \<longleftrightarrow> (\<exists>a. m = Inr a \<and> f a = Inr b)"
  by (cases m) simp_all

lemma andThen_eq_Inl [result_simps]:
  "andThen m f = Inl e \<longleftrightarrow> m = Inl e \<or> (\<exists>a. m = Inr a \<and> f a = Inl e)"
  by (cases m) simp_all

lemma andThen_cong [fundef_cong]:
  "m = m' \<Longrightarrow> (\<And>a. m' = Inr a \<Longrightarrow> f a = f' a) \<Longrightarrow> andThen m f = andThen m' f'"
  by (cases m') simp_all

lemma if_Inl_eq_Inr [result_simps]:
  "(if c then Inl e else x) = Inr b \<longleftrightarrow> \<not> c \<and> x = Inr b"
  by simp

lemma case_sum_eq_Inr [result_simps]:
  "(case m of Inl _ \<Rightarrow> Inl e | Inr a \<Rightarrow> f a) = Inr b \<longleftrightarrow> (\<exists>a. m = Inr a \<and> f a = Inr b)"
  by (cases m) simp_all

definition is_ok :: "'a result \<Rightarrow> bool" where
  "is_ok r = (case r of Inl _ \<Rightarrow> False | Inr _ \<Rightarrow> True)"

lemma is_ok_simps [simp]: "is_ok (Inr a) = True" "is_ok (Inl e) = False"
  by (simp_all add: is_ok_def)

lemma is_ok_iff: "is_ok r \<longleftrightarrow> (\<exists>a. r = Inr a)"
  by (cases r) simp_all

text \<open>A loop whose body may fail, as a recursion over the list it ranges over.\<close>

fun map_res :: "('a \<Rightarrow> 'b result) \<Rightarrow> 'a list \<Rightarrow> 'b list result" where
  "map_res f [] = Inr []"
| "map_res f (x # xs) = andThen (f x) (\<lambda>y. andThen (map_res f xs) (\<lambda>ys. Inr (y # ys)))"

fun fold_res :: "('a \<Rightarrow> 's \<Rightarrow> 's result) \<Rightarrow> 'a list \<Rightarrow> 's \<Rightarrow> 's result" where
  "fold_res f [] s = Inr s"
| "fold_res f (x # xs) s = andThen (f x s) (\<lambda>s'. fold_res f xs s')"

lemma fold_res_invariant:
  assumes "fold_res f xs s = Inr t" and "I s"
    and "\<And>x s t. x \<in> set xs \<Longrightarrow> I s \<Longrightarrow> f x s = Inr t \<Longrightarrow> I t"
  shows "I t"
  using assms
proof (induction xs arbitrary: s)
  case Nil
  then show ?case by simp
next
  case (Cons x xs)
  from Cons.prems(1) obtain s' where "f x s = Inr s'" and "fold_res f xs s' = Inr t"
    by (auto simp: result_simps)
  with Cons show ?case by (meson list.set_intros)
qed

subsection \<open>Transactions\<close>

text \<open>
  A write transaction is a function of the database state. \<open>Inl e\<close> is a return before
  \<open>tx.Commit()\<close>: the deferred \<open>Rollback\<close> discards every write. \<open>Inr (r, s)\<close> is a
  committed transaction whose caller then returns \<open>r\<close>, which may itself be an error (a latched clock, a
  recorded conflict).
\<close>

type_synonym ('a, 's) tx = "'s \<Rightarrow> ('a result \<times> 's) result"

definition run_tx :: "('a, 's) tx \<Rightarrow> 's \<Rightarrow> 'a result \<times> 's" where
  "run_tx body s = (case body s of Inl e \<Rightarrow> (Inl e, s) | Inr rs \<Rightarrow> rs)"

lemma run_tx_cases:
  obtains (rollback) e where "body s = Inl e" "run_tx body s = (Inl e, s)"
  | (commit) r t where "body s = Inr (r, t)" "run_tx body s = (r, t)"
  by (cases "body s") (auto simp: run_tx_def)

lemma run_tx_invariant:
  assumes "I s" and "\<And>r t. body s = Inr (r, t) \<Longrightarrow> I t"
  shows "I (snd (run_tx body s))"
  using assms by (cases body s rule: run_tx_cases) simp_all

lemma run_tx_eq_Inr:
  "run_tx body s = (Inr a, t) \<longleftrightarrow> body s = Inr (Inr a, t)"
  by (auto simp: run_tx_def split: sum.splits)

subsection \<open>Machine integers and instants\<close>

definition int64 :: "int \<Rightarrow> bool" where
  "int64 x \<longleftrightarrow> - (2 ^ 63) \<le> x \<and> x < 2 ^ 63"

definition wrap64 :: "int \<Rightarrow> int" where
  "wrap64 x = sint (word_of_int x :: 64 word)"

lemma wrap64_id [simp]: "int64 x \<Longrightarrow> wrap64 x = x"
  unfolding wrap64_def int64_def by (simp add: sint_uint signed_take_bit_int_eq_self unsigned_of_int
      signed_take_bit_take_bit sint_word_ariths signed_of_int)

definition unix_sec :: "instant \<Rightarrow> int" where
  "unix_sec t = t div 1000000000"

definition unix_milli :: "instant \<Rightarrow> int" where
  "unix_milli t = t div 1000000"

definition seconds :: "int \<Rightarrow> int" where
  "seconds n = n * 1000000000"

lemma unix_sec_add_seconds [simp]: "unix_sec (t + seconds n) = unix_sec t + n"
  by (simp add: unix_sec_def seconds_def)

lemma unix_sec_mono: "s \<le> t \<Longrightarrow> unix_sec s \<le> unix_sec t"
  by (simp add: unix_sec_def zdiv_mono1)

subsection \<open>Bytes and strings\<close>

definition code :: "char \<Rightarrow> nat" where
  "code c = of_char c"

definition char_in :: "char \<Rightarrow> char \<Rightarrow> char \<Rightarrow> bool" where
  "char_in lo hi c \<longleftrightarrow> code lo \<le> code c \<and> code c \<le> code hi"

definition is_digit :: "char \<Rightarrow> bool" where
  "is_digit c = char_in (CHR ''0'') (CHR ''9'') c"

definition byte :: "nat \<Rightarrow> char" where
  "byte n = char_of n"

lemma code_byte [simp]: "n < 256 \<Longrightarrow> code (byte n) = n"
  by (simp add: code_def byte_def)

lemma byte_code [simp]: "byte (code c) = c"
  by (simp add: code_def byte_def)

lemma code_less [simp]: "code c < 256"
  unfolding code_def by simp

lemma code_inj: "code c = code d \<longleftrightarrow> c = d"
  by (metis byte_code)

definition has_prefix :: "string \<Rightarrow> string \<Rightarrow> bool" where
  "has_prefix s p \<longleftrightarrow> take (length p) s = p"

definition has_suffix :: "string \<Rightarrow> string \<Rightarrow> bool" where
  "has_suffix s p \<longleftrightarrow> length p \<le> length s \<and> drop (length s - length p) s = p"

definition trim_prefix :: "string \<Rightarrow> string \<Rightarrow> string" where
  "trim_prefix s p = (if has_prefix s p then drop (length p) s else s)"

fun contains :: "string \<Rightarrow> string \<Rightarrow> bool" where
  "contains [] p = (p = [])"
| "contains (c # cs) p = (has_prefix (c # cs) p \<or> contains cs p)"

definition contains_any :: "string \<Rightarrow> string \<Rightarrow> bool" where
  "contains_any s cs \<longleftrightarrow> list_ex (\<lambda>c. c \<in> set cs) s"

text \<open>\<open>strings.Split\<close> and \<open>bytes.Split\<close> on a one-byte separator: never the empty list.\<close>

fun split_on :: "char \<Rightarrow> string \<Rightarrow> string list" where
  "split_on sep [] = [[]]"
| "split_on sep (c # cs) =
     (if c = sep then [] # split_on sep cs
      else (case split_on sep cs of [] \<Rightarrow> [[c]] | w # ws \<Rightarrow> (c # w) # ws))"

lemma split_on_nonempty [simp]: "split_on sep s \<noteq> []"
  by (induction s) (auto split: list.splits)

lemma has_prefix_append [simp]: "has_prefix (p @ s) p"
  by (simp add: has_prefix_def)

lemma has_prefix_iff: "has_prefix s p \<longleftrightarrow> (\<exists>r. s = p @ r)"
  unfolding has_prefix_def by (metis append_take_drop_id append_eq_conv_conj)

subsection \<open>Lists\<close>

lemma filter_eq_length_le: "length (filter P xs) \<le> length xs"
  by simp

lemma length_filter_update:
  assumes "i < length xs"
  shows "length (filter P (xs[i := y])) + (if P (xs ! i) then 1 else 0)
       = length (filter P xs) + (if P y then 1 else 0)"
  using assms
proof (induction xs arbitrary: i)
  case Nil
  then show ?case by simp
next
  case (Cons x xs)
  then show ?case by (cases i) (auto split: if_splits)
qed

lemma sum_list_map_if:
  "(\<Sum>x\<leftarrow>xs. if P x then f x else 0) = (\<Sum>x\<leftarrow>filter P xs. f x :: int)"
  by (induction xs) auto

lemma distinct_map_filterI: "distinct (map f xs) \<Longrightarrow> distinct (map f (filter P xs))"
  by (induction xs) auto

end
