(* ===== verification/Encoding.thy ===== *)
theory Encoding
  imports Prelude
begin

section \<open>Text encodings of the Go standard library\<close>

text \<open>
  What the program uses of \<open>encoding/hex\<close>, \<open>encoding/base64\<close> (raw, URL alphabet, strict),
  \<open>strconv\<close> and \<open>unicode/utf8\<close>, written out as executable functions, and the text predicates
  of the program that rest on them: \<open>identity.Hex\<close>, \<open>protocol.CleanText\<close>, the
  identifier predicates and \<open>signing.decode\<close>.
\<close>

subsection \<open>Hexadecimal\<close>

definition hex_digit :: "nat \<Rightarrow> char" where
  "hex_digit n = (if n < 10 then byte (48 + n) else byte (87 + n))"

definition hex_EncodeToString :: "bytes \<Rightarrow> string" where
  "hex_EncodeToString bs = concat (map (\<lambda>b. [hex_digit (code b div 16), hex_digit (code b mod 16)]) bs)"

text \<open>\<open>identity.Hex\<close>: exactly \<open>n\<close> lower-case hexadecimal digits.\<close>

definition is_hex_char :: "char \<Rightarrow> bool" where
  "is_hex_char c \<longleftrightarrow> char_in (CHR ''0'') (CHR ''9'') c \<or> char_in (CHR ''a'') (CHR ''f'') c"

definition Hex :: "string \<Rightarrow> nat \<Rightarrow> bool" where
  "Hex s n \<longleftrightarrow> length s = n \<and> list_all is_hex_char s"

lemma Hex_length: "Hex s n \<Longrightarrow> length s = n"
  by (simp add: Hex_def)

lemma Hex_nonempty: "Hex s n \<Longrightarrow> 0 < n \<Longrightarrow> s \<noteq> []"
  by (auto simp: Hex_def)

lemma not_Hex_Nil [simp]: "0 < n \<Longrightarrow> \<not> Hex [] n"
  by (simp add: Hex_def)

lemma is_hex_char_digit: "n < 16 \<Longrightarrow> is_hex_char (hex_digit n)"
  by (auto simp: is_hex_char_def char_in_def hex_digit_def code_def byte_def)

lemma length_hex_EncodeToString [simp]: "length (hex_EncodeToString bs) = 2 * length bs"
  by (induction bs) (auto simp: hex_EncodeToString_def)

lemma Hex_EncodeToString:
  assumes "length bs = n"
  shows "Hex (hex_EncodeToString bs) (2 * n)"
proof -
  have "code b div 16 < 16" for b
    using code_less [of b] by arith
  then have "list_all is_hex_char (hex_EncodeToString bs)"
    unfolding hex_EncodeToString_def
    by (induction bs) (auto simp: is_hex_char_digit)
  with assms show ?thesis by (simp add: Hex_def)
qed

lemma hex_digit_inj: "m < 16 \<Longrightarrow> n < 16 \<Longrightarrow> hex_digit m = hex_digit n \<Longrightarrow> m = n"
  unfolding hex_digit_def by (auto dest!: arg_cong [where f = code] split: if_splits)

lemma hex_EncodeToString_inj: "hex_EncodeToString xs = hex_EncodeToString ys \<Longrightarrow> xs = ys"
proof (induction xs arbitrary: ys)
  case Nil
  then show ?case by (cases ys) (simp_all add: hex_EncodeToString_def)
next
  case (Cons x xs)
  then obtain y ys' where ys: "ys = y # ys'"
    by (cases ys) (simp_all add: hex_EncodeToString_def)
  have lt: "code b div 16 < 16" for b
    using code_less [of b] by arith
  from Cons.prems ys have hi: "hex_digit (code x div 16) = hex_digit (code y div 16)"
    and lo: "hex_digit (code x mod 16) = hex_digit (code y mod 16)"
    and rest: "hex_EncodeToString xs = hex_EncodeToString ys'"
    by (simp_all add: hex_EncodeToString_def)
  from hi lo have "code x div 16 = code y div 16" "code x mod 16 = code y mod 16"
    by (auto intro: hex_digit_inj simp: lt)
  then have "code x = code y" by (metis div_mult_mod_eq)
  with rest Cons.IH ys show ?case by (simp add: code_inj)
qed

subsection \<open>UTF-8\<close>

definition cont :: "char \<Rightarrow> bool" where
  "cont c \<longleftrightarrow> 128 \<le> code c \<and> code c \<le> 191"

text \<open>The length of the well-formed encoding at the head of \<open>s\<close>, 0 when there is none.\<close>

definition utf8_len :: "string \<Rightarrow> nat" where
  "utf8_len s = (case s of [] \<Rightarrow> 0 | b # r \<Rightarrow>
     if code b < 128 then 1
     else if 194 \<le> code b \<and> code b \<le> 223 then
       (case r of c # _ \<Rightarrow> if cont c then 2 else 0 | _ \<Rightarrow> 0)
     else if 224 \<le> code b \<and> code b \<le> 239 then
       (case r of c # d # _ \<Rightarrow>
          if cont c \<and> cont d \<and> (code b = 224 \<longrightarrow> 160 \<le> code c) \<and> (code b = 237 \<longrightarrow> code c \<le> 159)
          then 3 else 0 | _ \<Rightarrow> 0)
     else if 240 \<le> code b \<and> code b \<le> 244 then
       (case r of c # d # e # _ \<Rightarrow>
          if cont c \<and> cont d \<and> cont e \<and> (code b = 240 \<longrightarrow> 144 \<le> code c) \<and> (code b = 244 \<longrightarrow> code c \<le> 143)
          then 4 else 0 | _ \<Rightarrow> 0)
     else 0)"

text \<open>The length of a string as a sequence of well-formed encodings, \<open>None\<close> when it is not one:
  \<open>utf8.Valid\<close> and \<open>utf8.RuneCountInString\<close> in one pass. \<open>ok\<close> is asked of the
  string at every rune.\<close>

function runes :: "(string \<Rightarrow> bool) \<Rightarrow> string \<Rightarrow> nat option" where
  "runes ok s =
     (if s = [] then Some 0
      else if utf8_len s = 0 \<or> \<not> ok s then None
      else map_option Suc (runes ok (drop (utf8_len s) s)))"
  by pat_completeness auto
termination
  by (relation "measure (\<lambda>(ok, s). length s)") auto

declare runes.simps [simp del]

definition utf8_Valid :: "string \<Rightarrow> bool" where
  "utf8_Valid s \<longleftrightarrow> runes (\<lambda>_. True) s \<noteq> None"

definition rune_count :: "string \<Rightarrow> nat" where
  "rune_count s = (case runes (\<lambda>_. True) s of None \<Rightarrow> 0 | Some n \<Rightarrow> n)"

text \<open>\<open>unicode.IsControl\<close> of the rune at the head of \<open>s\<close>: U+0000 to U+001F and U+007F to U+009F.\<close>

definition control_at :: "string \<Rightarrow> bool" where
  "control_at s \<longleftrightarrow> (case s of [] \<Rightarrow> False | b # r \<Rightarrow>
     code b < 32 \<or> code b = 127 \<or> (code b = 194 \<and> (case r of c # _ \<Rightarrow> code c \<le> 159 | _ \<Rightarrow> False)))"

text \<open>\<open>protocol.CleanText\<close>: bounded, valid UTF-8, no control character.\<close>

definition CleanText :: "string \<Rightarrow> nat \<Rightarrow> bool" where
  "CleanText s mx \<longleftrightarrow> length s \<le> mx \<and> runes (\<lambda>t. \<not> control_at t) s \<noteq> None"

text \<open>The identifier alphabets: \<open>protocol.identifier\<close> and \<open>audit.identifier\<close>.\<close>

definition alnum :: "char \<Rightarrow> bool" where
  "alnum c \<longleftrightarrow> char_in (CHR ''a'') (CHR ''z'') c \<or> char_in (CHR ''A'') (CHR ''Z'') c
     \<or> char_in (CHR ''0'') (CHR ''9'') c"

definition task_identifier :: "string \<Rightarrow> bool" where
  "task_identifier s \<longleftrightarrow> s \<noteq> [] \<and> length s \<le> 64
     \<and> list_all (\<lambda>c. alnum c \<or> c = CHR ''_'' \<or> c = CHR ''-'') s"

definition ResourceID :: "string \<Rightarrow> bool" where
  "ResourceID s \<longleftrightarrow> s \<noteq> [] \<and> length s \<le> 32 \<and> hd s \<noteq> CHR ''_'' \<and> hd s \<noteq> CHR ''-'' \<and> task_identifier s"

definition audit_identifier :: "string \<Rightarrow> nat \<Rightarrow> bool" where
  "audit_identifier s mx \<longleftrightarrow> length s \<le> mx
     \<and> list_all (\<lambda>c. alnum c \<or> c = CHR ''_'' \<or> c = CHR ''-'' \<or> c = CHR ''.'') s"

text \<open>Plain text: bytes that JSON prints and reads back as themselves.\<close>

definition plain_char :: "char \<Rightarrow> bool" where
  "plain_char c \<longleftrightarrow> alnum c \<or> c = CHR ''_'' \<or> c = CHR ''-'' \<or> c = CHR ''.''"

abbreviation plain :: "string \<Rightarrow> bool" where
  "plain s \<equiv> list_all plain_char s"

lemma is_hex_char_plain: "is_hex_char c \<Longrightarrow> plain_char c"
  by (auto simp: is_hex_char_def plain_char_def alnum_def char_in_def code_def)

lemma Hex_plain: "Hex s n \<Longrightarrow> plain s"
  by (auto simp: Hex_def list_all_iff is_hex_char_plain)

lemma task_identifier_plain: "task_identifier s \<Longrightarrow> plain s"
  by (auto simp: task_identifier_def list_all_iff plain_char_def)

lemma audit_identifier_plain: "audit_identifier s n \<Longrightarrow> plain s"
  by (auto simp: audit_identifier_def list_all_iff plain_char_def)

lemma plain_char_ascii: "plain_char c \<Longrightarrow> 45 \<le> code c \<and> code c \<le> 122"
  by (auto simp: plain_char_def alnum_def char_in_def code_def)

lemma plain_ascii: "plain s \<Longrightarrow> list_all (\<lambda>c. code c < 128) s"
  by (auto simp: list_all_iff dest!: bspec plain_char_ascii)

lemma plain_not_control: "plain_char c \<Longrightarrow> \<not> control_at (c # r)"
  by (auto simp: control_at_def dest!: plain_char_ascii)

lemma runes_ascii:
  "list_all (\<lambda>c. code c < 128) s \<Longrightarrow> (\<And>c r. c \<in> set s \<Longrightarrow> ok (c # r)) \<Longrightarrow> runes ok s = Some (length s)"
proof (induction s)
  case Nil
  then show ?case by (simp add: runes.simps)
next
  case (Cons c s)
  then show ?case by (subst runes.simps) (simp add: utf8_len_def)
qed

lemma plain_valid: "plain s \<Longrightarrow> utf8_Valid s"
  unfolding utf8_Valid_def by (simp add: runes_ascii plain_ascii)

lemma plain_CleanText: "plain s \<Longrightarrow> length s \<le> n \<Longrightarrow> CleanText s n"
proof -
  assume s: "plain s" and n: "length s \<le> n"
  from s have "runes (\<lambda>t. \<not> control_at t) s = Some (length s)"
    by (intro runes_ascii plain_ascii) (auto simp: list_all_iff plain_not_control)
  with n show ?thesis by (simp add: CleanText_def)
qed

subsection \<open>Decimal integers\<close>

function show_nat :: "nat \<Rightarrow> string" where
  "show_nat n = (if n < 10 then [byte (48 + n)] else show_nat (n div 10) @ [byte (48 + n mod 10)])"
  by pat_completeness auto
termination
  by (relation "measure id") auto

declare show_nat.simps [simp del]

definition show_int :: "int \<Rightarrow> string" where
  "show_int i = (if i < 0 then CHR ''-'' # show_nat (nat (- i)) else show_nat (nat i))"

definition digit_val :: "char \<Rightarrow> nat" where
  "digit_val c = code c - 48"

definition read_nat :: "string \<Rightarrow> nat" where
  "read_nat s = fold (\<lambda>c n. 10 * n + digit_val c) s 0"

text \<open>\<open>strconv.ParseInt(s, 10, 64)\<close> and \<open>strconv.ParseUint(s, 10, w)\<close> on the literals JSON allows.\<close>

definition ParseInt :: "string \<Rightarrow> int option" where
  "ParseInt s =
     (let neg = (s \<noteq> [] \<and> hd s = CHR ''-'');
          ds = (if neg then tl s else s);
          v = (if neg then - int (read_nat ds) else int (read_nat ds))
      in if ds \<noteq> [] \<and> list_all is_digit ds \<and> - (2 ^ 63) \<le> v \<and> v < 2 ^ 63 then Some v else None)"

definition ParseUint :: "nat \<Rightarrow> string \<Rightarrow> int option" where
  "ParseUint w s =
     (if s \<noteq> [] \<and> list_all is_digit s \<and> read_nat s < 2 ^ w then Some (int (read_nat s)) else None)"

lemma show_nat_digits: "list_all is_digit (show_nat n) \<and> show_nat n \<noteq> []"
proof (induction n rule: show_nat.induct)
  case (1 n)
  have d: "is_digit (byte (48 + k))" if "k < 10" for k
    using that by (simp add: is_digit_def char_in_def code_def byte_def)
  show ?case
    by (subst (1 2) show_nat.simps) (use 1 d in auto)
qed

lemma read_nat_snoc: "read_nat (s @ [c]) = 10 * read_nat s + digit_val c"
  by (simp add: read_nat_def)

lemma read_nat_show_nat [simp]: "read_nat (show_nat n) = n"
proof (induction n rule: show_nat.induct)
  case (1 n)
  show ?case
  proof (cases "n < 10")
    case True
    then show ?thesis by (subst show_nat.simps) (simp add: read_nat_def digit_val_def)
  next
    case False
    then have "read_nat (show_nat n) = 10 * (n div 10) + n mod 10"
      by (subst show_nat.simps) (simp add: read_nat_snoc digit_val_def 1)
    then show ?thesis by simp
  qed
qed

lemma digit_not_minus: "is_digit c \<Longrightarrow> c \<noteq> CHR ''-''"
  by (auto simp: is_digit_def char_in_def code_def)

lemma ParseInt_show_int: "int64 i \<Longrightarrow> ParseInt (show_int i) = Some i"
proof -
  assume i: "int64 i"
  obtain c r where s: "show_nat (nat i) = c # r" using show_nat_digits [of "nat i"] by (cases "show_nat (nat i)") auto
  then have "hd (show_nat (nat i)) \<noteq> CHR ''-''"
    using show_nat_digits [of "nat i"] by (auto dest: digit_not_minus)
  moreover have "read_nat (show_nat (nat \<bar>i\<bar>)) = nat \<bar>i\<bar>" by simp
  ultimately show ?thesis
    using i show_nat_digits [of "nat i"] show_nat_digits [of "nat (- i)"]
    by (auto simp: ParseInt_def show_int_def Let_def int64_def)
qed

subsection \<open>Base64 with the URL alphabet, no padding, strict\<close>

definition b64_char :: "nat \<Rightarrow> char" where
  "b64_char n = (if n < 26 then byte (65 + n) else if n < 52 then byte (71 + n)
     else if n < 62 then byte (n - 4) else if n = 62 then CHR ''-'' else CHR ''_'')"

definition b64_val :: "char \<Rightarrow> nat option" where
  "b64_val c = (let n = code c in
     if 65 \<le> n \<and> n \<le> 90 then Some (n - 65)
     else if 97 \<le> n \<and> n \<le> 122 then Some (n - 71)
     else if 48 \<le> n \<and> n \<le> 57 then Some (n + 4)
     else if c = CHR ''-'' then Some 62 else if c = CHR ''_'' then Some 63 else None)"

fun b64_groups :: "nat list \<Rightarrow> nat list" where
  "b64_groups [] = []"
| "b64_groups [a] = [a div 4, a mod 4 * 16]"
| "b64_groups [a, b] = [a div 4, a mod 4 * 16 + b div 16, b mod 16 * 4]"
| "b64_groups (a # b # c # r) =
     [a div 4, a mod 4 * 16 + b div 16, b mod 16 * 4 + c div 64, c mod 64] @ b64_groups r"

fun b64_ungroup :: "nat list \<Rightarrow> nat list option" where
  "b64_ungroup [] = Some []"
| "b64_ungroup [w] = None"
| "b64_ungroup [w, x] = (if x mod 16 = 0 then Some [w * 4 + x div 16] else None)"
| "b64_ungroup [w, x, y] =
     (if y mod 4 = 0 then Some [w * 4 + x div 16, x mod 16 * 16 + y div 4] else None)"
| "b64_ungroup (w # x # y # z # r) =
     map_option (\<lambda>t. [w * 4 + x div 16, x mod 16 * 16 + y div 4, y mod 4 * 64 + z] @ t) (b64_ungroup r)"

definition b64_EncodeToString :: "bytes \<Rightarrow> string" where
  "b64_EncodeToString bs = map b64_char (b64_groups (map code bs))"

definition b64_EncodedLen :: "nat \<Rightarrow> nat" where
  "b64_EncodedLen n = n div 3 * 4 + (n mod 3 * 8 + 5) div 6"

text \<open>The Go decoder skips line breaks, then reads whole groups; \<open>Strict\<close> refuses non-zero
  trailing bits.\<close>

definition b64_DecodeString :: "string \<Rightarrow> bytes option" where
  "b64_DecodeString s =
     (let cs = filter (\<lambda>c. code c \<noteq> 10 \<and> code c \<noteq> 13) s; vs = map b64_val cs
      in if list_all (\<lambda>v. v \<noteq> None) vs
         then map_option (map byte) (b64_ungroup (map the vs)) else None)"

text \<open>\<open>signing.decode\<close>: the one spelling of at most \<open>limit\<close> bytes.\<close>

definition signing_decode :: "string \<Rightarrow> nat \<Rightarrow> bytes result" where
  "signing_decode s limit =
     (if length s > b64_EncodedLen limit then Inl (Err ''encoded value too large'')
      else case b64_DecodeString s of
        None \<Rightarrow> Inl (Err ''noncanonical base64url'')
      | Some b \<Rightarrow> if length b > limit \<or> b64_EncodeToString b \<noteq> s
                  then Inl (Err ''noncanonical base64url'') else Inr b)"

lemma b64_val_char: "n < 64 \<Longrightarrow> b64_val (b64_char n) = Some n"
  unfolding b64_val_def b64_char_def Let_def
  by (cases "n < 26"; cases "n < 52"; cases "n < 62"; cases "n = 62")
     (auto simp: code_def byte_def)

lemma b64_char_not_break: "n < 64 \<Longrightarrow> code (b64_char n) \<noteq> 10 \<and> code (b64_char n) \<noteq> 13"
  by (auto simp: b64_char_def code_def byte_def)

lemma b64_groups_bound: "\<forall>x\<in>set xs. x < 256 \<Longrightarrow> \<forall>x\<in>set (b64_groups xs). x < 64"
  by (induction xs rule: b64_groups.induct) (auto simp: less_mult_imp_div_less)

lemma group_div_mod:
  fixes p q k :: nat
  assumes "q < k"
  shows "(p * k + q) div k = p" and "(p * k + q) mod k = q"
  using assms by (cases "k = 0"; simp)+

lemma b64_ungroup_groups: "\<forall>x\<in>set xs. x < 256 \<Longrightarrow> b64_ungroup (b64_groups xs) = Some xs"
proof (induction xs rule: b64_groups.induct)
  case (3 a b)
  then have "b div 16 < 16" by (simp add: less_mult_imp_div_less)
  with 3 show ?case by (simp add: group_div_mod)
next
  case (4 a b c r)
  then have "b div 16 < 16" and "c div 64 < 4" by (simp_all add: less_mult_imp_div_less)
  with 4 show ?case by (simp add: group_div_mod)
qed simp_all

lemma b64_Decode_Encode: "b64_DecodeString (b64_EncodeToString bs) = Some bs"
proof -
  let ?g = "b64_groups (map code bs)"
  have g: "\<forall>x\<in>set ?g. x < 64" by (rule b64_groups_bound) simp
  then have "filter (\<lambda>c. code c \<noteq> 10 \<and> code c \<noteq> 13) (map b64_char ?g) = map b64_char ?g"
    by (auto simp: filter_id_conv b64_char_not_break)
  moreover from g have "map b64_val (map b64_char ?g) = map Some ?g"
    by (auto simp: b64_val_char)
  moreover have "b64_ungroup ?g = Some (map code bs)" by (rule b64_ungroup_groups) simp
  moreover have "map the (map Some ?g) = ?g" by (simp add: comp_def)
  moreover have "list_all (\<lambda>v. v \<noteq> None) (map Some ?g)" by (simp add: list_all_iff)
  moreover have "map byte (map code bs) = bs" by (simp add: comp_def)
  ultimately show ?thesis
    by (simp only: b64_DecodeString_def b64_EncodeToString_def Let_def if_True option.map)
qed

lemma b64_EncodedLen_alt: "b64_EncodedLen n = (8 * n + 5) div 6"
proof -
  have "8 * n + 5 = (n mod 3 * 8 + 5) + 6 * (4 * (n div 3))"
    using div_mult_mod_eq [of n 3] by linarith
  then have "(8 * n + 5) div 6 = 4 * (n div 3) + (n mod 3 * 8 + 5) div 6"
    by (metis add.commute div_mult_self2 zero_neq_numeral)
  then show ?thesis by (simp add: b64_EncodedLen_def)
qed

lemma length_b64_groups: "length (b64_groups xs) = b64_EncodedLen (length xs)"
  by (induction xs rule: b64_groups.induct) (simp_all add: b64_EncodedLen_alt)

lemma length_b64_EncodeToString [simp]: "length (b64_EncodeToString bs) = b64_EncodedLen (length bs)"
  by (simp add: b64_EncodeToString_def length_b64_groups)

lemma b64_EncodedLen_mono: "m \<le> n \<Longrightarrow> b64_EncodedLen m \<le> b64_EncodedLen n"
  by (simp add: b64_EncodedLen_alt div_le_mono)

lemma signing_decode_eq_Inr:
  "signing_decode s limit = Inr b \<longleftrightarrow> s = b64_EncodeToString b \<and> length b \<le> limit"
proof
  assume "signing_decode s limit = Inr b"
  then show "s = b64_EncodeToString b \<and> length b \<le> limit"
    by (auto simp: signing_decode_def split: if_splits option.splits)
next
  assume "s = b64_EncodeToString b \<and> length b \<le> limit"
  then show "signing_decode s limit = Inr b"
    using b64_EncodedLen_mono [of "length b" limit]
    by (simp add: signing_decode_def b64_Decode_Encode)
qed

text \<open>Base64 text needs no escapes.\<close>

lemma b64_char_plain: "n < 64 \<Longrightarrow> plain_char (b64_char n)"
  by (auto simp: b64_char_def plain_char_def alnum_def char_in_def code_def byte_def)

lemma b64_plain: "plain (b64_EncodeToString bs)"
proof -
  have "\<forall>x\<in>set (b64_groups (map code bs)). x < 64" by (rule b64_groups_bound) simp
  then show ?thesis by (auto simp: b64_EncodeToString_def list_all_iff b64_char_plain)
qed

end
