(* ===== verification/Json.thy ===== *)
theory Json
  imports Encoding
begin

section \<open>JSON and the strict decoder\<close>

text \<open>
  The grammar of \<open>encoding/json\<close> as far as the program relies on it, the checks of
  \<open>internal/strictjson\<close> (\<open>value\<close>, \<open>validSurrogates\<close>, \<open>Decode\<close>) and the
  printing of \<open>json.Marshal\<close>. Every value keeps the source text it was read from, which is what a
  \<open>json.RawMessage\<close> field receives.

  The readers take a fuel argument. One call consumes a byte of the input at least every second level,
  so \<open>2 * length + 2\<close> is enough: \<open>parse_value_fuel\<close> in \<open>Json_Laws\<close> shows that more fuel never changes
  the outcome.
\<close>

abbreviation dquote :: char where "dquote \<equiv> CHR 0x22"
abbreviation bslash :: char where "bslash \<equiv> CHR 0x5C"

datatype json =
    JNull
  | JBool bool
  | JNum string
  | JStr string
  | JArr "jval list"
  | JObj "(string \<times> jval) list"
and jval = JV string json

fun raw_of :: "jval \<Rightarrow> string" where "raw_of (JV r v) = r"
fun node_of :: "jval \<Rightarrow> json" where "node_of (JV r v) = v"

subsection \<open>Reading\<close>

definition is_ws :: "char \<Rightarrow> bool" where
  "is_ws c \<longleftrightarrow> code c = 32 \<or> code c = 9 \<or> code c = 10 \<or> code c = 13"

abbreviation skip_ws :: "string \<Rightarrow> string" where
  "skip_ws s \<equiv> dropWhile is_ws s"

definition hex_val :: "char \<Rightarrow> nat option" where
  "hex_val c = (if char_in (CHR ''0'') (CHR ''9'') c then Some (code c - 48)
     else if char_in (CHR ''a'') (CHR ''f'') c then Some (code c - 87)
     else if char_in (CHR ''A'') (CHR ''F'') c then Some (code c - 55) else None)"

fun hex_num :: "nat \<Rightarrow> string \<Rightarrow> nat option" where
  "hex_num n [] = Some n"
| "hex_num n (c # cs) = (case hex_val c of None \<Rightarrow> None | Some v \<Rightarrow> hex_num (16 * n + v) cs)"

text \<open>Four hexadecimal digits at the head: \<open>strconv.ParseUint(s[:4], 16, 16)\<close>.\<close>

definition hex4 :: "string \<Rightarrow> nat option" where
  "hex4 s = (if length s < 4 then None else hex_num 0 (take 4 s))"

definition utf8_encode :: "nat \<Rightarrow> bytes" where
  "utf8_encode n =
     (if n < 128 then [byte n]
      else if n < 2048 then [byte (192 + n div 64), byte (128 + n mod 64)]
      else if n < 65536 then
        [byte (224 + n div 4096), byte (128 + n div 64 mod 64), byte (128 + n mod 64)]
      else [byte (240 + n div 262144), byte (128 + n div 4096 mod 64),
            byte (128 + n div 64 mod 64), byte (128 + n mod 64)])"

definition high_surrogate :: "nat \<Rightarrow> bool" where
  "high_surrogate n \<longleftrightarrow> 55296 \<le> n \<and> n \<le> 56319"

definition low_surrogate :: "nat \<Rightarrow> bool" where
  "low_surrogate n \<longleftrightarrow> 56320 \<le> n \<and> n \<le> 57343"

text \<open>An escape, after its backslash: the bytes it stands for and the rest. An unpaired surrogate
  becomes U+FFFD.\<close>

definition unescape :: "string \<Rightarrow> (bytes \<times> string) option" where
  "unescape s = (case s of [] \<Rightarrow> None | e # r \<Rightarrow>
     if e = dquote \<or> e = bslash \<or> e = CHR ''/'' then Some ([e], r)
     else if e = CHR ''b'' then Some ([byte 8], r)
     else if e = CHR ''f'' then Some ([byte 12], r)
     else if e = CHR ''n'' then Some ([byte 10], r)
     else if e = CHR ''r'' then Some ([byte 13], r)
     else if e = CHR ''t'' then Some ([byte 9], r)
     else if e \<noteq> CHR ''u'' then None
     else (case hex4 r of None \<Rightarrow> None | Some n \<Rightarrow>
       let r' = drop 4 r in
       if high_surrogate n then
         (case (if take 2 r' = [bslash, CHR ''u''] then hex4 (drop 2 r') else None) of
            Some m \<Rightarrow> if low_surrogate m
              then Some (utf8_encode (65536 + (n - 55296) * 1024 + (m - 56320)), drop 6 r')
              else Some (utf8_encode 65533, r')
          | None \<Rightarrow> Some (utf8_encode 65533, r'))
       else if low_surrogate n then Some (utf8_encode 65533, r')
       else Some (utf8_encode n, r')))"

lemma unescape_length: "unescape s = Some (b, r) \<Longrightarrow> length r < length s"
  by (auto simp: unescape_def Let_def split: list.splits if_splits option.splits)

text \<open>A string literal after its opening quote.\<close>

function scan_string :: "string \<Rightarrow> (string \<times> string) option" where
  "scan_string [] = None"
| "scan_string (c # cs) =
     (if c = dquote then Some ([], cs)
      else if code c < 32 then None
      else if c = bslash then
        (case unescape cs of None \<Rightarrow> None
         | Some (b, r) \<Rightarrow> map_option (apfst ((@) b)) (scan_string r))
      else map_option (apfst ((#) c)) (scan_string cs))"
  by pat_completeness auto
termination
  by (relation "measure length") (auto dest: unescape_length simp: less_Suc_eq)

definition scan_frac :: "string \<Rightarrow> (string \<times> string) option" where
  "scan_frac s = (if s \<noteq> [] \<and> hd s = CHR ''.'' then
       (if takeWhile is_digit (tl s) = [] then None
        else Some (CHR ''.'' # takeWhile is_digit (tl s), dropWhile is_digit (tl s)))
     else Some ([], s))"

definition scan_exp :: "string \<Rightarrow> (string \<times> string) option" where
  "scan_exp s = (if s \<noteq> [] \<and> (hd s = CHR ''e'' \<or> hd s = CHR ''E'') then
       (let r = tl s;
            sg = (if r \<noteq> [] \<and> (hd r = CHR ''+'' \<or> hd r = CHR ''-'') then [hd r] else []);
            r' = drop (length sg) r
        in if takeWhile is_digit r' = [] then None
           else Some (hd s # sg @ takeWhile is_digit r', dropWhile is_digit r'))
     else Some ([], s))"

definition scan_number :: "string \<Rightarrow> (string \<times> string) option" where
  "scan_number s =
     (let sg = (if s \<noteq> [] \<and> hd s = CHR ''-'' then ''-'' else []);
          s1 = drop (length sg) s;
          ip = (if s1 \<noteq> [] \<and> hd s1 = CHR ''0'' then ''0'' else takeWhile is_digit s1)
      in if ip = [] then None
         else case scan_frac (drop (length ip) s1) of None \<Rightarrow> None | Some (f, s2) \<Rightarrow>
           (case scan_exp s2 of None \<Rightarrow> None | Some (e, s3) \<Rightarrow> Some (sg @ ip @ f @ e, s3)))"

definition scan_literal :: "string \<Rightarrow> (json \<times> string) option" where
  "scan_literal s =
     (if has_prefix s ''true'' then Some (JBool True, drop 4 s)
      else if has_prefix s ''false'' then Some (JBool False, drop 5 s)
      else if has_prefix s ''null'' then Some (JNull, drop 4 s)
      else map_option (apfst JNum) (scan_number s))"

definition with_raw :: "string \<Rightarrow> (json \<times> string) option \<Rightarrow> (jval \<times> string) option" where
  "with_raw s x = map_option (\<lambda>(v, r). (JV (take (length s - length r) s) v, r)) x"

fun parse_value :: "nat \<Rightarrow> string \<Rightarrow> (jval \<times> string) option"
and parse_elems :: "nat \<Rightarrow> string \<Rightarrow> (jval list \<times> string) option"
and parse_members :: "nat \<Rightarrow> string \<Rightarrow> ((string \<times> jval) list \<times> string) option" where
  "parse_value 0 s = None"
| "parse_value (Suc n) s0 = (case skip_ws s0 of [] \<Rightarrow> None | c # cs \<Rightarrow>
     with_raw (c # cs)
       (if c = CHR ''{'' then
          (case skip_ws cs of [] \<Rightarrow> None | d # r \<Rightarrow>
             if d = CHR ''}'' then Some (JObj [], r) else map_option (apfst JObj) (parse_members n cs))
        else if c = CHR ''['' then
          (case skip_ws cs of [] \<Rightarrow> None | d # r \<Rightarrow>
             if d = CHR '']'' then Some (JArr [], r) else map_option (apfst JArr) (parse_elems n cs))
        else if c = dquote then map_option (apfst JStr) (scan_string cs)
        else scan_literal (c # cs)))"
| "parse_elems 0 s = None"
| "parse_elems (Suc n) s = (case parse_value n s of None \<Rightarrow> None | Some (v, r) \<Rightarrow>
     (case skip_ws r of [] \<Rightarrow> None | d # r' \<Rightarrow>
        if d = CHR '','' then map_option (apfst ((#) v)) (parse_elems n r')
        else if d = CHR '']'' then Some ([v], r') else None))"
| "parse_members 0 s = None"
| "parse_members (Suc n) s = (case skip_ws s of [] \<Rightarrow> None | c # cs \<Rightarrow>
     if c \<noteq> dquote then None
     else (case scan_string cs of None \<Rightarrow> None | Some (k, r) \<Rightarrow>
       (case skip_ws r of [] \<Rightarrow> None | e # r1 \<Rightarrow>
          if e \<noteq> CHR '':'' then None
          else (case parse_value n r1 of None \<Rightarrow> None | Some (v, r2) \<Rightarrow>
            (case skip_ws r2 of [] \<Rightarrow> None | d # r3 \<Rightarrow>
               if d = CHR '','' then map_option (apfst ((#) (k, v))) (parse_members n r3)
               else if d = CHR ''}'' then Some ([(k, v)], r3) else None)))))"

definition json_parse :: "bytes \<Rightarrow> jval option" where
  "json_parse s = (case parse_value (2 * length s + 2) s of None \<Rightarrow> None
     | Some (v, r) \<Rightarrow> if skip_ws r = [] then Some v else None)"

subsection \<open>The checks of the strict decoder\<close>

definition MaxDepth :: nat where "MaxDepth = 8"

text \<open>\<open>value\<close>: no null, at most \<open>MaxDepth\<close> nested containers, no repeated key.\<close>

fun strict_value :: "nat \<Rightarrow> jval \<Rightarrow> bool"
and strict_node :: "nat \<Rightarrow> json \<Rightarrow> bool" where
  "strict_value d (JV r v) = strict_node d v"
| "strict_node d JNull = False"
| "strict_node d (JBool b) = True"
| "strict_node d (JNum n) = True"
| "strict_node d (JStr s) = True"
| "strict_node d (JArr vs) = (d < MaxDepth \<and> list_all (\<lambda>v. strict_value (Suc d) v) vs)"
| "strict_node d (JObj ms) =
     (d < MaxDepth \<and> distinct (map fst ms) \<and> list_all (\<lambda>m. strict_value (Suc d) (snd m)) ms)"

text \<open>\<open>validSurrogates\<close>: every \<open>\u\<close> escape of a surrogate is one half of a pair.\<close>

function validSurrogates :: "bytes \<Rightarrow> bool" where
  "validSurrogates [] = True"
| "validSurrogates (c # cs) =
     (if c \<noteq> bslash then validSurrogates cs
      else case cs of [] \<Rightarrow> False | e # r \<Rightarrow>
        if e \<noteq> CHR ''u'' then validSurrogates r
        else (case hex4 r of None \<Rightarrow> False | Some n \<Rightarrow>
          if low_surrogate n then False
          else if \<not> high_surrogate n then validSurrogates (drop 4 r)
          else if take 2 (drop 4 r) \<noteq> [bslash, CHR ''u''] then False
          else (case hex4 (drop 6 r) of None \<Rightarrow> False
                | Some m \<Rightarrow> if low_surrogate m then validSurrogates (drop 10 r) else False)))"
  by pat_completeness auto
termination
  by (relation "measure length") auto

text \<open>\<open>Decode\<close>: an object with exactly the listed fields. The typed fields are read off the
  members by the getters below, which is the reflection-driven second half of \<open>Decode\<close>.\<close>

definition strict_decode :: "bytes \<Rightarrow> nat \<Rightarrow> string list \<Rightarrow> (string \<times> jval) list result" where
  "strict_decode data limit fields =
     (if limit = 0 \<or> length data > limit then Inl (Err ''JSON exceeds size limit'')
      else if \<not> utf8_Valid data \<or> \<not> validSurrogates data then Inl (Err ''invalid Unicode'')
      else case json_parse data of
        None \<Rightarrow> Inl (Err ''malformed JSON'')
      | Some v \<Rightarrow>
          if \<not> strict_value 0 v then Inl (Err ''ambiguous JSON'')
          else (case node_of v of
            JObj ms \<Rightarrow>
              if length ms \<noteq> length fields then Inl (Err ''unexpected or missing fields'')
              else if \<not> list_all (\<lambda>f. f \<in> set (map fst ms)) fields then Inl (Err ''missing field'')
              else Inr ms
          | _ \<Rightarrow> Inl (Err ''expected JSON object'')))"

definition type_error :: error where
  "type_error = Err ''invalid field type''"

definition get_raw :: "(string \<times> jval) list \<Rightarrow> string \<Rightarrow> bytes result" where
  "get_raw ms k = (case map_of ms k of None \<Rightarrow> Inl type_error | Some v \<Rightarrow> Inr (raw_of v))"

definition get_str :: "(string \<times> jval) list \<Rightarrow> string \<Rightarrow> string result" where
  "get_str ms k = (case map_of ms k of Some (JV _ (JStr s)) \<Rightarrow> Inr s | _ \<Rightarrow> Inl type_error)"

definition get_bool :: "(string \<times> jval) list \<Rightarrow> string \<Rightarrow> bool result" where
  "get_bool ms k = (case map_of ms k of Some (JV _ (JBool b)) \<Rightarrow> Inr b | _ \<Rightarrow> Inl type_error)"

definition get_int :: "(string \<times> jval) list \<Rightarrow> string \<Rightarrow> int result" where
  "get_int ms k = (case map_of ms k of
     Some (JV _ (JNum s)) \<Rightarrow> (case ParseInt s of Some i \<Rightarrow> Inr i | None \<Rightarrow> Inl type_error)
   | _ \<Rightarrow> Inl type_error)"

definition get_uint :: "nat \<Rightarrow> (string \<times> jval) list \<Rightarrow> string \<Rightarrow> int result" where
  "get_uint w ms k = (case map_of ms k of
     Some (JV _ (JNum s)) \<Rightarrow> (case ParseUint w s of Some i \<Rightarrow> Inr i | None \<Rightarrow> Inl type_error)
   | _ \<Rightarrow> Inl type_error)"

definition get_arr :: "(string \<times> jval) list \<Rightarrow> string \<Rightarrow> jval list result" where
  "get_arr ms k = (case map_of ms k of Some (JV _ (JArr vs)) \<Rightarrow> Inr vs | _ \<Rightarrow> Inl type_error)"

definition get_strs :: "(string \<times> jval) list \<Rightarrow> string \<Rightarrow> string list result" where
  "get_strs ms k = andThen (get_arr ms k)
     (map_res (\<lambda>v. case v of JV _ (JStr s) \<Rightarrow> Inr s | _ \<Rightarrow> Inl type_error))"

subsection \<open>Printing\<close>

text \<open>One ASCII byte of a string as \<open>json.Marshal\<close> prints it, with HTML escaping.\<close>

definition quote_char :: "char \<Rightarrow> string" where
  "quote_char c =
     (if c = dquote \<or> c = bslash then [bslash, c]
      else if code c = 8 then [bslash, CHR ''b'']
      else if code c = 12 then [bslash, CHR ''f'']
      else if code c = 10 then [bslash, CHR ''n'']
      else if code c = 13 then [bslash, CHR ''r'']
      else if code c = 9 then [bslash, CHR ''t'']
      else if code c < 32 \<or> c = CHR ''<'' \<or> c = CHR ''>'' \<or> c = CHR ''&''
        then bslash # ''u00'' @ [hex_digit (code c div 16), hex_digit (code c mod 16)]
      else [c])"

definition line_separator :: "string \<Rightarrow> bool" where
  "line_separator s \<longleftrightarrow> take 3 s = [byte 226, byte 128, byte 168] \<or> take 3 s = [byte 226, byte 128, byte 169]"

function quote_body :: "string \<Rightarrow> string" where
  "quote_body s = (case s of [] \<Rightarrow> [] | c # cs \<Rightarrow>
     if code c < 128 then quote_char c @ quote_body cs
     else if utf8_len s = 0 then bslash # ''ufffd'' @ quote_body cs
     else if line_separator s
       then bslash # ''u202'' @ [hex_digit (code (s ! 2) mod 16)] @ quote_body (drop 3 s)
     else take (utf8_len s) s @ quote_body (drop (utf8_len s) s))"
  by pat_completeness auto
termination
  by (relation "measure length") auto

declare quote_body.simps [simp del]

definition json_string :: "string \<Rightarrow> string" where
  "json_string s = dquote # quote_body s @ [dquote]"

definition json_bool :: "bool \<Rightarrow> string" where
  "json_bool b = (if b then ''true'' else ''false'')"

fun join :: "string \<Rightarrow> string list \<Rightarrow> string" where
  "join sep [] = []"
| "join sep [x] = x"
| "join sep (x # y # ys) = x @ sep @ join sep (y # ys)"

definition json_object :: "(string \<times> string) list \<Rightarrow> string" where
  "json_object ms = CHR ''{'' # join '','' (map (\<lambda>(k, v). json_string k @ CHR '':'' # v) ms) @ ''}''"

definition json_array :: "string list \<Rightarrow> string" where
  "json_array vs = CHR ''['' # join '','' vs @ '']''"

text \<open>A \<open>json.RawMessage\<close> is checked, compacted and HTML-escaped. The flag says whether the
  position is inside a string literal.\<close>

function compact :: "bool \<Rightarrow> string \<Rightarrow> string" where
  "compact q s = (case s of [] \<Rightarrow> [] | c # cs \<Rightarrow>
     if \<not> q then (if is_ws c then compact False cs else c # compact (c = dquote) cs)
     else if c = dquote then c # compact False cs
     else if c = bslash then c # take 1 cs @ compact True (drop 1 cs)
     else if c = CHR ''<'' \<or> c = CHR ''>'' \<or> c = CHR ''&'' then quote_char c @ compact True cs
     else if line_separator s
       then bslash # ''u202'' @ [hex_digit (code (s ! 2) mod 16)] @ compact True (drop 3 s)
     else c # compact True cs)"
  by pat_completeness auto
termination
  by (relation "measure (\<lambda>(q, s). length s)") auto

declare compact.simps [simp del]

definition marshal_raw :: "bytes \<Rightarrow> bytes result" where
  "marshal_raw s = (case json_parse s of None \<Rightarrow> Inl (Err ''invalid raw JSON'')
     | Some _ \<Rightarrow> Inr (compact False s))"

end
