(* ===== verification/Identity.thy ===== *)
theory Identity
  imports Json
begin

section \<open>Cryptographic primitives and node identities\<close>

text \<open>
  \<open>crypto\<close> is the interface to the primitives the program only calls: SHA-256 and Ed25519. What the
  proofs use of them is stated by \<open>sha256_spec\<close> and \<open>ed25519_spec\<close>: the documented output
  sizes, and that a signature made with a private key verifies under its public key. Nothing assumes that
  hashing is injective; where a statement depends on it, it exhibits the collision instead.

  The rest is \<open>internal/identity\<close>: canonical node identities, their extraction from a client
  certificate, and the static development registry. A certificate is the record of the fields that the
  program reads.
\<close>

record crypto =
  Sum256 :: "bytes \<Rightarrow> bytes"
  ed_Verify :: "bytes \<Rightarrow> bytes \<Rightarrow> bytes \<Rightarrow> bool"
  ed_Sign :: "bytes \<Rightarrow> bytes \<Rightarrow> bytes"
  ed_Public :: "bytes \<Rightarrow> bytes"

definition PublicKeySize :: nat where "PublicKeySize = 32"
definition PrivateKeySize :: nat where "PrivateKeySize = 64"
definition SignatureSize :: nat where "SignatureSize = 64"

definition sha256_spec :: "crypto \<Rightarrow> bool" where
  "sha256_spec C \<longleftrightarrow> (\<forall>m. length (Sum256 C m) = 32)"

definition ed25519_spec :: "crypto \<Rightarrow> bool" where
  "ed25519_spec C \<longleftrightarrow> (\<forall>k m. length k = PrivateKeySize \<longrightarrow>
     length (ed_Public C k) = PublicKeySize \<and> length (ed_Sign C k m) = SignatureSize
     \<and> ed_Verify C (ed_Public C k) m (ed_Sign C k m))"

text \<open>\<open>audit.Digest\<close>, and with it \<open>signing.KeyID\<close> and \<open>identity.Fingerprint\<close>: the hexadecimal SHA-256.\<close>

definition Digest :: "crypto \<Rightarrow> bytes \<Rightarrow> string" where
  "Digest C data = hex_EncodeToString (Sum256 C data)"

lemma Hex_Digest: "sha256_spec C \<Longrightarrow> Hex (Digest C m) 64"
  using Hex_EncodeToString [of "Sum256 C m" 32] by (simp add: sha256_spec_def Digest_def)

text \<open>Two byte strings are a collision when they differ and hash alike.\<close>

definition collision :: "crypto \<Rightarrow> bytes \<Rightarrow> bytes \<Rightarrow> bool" where
  "collision C x y \<longleftrightarrow> x \<noteq> y \<and> Sum256 C x = Sum256 C y"

lemma Digest_eqD: "Digest C x = Digest C y \<Longrightarrow> x = y \<or> collision C x y"
  unfolding Digest_def collision_def by (auto dest: hex_EncodeToString_inj)

subsection \<open>Node identities\<close>

record Node =
  n_AgentID :: string
  n_EnrollmentEpoch :: string

text \<open>\<open>identity.RandomID\<close> on the 16 bytes the system's random source delivers.\<close>

definition RandomID :: "bytes \<Rightarrow> string" where
  "RandomID b = hex_EncodeToString b"

definition Node_Validate :: "Node \<Rightarrow> bool" where
  "Node_Validate n \<longleftrightarrow> Hex (n_AgentID n) 32 \<and> Hex (n_EnrollmentEpoch n) 32"

definition Node_URI :: "Node \<Rightarrow> string result" where
  "Node_URI n = (if \<not> Node_Validate n then Inl (Err ''invalid node identity'')
     else Inr (''argus://nodes/'' @ n_AgentID n @ ''/epochs/'' @ n_EnrollmentEpoch n))"

definition DecodeNode :: "bytes \<Rightarrow> Node result" where
  "DecodeNode data = andThen (strict_decode data 4096 [''agent_id'', ''enrollment_epoch'']) (\<lambda>ob.
     andThen (get_str ob ''agent_id'') (\<lambda>a. andThen (get_str ob ''enrollment_epoch'') (\<lambda>e.
       let n = \<lparr>n_AgentID = a, n_EnrollmentEpoch = e\<rparr>
       in if Node_Validate n then Inr n else Inl (Err ''invalid node identity''))))"

lemma RandomID_Hex: "length b = 16 \<Longrightarrow> Hex (RandomID b) 32"
  using Hex_EncodeToString [of b 16] by (simp add: RandomID_def)

subsection \<open>Certificates\<close>

datatype ExtKeyUsage = ExtKeyUsageAny | ExtKeyUsageClientAuth | ExtKeyUsageServerAuth | OtherUsage

record url =
  u_Path :: string
  u_String :: string

record certificate =
  c_Raw :: bytes
  c_IsCA :: bool
  c_URIs :: "url list"
  c_ExtKeyUsage :: "ExtKeyUsage list"
  c_UnknownExtKeyUsage :: "string list"
  c_NotBefore :: instant
  c_NotAfter :: instant
  c_SerialNumber :: string
  c_SubjectPublicKeyInfo :: bytes

definition FromCertificate :: "certificate option \<Rightarrow> Node result" where
  "FromCertificate oc = (case oc of
     None \<Rightarrow> Inl (Err ''certificate is not a probe identity'')
   | Some cert \<Rightarrow>
       if c_IsCA cert \<or> length (c_URIs cert) \<noteq> 1 \<or> length (c_ExtKeyUsage cert) \<noteq> 1
          \<or> hd (c_ExtKeyUsage cert) \<noteq> ExtKeyUsageClientAuth \<or> length (c_UnknownExtKeyUsage cert) \<noteq> 0
       then Inl (Err ''certificate is not a probe identity'')
       else let u = hd (c_URIs cert); parts = split_on (CHR ''/'') (u_Path u)
         in if length parts \<noteq> 4 \<or> parts ! 2 \<noteq> ''epochs'' then Inl (Err ''invalid identity URI'')
            else let n = \<lparr>n_AgentID = parts ! 1, n_EnrollmentEpoch = parts ! 3\<rparr>
              in case Node_URI n of
                   Inl e \<Rightarrow> Inl (Err ''noncanonical identity URI'')
                 | Inr expected \<Rightarrow> if u_String u \<noteq> expected
                     then Inl (Err ''noncanonical identity URI'') else Inr n)"

definition Fingerprint :: "crypto \<Rightarrow> certificate \<Rightarrow> string" where
  "Fingerprint C cert = hex_EncodeToString (Sum256 C (c_Raw cert))"

lemma Fingerprint_Digest: "Fingerprint C cert = Digest C (c_Raw cert)"
  by (simp add: Fingerprint_def Digest_def)

lemma FromCertificate_valid: "FromCertificate oc = Inr n \<Longrightarrow> Node_Validate n"
  by (auto simp: FromCertificate_def Let_def Node_URI_def split: option.splits if_splits sum.splits)

text \<open>The identity a certificate carries is spelled out by its only URI.\<close>

lemma FromCertificate_uri:
  assumes "FromCertificate (Some cert) = Inr n"
  shows "\<exists>u. c_URIs cert = [u]
    \<and> u_String u = ''argus://nodes/'' @ n_AgentID n @ ''/epochs/'' @ n_EnrollmentEpoch n"
proof -
  from assms have "length (c_URIs cert) = 1"
    by (auto simp: FromCertificate_def split: if_splits)
  then obtain u where u: "c_URIs cert = [u]" by (auto simp: length_Suc_conv)
  with assms show ?thesis
    by (auto simp: FromCertificate_def Let_def Node_URI_def split: if_splits sum.splits)
qed

subsection \<open>The static development registry\<close>

record Registration =
  g_AgentID :: string
  g_EnrollmentEpoch :: string
  g_CertificateSHA256 :: string
  g_Enabled :: bool

type_synonym Registry = "string \<rightharpoonup> Registration"

fun registry_add :: "Registration list \<Rightarrow> Registry \<Rightarrow> Registry result" where
  "registry_add [] m = Inr m"
| "registry_add (r # rs) m =
     (if \<not> Node_Validate \<lparr>n_AgentID = g_AgentID r, n_EnrollmentEpoch = g_EnrollmentEpoch r\<rparr>
         \<or> \<not> Hex (g_CertificateSHA256 r) 64 then Inl (Err ''invalid registration'')
      else if m (g_AgentID r) \<noteq> None then Inl (Err ''duplicate agent registration'')
      else registry_add rs (m(g_AgentID r \<mapsto> r)))"

definition NewRegistry :: "Registration list \<Rightarrow> Registry result" where
  "NewRegistry records =
     (if records = [] \<or> length records > 1000 then Inl (Err ''expected 1-1000 registrations'')
      else registry_add records Map.empty)"

definition Registry_Authorize :: "crypto \<Rightarrow> Registry \<Rightarrow> certificate \<Rightarrow> instant \<Rightarrow> Node result" where
  "Registry_Authorize C reg cert now = andThen (FromCertificate (Some cert)) (\<lambda>n.
     if now < c_NotBefore cert \<or> \<not> now < c_NotAfter cert
     then Inl (Err ''node certificate is outside its validity window'')
     else (case reg (n_AgentID n) of
       None \<Rightarrow> Inl (Err ''node identity is not authorized'')
     | Some r \<Rightarrow>
         if \<not> g_Enabled r \<or> g_EnrollmentEpoch r \<noteq> n_EnrollmentEpoch n
            \<or> g_CertificateSHA256 r \<noteq> Fingerprint C cert
         then Inl (Err ''node identity is not authorized'') else Inr n))"

definition Registry_Disable :: "Registry \<Rightarrow> string \<Rightarrow> Registry" where
  "Registry_Disable reg i = (case reg i of None \<Rightarrow> reg | Some r \<Rightarrow> reg(i \<mapsto> r\<lparr>g_Enabled := False\<rparr>))"

lemma registry_add_spec:
  assumes "registry_add rs m = Inr reg"
  shows "reg = (\<lambda>k. case map_of (map (\<lambda>r. (g_AgentID r, r)) rs) k of Some r \<Rightarrow> Some r | None \<Rightarrow> m k)
     \<and> distinct (map g_AgentID rs)
     \<and> (\<forall>r\<in>set rs. m (g_AgentID r) = None \<and> Hex (g_AgentID r) 32 \<and> Hex (g_EnrollmentEpoch r) 32
          \<and> Hex (g_CertificateSHA256 r) 64)"
  using assms
proof (induction rs arbitrary: m)
  case Nil
  then show ?case by auto
next
  case (Cons r rs)
  then have ok: "Node_Validate \<lparr>n_AgentID = g_AgentID r, n_EnrollmentEpoch = g_EnrollmentEpoch r\<rparr>"
    "Hex (g_CertificateSHA256 r) 64" "m (g_AgentID r) = None"
    and rec: "registry_add rs (m(g_AgentID r \<mapsto> r)) = Inr reg"
    by (auto split: if_splits)
  from Cons.IH [OF rec] have
    eq: "reg = (\<lambda>k. case map_of (map (\<lambda>r. (g_AgentID r, r)) rs) k of Some r' \<Rightarrow> Some r'
           | None \<Rightarrow> (m(g_AgentID r \<mapsto> r)) k)"
    and d: "distinct (map g_AgentID rs)"
    and a: "\<forall>x\<in>set rs. (m(g_AgentID r \<mapsto> r)) (g_AgentID x) = None \<and> Hex (g_AgentID x) 32
        \<and> Hex (g_EnrollmentEpoch x) 32 \<and> Hex (g_CertificateSHA256 x) 64"
    by blast+
  from a have new: "g_AgentID r \<notin> set (map g_AgentID rs)"
    by (auto split: if_splits)
  then have "map_of (map (\<lambda>r. (g_AgentID r, r)) rs) (g_AgentID r) = None"
    by (force simp: map_of_eq_None_iff)
  with eq have "reg = (\<lambda>k. case map_of (map (\<lambda>r. (g_AgentID r, r)) (r # rs)) k of Some r' \<Rightarrow> Some r'
           | None \<Rightarrow> m k)"
    by (auto simp: fun_eq_iff split: option.splits)
  with d new a ok show ?case
    by (auto simp: Node_Validate_def split: if_splits)
qed

end
