(* ===== verification/Telemetry.thy ===== *)
theory Telemetry
  imports Complex_Main Identity
begin

section \<open>Telemetry messages\<close>

text \<open>
  \<open>internal/protocol/telemetry.go\<close>: the system information and measurements that a probe reports,
  their validation and their strict decoding.

  A Go slice that the code compares with \<open>nil\<close> is a \<open>slice\<close>: \<open>None\<close> is nil, \<open>Some xs\<close> a
  non-nil slice.

  \<open>BusyPercent\<close> is a float64 read from a JSON literal. The model keeps the exact rational value of the
  literal, and the three tests the code makes of the rounded float are written as the exact intervals that
  round-to-nearest-even sends to each side: the float is negative when the value is below \<open>- 2 ^ -1075\<close>,
  above 100 when the value exceeds \<open>100 + 2 ^ -47\<close>, and zero when the value is within \<open>2 ^ -1075\<close> of 0.
\<close>

type_synonym 'a slice = "'a list option"

definition elems :: "'a slice \<Rightarrow> 'a list" where
  "elems s = (case s of None \<Rightarrow> [] | Some xs \<Rightarrow> xs)"

lemma elems_simps [simp]: "elems None = []" "elems (Some xs) = xs"
  by (simp_all add: elems_def)

text \<open>The idiom \<open>seen := map[string]bool{}; for ... { if seen[k] ... }\<close>.\<close>

fun seen_loop :: "('a \<Rightarrow> string) \<Rightarrow> ('a \<Rightarrow> bool) \<Rightarrow> string set \<Rightarrow> 'a list \<Rightarrow> bool" where
  "seen_loop key ok seen [] = True"
| "seen_loop key ok seen (x # xs) =
     (ok x \<and> key x \<notin> seen \<and> seen_loop key ok (insert (key x) seen) xs)"

lemma seen_loop_iff:
  "seen_loop key ok seen xs \<longleftrightarrow>
     list_all ok xs \<and> distinct (map key xs) \<and> set (map key xs) \<inter> seen = {}"
  by (induction xs arbitrary: seen) auto

definition MaxHeartbeatBytes :: nat where "MaxHeartbeatBytes = 16 * 1024"

record SystemInformation =
  si_Available :: bool
  si_OS :: string
  si_Architecture :: string
  si_Hostname :: string
  si_Kernel :: string
  si_BootTime :: int

record CPUStats =
  cpu_Available :: bool
  cpu_BusyPercent :: rat
  cpu_WindowMS :: int

record MemoryStats =
  mem_Available :: bool
  mem_TotalBytes :: int
  mem_AvailableBytes :: int

record DiskStats =
  disk_Path :: string
  disk_Available :: bool
  disk_TotalBytes :: int
  disk_AvailableBytes :: int

record NetworkStats =
  net_Interface :: string
  net_Available :: bool
  net_RXBytes :: int
  net_TXBytes :: int

record SystemMeasurements =
  m_CPU :: CPUStats
  m_Memory :: MemoryStats
  m_Disks :: "DiskStats slice"
  m_Networks :: "NetworkStats slice"

definition SystemInformation_Validate :: "SystemInformation \<Rightarrow> int \<Rightarrow> bool" where
  "SystemInformation_Validate i now \<longleftrightarrow>
     CleanText (si_OS i) 32 \<and> si_OS i \<noteq> '''' \<and> CleanText (si_Architecture i) 32 \<and> si_Architecture i \<noteq> ''''
     \<and> CleanText (si_Hostname i) 255 \<and> CleanText (si_Kernel i) 255
     \<and> 0 \<le> si_BootTime i \<and> si_BootTime i \<le> now
     \<and> \<not> (si_Available i \<and> (si_Hostname i = '''' \<or> si_Kernel i = '''' \<or> si_BootTime i = 0))
     \<and> \<not> (\<not> si_Available i \<and> (si_Hostname i \<noteq> '''' \<or> si_Kernel i \<noteq> '''' \<or> si_BootTime i \<noteq> 0))"

subsection \<open>The floating-point tests\<close>

definition f64_tiny :: rat where "f64_tiny = 1 / 2 ^ 1075"

definition f64_negative :: "rat \<Rightarrow> bool" where "f64_negative x \<longleftrightarrow> x < - f64_tiny"
definition f64_above_100 :: "rat \<Rightarrow> bool" where "f64_above_100 x \<longleftrightarrow> x > 100 + 1 / 2 ^ 47"
definition f64_nonzero :: "rat \<Rightarrow> bool" where "f64_nonzero x \<longleftrightarrow> \<bar>x\<bar> > f64_tiny"

text \<open>The rational value of a JSON number literal.\<close>

definition exp_value :: "string \<Rightarrow> int" where
  "exp_value s = (if s = [] then 0
     else if hd s = CHR ''-'' then - int (read_nat (tl s))
     else if hd s = CHR ''+'' then int (read_nat (tl s)) else int (read_nat s))"

definition num_value :: "string \<Rightarrow> rat" where
  "num_value s =
     (let neg = (s \<noteq> [] \<and> hd s = CHR ''-''); s1 = (if neg then tl s else s);
          ip = takeWhile is_digit s1; s2 = dropWhile is_digit s1;
          fr = (if s2 \<noteq> [] \<and> hd s2 = CHR ''.'' then takeWhile is_digit (tl s2) else []);
          s3 = (if s2 \<noteq> [] \<and> hd s2 = CHR ''.'' then dropWhile is_digit (tl s2) else s2);
          e = (if s3 = [] then 0 else exp_value (tl s3)) - int (length fr);
          m = of_nat (read_nat (ip @ fr)) :: rat;
          v = (if 0 \<le> e then m * 10 ^ nat e else m / 10 ^ nat (- e))
      in if neg then - v else v)"

definition get_float :: "(string \<times> jval) list \<Rightarrow> string \<Rightarrow> rat result" where
  "get_float ms k = (case map_of ms k of Some (JV _ (JNum s)) \<Rightarrow> Inr (num_value s) | _ \<Rightarrow> Inl type_error)"

subsection \<open>Measurements\<close>

definition CPUStats_ok :: "CPUStats \<Rightarrow> bool" where
  "CPUStats_ok c \<longleftrightarrow> \<not> f64_negative (cpu_BusyPercent c) \<and> \<not> f64_above_100 (cpu_BusyPercent c)
     \<and> (if cpu_Available c then 100 \<le> cpu_WindowMS c \<and> cpu_WindowMS c \<le> 10000
        else \<not> f64_nonzero (cpu_BusyPercent c) \<and> cpu_WindowMS c = 0)"

definition MemoryStats_ok :: "MemoryStats \<Rightarrow> bool" where
  "MemoryStats_ok m \<longleftrightarrow> mem_AvailableBytes m \<le> mem_TotalBytes m
     \<and> \<not> (mem_Available m \<and> mem_TotalBytes m = 0)
     \<and> \<not> (\<not> mem_Available m \<and> (mem_TotalBytes m \<noteq> 0 \<or> mem_AvailableBytes m \<noteq> 0))"

definition DiskStats_ok :: "DiskStats \<Rightarrow> bool" where
  "DiskStats_ok d \<longleftrightarrow> CleanText (disk_Path d) 256 \<and> has_prefix (disk_Path d) ''/''
     \<and> disk_AvailableBytes d \<le> disk_TotalBytes d
     \<and> \<not> (\<not> disk_Available d \<and> (disk_TotalBytes d \<noteq> 0 \<or> disk_AvailableBytes d \<noteq> 0))"

definition NetworkStats_ok :: "NetworkStats \<Rightarrow> bool" where
  "NetworkStats_ok n \<longleftrightarrow> CleanText (net_Interface n) 15 \<and> net_Interface n \<noteq> ''''
     \<and> \<not> contains_any (net_Interface n) ''/: ''
     \<and> \<not> (\<not> net_Available n \<and> (net_RXBytes n \<noteq> 0 \<or> net_TXBytes n \<noteq> 0))"

definition SystemMeasurements_Validate :: "SystemMeasurements \<Rightarrow> bool" where
  "SystemMeasurements_Validate m \<longleftrightarrow> CPUStats_ok (m_CPU m) \<and> MemoryStats_ok (m_Memory m)
     \<and> m_Disks m \<noteq> None \<and> m_Networks m \<noteq> None
     \<and> length (elems (m_Disks m)) \<le> 8 \<and> length (elems (m_Networks m)) \<le> 16
     \<and> seen_loop disk_Path DiskStats_ok {} (elems (m_Disks m))
     \<and> seen_loop net_Interface NetworkStats_ok {} (elems (m_Networks m))"

subsection \<open>Decoding\<close>

definition DecodeInformation :: "bytes \<Rightarrow> SystemInformation result" where
  "DecodeInformation data =
     andThen (strict_decode data 2048
       [''available'', ''os'', ''architecture'', ''hostname'', ''kernel'', ''boot_time'']) (\<lambda>ob.
     andThen (get_bool ob ''available'') (\<lambda>av. andThen (get_str ob ''os'') (\<lambda>os.
     andThen (get_str ob ''architecture'') (\<lambda>ar. andThen (get_str ob ''hostname'') (\<lambda>hn.
     andThen (get_str ob ''kernel'') (\<lambda>kn. andThen (get_int ob ''boot_time'') (\<lambda>bt.
       Inr \<lparr>si_Available = av, si_OS = os, si_Architecture = ar, si_Hostname = hn, si_Kernel = kn,
            si_BootTime = bt\<rparr>)))))))"

definition decode_cpu :: "bytes \<Rightarrow> CPUStats result" where
  "decode_cpu data = andThen (strict_decode data 256 [''available'', ''busy_percent'', ''window_ms'']) (\<lambda>ob.
     andThen (get_bool ob ''available'') (\<lambda>av. andThen (get_float ob ''busy_percent'') (\<lambda>bp.
     andThen (get_int ob ''window_ms'') (\<lambda>w.
       Inr \<lparr>cpu_Available = av, cpu_BusyPercent = bp, cpu_WindowMS = w\<rparr>))))"

definition decode_memory :: "bytes \<Rightarrow> MemoryStats result" where
  "decode_memory data = andThen (strict_decode data 256 [''available'', ''total_bytes'', ''available_bytes'']) (\<lambda>ob.
     andThen (get_bool ob ''available'') (\<lambda>av. andThen (get_uint 64 ob ''total_bytes'') (\<lambda>t.
     andThen (get_uint 64 ob ''available_bytes'') (\<lambda>a.
       Inr \<lparr>mem_Available = av, mem_TotalBytes = t, mem_AvailableBytes = a\<rparr>))))"

definition decode_disk :: "bytes \<Rightarrow> DiskStats result" where
  "decode_disk data = andThen (strict_decode data 2048
       [''path'', ''available'', ''total_bytes'', ''available_bytes'']) (\<lambda>ob.
     andThen (get_str ob ''path'') (\<lambda>p. andThen (get_bool ob ''available'') (\<lambda>av.
     andThen (get_uint 64 ob ''total_bytes'') (\<lambda>t. andThen (get_uint 64 ob ''available_bytes'') (\<lambda>a.
       Inr \<lparr>disk_Path = p, disk_Available = av, disk_TotalBytes = t, disk_AvailableBytes = a\<rparr>)))))"

definition decode_network :: "bytes \<Rightarrow> NetworkStats result" where
  "decode_network data = andThen (strict_decode data 256
       [''interface'', ''available'', ''rx_bytes'', ''tx_bytes'']) (\<lambda>ob.
     andThen (get_str ob ''interface'') (\<lambda>i. andThen (get_bool ob ''available'') (\<lambda>av.
     andThen (get_uint 64 ob ''rx_bytes'') (\<lambda>r. andThen (get_uint 64 ob ''tx_bytes'') (\<lambda>t.
       Inr \<lparr>net_Interface = i, net_Available = av, net_RXBytes = r, net_TXBytes = t\<rparr>)))))"

definition DecodeMeasurements :: "bytes \<Rightarrow> SystemMeasurements result" where
  "DecodeMeasurements data =
     andThen (strict_decode data MaxHeartbeatBytes [''cpu'', ''memory'', ''disks'', ''networks'']) (\<lambda>ob.
     andThen (get_raw ob ''cpu'') (\<lambda>cpu. andThen (get_raw ob ''memory'') (\<lambda>mem.
     andThen (get_arr ob ''disks'') (\<lambda>disks. andThen (get_arr ob ''networks'') (\<lambda>nets.
       if length disks > 8 \<or> length nets > 16 then Inl (Err ''too many telemetry resources'')
       else andThen (decode_cpu cpu) (\<lambda>c. andThen (decode_memory mem) (\<lambda>me.
         andThen (map_res (\<lambda>v. decode_disk (raw_of v)) disks) (\<lambda>ds.
         andThen (map_res (\<lambda>v. decode_network (raw_of v)) nets) (\<lambda>ns.
           let m = \<lparr>m_CPU = c, m_Memory = me, m_Disks = Some ds, m_Networks = Some ns\<rparr>
           in if SystemMeasurements_Validate m then Inr m
              else Inl (Err ''invalid system measurements''))))))))))"

subsection \<open>Heartbeats\<close>

definition Version :: int where "Version = 1"
definition TaskHeartbeatVersion :: int where "TaskHeartbeatVersion = 2"

record Heartbeat =
  hb_Version :: int
  hb_AgentID :: string
  hb_EnrollmentEpoch :: string
  hb_SentAt :: int
  hb_Info :: SystemInformation
  hb_Metrics :: SystemMeasurements
  hb_PolicyDigest :: string
  hb_TaskState :: string

definition Heartbeat_Validate :: "Heartbeat \<Rightarrow> bool" where
  "Heartbeat_Validate h \<longleftrightarrow>
     (hb_Version h = Version \<or> hb_Version h = TaskHeartbeatVersion) \<and> \<not> hb_SentAt h \<le> 0
     \<and> Node_Validate \<lparr>n_AgentID = hb_AgentID h, n_EnrollmentEpoch = hb_EnrollmentEpoch h\<rparr>
     \<and> \<not> (hb_Version h = Version \<and> (hb_PolicyDigest h \<noteq> '''' \<or> hb_TaskState h \<noteq> ''''))
     \<and> \<not> (hb_Version h = TaskHeartbeatVersion
          \<and> (\<not> Hex (hb_PolicyDigest h) 64
             \<or> (hb_TaskState h \<noteq> ''ready'' \<and> hb_TaskState h \<noteq> ''paused'' \<and> hb_TaskState h \<noteq> ''blocked'')))
     \<and> SystemInformation_Validate (hb_Info h) (hb_SentAt h)
     \<and> SystemMeasurements_Validate (hb_Metrics h)"

text \<open>
  The first, lenient \<open>json.Unmarshal\<close> of \<open>DecodeHeartbeat\<close> reads only the version. It matches
  names up to case, but a second spelling of the name is a further member, which the strict decoding that
  follows refuses for either list of fields, so the exact name is the only one that matters. A missing
  or null version reads as 0.
\<close>

definition header_version :: "bytes \<Rightarrow> int result" where
  "header_version data = (case json_parse data of
     None \<Rightarrow> Inl (Err ''malformed JSON'')
   | Some v \<Rightarrow> (case node_of v of
       JObj ms \<Rightarrow> (case map_of ms ''version'' of None \<Rightarrow> Inr 0
         | Some (JV _ JNull) \<Rightarrow> Inr 0 | Some _ \<Rightarrow> get_int ms ''version'')
     | JNull \<Rightarrow> Inr 0
     | _ \<Rightarrow> Inl type_error))"

definition DecodeHeartbeat :: "bytes \<Rightarrow> Heartbeat result" where
  "DecodeHeartbeat data =
     (if length data > MaxHeartbeatBytes then Inl (Err ''heartbeat exceeds size limit'')
      else andThen (header_version data) (\<lambda>hv.
        let v2 = (hv = TaskHeartbeatVersion) in
        andThen (strict_decode data MaxHeartbeatBytes
          ([''version'', ''agent_id'', ''enrollment_epoch'', ''sent_at'', ''system_info'', ''system_metrics'']
           @ (if v2 then [''policy_digest'', ''task_state''] else []))) (\<lambda>ob.
        andThen (get_int ob ''version'') (\<lambda>v. andThen (get_str ob ''agent_id'') (\<lambda>a.
        andThen (get_str ob ''enrollment_epoch'') (\<lambda>e. andThen (get_int ob ''sent_at'') (\<lambda>t.
        andThen (get_raw ob ''system_info'') (\<lambda>ri. andThen (get_raw ob ''system_metrics'') (\<lambda>rm.
        andThen (if v2 then get_str ob ''policy_digest'' else Inr '''') (\<lambda>pd.
        andThen (if v2 then get_str ob ''task_state'' else Inr '''') (\<lambda>ts.
        andThen (DecodeInformation ri) (\<lambda>i. andThen (DecodeMeasurements rm) (\<lambda>m.
          let h = \<lparr>hb_Version = v, hb_AgentID = a, hb_EnrollmentEpoch = e, hb_SentAt = t, hb_Info = i,
                   hb_Metrics = m, hb_PolicyDigest = pd, hb_TaskState = ts\<rparr>
          in if Heartbeat_Validate h then Inr h else Inl (Err ''invalid heartbeat''))))))))))))))"

lemma DecodeHeartbeat_valid: "DecodeHeartbeat data = Inr h \<Longrightarrow> Heartbeat_Validate h"
  by (auto simp: DecodeHeartbeat_def Let_def result_simps split: if_splits)

end
