(* ===== verification/Inspection.thy ===== *)
theory Inspection
  imports Telemetry
begin

section \<open>Inspection reports\<close>

text \<open>
  \<open>internal/protocol/inspection.go\<close>: the SSH audit and service status reports, their validation and
  strict decoding. Slices that the code compares with nil are \<open>slice\<close>s.
\<close>

record FileMetadata =
  fm_UID :: int
  fm_GID :: int
  fm_Mode :: int
  fm_Size :: int

record KeyObservation =
  ko_Line :: int
  ko_Type :: string
  ko_Fingerprint :: string
  ko_HasOptions :: bool

record DirectiveObservation =
  do_Line :: int
  do_Name :: string
  do_Value :: string

record SSHFileObservation =
  sf_ID :: string
  sf_Kind :: string
  sf_Status :: string
  sf_MetadataAvailable :: bool
  sf_Metadata :: FileMetadata
  sf_SHA256 :: string
  sf_Baseline :: string
  sf_Keys :: "KeyObservation slice"
  sf_Directives :: "DirectiveObservation slice"
  sf_Findings :: "string slice"

record SSHReport =
  sr_ProfileID :: string
  sr_ObservedAt :: int
  sr_Coverage :: string
  sr_Files :: "SSHFileObservation slice"

record ServiceReport =
  sv_ServiceID :: string
  sv_ObservedAt :: int
  sv_Available :: bool
  sv_Code :: string
  sv_Unit :: string
  sv_LoadState :: string
  sv_ActiveState :: string
  sv_SubState :: string

definition no_metadata :: FileMetadata where
  "no_metadata = \<lparr>fm_UID = 0, fm_GID = 0, fm_Mode = 0, fm_Size = 0\<rparr>"

definition oneOf :: "string \<Rightarrow> string list \<Rightarrow> bool" where
  "oneOf s values \<longleftrightarrow> list_ex (\<lambda>v. s = v) values"

definition InspectionCode :: "string \<Rightarrow> bool" where
  "InspectionCode s \<longleftrightarrow> oneOf s [''ok'', ''partial'', ''missing'', ''permission_denied'', ''unsafe_path'',
     ''unsafe_type'', ''owner_mismatch'', ''too_large'', ''changed_during_read'', ''unsupported'',
     ''io_error'', ''parse_error'', ''sensitive_content'']"

definition SSHFinding :: "string \<Rightarrow> bool" where
  "SSHFinding s \<longleftrightarrow> oneOf s [''group_or_other_writable'', ''match_not_evaluated'', ''include_not_expanded'',
     ''dynamic_auth_not_evaluated'', ''other_directives_not_evaluated'', ''invalid_line'',
     ''key_options_not_evaluated'', ''key_certificate_not_evaluated'', ''key_limit'', ''line_limit'',
     ''duplicate_directive'', ''empty_key_file'', ''baseline_changed'', ''invalid_value'', ''directive_limit'']"

definition DirectiveValue :: "string \<Rightarrow> string \<Rightarrow> bool" where
  "DirectiveValue name value =
     (if name = ''permitrootlogin''
      then oneOf value [''yes'', ''no'', ''prohibit-password'', ''without-password'', ''forced-commands-only'']
      else if oneOf name [''passwordauthentication'', ''pubkeyauthentication'', ''kbdinteractiveauthentication'',
                ''permitemptypasswords'', ''strictmodes'', ''usepam'']
      then oneOf value [''yes'', ''no'']
      else False)"

text \<open>The standard alphabet differs from the URL alphabet in its last two characters.\<close>

definition std_to_url :: "char \<Rightarrow> char" where
  "std_to_url c = (if c = CHR ''+'' then CHR ''-'' else if c = CHR ''/'' then CHR ''_''
     else if c = CHR ''-'' \<or> c = CHR ''_'' then CHR ''='' else c)"

definition RawStd_DecodeString :: "string \<Rightarrow> bytes option" where
  "RawStd_DecodeString s = b64_DecodeString (map std_to_url s)"

definition Key_ok :: "KeyObservation \<Rightarrow> bool" where
  "Key_ok k \<longleftrightarrow> 1 \<le> ko_Line k \<and> ko_Line k \<le> 512 \<and> ko_Type k \<noteq> '''' \<and> CleanText (ko_Type k) 64
     \<and> has_prefix (ko_Fingerprint k) ''SHA256:''
     \<and> (case RawStd_DecodeString (trim_prefix (ko_Fingerprint k) ''SHA256:'') of
          None \<Rightarrow> False | Some b \<Rightarrow> length b = 32)"

definition Directive_ok :: "DirectiveObservation \<Rightarrow> bool" where
  "Directive_ok d \<longleftrightarrow> 1 \<le> do_Line d \<and> do_Line d \<le> 512 \<and> DirectiveValue (do_Name d) (do_Value d)"

text \<open>The body of the loop over the files, without the test for a repeated identifier.\<close>

definition SSHFile_ok :: "SSHFileObservation \<Rightarrow> bool" where
  "SSHFile_ok f \<longleftrightarrow>
     ResourceID (sf_ID f) \<and> oneOf (sf_Kind f) [''sshd_config'', ''authorized_keys'']
     \<and> InspectionCode (sf_Status f) \<and> fm_Mode (sf_Metadata f) \<le> 4095 \<and> 0 \<le> fm_Size (sf_Metadata f)
     \<and> sf_Keys f \<noteq> None \<and> sf_Directives f \<noteq> None \<and> sf_Findings f \<noteq> None
     \<and> length (elems (sf_Keys f)) \<le> 8 \<and> length (elems (sf_Directives f)) \<le> 8
     \<and> length (elems (sf_Findings f)) \<le> 16
     \<and> \<not> (\<not> sf_MetadataAvailable f \<and> sf_Metadata f \<noteq> no_metadata)
     \<and> (if sf_Status f = ''ok'' \<or> sf_Status f = ''partial''
        then sf_MetadataAvailable f \<and> Hex (sf_SHA256 f) 64
          \<and> oneOf (sf_Baseline f) [''unconfigured'', ''match'', ''changed'']
        else sf_SHA256 f = '''' \<and> sf_Baseline f = ''unavailable'' \<and> length (elems (sf_Keys f)) = 0
          \<and> length (elems (sf_Directives f)) = 0)
     \<and> \<not> (sf_Kind f = ''sshd_config'' \<and> length (elems (sf_Keys f)) \<noteq> 0)
     \<and> \<not> (sf_Kind f = ''authorized_keys'' \<and> length (elems (sf_Directives f)) \<noteq> 0)
     \<and> list_all Key_ok (elems (sf_Keys f)) \<and> list_all Directive_ok (elems (sf_Directives f))
     \<and> seen_loop id SSHFinding {} (elems (sf_Findings f))"

definition want_coverage :: "SSHFileObservation list \<Rightarrow> string" where
  "want_coverage fs =
     (if list_all (\<lambda>f. sf_Status f = ''ok'') fs then ''complete''
      else if \<not> list_ex (\<lambda>f. sf_Status f = ''ok'' \<or> sf_Status f = ''partial'') fs then ''unavailable''
      else ''partial'')"

definition SSHReport_Validate :: "SSHReport \<Rightarrow> int \<Rightarrow> bool" where
  "SSHReport_Validate r now \<longleftrightarrow>
     ResourceID (sr_ProfileID r) \<and> 1 \<le> sr_ObservedAt r \<and> sr_ObservedAt r \<le> now
     \<and> oneOf (sr_Coverage r) [''complete'', ''partial'', ''unavailable'']
     \<and> sr_Files r \<noteq> None \<and> 1 \<le> length (elems (sr_Files r)) \<and> length (elems (sr_Files r)) \<le> 4
     \<and> seen_loop sf_ID SSHFile_ok {} (elems (sr_Files r))
     \<and> sr_Coverage r = want_coverage (elems (sr_Files r))"

definition MaxDispatchResultBytes :: nat where "MaxDispatchResultBytes = 32 * 1024"

definition decode_metadata :: "bytes \<Rightarrow> FileMetadata result" where
  "decode_metadata data = andThen (strict_decode data 256 [''uid'', ''gid'', ''mode'', ''size'']) (\<lambda>ob.
     andThen (get_uint 32 ob ''uid'') (\<lambda>u. andThen (get_uint 32 ob ''gid'') (\<lambda>g.
     andThen (get_uint 32 ob ''mode'') (\<lambda>m. andThen (get_int ob ''size'') (\<lambda>s.
       Inr \<lparr>fm_UID = u, fm_GID = g, fm_Mode = m, fm_Size = s\<rparr>)))))"

definition decode_key :: "bytes \<Rightarrow> KeyObservation result" where
  "decode_key data = andThen (strict_decode data 512 [''line'', ''type'', ''fingerprint'', ''has_options'']) (\<lambda>ob.
     andThen (get_int ob ''line'') (\<lambda>l. andThen (get_str ob ''type'') (\<lambda>t.
     andThen (get_str ob ''fingerprint'') (\<lambda>fp. andThen (get_bool ob ''has_options'') (\<lambda>h.
       Inr \<lparr>ko_Line = l, ko_Type = t, ko_Fingerprint = fp, ko_HasOptions = h\<rparr>)))))"

definition decode_directive :: "bytes \<Rightarrow> DirectiveObservation result" where
  "decode_directive data = andThen (strict_decode data 256 [''line'', ''name'', ''value'']) (\<lambda>ob.
     andThen (get_int ob ''line'') (\<lambda>l. andThen (get_str ob ''name'') (\<lambda>n.
     andThen (get_str ob ''value'') (\<lambda>v. Inr \<lparr>do_Line = l, do_Name = n, do_Value = v\<rparr>))))"

definition decode_file :: "bytes \<Rightarrow> SSHFileObservation result" where
  "decode_file data = andThen (strict_decode data 16384
       [''id'', ''kind'', ''status'', ''metadata_available'', ''metadata'', ''sha256'', ''baseline'', ''keys'',
        ''directives'', ''findings'']) (\<lambda>ob.
     andThen (get_str ob ''id'') (\<lambda>i. andThen (get_str ob ''kind'') (\<lambda>k.
     andThen (get_str ob ''status'') (\<lambda>st. andThen (get_bool ob ''metadata_available'') (\<lambda>ma.
     andThen (get_str ob ''sha256'') (\<lambda>sh. andThen (get_str ob ''baseline'') (\<lambda>bl.
     andThen (get_strs ob ''findings'') (\<lambda>fi.
     andThen (andThen (get_raw ob ''metadata'') decode_metadata) (\<lambda>md.
     andThen (andThen (get_arr ob ''keys'') (map_res (\<lambda>v. decode_key (raw_of v)))) (\<lambda>ks.
     andThen (andThen (get_arr ob ''directives'') (map_res (\<lambda>v. decode_directive (raw_of v)))) (\<lambda>ds.
       Inr \<lparr>sf_ID = i, sf_Kind = k, sf_Status = st, sf_MetadataAvailable = ma, sf_Metadata = md,
            sf_SHA256 = sh, sf_Baseline = bl, sf_Keys = Some ks, sf_Directives = Some ds,
            sf_Findings = Some fi\<rparr>)))))))))))"

definition DecodeSSHReport :: "bytes \<Rightarrow> int \<Rightarrow> SSHReport result" where
  "DecodeSSHReport data now = andThen (strict_decode data MaxDispatchResultBytes
       [''profile_id'', ''observed_at'', ''coverage'', ''files'']) (\<lambda>ob.
     andThen (get_str ob ''profile_id'') (\<lambda>p. andThen (get_int ob ''observed_at'') (\<lambda>t.
     andThen (get_str ob ''coverage'') (\<lambda>c. andThen (get_arr ob ''files'') (\<lambda>fs.
       if length fs > 4 then Inl (Err ''too many SSH observations'')
       else andThen (map_res (\<lambda>v. decode_file (raw_of v)) fs) (\<lambda>files.
         let r = \<lparr>sr_ProfileID = p, sr_ObservedAt = t, sr_Coverage = c, sr_Files = Some files\<rparr>
         in if SSHReport_Validate r now then Inr r else Inl (Err ''invalid SSH audit result'')))))))"

definition stateWord :: "string \<Rightarrow> bool" where
  "stateWord s \<longleftrightarrow> 1 \<le> length s \<and> length s \<le> 32
     \<and> list_all (\<lambda>c. char_in (CHR ''a'') (CHR ''z'') c \<or> c = CHR ''-'') s"

definition ServiceReport_Validate :: "ServiceReport \<Rightarrow> int \<Rightarrow> bool" where
  "ServiceReport_Validate r now \<longleftrightarrow>
     ResourceID (sv_ServiceID r) \<and> 1 \<le> sv_ObservedAt r \<and> sv_ObservedAt r \<le> now
     \<and> (if \<not> sv_Available r
        then oneOf (sv_Code r) [''unsupported'', ''bus_unavailable'', ''permission_denied'', ''unit_not_loaded'',
               ''alias_mismatch'', ''invalid_response'']
          \<and> sv_Unit r = '''' \<and> sv_LoadState r = '''' \<and> sv_ActiveState r = '''' \<and> sv_SubState r = ''''
        else sv_Code r = '''' \<and> CleanText (sv_Unit r) 128 \<and> has_suffix (sv_Unit r) ''.service''
          \<and> stateWord (sv_LoadState r) \<and> stateWord (sv_ActiveState r) \<and> stateWord (sv_SubState r))"

definition DecodeServiceReport :: "bytes \<Rightarrow> int \<Rightarrow> ServiceReport result" where
  "DecodeServiceReport data now = andThen (strict_decode data 2048
       [''service_id'', ''observed_at'', ''available'', ''code'', ''unit'', ''load_state'', ''active_state'',
        ''sub_state'']) (\<lambda>ob.
     andThen (get_str ob ''service_id'') (\<lambda>i. andThen (get_int ob ''observed_at'') (\<lambda>t.
     andThen (get_bool ob ''available'') (\<lambda>a. andThen (get_str ob ''code'') (\<lambda>c.
     andThen (get_str ob ''unit'') (\<lambda>u. andThen (get_str ob ''load_state'') (\<lambda>ls.
     andThen (get_str ob ''active_state'') (\<lambda>as. andThen (get_str ob ''sub_state'') (\<lambda>ss.
       let r = \<lparr>sv_ServiceID = i, sv_ObservedAt = t, sv_Available = a, sv_Code = c, sv_Unit = u,
                sv_LoadState = ls, sv_ActiveState = as, sv_SubState = ss\<rparr>
       in if ServiceReport_Validate r now then Inr r
          else Inl (Err ''invalid service status result''))))))))))"

lemma DecodeSSHReport_valid: "DecodeSSHReport data now = Inr r \<Longrightarrow> SSHReport_Validate r now"
  by (auto simp: DecodeSSHReport_def Let_def result_simps split: if_splits)

lemma DecodeServiceReport_valid: "DecodeServiceReport data now = Inr r \<Longrightarrow> ServiceReport_Validate r now"
  by (auto simp: DecodeServiceReport_def Let_def result_simps split: if_splits)

text \<open>A decoded report names each file once and its coverage says what was read.\<close>

lemma SSHReport_files:
  "SSHReport_Validate r now \<Longrightarrow> distinct (map sf_ID (elems (sr_Files r)))
     \<and> list_all SSHFile_ok (elems (sr_Files r))
     \<and> (sr_Coverage r = ''complete'' \<longleftrightarrow> (\<forall>f\<in>set (elems (sr_Files r)). sf_Status f = ''ok''))"
  by (auto simp: SSHReport_Validate_def seen_loop_iff want_coverage_def list_all_iff)

end
