(* ===== verification/Json_Laws.thy ===== *)
theory Json_Laws
  imports Json "HOL-Library.Multiset"
begin

section \<open>Laws of the JSON reader and printer\<close>

text \<open>
  The reader consumes its input and its fuel bound is enough (\<open>parse_value_fuel\<close>). What the printer
  writes is read back: \<open>reads t v\<close> says that the text \<open>t\<close> is taken as the value \<open>v\<close> wherever it
  stands before a delimiter; strings, integers, booleans and objects have it. \<open>strict_decode_object\<close> is the
  law the message components use: an object printed with its fields decodes strictly to its members.
\<close>

subsection \<open>Consumption and fuel\<close>

lemma skip_ws_length: "length (skip_ws s) \<le> length s"
  by (induction s) auto

lemma skip_ws_ConsD: "skip_ws s = c # cs \<Longrightarrow> length cs < length s"
  using skip_ws_length [of s] by simp

lemma scan_string_length: "scan_string s = Some (x, r) \<Longrightarrow> length r < length s"
proof (induction s arbitrary: x r rule: scan_string.induct)
  case 1
  then show ?case by simp
next
  case (2 c cs)
  show ?case
  proof (cases "c = bslash")
    case True
    with "2.prems" obtain b r0 y where u: "unescape cs = Some (b, r0)" and s: "scan_string r0 = Some (y, r)"
      by (auto split: option.splits if_splits)
    from "2.IH"(1) [OF _ _ _ u refl s] True have "length r < length r0" by (simp add: code_def)
    with unescape_length [OF u] show ?thesis by simp
  next
    case False
    with 2 show ?thesis by (force split: if_splits)
  qed
qed

lemma scan_frac_length: "scan_frac s = Some (f, r) \<Longrightarrow> length r \<le> length s"
  using length_dropWhile_le [of is_digit "tl s"] by (auto simp: scan_frac_def split: if_splits)

lemma scan_exp_length: "scan_exp s = Some (f, r) \<Longrightarrow> length r \<le> length s"
  using length_dropWhile_le [of is_digit "tl s"] length_dropWhile_le [of is_digit "drop 1 (tl s)"]
  by (auto simp: scan_exp_def Let_def split: if_splits)

lemma scan_number_length: "scan_number s = Some (f, r) \<Longrightarrow> length r < length s"
proof -
  assume a: "scan_number s = Some (f, r)"
  define sg where "sg = (if s \<noteq> [] \<and> hd s = CHR ''-'' then ''-'' else [])"
  define s1 where "s1 = drop (length sg) s"
  define ip where "ip = (if s1 \<noteq> [] \<and> hd s1 = CHR ''0'' then ''0'' else takeWhile is_digit s1)"
  from a have ne: "ip \<noteq> []" and "\<exists>g s2 e. scan_frac (drop (length ip) s1) = Some (g, s2) \<and> scan_exp s2 = Some (e, r)"
    unfolding scan_number_def Let_def sg_def [symmetric] s1_def [symmetric] ip_def [symmetric]
    by (auto split: if_splits option.splits)
  then have "length r \<le> length s1 - length ip"
    by (auto dest!: scan_frac_length scan_exp_length)
  moreover from ne have "s1 \<noteq> []" by (auto simp: ip_def)
  ultimately show ?thesis using ne by (cases s1; cases ip) (auto simp: s1_def dest: arg_cong [where f = length])
qed

lemma scan_literal_length: "scan_literal s = Some (v, r) \<Longrightarrow> length r < length s"
  by (auto simp: scan_literal_def has_prefix_iff dest: scan_number_length split: if_splits)

lemma parse_length:
  "(parse_value n s = Some (v, r) \<longrightarrow> length r < length s)
   \<and> (parse_elems n s = Some (vs, r) \<longrightarrow> length r < length s)
   \<and> (parse_members n s = Some (ms, r) \<longrightarrow> length r < length s)"
proof (induction n arbitrary: s v vs ms r)
  case 0
  then show ?case by simp
next
  case (Suc n)
  have "length r < length s" if "parse_value (Suc n) s = Some (v, r)"
    using that Suc.IH skip_ws_length [of s]
    by (auto simp: with_raw_def split: list.splits if_splits
        dest!: scan_string_length scan_literal_length skip_ws_ConsD dest: less_trans) fastforce+
  moreover have "length r < length s" if "parse_elems (Suc n) s = Some (vs, r)"
    using that Suc.IH
    by (auto split: list.splits if_splits option.splits dest!: skip_ws_ConsD) (meson less_trans)+
  moreover have "length r < length s" if "parse_members (Suc n) s = Some (ms, r)"
    using that Suc.IH
    by (auto split: list.splits if_splits option.splits dest!: skip_ws_ConsD scan_string_length)
       (meson less_trans)+
  ultimately show ?case by blast
qed

lemmas parse_value_length = parse_length [THEN conjunct1, rule_format]
lemmas parse_elems_length = parse_length [THEN conjunct2, THEN conjunct1, rule_format]

lemma parse_fuel_Suc:
  "(2 * length s + 1 \<le> n \<longrightarrow> parse_value (Suc n) s = parse_value n s)
   \<and> (2 * length s + 2 \<le> n \<longrightarrow> parse_elems (Suc n) s = parse_elems n s)
   \<and> (2 * length s + 2 \<le> n \<longrightarrow> parse_members (Suc n) s = parse_members n s)"
proof (induction n arbitrary: s)
  case 0
  then show ?case by simp
next
  case (Suc n)
  have "parse_value (Suc (Suc n)) s = parse_value (Suc n) s" if "2 * length s + 1 \<le> Suc n"
  proof (cases "skip_ws s")
    case (Cons c cs)
    with that have "2 * length cs + 2 \<le> n" using skip_ws_ConsD [OF Cons] by simp
    then have "parse_elems (Suc n) cs = parse_elems n cs" "parse_members (Suc n) cs = parse_members n cs"
      using Suc.IH [of cs] by blast+
    then show ?thesis
      unfolding parse_value.simps Cons
      by (cases "skip_ws cs") (simp_all del: parse_elems.simps parse_members.simps dropWhile_eq_Nil_conv)
  qed (simp del: dropWhile_eq_Nil_conv)
  moreover have "parse_elems (Suc (Suc n)) s = parse_elems (Suc n) s" if le: "2 * length s + 2 \<le> Suc n"
  proof -
    have v: "parse_value (Suc n) s = parse_value n s" using Suc.IH [of s] le by simp
    have "parse_elems (Suc n) r' = parse_elems n r'"
      if "parse_value n s = Some (w, r)" "skip_ws r = d # r'" for w r d r'
      using Suc.IH [of r'] parse_value_length [OF that(1)] skip_ws_ConsD [OF that(2)] le by simp
    then show ?thesis
      unfolding parse_elems.simps(2) [of "Suc n" s] parse_elems.simps(2) [of n s] v
      by (auto simp del: parse_value.simps parse_elems.simps dropWhile_eq_Nil_conv split: option.splits list.splits)
  qed
  moreover have "parse_members (Suc (Suc n)) s = parse_members (Suc n) s" if le: "2 * length s + 2 \<le> Suc n"
  proof -
    have v: "parse_value (Suc n) r1 = parse_value n r1"
      if "skip_ws s = c # cs" "scan_string cs = Some (k, r)" "skip_ws r = e # r1" for c cs k r e r1
      using Suc.IH [of r1] skip_ws_ConsD [OF that(1)] scan_string_length [OF that(2)] skip_ws_ConsD [OF that(3)] le
      by simp
    have m: "parse_members (Suc n) r3 = parse_members n r3"
      if "skip_ws s = c # cs" "scan_string cs = Some (k, r)" "skip_ws r = e # r1"
        "parse_value n r1 = Some (w, r2)" "skip_ws r2 = d # r3" for c cs k r e r1 w r2 d r3
      using Suc.IH [of r3] skip_ws_ConsD [OF that(1)] scan_string_length [OF that(2)] skip_ws_ConsD [OF that(3)]
        parse_value_length [OF that(4)] skip_ws_ConsD [OF that(5)] le by simp
    show ?thesis
      unfolding parse_members.simps(2) [of "Suc n" s] parse_members.simps(2) [of n s]
      by (auto simp del: parse_value.simps parse_members.simps dropWhile_eq_Nil_conv
          simp: v m split: option.splits list.splits)
  qed
  ultimately show ?case by blast
qed

text \<open>Beyond the bound the outcome does not depend on the fuel, failures included.\<close>

lemma parse_value_fuel:
  assumes "2 * length s + 1 \<le> n"
  shows "parse_value n s = parse_value (2 * length s + 1) s"
  using assms
proof (induction n rule: dec_induct)
  case (step k)
  then show ?case using parse_fuel_Suc [of s k] by simp
qed simp

subsection \<open>What the printer writes is read back\<close>

definition delim :: "string \<Rightarrow> bool" where
  "delim r \<longleftrightarrow> r = [] \<or> hd r \<in> set '',}]''"

text \<open>\<open>reads t v\<close>: wherever the text \<open>t\<close> is followed by a delimiter, the reader takes exactly
  \<open>t\<close> and returns \<open>v\<close>.\<close>

definition reads :: "string \<Rightarrow> json \<Rightarrow> bool" where
  "reads t v \<longleftrightarrow> t \<noteq> [] \<and> \<not> is_ws (hd t)
     \<and> (\<forall>n r. 2 * length t + 1 \<le> n \<longrightarrow> delim r \<longrightarrow> parse_value n (t @ r) = Some (JV t v, r))"

lemma json_parse_reads: "reads t v \<Longrightarrow> json_parse t = Some (JV t v)"
proof -
  assume "reads t v"
  then have "parse_value (2 * length t + 2) (t @ []) = Some (JV t v, [])"
    unfolding reads_def delim_def by (metis add_le_cancel_left one_le_numeral)
  then show ?thesis by (simp add: json_parse_def del: parse_value.simps)
qed

lemma skip_ws_nonws [simp]: "\<not> is_ws c \<Longrightarrow> skip_ws (c # s) = c # s"
  by simp

lemma with_raw_Some: "with_raw (t @ r) (Some (v, r)) = Some (JV t v, r)"
  by (simp add: with_raw_def)

lemma ws_codes: "is_ws c \<Longrightarrow> code c \<le> 32"
  by (auto simp: is_ws_def)

lemma reads_bool: "reads (json_bool b) (JBool b)"
proof -
  have "parse_value n (json_bool b @ r) = Some (JV (json_bool b) (JBool b), r)" if "1 \<le> n" for n r
    using that by (cases n; cases b)
      (auto simp: json_bool_def is_ws_def code_def scan_literal_def has_prefix_def with_raw_def)
  then show ?thesis by (cases b) (auto simp: reads_def json_bool_def is_ws_def code_def)
qed

lemma dropWhile_append_stop: "list_all P xs \<Longrightarrow> r = [] \<or> \<not> P (hd r) \<Longrightarrow>
    dropWhile P (xs @ r) = r \<and> takeWhile P (xs @ r) = xs"
  by (induction xs) (cases r; auto)+

lemma byte_48: "byte 48 = CHR ''0''"
proof -
  have "code (CHR ''0'') = 48" by (simp add: code_def)
  then show ?thesis by (metis byte_code)
qed

lemma show_nat_hd0: "hd (show_nat n) = CHR ''0'' \<longleftrightarrow> n = 0"
proof (induction n rule: show_nat.induct)
  case (1 n)
  show ?case
  proof (cases "n < 10")
    case True
    then show ?thesis by (subst show_nat.simps) (auto simp: byte_48 [symmetric] dest!: arg_cong [where f = code])
  next
    case False
    with 1 show ?thesis using show_nat_digits [of "n div 10"] by (subst show_nat.simps) simp
  qed
qed

lemma scan_number_show:
  assumes "delim r"
  shows "scan_number (show_int i @ r) = Some (show_int i, r)"
proof -
  have d: "r = [] \<or> \<not> is_digit (hd r) \<and> hd r \<noteq> CHR ''.'' \<and> hd r \<noteq> CHR ''e'' \<and> hd r \<noteq> CHR ''E''"
    using assms by (auto simp: delim_def is_digit_def char_in_def code_def)
  then have t: "scan_frac r = Some ([], r)" "scan_exp r = Some ([], r)"
    by (auto simp: scan_frac_def scan_exp_def)
  have ip: "(if s1 \<noteq> [] \<and> hd s1 = CHR ''0'' then ''0'' else takeWhile is_digit s1) = show_nat m"
    if s1: "s1 = show_nat m @ r" for s1 m
  proof (cases "m = 0")
    case True
    then show ?thesis by (simp add: s1 show_nat.simps byte_48)
  next
    case False
    with show_nat_hd0 [of m] show_nat_digits [of m] have "hd s1 \<noteq> CHR ''0''" by (auto simp: s1)
    moreover have "takeWhile is_digit s1 = show_nat m"
      using show_nat_digits [of m] d dropWhile_append_stop [of is_digit "show_nat m" r] unfolding s1 by blast
    ultimately show ?thesis by simp
  qed
  have h: "hd (show_nat m @ r) \<noteq> CHR ''-''" for m
    using show_nat_digits [of m] by (cases "show_nat m") (auto dest: digit_not_minus)
  have ne: "show_nat m \<noteq> []" for m using show_nat_digits [of m] by simp
  have "scan_number s = Some (sg @ show_nat m, r)"
    if "(if s \<noteq> [] \<and> hd s = CHR ''-'' then ''-'' else []) = sg" "drop (length sg) s = show_nat m @ r" for s sg m
    unfolding scan_number_def Let_def that ip [OF refl] using ne t by simp
  from this [of "show_int i @ r" "if i < 0 then ''-'' else []" "nat \<bar>i\<bar>"] show ?thesis
    using h [of "nat i"] ne by (auto simp: show_int_def)
qed

lemma show_int_hd: "\<exists>c cs. show_int i = c # cs \<and> (is_digit c \<or> c = CHR ''-'')"
  using show_nat_digits [of "nat i"] show_nat_digits [of "nat (- i)"]
  by (cases "show_nat (nat i)"; cases "show_nat (nat (- i))") (auto simp: show_int_def)

lemma reads_int: "reads (show_int i) (JNum (show_int i))"
proof -
  obtain c cs where s: "show_int i = c # cs" and c: "is_digit c \<or> c = CHR ''-''" using show_int_hd by blast
  from c have k: "45 \<le> code c \<and> code c \<le> 57" by (auto simp: is_digit_def char_in_def code_def)
  then have nk: "\<not> is_ws c" "c \<noteq> CHR ''{''" "c \<noteq> CHR ''[''" "c \<noteq> dquote" "c \<noteq> CHR ''t''" "c \<noteq> CHR ''f''" "c \<noteq> CHR ''n''"
    by (auto simp: is_ws_def code_def)
  have "parse_value n (show_int i @ r) = Some (JV (show_int i) (JNum (show_int i)), r)" if "1 \<le> n" "delim r" for n r
  proof -
    from that(1) obtain m where n: "n = Suc m" by (cases n) auto
    have l: "scan_literal (show_int i @ r) = Some (JNum (show_int i), r)"
      using nk scan_number_show [OF that(2), of i] by (simp add: scan_literal_def s has_prefix_def)
    then show ?thesis using nk with_raw_Some [of "show_int i" r] unfolding n by (simp add: s)
  qed
  with s nk show ?thesis by (simp add: reads_def del: parse_value.simps)
qed

subsection \<open>Strings\<close>

lemma utf8_Valid_Nil [simp]: "utf8_Valid []"
  by (simp add: utf8_Valid_def runes.simps)

lemma utf8_Valid_step: "s \<noteq> [] \<Longrightarrow> utf8_Valid s \<longleftrightarrow> utf8_len s \<noteq> 0 \<and> utf8_Valid (drop (utf8_len s) s)"
  unfolding utf8_Valid_def by (subst runes.simps) auto

lemma utf8_len_le: "utf8_len s \<le> length s"
  by (auto simp: utf8_len_def split: list.splits)

lemma utf8_len_Cons:
  "utf8_len (b # t) =
     (if code b < 128 then 1
      else if 194 \<le> code b \<and> code b \<le> 223 \<and> 1 \<le> length t \<and> cont (t ! 0) then 2
      else if 224 \<le> code b \<and> code b \<le> 239 \<and> 2 \<le> length t \<and> cont (t ! 0) \<and> cont (t ! 1)
        \<and> (code b = 224 \<longrightarrow> 160 \<le> code (t ! 0)) \<and> (code b = 237 \<longrightarrow> code (t ! 0) \<le> 159) then 3
      else if 240 \<le> code b \<and> code b \<le> 244 \<and> 3 \<le> length t \<and> cont (t ! 0) \<and> cont (t ! 1) \<and> cont (t ! 2)
        \<and> (code b = 240 \<longrightarrow> 144 \<le> code (t ! 0)) \<and> (code b = 244 \<longrightarrow> code (t ! 0) \<le> 143) then 4
      else 0)"
proof -
  consider "t = []" | c where "t = [c]" | c d where "t = [c, d]" | c d e u where "t = c # d # e # u"
    by (metis list.exhaust)
  then show ?thesis by cases (auto simp: utf8_len_def)
qed

lemma utf8_len_append: "utf8_len s \<noteq> 0 \<Longrightarrow> utf8_len (s @ r) = utf8_len s"
proof (cases s)
  case (Cons b t)
  assume a: "utf8_len s \<noteq> 0"
  consider "t = []" | c where "t = [c]" | c d where "t = [c, d]" | c d e u where "t = c # d # e # u"
    by (metis list.exhaust)
  then show ?thesis using a unfolding Cons
    by cases (simp_all add: utf8_len_def split: if_split_asm)
qed (simp add: utf8_len_def)

lemma utf8_len_take: "utf8_len (take (utf8_len s) s) = utf8_len s"
proof (cases s)
  case (Cons b t)
  consider "t = []" | c where "t = [c]" | c d where "t = [c, d]" | c d e u where "t = c # d # e # u"
    by (metis list.exhaust)
  then show ?thesis unfolding Cons by cases (simp_all add: utf8_len_def)
qed simp

lemma utf8_Valid_append: "utf8_Valid s \<Longrightarrow> utf8_Valid (s @ r) = utf8_Valid r"
proof (induction s rule: measure_induct_rule [of length])
  case (less s)
  show ?case
  proof (cases "s = []")
    case False
    with less.prems have u: "utf8_len s \<noteq> 0" "utf8_Valid (drop (utf8_len s) s)"
      by (simp_all add: utf8_Valid_step)
    then have "utf8_Valid (drop (utf8_len s) s @ r) = utf8_Valid r"
      using False by (intro less.IH) auto
    with u False show ?thesis
      using utf8_len_le [of s] by (simp add: utf8_Valid_step [of "s @ r"] utf8_len_append)
  qed simp
qed

lemma utf8_Valid_ascii: "list_all (\<lambda>c. code c < 128) s \<Longrightarrow> utf8_Valid s"
  unfolding utf8_Valid_def by (simp add: runes_ascii)

lemma utf8_len_high: "\<not> code (hd s) < 128 \<Longrightarrow> list_all (\<lambda>c. \<not> code c < 128) (take (utf8_len s) s)"
  by (cases s; cases "tl s"; cases "tl (tl s)"; cases "tl (tl (tl s))")
     (simp_all add: utf8_len_Cons cont_def utf8_len_def [of "[]"])

lemma CleanText_valid: "CleanText s n \<Longrightarrow> utf8_Valid s"
proof -
  have "runes ok s \<noteq> None \<Longrightarrow> runes (\<lambda>_. True) s \<noteq> None" for ok
    by (induction ok s rule: runes.induct) (subst runes.simps, subst (asm) (2) runes.simps, auto split: if_splits)
  then show "CleanText s n \<Longrightarrow> utf8_Valid s" by (auto simp: CleanText_def utf8_Valid_def)
qed

text \<open>\<open>transparent\<close> text cannot make the surrogate check fail, whatever follows it.\<close>

definition transparent :: "string \<Rightarrow> bool" where
  "transparent t \<longleftrightarrow> (\<forall>r. validSurrogates (t @ r) = validSurrogates r)"

lemma transparent_Nil [simp]: "transparent []"
  by (simp add: transparent_def)

lemma transparent_append: "transparent s \<Longrightarrow> transparent t \<Longrightarrow> transparent (s @ t)"
  by (simp add: transparent_def)

lemma transparent_Cons: "c \<noteq> bslash \<Longrightarrow> transparent t \<Longrightarrow> transparent (c # t)"
  by (simp add: transparent_def)

lemma transparent_plain: "bslash \<notin> set t \<Longrightarrow> transparent t"
  by (induction t) (auto intro: transparent_Cons)

lemma transparent_valid: "transparent t \<Longrightarrow> validSurrogates t"
  unfolding transparent_def by (metis append_Nil2 validSurrogates.simps(1))

lemma hex_val_digit: "n < 16 \<Longrightarrow> hex_val (hex_digit n) = Some n"
  by (auto simp: hex_val_def hex_digit_def char_in_def code_def byte_def)

lemma hex_val_02: "hex_val (CHR ''0'') = Some 0" "hex_val (CHR ''2'') = Some 2"
  by (simp_all add: hex_val_def char_in_def code_def)

lemma append_singleton: "(@) [c] = (#) c"
  by (rule ext) simp

lemma hex4_00: "a < 16 \<Longrightarrow> b < 16 \<Longrightarrow> hex4 (''00'' @ [hex_digit a, hex_digit b] @ r) = Some (16 * a + b)"
  by (simp add: hex4_def hex_val_digit hex_val_02)

lemma hex4_202: "a < 16 \<Longrightarrow> hex4 (''202'' @ [hex_digit a] @ r) = Some (8224 + a)"
  by (simp add: hex4_def hex_val_digit hex_val_02)

lemma no_surrogate_202: "a < 16 \<Longrightarrow> \<not> high_surrogate (8224 + a) \<and> \<not> low_surrogate (8224 + a)"
  by (simp add: high_surrogate_def low_surrogate_def)

lemma transparent_quote_char: "transparent (quote_char c)"
proof -
  have "code c div 16 < 16" using code_less [of c] by arith
  then show ?thesis
    using hex4_00 [of "code c div 16" "code c mod 16"] code_less [of c]
    by (auto simp: quote_char_def transparent_def low_surrogate_def high_surrogate_def)
qed

lemma quote_char_ascii: "code c < 128 \<Longrightarrow> list_all (\<lambda>c. code c < 128) (quote_char c)"
proof -
  assume "code c < 128"
  moreover have "code (hex_digit n) < 128" if "n < 16" for n
    using that by (auto simp: hex_digit_def)
  ultimately show ?thesis by (auto simp: quote_char_def code_def)
qed

lemma byte_eqI: "code c = n \<Longrightarrow> byte n = c"
  by auto

lemma scan_quote_char:
  assumes "code c < 128"
  shows "scan_string (quote_char c @ r) = map_option (apfst ((#) c)) (scan_string r)"
proof -
  let ?u = "bslash # CHR ''u'' # CHR ''0'' # CHR ''0'' # hex_digit (code c div 16) # hex_digit (code c mod 16) # r"
  have lt: "code c div 16 < 16" "code c mod 16 < 16" using code_less [of c] by arith+
  have u: "scan_string ?u = map_option (apfst ((#) c)) (scan_string r)"
    using hex4_00 [OF lt, of r] assms code_less [of c]
    by (simp add: unescape_def Let_def high_surrogate_def low_surrogate_def utf8_encode_def code_def [of bslash]
        code_def [of dquote] append_singleton)
  show ?thesis
  proof (cases "c = dquote \<or> c = bslash")
    case True
    then show ?thesis
      by (auto simp: quote_char_def unescape_def code_def [of bslash] code_def [of dquote] append_singleton)
  next
    case False
    have b: "scan_string (bslash # e # r) = map_option (apfst ((#) c)) (scan_string r)"
      if "(e, code c) \<in> {(CHR ''b'', 8), (CHR ''f'', 12), (CHR ''n'', 10), (CHR ''r'', 13), (CHR ''t'', 9)}" for e
    proof -
      from that have "unescape (e # r) = Some ([c], r)"
        by (auto simp: unescape_def byte_eqI [of c])
      then show ?thesis by (simp add: code_def [of bslash] append_singleton)
    qed
    have n: "scan_string (c # r) = map_option (apfst ((#) c)) (scan_string r)" if "\<not> code c < 32"
      using False that by simp
    from False show ?thesis unfolding quote_char_def
      by (simp add: b u n del: scan_string.simps)
  qed
qed

lemma quote_body_step:
  assumes "utf8_Valid s" "s \<noteq> []" "\<not> code (hd s) < 128" "\<not> line_separator s"
  shows "quote_body s = take (utf8_len s) s @ quote_body (drop (utf8_len s) s)"
proof -
  obtain c r where s: "s = c # r" using assms(2) by (cases s) auto
  have "utf8_len s \<noteq> 0" using assms utf8_Valid_step by blast
  with assms s show ?thesis by (subst quote_body.simps) simp
qed

lemma quote_body_separator:
  assumes "utf8_Valid s" "line_separator s"
  shows "quote_body s = bslash # ''u202'' @ [hex_digit (code (s ! 2) mod 16)] @ quote_body (drop 3 s)"
    and "utf8_len s = 3" and "take 3 s = utf8_encode (8224 + code (s ! 2) mod 16)"
    and "\<not> code (hd s) < 128" and "s \<noteq> []"
proof -
  from assms(2) obtain k where k: "k = 168 \<or> k = 169" and "take 3 s = [byte 226, byte 128, byte k]"
    unfolding line_separator_def by blast
  then have s: "s = byte 226 # byte 128 # byte k # drop 3 s"
    by (metis append_take_drop_id append_Cons append_Nil)
  have len: "utf8_len (byte 226 # byte 128 # byte k # r) = 3" for r
    using k by (auto simp: utf8_len_def cont_def)
  show l: "utf8_len s = 3" by (subst s) (rule len)
  have n: "s ! 2 = byte k" "hd s = byte 226" by (subst s, simp)+
  with k show "take 3 s = utf8_encode (8224 + code (s ! 2) mod 16)"
    using \<open>take 3 s = _\<close> by (auto simp: utf8_encode_def)
  from n show h: "\<not> code (hd s) < 128" by simp
  show ne: "s \<noteq> []" by (subst s) simp
  obtain c r where "s = c # r" using ne by (cases s) auto
  with h l ne assms(2) show "quote_body s = bslash # ''u202'' @ [hex_digit (code (s ! 2) mod 16)] @ quote_body (drop 3 s)"
    by (subst quote_body.simps) simp
qed

text \<open>The three shapes of a non-empty valid string, as an induction rule.\<close>

lemma utf8_induct [consumes 1, case_names Nil ascii separator high]:
  assumes "utf8_Valid s" and "P []"
    and "\<And>c s. code c < 128 \<Longrightarrow> utf8_Valid s \<Longrightarrow> P s \<Longrightarrow> P (c # s)"
    and "\<And>s. utf8_Valid s \<Longrightarrow> line_separator s \<Longrightarrow> utf8_Valid (drop 3 s) \<Longrightarrow> P (drop 3 s) \<Longrightarrow> P s"
    and "\<And>s. utf8_Valid s \<Longrightarrow> s \<noteq> [] \<Longrightarrow> \<not> code (hd s) < 128 \<Longrightarrow> \<not> line_separator s
           \<Longrightarrow> utf8_len s \<noteq> 0 \<Longrightarrow> utf8_Valid (drop (utf8_len s) s) \<Longrightarrow> P (drop (utf8_len s) s) \<Longrightarrow> P s"
  shows "P s"
  using assms(1)
proof (induction s rule: measure_induct_rule [of length])
  case (less s)
  show ?case
  proof (cases "s = []")
    case True
    then show ?thesis using assms(2) by simp
  next
    case ne: False
    with less.prems have u: "utf8_len s \<noteq> 0" "utf8_Valid (drop (utf8_len s) s)"
      by (simp_all add: utf8_Valid_step)
    with ne have P: "P (drop (utf8_len s) s)" by (intro less.IH) auto
    obtain c t where s: "s = c # t" using ne by (cases s) auto
    consider "code c < 128" | "line_separator s" | "\<not> code c < 128" "\<not> line_separator s" by blast
    then show ?thesis
    proof cases
      case 1
      then have "utf8_len s = 1" by (simp add: s utf8_len_def)
      with P u 1 show ?thesis using assms(3) [of c t] by (simp add: s)
    next
      case 2
      with quote_body_separator(2) [OF less.prems] P u less.prems show ?thesis
        using assms(4) [of s] by simp
    next
      case 3
      then show ?thesis using assms(5) [of s] P u less.prems ne by (simp add: s)
    qed
  qed
qed

lemma scan_high: "list_all (\<lambda>c. \<not> code c < 128) t \<Longrightarrow>
    scan_string (t @ r) = map_option (apfst ((@) t)) (scan_string r)"
proof (induction t)
  case Nil
  show ?case by (cases "scan_string r") (auto simp: apfst_def map_prod_def)
next
  case (Cons c t)
  then have "c \<noteq> dquote" "c \<noteq> bslash" by (auto simp: code_def)
  with Cons show ?case by (cases "scan_string r") auto
qed

lemma scan_quote_body: "utf8_Valid s \<Longrightarrow> scan_string (quote_body s @ dquote # r) = Some (s, r)"
proof (induction s rule: utf8_induct)
  case Nil
  then show ?case by (simp add: quote_body.simps)
next
  case (ascii c s)
  then show ?case by (subst quote_body.simps) (simp add: scan_quote_char)
next
  case (separator s)
  have "hex4 (''202'' @ [hex_digit (code (s ! 2) mod 16)] @ quote_body (drop 3 s) @ dquote # r)
      = Some (8224 + code (s ! 2) mod 16)" by (rule hex4_202) simp
  then have "unescape (''u202'' @ [hex_digit (code (s ! 2) mod 16)] @ quote_body (drop 3 s) @ dquote # r)
      = Some (take 3 s, quote_body (drop 3 s) @ dquote # r)"
    using quote_body_separator(3) [OF separator(1,2)] no_surrogate_202 [of "code (s ! 2) mod 16"]
    by (simp add: unescape_def Let_def)
  with separator show ?case
    by (simp add: quote_body_separator(1) [OF separator(1,2)] code_def [of bslash])
next
  case (high s)
  then show ?case
    by (simp add: quote_body_step scan_high utf8_len_high)
qed

lemma quote_body_safe: "utf8_Valid s \<Longrightarrow> utf8_Valid (quote_body s) \<and> transparent (quote_body s)"
proof (induction s rule: utf8_induct)
  case Nil
  then show ?case by (simp add: quote_body.simps)
next
  case (ascii c s)
  then show ?case
    by (subst (1 2) quote_body.simps)
       (simp add: utf8_Valid_append utf8_Valid_ascii quote_char_ascii transparent_append transparent_quote_char)
next
  case (separator s)
  let ?t = "bslash # ''u202'' @ [hex_digit (code (s ! 2) mod 16)]"
  have "code (hex_digit (code (s ! 2) mod 16)) < 128" by (auto simp: hex_digit_def)
  then have "utf8_Valid ?t" by (intro utf8_Valid_ascii) (simp add: code_def)
  moreover have "hex4 (''202'' @ [hex_digit (code (s ! 2) mod 16)] @ r) = Some (8224 + code (s ! 2) mod 16)" for r
    by (rule hex4_202) simp
  then have "transparent ?t" using no_surrogate_202 [of "code (s ! 2) mod 16"] by (simp add: transparent_def)
  ultimately have "utf8_Valid (?t @ quote_body (drop 3 s)) \<and> transparent (?t @ quote_body (drop 3 s))"
    using separator by (simp only: utf8_Valid_append transparent_append)
  then show ?case by (simp add: quote_body_separator(1) [OF separator(1,2)])
next
  case (high s)
  let ?t = "take (utf8_len s) s"
  have "utf8_Valid ?t"
    using high(2,5) utf8_len_take [of s] by (subst utf8_Valid_step) auto
  moreover have "bslash \<notin> set ?t" using utf8_len_high [OF high(3)] by (auto simp: list_all_iff code_def)
  ultimately show ?case
    using high by (simp add: quote_body_step utf8_Valid_append transparent_append transparent_plain)
qed

lemma reads_string: "utf8_Valid s \<Longrightarrow> reads (json_string s) (JStr s)"
proof -
  assume u: "utf8_Valid s"
  have "parse_value n (json_string s @ r) = Some (JV (json_string s) (JStr s), r)" if "1 \<le> n" for n r
  proof -
    from that obtain m where n: "n = Suc m" by (cases n) auto
    show ?thesis unfolding n json_string_def
      using scan_quote_body [OF u, of r] with_raw_Some [of "dquote # quote_body s @ [dquote]" r "JStr s"]
      by (simp add: is_ws_def code_def)
  qed
  then show ?thesis by (simp add: reads_def json_string_def is_ws_def code_def del: parse_value.simps)
qed

definition safe :: "string \<Rightarrow> bool" where
  "safe t \<longleftrightarrow> utf8_Valid t \<and> transparent t"

lemma safe_append [simp, intro]: "safe s \<Longrightarrow> safe t \<Longrightarrow> safe (s @ t)"
  by (simp add: safe_def utf8_Valid_append transparent_append)

lemma safe_Nil [simp]: "safe []"
  by (simp add: safe_def)

lemma safe_Cons: "code c < 128 \<Longrightarrow> c \<noteq> bslash \<Longrightarrow> safe t \<Longrightarrow> safe (c # t)"
  using utf8_Valid_append [of "[c]" t] by (simp add: safe_def transparent_Cons utf8_Valid_ascii)

lemma safe_ascii: "list_all (\<lambda>c. code c < 128 \<and> c \<noteq> bslash) t \<Longrightarrow> safe t"
  by (induction t) (auto intro: safe_Cons)

lemma safe_json_string: "utf8_Valid s \<Longrightarrow> safe (json_string s)"
proof -
  assume "utf8_Valid s"
  then have "safe (quote_body s)" using quote_body_safe by (simp add: safe_def)
  moreover have "safe [dquote]" by (intro safe_Cons) (simp_all add: code_def)
  ultimately have "safe (quote_body s @ [dquote])" by (rule safe_append)
  then show ?thesis unfolding json_string_def by (intro safe_Cons) (simp_all add: code_def)
qed

lemma safe_json_bool: "safe (json_bool b)"
  by (cases b) (auto simp: json_bool_def code_def intro!: safe_ascii)

lemma safe_show_int: "safe (show_int i)"
proof -
  have d: "code c < 128 \<and> c \<noteq> bslash" if "is_digit c \<or> c = CHR ''-''" for c
    using that by (auto simp: is_digit_def char_in_def code_def)
  show ?thesis
    using show_nat_digits [of "nat i"] show_nat_digits [of "nat (- i)"]
    by (intro safe_ascii) (auto simp: show_int_def list_all_iff d)
qed

subsection \<open>Objects and arrays\<close>

text \<open>A printed member: its key, the text of its value, and the value.\<close>

type_synonym member = "string \<times> string \<times> json"

abbreviation key_of :: "member \<Rightarrow> string" where "key_of m \<equiv> fst m"
abbreviation text_of :: "member \<Rightarrow> string" where "text_of m \<equiv> fst (snd m)"
abbreviation json_of :: "member \<Rightarrow> json" where "json_of m \<equiv> snd (snd m)"

definition read_member :: "member \<Rightarrow> bool" where
  "read_member m \<longleftrightarrow> utf8_Valid (key_of m) \<and> reads (text_of m) (json_of m) \<and> safe (text_of m)"

definition member_text :: "member \<Rightarrow> string" where
  "member_text m = json_string (key_of m) @ CHR '':'' # text_of m"

definition object_text :: "member list \<Rightarrow> string" where
  "object_text ms = json_object (map (\<lambda>m. (key_of m, text_of m)) ms)"

definition object_members :: "member list \<Rightarrow> (string \<times> jval) list" where
  "object_members ms = map (\<lambda>m. (key_of m, JV (text_of m) (json_of m))) ms"

lemma object_text_alt: "object_text ms = CHR ''{'' # join '','' (map member_text ms) @ ''}''"
  by (simp add: object_text_def json_object_def member_text_def [abs_def] comp_def)

lemma parse_member:
  assumes m: "read_member m" and n: "2 * length (member_text m) \<le> n" and r: "r = d # r'" "\<not> is_ws d" "delim r"
  shows "parse_members (Suc n) (member_text m @ r) =
    (if d = CHR '','' then map_option (apfst ((#) (key_of m, JV (text_of m) (json_of m)))) (parse_members n r')
     else if d = CHR ''}'' then Some ([(key_of m, JV (text_of m) (json_of m))], r') else None)"
proof -
  have u: "utf8_Valid (key_of m)" and rd: "reads (text_of m) (json_of m)" using m by (auto simp: read_member_def)
  have "parse_value n (text_of m @ r) = Some (JV (text_of m) (json_of m), r)"
    using rd n r by (auto simp: reads_def member_text_def json_string_def simp del: parse_value.simps)
  then show ?thesis
    unfolding parse_members.simps member_text_def json_string_def
    using scan_quote_body [OF u, of "CHR '':'' # text_of m @ r"] r
    by (simp add: is_ws_def code_def del: parse_value.simps parse_members.simps)
qed

lemma parse_members_join:
  assumes "ms \<noteq> []" "list_all read_member ms" "2 * length (join '','' (map member_text ms)) + 1 \<le> n"
  shows "parse_members n (join '','' (map member_text ms) @ CHR ''}'' # r) = Some (object_members ms, r)"
  using assms
proof (induction ms arbitrary: n)
  case Nil
  then show ?case by simp
next
  case (Cons m ms)
  then obtain k where n: "n = Suc k" by (cases n) auto
  show ?case
  proof (cases ms)
    case Nil
    with Cons.prems n show ?thesis
      by (simp add: parse_member [of m k] delim_def is_ws_def code_def object_members_def del: parse_members.simps)
  next
    case (Cons m' ms')
    have "2 * length (join '','' (map member_text ms)) + 1 \<le> k"
      using Cons.prems(3) n by (simp add: Cons)
    then have "parse_members k (join '','' (map member_text ms) @ CHR ''}'' # r) = Some (object_members ms, r)"
      using Cons.IH Cons.prems Cons by simp
    then show ?thesis
      using Cons.prems n Cons
      by (simp add: parse_member [of m k] delim_def is_ws_def code_def object_members_def del: parse_members.simps)
  qed
qed

lemma parse_object:
  assumes "list_all read_member ms" "2 * length (object_text ms) + 1 \<le> n"
  shows "parse_value n (object_text ms @ r) = Some (JV (object_text ms) (JObj (object_members ms)), r)"
proof -
  from assms(2) obtain k where n: "n = Suc k" by (cases n) auto
  show ?thesis
  proof (cases ms)
    case Nil
    then show ?thesis by (simp add: n object_text_alt object_members_def is_ws_def code_def with_raw_def)
  next
    case (Cons m ms')
    let ?j = "join '','' (map member_text ms)"
    obtain j where j: "?j = dquote # j" by (cases ms') (simp_all add: Cons member_text_def json_string_def)
    have "parse_members k (?j @ CHR ''}'' # r) = Some (object_members ms, r)"
      using assms n Cons by (intro parse_members_join) (simp_all add: object_text_alt)
    then show ?thesis
      using with_raw_Some [of "object_text ms" r "JObj (object_members ms)"]
      by (simp add: n object_text_alt j is_ws_def code_def del: parse_members.simps)
  qed
qed

lemma reads_object:
  assumes "list_all read_member ms"
  shows "reads (object_text ms) (JObj (object_members ms))"
  using parse_object [OF assms] by (auto simp: reads_def object_text_alt is_ws_def code_def simp del: parse_value.simps)

lemma safe_object:
  assumes "list_all read_member ms"
  shows "safe (object_text ms)"
proof -
  have s: "safe '':''" "safe '',''" "safe ''{''" "safe ''}''"
    by (rule safe_ascii, simp add: code_def)+
  have m: "safe (member_text m)" if "read_member m" for m
  proof -
    from that have "safe (json_string (key_of m) @ '':'' @ text_of m)"
      by (intro safe_append safe_json_string s) (simp_all add: read_member_def)
    then show ?thesis by (simp add: member_text_def)
  qed
  have "safe (join '','' (map member_text ms))" using assms
  proof (induction ms)
    case (Cons a ms)
    then have "safe (member_text a @ '','' @ join '','' (map member_text ms))"
      by (intro safe_append s m) simp_all
    with Cons.prems m show ?case by (cases ms) simp_all
  qed simp
  then have "safe (''{'' @ join '','' (map member_text ms) @ ''}'')"
    by (intro safe_append s)
  then show ?thesis by (simp add: object_text_alt)
qed

lemma reads_empty_object: "reads ''{}'' (JObj [])" "safe ''{}''"
  using reads_object [of "[]"] safe_object [of "[]"] by (simp_all add: object_text_alt object_members_def)

text \<open>Printing an object and decoding it with its own field names gives its members back.\<close>

lemma strict_decode_object_ws:
  assumes ms: "list_all read_member ms" and ws: "list_all is_ws w" and len: "length (object_text ms @ w) \<le> limit" "0 < limit"
    and keys: "distinct (map key_of ms)" "mset (map key_of ms) = mset fields"
    and strict: "list_all (\<lambda>m. strict_node 1 (json_of m)) ms"
  shows "strict_decode (object_text ms @ w) limit fields = Inr (object_members ms)"
proof -
  have "safe w" using ws by (intro safe_ascii) (auto simp: list_all_iff is_ws_def code_def)
  then have "safe (object_text ms @ w)" using safe_object [OF ms] by (intro safe_append)
  then have "utf8_Valid (object_text ms @ w)" "validSurrogates (object_text ms @ w)"
    by (simp_all add: safe_def transparent_valid)
  moreover have "json_parse (object_text ms @ w) = Some (JV (object_text ms) (JObj (object_members ms)))"
    using parse_object [OF ms, of "2 * length (object_text ms @ w) + 2" w] ws
    by (simp add: json_parse_def list_all_iff del: parse_value.simps)
  moreover have "strict_value 0 (JV (object_text ms) (JObj (object_members ms)))"
    using keys strict by (simp add: object_members_def MaxDepth_def comp_def list_all_iff)
  moreover have "length (object_members ms) = length fields"
    using mset_eq_length [OF keys(2)] by (simp add: object_members_def)
  moreover have "list_all (\<lambda>f. f \<in> set (map fst (object_members ms))) fields"
    using mset_eq_setD [OF keys(2)] by (simp add: object_members_def comp_def list_all_iff)
  ultimately show ?thesis using len
    by (simp add: strict_decode_def del: strict_value.simps list_all_iff)
qed

lemma strict_decode_object:
  assumes "list_all read_member ms" "length (object_text ms) \<le> limit" "0 < limit"
    and "distinct (map key_of ms)" "mset (map key_of ms) = mset fields" "list_all (\<lambda>m. strict_node 1 (json_of m)) ms"
  shows "strict_decode (object_text ms) limit fields = Inr (object_members ms)"
proof -
  have "strict_decode (object_text ms @ []) limit fields = Inr (object_members ms)"
    by (rule strict_decode_object_ws [OF assms(1)]) (use assms(2-) in simp_all)
  then show ?thesis by simp
qed

lemma map_of_members:
  "map_of (object_members ((k, t, v) # ms)) k' = (if k = k' then Some (JV t v) else map_of (object_members ms) k')"
  "map_of (object_members []) k' = None"
  by (simp_all add: object_members_def)

subsection \<open>Members of printed objects\<close>

lemma quote_char_plain: "plain_char c \<Longrightarrow> quote_char c = [c] \<and> code c < 128"
proof -
  assume c: "plain_char c"
  then have "45 \<le> code c \<and> code c \<le> 122" "c \<noteq> bslash"
    by (auto dest: plain_char_ascii simp: plain_char_def alnum_def char_in_def code_def)
  moreover from this have "c \<noteq> dquote" "c \<noteq> CHR ''<''" "c \<noteq> CHR ''>''" "c \<noteq> CHR ''&''"
    using c by (auto simp: plain_char_def alnum_def char_in_def code_def)
  ultimately show ?thesis by (simp add: quote_char_def)
qed

lemma quote_body_fix: "list_all (\<lambda>c. quote_char c = [c] \<and> code c < 128) s \<Longrightarrow> quote_body s = s"
proof (induction s)
  case Nil
  then show ?case by (simp add: quote_body.simps)
next
  case (Cons c s)
  then show ?case by (subst quote_body.simps) simp
qed

lemma quote_body_plain: "plain s \<Longrightarrow> quote_body s = s"
  by (rule quote_body_fix) (auto simp: list_all_iff quote_char_plain)
lemma length_show_nat: "n < 10 ^ k \<Longrightarrow> 0 < k \<Longrightarrow> length (show_nat n) \<le> k"
proof (induction n arbitrary: k rule: show_nat.induct)
  case (1 n)
  show ?case
  proof (cases "n < 10")
    case True
    with 1 show ?thesis by (subst show_nat.simps) simp
  next
    case False
    with 1 obtain j where k: "k = Suc j" "0 < j" by (cases k; cases "k - 1") auto
    then have "n div 10 < 10 ^ j" using 1(2) by (simp add: less_mult_imp_div_less mult.commute)
    with 1(1) [OF False this k(2)] False k show ?thesis by (subst show_nat.simps) simp
  qed
qed

lemma length_show_int: "int64 i \<Longrightarrow> length (show_int i) \<le> 20"
proof -
  assume "int64 i"
  then have "nat i < 10 ^ 19" "nat (- i) < 10 ^ 19" by (auto simp: int64_def nat_less_iff)
  then show ?thesis
    using length_show_nat [of "nat i" 19] length_show_nat [of "nat (- i)" 19] by (simp add: show_int_def)
qed

definition str_member :: "string \<Rightarrow> string \<Rightarrow> member" where
  "str_member k s = (k, json_string s, JStr s)"

definition int_member :: "string \<Rightarrow> int \<Rightarrow> member" where
  "int_member k i = (k, show_int i, JNum (show_int i))"

definition bool_member :: "string \<Rightarrow> bool \<Rightarrow> member" where
  "bool_member k b = (k, json_bool b, JBool b)"

definition raw_member :: "string \<Rightarrow> bytes \<Rightarrow> json \<Rightarrow> member" where
  "raw_member k t v = (k, t, v)"

lemmas member_defs = str_member_def int_member_def bool_member_def raw_member_def

lemma member_keys [simp]:
  "key_of (str_member k s) = k" "key_of (int_member k i) = k" "key_of (bool_member k b) = k"
  "key_of (raw_member k t v) = k"
  by (simp_all add: member_defs)

lemma member_texts [simp]:
  "text_of (str_member k s) = json_string s" "text_of (int_member k i) = show_int i"
  "text_of (bool_member k b) = json_bool b" "text_of (raw_member k t v) = t"
  by (simp_all add: member_defs)

lemma member_strict [simp]:
  "strict_node d (json_of (str_member k s))" "strict_node d (json_of (int_member k i))"
  "strict_node d (json_of (bool_member k b))" "strict_node d (json_of (raw_member k t v)) = strict_node d v"
  by (simp_all add: member_defs)

lemma read_str_member: "plain k \<Longrightarrow> utf8_Valid s \<Longrightarrow> read_member (str_member k s)"
  by (simp add: read_member_def member_defs reads_string safe_json_string plain_valid)

lemma read_int_member: "plain k \<Longrightarrow> read_member (int_member k i)"
  by (simp add: read_member_def member_defs reads_int safe_show_int plain_valid)

lemma read_bool_member: "plain k \<Longrightarrow> read_member (bool_member k b)"
  by (simp add: read_member_def member_defs reads_bool safe_json_bool plain_valid)

lemma read_raw_member: "plain k \<Longrightarrow> reads t v \<Longrightarrow> safe t \<Longrightarrow> read_member (raw_member k t v)"
  by (simp add: read_member_def member_defs plain_valid)

lemmas read_members = read_str_member read_int_member read_bool_member read_raw_member

lemma members_Cons: "object_members (m # ms) = (key_of m, JV (text_of m) (json_of m)) # object_members ms"
  by (simp add: object_members_def)

lemma get_members [simp]:
  "get_str (object_members (str_member k s # ms)) k' = (if k' = k then Inr s else get_str (object_members ms) k')"
  "get_int (object_members (int_member k i # ms)) k'
     = (if k' = k then (if int64 i then Inr i else get_int (object_members [int_member k i]) k) else get_int (object_members ms) k')"
  "get_bool (object_members (bool_member k b # ms)) k' = (if k' = k then Inr b else get_bool (object_members ms) k')"
  "get_raw (object_members (raw_member k t v # ms)) k' = (if k' = k then Inr t else get_raw (object_members ms) k')"
  by (auto simp: get_str_def get_int_def get_bool_def get_raw_def object_members_def member_defs ParseInt_show_int)

lemma get_other [simp]:
  "k' \<noteq> key_of m \<Longrightarrow> get_str (object_members (m # ms)) k' = get_str (object_members ms) k'"
  "k' \<noteq> key_of m \<Longrightarrow> get_int (object_members (m # ms)) k' = get_int (object_members ms) k'"
  "k' \<noteq> key_of m \<Longrightarrow> get_bool (object_members (m # ms)) k' = get_bool (object_members ms) k'"
  "k' \<noteq> key_of m \<Longrightarrow> get_raw (object_members (m # ms)) k' = get_raw (object_members ms) k'"
  by (auto simp: get_str_def get_int_def get_bool_def get_raw_def object_members_def)

lemma length_json_string_plain: "plain s \<Longrightarrow> length (json_string s) = length s + 2"
  by (simp add: json_string_def quote_body_plain)

lemma length_join: "length (join '','' xs) = sum_list (map length xs) + (length xs - 1)"
  by (induction "'',''" xs rule: join.induct) auto

lemma length_object_text:
  "length (object_text ms) = sum_list (map (\<lambda>m. length (json_string (key_of m)) + 1 + length (text_of m)) ms)
     + (length ms - 1) + 2"
  by (simp add: object_text_alt length_join comp_def member_text_def)

text \<open>A one-field object: what is read, and that printing it again changes nothing.\<close>

lemma compact_plain: "plain s \<Longrightarrow> compact True (s @ dquote # r) = s @ dquote # compact False r"
proof (induction s)
  case Nil
  then show ?case by (subst compact.simps) simp
next
  case (Cons c s)
  then have c: "c \<noteq> dquote" "c \<noteq> bslash" "c \<noteq> CHR ''<''" "c \<noteq> CHR ''>''" "c \<noteq> CHR ''&''" "code c \<noteq> 226"
    using plain_char_ascii [of c] by (auto simp: plain_char_def alnum_def char_in_def code_def)
  then have "\<not> line_separator (c # s @ dquote # r)" by (auto simp: line_separator_def)
  with Cons c show ?case by (subst compact.simps) simp
qed

lemma compact_step: "\<not> is_ws c \<Longrightarrow> compact False (c # r) = c # compact (c = dquote) r"
  by (subst compact.simps) simp

lemma compact_Nil: "compact q [] = []"
  by (subst compact.simps) simp

lemma selector_object:
  assumes k: "plain k" and i: "plain i" and p_def: "p = json_object [(k, json_string i)]"
  shows "compact False p = p" and "reads p (JObj [(k, JV (json_string i) (JStr i))])" and "safe p"
    and "length p = length k + length i + 7"
    and "length k + length i + 7 \<le> n \<Longrightarrow> strict_decode p n [k] = Inr [(k, JV (json_string i) (JStr i))]"
proof -
  have p: "p = object_text [str_member k i]" by (simp add: p_def object_text_def str_member_def)
  have rm: "list_all read_member [str_member k i]" using k i by (simp add: read_str_member plain_valid)
  have q: "json_string k = dquote # k @ [dquote]" "json_string i = dquote # i @ [dquote]"
    using k i by (simp_all add: json_string_def quote_body_plain)
  show "compact False p = p"
    using compact_plain [OF k, of "CHR '':'' # dquote # i @ [dquote, CHR ''}'']"] compact_plain [OF i, of "''}''"]
    by (simp add: p_def json_object_def q compact_step compact_Nil is_ws_def code_def)
  from reads_object [OF rm] show "reads p (JObj [(k, JV (json_string i) (JStr i))])"
    by (simp add: p object_members_def str_member_def)
  from safe_object [OF rm] show "safe p" by (simp add: p)
  show len: "length p = length k + length i + 7"
    by (simp add: p_def json_object_def q)
  show "strict_decode p n [k] = Inr [(k, JV (json_string i) (JStr i))]" if "length k + length i + 7 \<le> n"
    using strict_decode_object [OF rm, of n "[k]"] that len
    by (simp add: p [symmetric]) (simp add: object_members_def str_member_def)
qed

lemma get_int_int64: "get_int ms k = Inr i \<Longrightarrow> int64 i"
  by (auto simp: get_int_def ParseInt_def int64_def Let_def split: option.splits jval.splits json.splits if_splits)

end
