(* ===== verification/Protocol.thy ===== *)
theory Protocol
  imports Inspection Json_Laws
begin

section \<open>Tasks, results and the other wire messages\<close>

text \<open>
  \<open>internal/protocol\<close>: \<open>protocol.go\<close>, \<open>dispatch.go\<close>, \<open>enrollment.go\<close>, \<open>renewal.go\<close> and
  \<open>Result.CheckAssignment\<close> of \<open>inspection.go\<close>. A \<open>Validate\<close> method is the predicate that holds
  when the method returns nil. Integer fields are Go \<open>int\<close> or \<open>int64\<close>; \<open>wrap64\<close> marks the one
  subtraction of two inputs.
\<close>

definition MaxEnvelopeBytes :: nat where "MaxEnvelopeBytes = 16 * 1024"
definition MaxPayloadBytes :: nat where "MaxPayloadBytes = 8 * 1024"
definition MaxParamsBytes :: nat where "MaxParamsBytes = 4 * 1024"
definition MaxResultBytes :: nat where "MaxResultBytes = 256 * 1024"
definition MaxLifetime :: int where "MaxLifetime = 300"
definition MaxClockSkew :: int where "MaxClockSkew = 30"

type_synonym TaskType = string
type_synonym TaskStatus = string
type_synonym ErrorCode = string

abbreviation SystemInfo :: TaskType where "SystemInfo \<equiv> ''system.info''"
abbreviation SystemMetrics :: TaskType where "SystemMetrics \<equiv> ''system.metrics''"
abbreviation SSHAudit :: TaskType where "SSHAudit \<equiv> ''ssh.audit''"
abbreviation ServiceStatus :: TaskType where "ServiceStatus \<equiv> ''service.status''"

abbreviation Accepted :: TaskStatus where "Accepted \<equiv> ''accepted''"
abbreviation Running :: TaskStatus where "Running \<equiv> ''running''"
abbreviation Succeeded :: TaskStatus where "Succeeded \<equiv> ''succeeded''"
abbreviation Failed :: TaskStatus where "Failed \<equiv> ''failed''"
abbreviation Rejected :: TaskStatus where "Rejected \<equiv> ''rejected''"
abbreviation Expired :: TaskStatus where "Expired \<equiv> ''expired''"
abbreviation Indeterminate :: TaskStatus where "Indeterminate \<equiv> ''indeterminate''"

record Task =
  t_Version :: int
  t_RequestID :: string
  t_AgentID :: string
  t_EnrollmentEpoch :: string
  t_CreatedAt :: int
  t_ExpiresAt :: int
  t_Type :: TaskType
  t_TaskVersion :: int
  t_Params :: bytes
  t_ActorID :: string
  t_PolicyDigest :: string

definition KnownTask :: "TaskType \<Rightarrow> bool" where
  "KnownTask t \<longleftrightarrow> t = SystemInfo \<or> t = SystemMetrics \<or> t = SSHAudit \<or> t = ServiceStatus"

definition Task_Resource :: "Task \<Rightarrow> string result" where
  "Task_Resource t =
     (if t_Type t = SSHAudit then
        andThen (strict_decode (t_Params t) 256 [''profile_id'']) (\<lambda>ob. andThen (get_str ob ''profile_id'') (\<lambda>i.
          if \<not> ResourceID i then Inl (Err ''invalid profile ID'') else Inr i))
      else if t_Type t = ServiceStatus then
        andThen (strict_decode (t_Params t) 256 [''service_id'']) (\<lambda>ob. andThen (get_str ob ''service_id'') (\<lambda>i.
          if \<not> ResourceID i then Inl (Err ''invalid service ID'') else Inr i))
      else Inl (Err ''task has no resource selector''))"

definition Task_Validate :: "Task \<Rightarrow> bool" where
  "Task_Validate t \<longleftrightarrow>
     \<not> (t_Version t \<noteq> Version \<or> t_TaskVersion t \<noteq> 1)
     \<and> \<not> (\<not> Hex (t_RequestID t) 32 \<or> \<not> Hex (t_PolicyDigest t) 64
          \<or> \<not> Node_Validate \<lparr>n_AgentID = t_AgentID t, n_EnrollmentEpoch = t_EnrollmentEpoch t\<rparr>)
     \<and> task_identifier (t_ActorID t)
     \<and> \<not> (t_CreatedAt t \<le> 0 \<or> t_ExpiresAt t \<le> t_CreatedAt t
          \<or> wrap64 (t_ExpiresAt t - t_CreatedAt t) > MaxLifetime)
     \<and> (if t_Type t = SystemInfo \<or> t_Type t = SystemMetrics
        then is_ok (strict_decode (t_Params t) MaxParamsBytes [])
        else if t_Type t = SSHAudit \<or> t_Type t = ServiceStatus then is_ok (Task_Resource t)
        else False)"

definition task_fields :: "string list" where
  "task_fields = [''version'', ''request_id'', ''agent_id'', ''enrollment_epoch'', ''created_at'', ''expires_at'',
     ''task_type'', ''task_version'', ''params'', ''actor_id'', ''policy_digest'']"

definition DecodeTask :: "bytes \<Rightarrow> Task result" where
  "DecodeTask data = andThen (strict_decode data MaxPayloadBytes task_fields) (\<lambda>ob.
     andThen (get_int ob ''version'') (\<lambda>v. andThen (get_str ob ''request_id'') (\<lambda>ri.
     andThen (get_str ob ''agent_id'') (\<lambda>ai. andThen (get_str ob ''enrollment_epoch'') (\<lambda>ee.
     andThen (get_int ob ''created_at'') (\<lambda>ca. andThen (get_int ob ''expires_at'') (\<lambda>ea.
     andThen (get_str ob ''task_type'') (\<lambda>ty. andThen (get_int ob ''task_version'') (\<lambda>tv.
     andThen (get_raw ob ''params'') (\<lambda>pa. andThen (get_str ob ''actor_id'') (\<lambda>ac.
     andThen (get_str ob ''policy_digest'') (\<lambda>pd.
       let t = \<lparr>t_Version = v, t_RequestID = ri, t_AgentID = ai, t_EnrollmentEpoch = ee, t_CreatedAt = ca,
                t_ExpiresAt = ea, t_Type = ty, t_TaskVersion = tv, t_Params = pa, t_ActorID = ac,
                t_PolicyDigest = pd\<rparr>
       in if Task_Validate t then Inr t else Inl (Err ''invalid task'')))))))))))))"

text \<open>\<open>json.Marshal\<close> of a task.\<close>

definition MarshalTask :: "Task \<Rightarrow> bytes result" where
  "MarshalTask t = andThen (marshal_raw (t_Params t)) (\<lambda>pa. Inr (json_object
     [(''version'', show_int (t_Version t)), (''request_id'', json_string (t_RequestID t)),
      (''agent_id'', json_string (t_AgentID t)), (''enrollment_epoch'', json_string (t_EnrollmentEpoch t)),
      (''created_at'', show_int (t_CreatedAt t)), (''expires_at'', show_int (t_ExpiresAt t)),
      (''task_type'', json_string (t_Type t)), (''task_version'', show_int (t_TaskVersion t)), (''params'', pa),
      (''actor_id'', json_string (t_ActorID t)), (''policy_digest'', json_string (t_PolicyDigest t))]))"

definition CheckTarget :: "Task \<Rightarrow> Node \<Rightarrow> string \<Rightarrow> instant \<Rightarrow> bool" where
  "CheckTarget t node policyDigest now \<longleftrightarrow>
     Task_Validate t
     \<and> \<not> (\<not> Node_Validate node \<or> \<not> Hex policyDigest 64 \<or> t_AgentID t \<noteq> n_AgentID node
          \<or> t_EnrollmentEpoch t \<noteq> n_EnrollmentEpoch node \<or> t_PolicyDigest t \<noteq> policyDigest)
     \<and> \<not> (unix_sec now \<ge> t_ExpiresAt t \<or> unix_sec now < t_CreatedAt t - MaxClockSkew)"

subsection \<open>Results\<close>

record Result =
  r_RequestID :: string
  r_AgentID :: string
  r_Epoch :: string
  r_Type :: TaskType
  r_StartedAt :: int
  r_FinishedAt :: int
  r_Status :: TaskStatus
  r_Data :: bytes
  r_ErrorCode :: ErrorCode
  r_Truncated :: bool
  r_PolicyDigest :: string

text \<open>The error codes a terminal status other than success may carry.\<close>

definition error_code_ok :: "TaskStatus \<Rightarrow> ErrorCode \<Rightarrow> bool" where
  "error_code_ok st ec =
     (if st = Rejected then ec \<in> set [''paused'', ''task_disabled'', ''policy_mismatch'', ''rate_limited'',
        ''future'', ''resource_denied'']
      else if st = Expired then ec = ''expired''
      else if st = Failed then ec \<in> set [''deadline'', ''collector_failed'', ''result_limit'']
      else if st = Indeterminate then ec = ''recovered_after_restart''
      else False)"

definition Result_Validate :: "Result \<Rightarrow> bool" where
  "Result_Validate r \<longleftrightarrow>
     Hex (r_RequestID r) 32 \<and> Hex (r_AgentID r) 32 \<and> Hex (r_Epoch r) 32 \<and> Hex (r_PolicyDigest r) 64
     \<and> \<not> r_StartedAt r \<le> 0 \<and> \<not> r_FinishedAt r < r_StartedAt r \<and> \<not> r_Truncated r
     \<and> KnownTask (r_Type r)
     \<and> (if r_Status r = Succeeded then
          r_ErrorCode r = ''''
          \<and> (if r_Type r = SystemInfo then
               (case DecodeInformation (r_Data r) of Inl _ \<Rightarrow> False
                | Inr i \<Rightarrow> SystemInformation_Validate i (r_FinishedAt r))
             else if r_Type r = SystemMetrics then is_ok (DecodeMeasurements (r_Data r))
             else if r_Type r = SSHAudit then is_ok (DecodeSSHReport (r_Data r) (r_FinishedAt r))
             else if r_Type r = ServiceStatus then is_ok (DecodeServiceReport (r_Data r) (r_FinishedAt r))
             else False)
        else error_code_ok (r_Status r) (r_ErrorCode r) \<and> is_ok (strict_decode (r_Data r) 256 []))"

definition result_fields :: "string list" where
  "result_fields = [''request_id'', ''agent_id'', ''epoch'', ''task_type'', ''started_at'', ''finished_at'',
     ''status'', ''data'', ''error_code'', ''truncated'', ''policy_digest'']"

definition DecodeResult :: "bytes \<Rightarrow> Result result" where
  "DecodeResult data = andThen (strict_decode data MaxResultBytes result_fields) (\<lambda>ob.
     andThen (get_str ob ''request_id'') (\<lambda>ri. andThen (get_str ob ''agent_id'') (\<lambda>ai.
     andThen (get_str ob ''epoch'') (\<lambda>ep. andThen (get_str ob ''task_type'') (\<lambda>ty.
     andThen (get_int ob ''started_at'') (\<lambda>sa. andThen (get_int ob ''finished_at'') (\<lambda>fa.
     andThen (get_str ob ''status'') (\<lambda>st. andThen (get_raw ob ''data'') (\<lambda>da.
     andThen (get_str ob ''error_code'') (\<lambda>ec. andThen (get_bool ob ''truncated'') (\<lambda>tr.
     andThen (get_str ob ''policy_digest'') (\<lambda>pd.
       let r = \<lparr>r_RequestID = ri, r_AgentID = ai, r_Epoch = ep, r_Type = ty, r_StartedAt = sa,
                r_FinishedAt = fa, r_Status = st, r_Data = da, r_ErrorCode = ec, r_Truncated = tr,
                r_PolicyDigest = pd\<rparr>
       in if Result_Validate r then Inr r else Inl (Err ''invalid task result'')))))))))))))"

definition MarshalResult :: "Result \<Rightarrow> bytes result" where
  "MarshalResult r = andThen (marshal_raw (r_Data r)) (\<lambda>da. Inr (json_object
     [(''request_id'', json_string (r_RequestID r)), (''agent_id'', json_string (r_AgentID r)),
      (''epoch'', json_string (r_Epoch r)), (''task_type'', json_string (r_Type r)),
      (''started_at'', show_int (r_StartedAt r)), (''finished_at'', show_int (r_FinishedAt r)),
      (''status'', json_string (r_Status r)), (''data'', da), (''error_code'', json_string (r_ErrorCode r)),
      (''truncated'', json_bool (r_Truncated r)), (''policy_digest'', json_string (r_PolicyDigest r))]))"

definition CheckAssignment :: "Result \<Rightarrow> Task \<Rightarrow> bool" where
  "CheckAssignment r t \<longleftrightarrow>
     \<not> (r_RequestID r \<noteq> t_RequestID t \<or> r_AgentID r \<noteq> t_AgentID t \<or> r_Epoch r \<noteq> t_EnrollmentEpoch t
        \<or> r_Type r \<noteq> t_Type t)
     \<and> (if r_Status r \<noteq> Succeeded then True
        else if t_Type t = SSHAudit then
          (case Task_Resource t of Inl _ \<Rightarrow> False | Inr i \<Rightarrow>
             (case DecodeSSHReport (r_Data r) (r_FinishedAt r) of Inl _ \<Rightarrow> False
              | Inr v \<Rightarrow> sr_ProfileID v = i))
        else if t_Type t = ServiceStatus then
          (case Task_Resource t of Inl _ \<Rightarrow> False | Inr i \<Rightarrow>
             (case DecodeServiceReport (r_Data r) (r_FinishedAt r) of Inl _ \<Rightarrow> False
              | Inr v \<Rightarrow> sv_ServiceID v = i))
        else True)"

subsection \<open>The other messages\<close>

record ConnectionInfo =
  ci_Version :: int
  ci_AgentID :: string
  ci_EnrollmentEpoch :: string

definition DecodeConnectionInfo :: "bytes \<Rightarrow> ConnectionInfo result" where
  "DecodeConnectionInfo data =
     andThen (strict_decode data 4096 [''version'', ''agent_id'', ''enrollment_epoch'']) (\<lambda>ob.
     andThen (get_int ob ''version'') (\<lambda>v. andThen (get_str ob ''agent_id'') (\<lambda>a.
     andThen (get_str ob ''enrollment_epoch'') (\<lambda>e.
       if v \<noteq> Version then Inl (Err ''unsupported protocol version'')
       else if \<not> Node_Validate \<lparr>n_AgentID = a, n_EnrollmentEpoch = e\<rparr> then Inl (Err ''invalid node identity'')
       else Inr \<lparr>ci_Version = v, ci_AgentID = a, ci_EnrollmentEpoch = e\<rparr>))))"

record PollRequest =
  pr_Version :: int
  pr_PolicyDigest :: string

definition DecodePoll :: "bytes \<Rightarrow> PollRequest result" where
  "DecodePoll data = andThen (strict_decode data 256 [''version'', ''policy_digest'']) (\<lambda>ob.
     andThen (get_int ob ''version'') (\<lambda>v. andThen (get_str ob ''policy_digest'') (\<lambda>p.
       if v \<noteq> Version \<or> \<not> Hex p 64 then Inl (Err ''invalid poll request'')
       else Inr \<lparr>pr_Version = v, pr_PolicyDigest = p\<rparr>)))"

record ResultAck =
  ra_Version :: int
  ra_AgentID :: string
  ra_Epoch :: string
  ra_RequestID :: string
  ra_ResultDigest :: string

definition DecodeResultAck :: "bytes \<Rightarrow> ResultAck result" where
  "DecodeResultAck data = andThen (strict_decode data 1024
       [''version'', ''agent_id'', ''epoch'', ''request_id'', ''result_digest'']) (\<lambda>ob.
     andThen (get_int ob ''version'') (\<lambda>v. andThen (get_str ob ''agent_id'') (\<lambda>a.
     andThen (get_str ob ''epoch'') (\<lambda>e. andThen (get_str ob ''request_id'') (\<lambda>q.
     andThen (get_str ob ''result_digest'') (\<lambda>d.
       if v \<noteq> Version \<or> \<not> Hex a 32 \<or> \<not> Hex e 32 \<or> \<not> Hex q 32 \<or> \<not> Hex d 64
       then Inl (Err ''invalid result acknowledgment'')
       else Inr \<lparr>ra_Version = v, ra_AgentID = a, ra_Epoch = e, ra_RequestID = q, ra_ResultDigest = d\<rparr>))))))"

text \<open>The certificate request inside an enrollment or renewal request: one spelling, at most 2048 bytes.\<close>

definition decode_csr :: "string \<Rightarrow> bytes option" where
  "decode_csr s = (case b64_DecodeString s of None \<Rightarrow> None
     | Some b \<Rightarrow> if length b = 0 \<or> length b > 2048 \<or> b64_EncodeToString b \<noteq> s then None else Some b)"

definition MaxEnrollmentBytes :: nat where "MaxEnrollmentBytes = 8192"

record EnrollmentRequest =
  eq_Version :: int
  eq_Token :: string
  eq_CSR :: string

definition DecodeEnrollmentRequest :: "bytes \<Rightarrow> (EnrollmentRequest \<times> bytes) result" where
  "DecodeEnrollmentRequest data =
     andThen (strict_decode data MaxEnrollmentBytes [''version'', ''token'', ''csr_b64'']) (\<lambda>ob.
     andThen (get_int ob ''version'') (\<lambda>v. andThen (get_str ob ''token'') (\<lambda>t.
     andThen (get_str ob ''csr_b64'') (\<lambda>c. case decode_csr c of
       None \<Rightarrow> Inl (Err ''invalid enrollment request'')
     | Some csr \<Rightarrow> if v \<noteq> Version \<or> \<not> Hex t 64 then Inl (Err ''invalid enrollment request'')
         else Inr (\<lparr>eq_Version = v, eq_Token = t, eq_CSR = c\<rparr>, csr)))))"

record EnrollmentResponse =
  es_Version :: int
  es_AgentID :: string
  es_EnrollmentEpoch :: string
  es_CertificatePEM :: string

definition DecodeEnrollmentResponse :: "bytes \<Rightarrow> EnrollmentResponse result" where
  "DecodeEnrollmentResponse data = andThen (strict_decode data MaxEnrollmentBytes
       [''version'', ''agent_id'', ''enrollment_epoch'', ''certificate_pem'']) (\<lambda>ob.
     andThen (get_int ob ''version'') (\<lambda>v. andThen (get_str ob ''agent_id'') (\<lambda>a.
     andThen (get_str ob ''enrollment_epoch'') (\<lambda>e. andThen (get_str ob ''certificate_pem'') (\<lambda>c.
       if v \<noteq> Version \<or> \<not> Node_Validate \<lparr>n_AgentID = a, n_EnrollmentEpoch = e\<rparr> \<or> length c = 0 \<or> length c > 6000
       then Inl (Err ''invalid enrollment response'')
       else Inr \<lparr>es_Version = v, es_AgentID = a, es_EnrollmentEpoch = e, es_CertificatePEM = c\<rparr>)))))"

definition MaxRenewalBytes :: nat where "MaxRenewalBytes = 16384"
definition MaxCertificateGenerations :: int where "MaxCertificateGenerations = 64"

record RenewalRequest =
  rq_Version :: int
  rq_RenewalID :: string
  rq_CSR :: string

record RenewalResponse =
  rs_Version :: int
  rs_RenewalID :: string
  rs_AgentID :: string
  rs_Epoch :: string
  rs_Generation :: int
  rs_PreviousSHA256 :: string
  rs_PreviousValidUntil :: int
  rs_CertificatePEM :: string

definition DecodeRenewalRequest :: "bytes \<Rightarrow> (RenewalRequest \<times> bytes) result" where
  "DecodeRenewalRequest data =
     andThen (strict_decode data MaxRenewalBytes [''version'', ''renewal_id'', ''csr_b64'']) (\<lambda>ob.
     andThen (get_int ob ''version'') (\<lambda>v. andThen (get_str ob ''renewal_id'') (\<lambda>i.
     andThen (get_str ob ''csr_b64'') (\<lambda>c. case decode_csr c of
       None \<Rightarrow> Inl (Err ''invalid renewal request'')
     | Some der \<Rightarrow> if v \<noteq> 1 \<or> \<not> Hex i 32 then Inl (Err ''invalid renewal request'')
         else Inr (\<lparr>rq_Version = v, rq_RenewalID = i, rq_CSR = c\<rparr>, der)))))"

definition RenewalResponse_ok :: "RenewalResponse \<Rightarrow> bool" where
  "RenewalResponse_ok r \<longleftrightarrow> rs_Version r = 1 \<and> Hex (rs_RenewalID r) 32
     \<and> Node_Validate \<lparr>n_AgentID = rs_AgentID r, n_EnrollmentEpoch = rs_Epoch r\<rparr>
     \<and> 2 \<le> rs_Generation r \<and> rs_Generation r \<le> MaxCertificateGenerations \<and> Hex (rs_PreviousSHA256 r) 64
     \<and> 0 < rs_PreviousValidUntil r \<and> length (rs_CertificatePEM r) \<noteq> 0 \<and> length (rs_CertificatePEM r) \<le> 12000"

definition DecodeRenewalResponse :: "bytes \<Rightarrow> RenewalResponse result" where
  "DecodeRenewalResponse data = andThen (strict_decode data MaxRenewalBytes
       [''version'', ''renewal_id'', ''agent_id'', ''enrollment_epoch'', ''generation'',
        ''previous_certificate_sha256'', ''previous_valid_until'', ''certificate_pem'']) (\<lambda>ob.
     andThen (get_int ob ''version'') (\<lambda>v. andThen (get_str ob ''renewal_id'') (\<lambda>i.
     andThen (get_str ob ''agent_id'') (\<lambda>a. andThen (get_str ob ''enrollment_epoch'') (\<lambda>e.
     andThen (get_int ob ''generation'') (\<lambda>g. andThen (get_str ob ''previous_certificate_sha256'') (\<lambda>p.
     andThen (get_int ob ''previous_valid_until'') (\<lambda>u. andThen (get_str ob ''certificate_pem'') (\<lambda>c.
       let r = \<lparr>rs_Version = v, rs_RenewalID = i, rs_AgentID = a, rs_Epoch = e, rs_Generation = g,
                rs_PreviousSHA256 = p, rs_PreviousValidUntil = u, rs_CertificatePEM = c\<rparr>
       in if RenewalResponse_ok r then Inr r else Inl (Err ''invalid renewal response''))))))))))"

subsection \<open>Laws of tasks\<close>

lemma DecodeTask_valid:
  "DecodeTask data = Inr t \<Longrightarrow> Task_Validate t \<and> int64 (t_CreatedAt t) \<and> int64 (t_ExpiresAt t)"
  by (auto simp: DecodeTask_def Let_def result_simps dest: get_int_int64 split: if_splits)

text \<open>The order test makes the subtraction of the two timestamps exact.\<close>

lemma Task_window:
  assumes "Task_Validate t" "int64 (t_CreatedAt t)" "int64 (t_ExpiresAt t)"
  shows "0 < t_CreatedAt t" "t_CreatedAt t < t_ExpiresAt t" "t_ExpiresAt t \<le> t_CreatedAt t + MaxLifetime"
    and "int64 (t_ExpiresAt t - t_CreatedAt t)" and "int64 (t_CreatedAt t - MaxClockSkew)"
proof -
  have ord: "0 < t_CreatedAt t" "t_CreatedAt t < t_ExpiresAt t" using assms(1) by (auto simp: Task_Validate_def)
  with assms(2,3) show i: "int64 (t_ExpiresAt t - t_CreatedAt t)" by (simp add: int64_def)
  with assms(1) show "t_ExpiresAt t \<le> t_CreatedAt t + MaxLifetime" by (auto simp: Task_Validate_def)
  from ord assms(2) show "int64 (t_CreatedAt t - MaxClockSkew)" by (simp add: int64_def MaxClockSkew_def)
  from ord show "0 < t_CreatedAt t" "t_CreatedAt t < t_ExpiresAt t" .
qed

lemma Task_Validate_known: "Task_Validate t \<Longrightarrow> KnownTask (t_Type t)"
  by (auto simp: Task_Validate_def KnownTask_def split: if_splits)

definition task_members :: "Task \<Rightarrow> json \<Rightarrow> member list" where
  "task_members t v =
     [int_member ''version'' (t_Version t), str_member ''request_id'' (t_RequestID t),
      str_member ''agent_id'' (t_AgentID t), str_member ''enrollment_epoch'' (t_EnrollmentEpoch t),
      int_member ''created_at'' (t_CreatedAt t), int_member ''expires_at'' (t_ExpiresAt t),
      str_member ''task_type'' (t_Type t), int_member ''task_version'' (t_TaskVersion t),
      raw_member ''params'' (t_Params t) v, str_member ''actor_id'' (t_ActorID t),
      str_member ''policy_digest'' (t_PolicyDigest t)]"

text \<open>A parameter object in the form \<open>json.Marshal\<close> writes it.\<close>

definition canonical_params :: "Task \<Rightarrow> bool" where
  "canonical_params t \<longleftrightarrow>
     (if t_Type t = SSHAudit then (\<exists>i. t_Params t = json_object [(''profile_id'', json_string i)] \<and> ResourceID i)
      else if t_Type t = ServiceStatus then (\<exists>i. t_Params t = json_object [(''service_id'', json_string i)] \<and> ResourceID i)
      else t_Params t = ''{}'')"

lemma MarshalTask_members:
  assumes "reads (t_Params t) v" "compact False (t_Params t) = t_Params t"
  shows "MarshalTask t = Inr (object_text (task_members t v))"
  using assms by (simp add: MarshalTask_def marshal_raw_def json_parse_reads object_text_def task_members_def)

lemma task_keys: "map key_of (task_members t v) = task_fields" "distinct task_fields" "list_all plain task_fields"
  by (simp_all add: task_members_def task_fields_def plain_char_def alnum_def char_in_def code_def)

lemma Task_Validate_texts:
  assumes "Task_Validate t"
  shows "plain (t_RequestID t)" "plain (t_AgentID t)" "plain (t_EnrollmentEpoch t)" "plain (t_Type t)"
    "plain (t_ActorID t)" "plain (t_PolicyDigest t)"
    "length (t_RequestID t) = 32" "length (t_AgentID t) = 32" "length (t_EnrollmentEpoch t) = 32"
    "length (t_Type t) \<le> 14" "length (t_ActorID t) \<le> 64" "length (t_PolicyDigest t) = 64"
proof -
  have h: "Hex (t_RequestID t) 32" "Hex (t_AgentID t) 32" "Hex (t_EnrollmentEpoch t) 32" "Hex (t_PolicyDigest t) 64"
    "task_identifier (t_ActorID t)" "KnownTask (t_Type t)"
    using assms by (auto simp: Task_Validate_def Node_Validate_def KnownTask_def split: if_splits)
  then show "plain (t_RequestID t)" "plain (t_AgentID t)" "plain (t_EnrollmentEpoch t)" "plain (t_ActorID t)"
    "plain (t_PolicyDigest t)"
    by (auto intro: Hex_plain task_identifier_plain)
  from h show "length (t_RequestID t) = 32" "length (t_AgentID t) = 32" "length (t_EnrollmentEpoch t) = 32"
    "length (t_PolicyDigest t) = 64" "length (t_ActorID t) \<le> 64"
    by (auto dest: Hex_length simp: task_identifier_def)
  from h(6) show "plain (t_Type t)" "length (t_Type t) \<le> 14"
    by (auto simp: KnownTask_def plain_char_def alnum_def char_in_def code_def)
qed

lemma DecodeTask_members:
  assumes v: "Task_Validate t" and c: "int64 (t_CreatedAt t)" "int64 (t_ExpiresAt t)"
    and p: "reads (t_Params t) v" "safe (t_Params t)" "strict_node 1 v" "length (t_Params t) \<le> 256"
  shows "DecodeTask (object_text (task_members t v)) = Inr t"
proof -
  note pl = Task_Validate_texts [OF v]
  have ver: "t_Version t = 1" "t_TaskVersion t = 1" using v by (auto simp: Task_Validate_def Version_def)
  have i1: "int64 1" by (simp add: int64_def)
  note k = task_keys(3) [unfolded task_fields_def, simplified]
  have rm: "list_all read_member (task_members t v)"
    using k p pl by (simp add: task_members_def read_members plain_valid)
  have "length (object_text (task_members t v)) \<le> MaxPayloadBytes"
    using pl k p length_show_int [OF c(1)] length_show_int [OF c(2)] length_show_int [OF i1]
    by (simp add: length_object_text task_members_def length_json_string_plain MaxPayloadBytes_def ver)
  moreover have "list_all (\<lambda>m. strict_node 1 (json_of m)) (task_members t v)"
    using p by (simp add: task_members_def)
  ultimately have "strict_decode (object_text (task_members t v)) MaxPayloadBytes task_fields
      = Inr (object_members (task_members t v))"
    using rm task_keys(1,2) by (intro strict_decode_object) (simp_all add: MaxPayloadBytes_def)
  moreover have eq: "\<lparr>t_Version = 1, t_RequestID = t_RequestID t, t_AgentID = t_AgentID t,
      t_EnrollmentEpoch = t_EnrollmentEpoch t, t_CreatedAt = t_CreatedAt t, t_ExpiresAt = t_ExpiresAt t,
      t_Type = t_Type t, t_TaskVersion = 1, t_Params = t_Params t, t_ActorID = t_ActorID t,
      t_PolicyDigest = t_PolicyDigest t\<rparr> = t" using ver by (cases t) simp
  ultimately show ?thesis
    using c i1 by (simp add: DecodeTask_def task_members_def ver Let_def) (simp only: eq v)
qed

lemma canonical_params_ok:
  assumes "canonical_params t" "KnownTask (t_Type t)"
  obtains v where "reads (t_Params t) v" "safe (t_Params t)" "strict_node 1 v" "length (t_Params t) \<le> 256"
    "compact False (t_Params t) = t_Params t"
proof -
  have pk: "plain ''profile_id''" "plain ''service_id''"
    by (simp_all add: plain_char_def alnum_def char_in_def code_def)
  consider k i where "t_Params t = json_object [(k, json_string i)]" "ResourceID i" "plain k" "length k = 10"
    | "t_Params t = ''{}''"
    using assms(1) pk by (auto simp: canonical_params_def split: if_splits)
  then show thesis
  proof cases
    case (1 k i)
    then have pi: "plain i" "length i \<le> 32" by (auto simp: ResourceID_def task_identifier_plain)
    show thesis
      by (rule that [of "JObj [(k, JV (json_string i) (JStr i))]"])
         (use selector_object [OF 1(3) pi(1) refl] 1 pi in \<open>simp_all add: MaxDepth_def\<close>)
  next
    case 2
    show thesis
      by (rule that [of "JObj []"])
         (use 2 reads_empty_object in \<open>simp_all add: MaxDepth_def compact_step compact_Nil is_ws_def code_def\<close>)
  qed
qed

lemma DecodeTask_MarshalTask:
  assumes "Task_Validate t" "int64 (t_CreatedAt t)" "int64 (t_ExpiresAt t)" "canonical_params t"
  shows "\<exists>payload. MarshalTask t = Inr payload \<and> DecodeTask payload = Inr t"
proof -
  have "KnownTask (t_Type t)" using assms(1) by (rule Task_Validate_known)
  with assms(4) obtain v where v: "reads (t_Params t) v" "safe (t_Params t)" "strict_node 1 v"
    "length (t_Params t) \<le> 256" "compact False (t_Params t) = t_Params t"
    by (rule canonical_params_ok)
  then have "MarshalTask t = Inr (object_text (task_members t v))" by (simp add: MarshalTask_members)
  moreover have "DecodeTask (object_text (task_members t v)) = Inr t"
    using assms v by (intro DecodeTask_members)
  ultimately show ?thesis by blast
qed

end
