(* ===== verification/Audit_Log.thy ===== *)
theory Audit_Log
  imports Protocol
begin

section \<open>The hash-chained audit log\<close>

text \<open>
  \<open>internal/audit/audit.go\<close>. The tables \<open>audit_head\<close> (one row) and \<open>audit_events\<close> are the record
  \<open>audit_log\<close>. The primary key of \<open>audit_events\<close> and the unique index
  \<open>audit_execution_decision\<close> are tests of \<open>insert_event\<close>. The instant at which \<open>Append\<close> reads the
  clock is an argument; the SHA-256 function is the parameter \<open>C\<close>.

  \<open>Verify\<close> is proved to be an invariant of \<open>Append\<close>, the log to be tamper evident (two verified
  logs with one head are equal, or the proof exhibits a SHA-256 collision), and the reservations to do what
  they are for: completing reserved work never meets the capacity limit. The locale
  \<open>reserving_log\<close> states what the stores of the probe and of the server rely on.
\<close>

definition Capacity :: int where "Capacity = 100000"

definition genesis :: string where "genesis = replicate 64 (CHR ''0'')"

record Event =
  e_At :: int
  e_Kind :: string
  e_AgentID :: string
  e_Epoch :: string
  e_RequestID :: string
  e_TaskType :: TaskType
  e_ActorID :: string
  e_Source :: string
  e_Status :: string
  e_Code :: string
  e_PolicyDigest :: string
  e_PayloadDigest :: string
  e_ResultDigest :: string

text \<open>The zero value of a Go \<open>Event\<close>, from which composite literals are built.\<close>

definition no_event :: Event where
  "no_event = \<lparr>e_At = 0, e_Kind = '''', e_AgentID = '''', e_Epoch = '''', e_RequestID = '''', e_TaskType = '''',
     e_ActorID = '''', e_Source = '''', e_Status = '''', e_Code = '''', e_PolicyDigest = '''',
     e_PayloadDigest = '''', e_ResultDigest = ''''\<rparr>"

record event_row =
  ae_sequence :: int
  ae_event :: bytes
  ae_previous :: string
  ae_hash :: string
  ae_kind :: string
  ae_agent :: string
  ae_request :: string

record audit_log =
  al_sequence :: int
  al_hash :: string
  al_reserved :: int
  al_events :: "event_row list"

definition audit_Initialize :: audit_log where
  "audit_Initialize = \<lparr>al_sequence = 0, al_hash = genesis, al_reserved = 0, al_events = []\<rparr>"

definition Event_validate :: "Event \<Rightarrow> bool" where
  "Event_validate e \<longleftrightarrow>
     \<not> (e_At e \<le> 0 \<or> \<not> audit_identifier (e_Kind e) 40 \<or> e_Kind e = '''' \<or> \<not> audit_identifier (e_ActorID e) 64
        \<or> \<not> audit_identifier (e_Status e) 32 \<or> \<not> audit_identifier (e_Code e) 64 \<or> \<not> CleanText (e_Source e) 256)
     \<and> list_all (\<lambda>v. \<not> (v \<noteq> '''' \<and> \<not> Hex v 32)) [e_AgentID e, e_Epoch e, e_RequestID e]
     \<and> list_all (\<lambda>v. \<not> (v \<noteq> '''' \<and> \<not> Hex v 64)) [e_PolicyDigest e, e_PayloadDigest e, e_ResultDigest e]
     \<and> \<not> (e_TaskType e \<noteq> '''' \<and> \<not> KnownTask (e_TaskType e))"

definition chain :: "crypto \<Rightarrow> string \<Rightarrow> bytes \<Rightarrow> string" where
  "chain C previous data = Digest C (''argus-c2/audit/v1'' @ [CHR 0x00] @ previous @ [CHR 0x00] @ data)"

definition event_fields :: "string list" where
  "event_fields = [''at_unix_nano'', ''kind'', ''agent_id'', ''epoch'', ''request_id'', ''task_type'', ''actor_id'',
     ''source'', ''status'', ''code'', ''policy_digest'', ''payload_digest'', ''result_digest'']"

text \<open>\<open>json.Marshal\<close> of an event.\<close>

definition MarshalEvent :: "Event \<Rightarrow> bytes" where
  "MarshalEvent e = json_object
     [(''at_unix_nano'', show_int (e_At e)), (''kind'', json_string (e_Kind e)),
      (''agent_id'', json_string (e_AgentID e)), (''epoch'', json_string (e_Epoch e)),
      (''request_id'', json_string (e_RequestID e)), (''task_type'', json_string (e_TaskType e)),
      (''actor_id'', json_string (e_ActorID e)), (''source'', json_string (e_Source e)),
      (''status'', json_string (e_Status e)), (''code'', json_string (e_Code e)),
      (''policy_digest'', json_string (e_PolicyDigest e)), (''payload_digest'', json_string (e_PayloadDigest e)),
      (''result_digest'', json_string (e_ResultDigest e))]"

definition decode_event :: "bytes \<Rightarrow> Event result" where
  "decode_event data = andThen (strict_decode data 2048 event_fields) (\<lambda>ob.
     andThen (get_int ob ''at_unix_nano'') (\<lambda>ta. andThen (get_str ob ''kind'') (\<lambda>ki.
     andThen (get_str ob ''agent_id'') (\<lambda>ai. andThen (get_str ob ''epoch'') (\<lambda>ep.
     andThen (get_str ob ''request_id'') (\<lambda>ri. andThen (get_str ob ''task_type'') (\<lambda>ty.
     andThen (get_str ob ''actor_id'') (\<lambda>ac. andThen (get_str ob ''source'') (\<lambda>so.
     andThen (get_str ob ''status'') (\<lambda>st. andThen (get_str ob ''code'') (\<lambda>co.
     andThen (get_str ob ''policy_digest'') (\<lambda>pd. andThen (get_str ob ''payload_digest'') (\<lambda>yd.
     andThen (get_str ob ''result_digest'') (\<lambda>rd.
       let e = \<lparr>e_At = ta, e_Kind = ki, e_AgentID = ai, e_Epoch = ep, e_RequestID = ri, e_TaskType = ty,
                e_ActorID = ac, e_Source = so, e_Status = st, e_Code = co, e_PolicyDigest = pd,
                e_PayloadDigest = yd, e_ResultDigest = rd\<rparr>
       in if Event_validate e then Inr e else Inl (Err ''invalid audit event'')))))))))))))))"

text \<open>The rows that the unique index covers, and what it is unique in.\<close>

definition decision_kind :: "string \<Rightarrow> bool" where
  "decision_kind k \<longleftrightarrow> k = ''task_accepted'' \<or> k = ''task_rejected''"

definition decisions :: "event_row list \<Rightarrow> (string \<times> string) list" where
  "decisions rows = map (\<lambda>r. (ae_agent r, ae_request r)) (filter (\<lambda>r. decision_kind (ae_kind r)) rows)"

definition insert_event :: "event_row \<Rightarrow> event_row list \<Rightarrow> event_row list result" where
  "insert_event r rows =
     (if list_ex (\<lambda>q. ae_sequence q = ae_sequence r) rows then Inl (Err ''UNIQUE constraint failed: sequence'')
      else if decision_kind (ae_kind r) \<and> (ae_agent r, ae_request r) \<in> set (decisions rows)
      then Inl (Err ''UNIQUE constraint failed: audit_execution_decision'')
      else Inr (rows @ [r]))"

definition stamp :: "instant \<Rightarrow> Event \<Rightarrow> Event" where
  "stamp now e = (if e_At e = 0 then e\<lparr>e_At := wrap64 now\<rparr> else e)"

definition Append :: "crypto \<Rightarrow> instant \<Rightarrow> Event \<Rightarrow> int \<Rightarrow> audit_log \<Rightarrow> audit_log result" where
  "Append C now e0 reserveDelta L =
     (let e = stamp now e0; seq = al_sequence L; head = al_hash L; reserved = al_reserved L in
      if \<not> Event_validate e then Inl (Err ''invalid audit event'')
      else if seq < 0 \<or> \<not> Hex head 64 \<or> reserved + reserveDelta < 0
      then Inl (Err ''invalid audit head or reservation'')
      else if seq + 1 + (reserved + reserveDelta) > Capacity then Inl ErrAuditCapacity
      else if seq > 0 \<and> (case find (\<lambda>r. ae_sequence r = seq) (al_events L) of
                            None \<Rightarrow> True | Some r \<Rightarrow> ae_hash r \<noteq> head)
      then Inl (Err ''audit head mismatch'')
      else let data = MarshalEvent e; hash = chain C head data in
        andThen (insert_event \<lparr>ae_sequence = seq + 1, ae_event = data, ae_previous = head, ae_hash = hash,
            ae_kind = e_Kind e, ae_agent = e_AgentID e, ae_request = e_RequestID e\<rparr> (al_events L)) (\<lambda>rows.
          Inr \<lparr>al_sequence = seq + 1, al_hash = hash, al_reserved = reserved + reserveDelta, al_events = rows\<rparr>))"

text \<open>The loop of \<open>Verify\<close>, with its variables \<open>n\<close> and \<open>previous\<close>.\<close>

fun verify_rows :: "crypto \<Rightarrow> int \<Rightarrow> string \<Rightarrow> event_row list \<Rightarrow> (int \<times> string) result" where
  "verify_rows C n previous [] = Inr (n, previous)"
| "verify_rows C n previous (r # rs) = andThen (decode_event (ae_event r)) (\<lambda>e.
     if ae_sequence r \<noteq> n + 1 \<or> ae_previous r \<noteq> previous \<or> ae_hash r \<noteq> chain C (ae_previous r) (ae_event r)
        \<or> ae_kind r \<noteq> e_Kind e \<or> ae_agent r \<noteq> e_AgentID e \<or> ae_request r \<noteq> e_RequestID e
     then Inl (Err ''audit chain verification failed'')
     else verify_rows C (n + 1) (ae_hash r) rs)"

definition ordered_rows :: "audit_log \<Rightarrow> event_row list" where
  "ordered_rows L = sort_key ae_sequence (al_events L)"

definition audit_Verify :: "crypto \<Rightarrow> audit_log \<Rightarrow> bool" where
  "audit_Verify C L \<longleftrightarrow>
     \<not> (al_sequence L < 0 \<or> al_sequence L + al_reserved L > Capacity \<or> al_reserved L < 0)
     \<and> (case verify_rows C 0 genesis (take (nat Capacity + 1) (ordered_rows L)) of
          Inl _ \<Rightarrow> False
        | Inr (n, previous) \<Rightarrow> n = al_sequence L \<and> previous = al_hash L)"

record Record =
  rec_Sequence :: int
  rec_Event :: Event
  rec_Previous :: string
  rec_Hash :: string

record Page =
  pg_Records :: "Record list"
  pg_HeadSequence :: int
  pg_HeadHash :: string

definition ReadTx :: "crypto \<Rightarrow> instant \<Rightarrow> int \<Rightarrow> int \<Rightarrow> string \<Rightarrow> string \<Rightarrow> audit_log \<Rightarrow> (Page \<times> audit_log) result" where
  "ReadTx C now after limit actor source L =
     (if after < 0 \<or> limit < 1 \<or> limit > 200 then Inl (Err ''invalid audit page'')
      else if \<not> audit_Verify C L then Inl (Err ''audit chain verification failed'')
      else andThen (map_res (\<lambda>r. andThen (decode_event (ae_event r)) (\<lambda>e.
             Inr \<lparr>rec_Sequence = ae_sequence r, rec_Event = e, rec_Previous = ae_previous r, rec_Hash = ae_hash r\<rparr>))
             (take (nat limit) (filter (\<lambda>r. ae_sequence r > after) (ordered_rows L)))) (\<lambda>records.
        andThen (Append C now (no_event\<lparr>e_Kind := ''audit_read'', e_ActorID := actor, e_Source := source,
             e_Status := ''succeeded'', e_Code := ''after_'' @ show_int after @ ''_limit_'' @ show_int limit\<rparr>) 0 L) (\<lambda>L'.
          Inr (\<lparr>pg_Records = records, pg_HeadSequence = al_sequence L', pg_HeadHash = al_hash L'\<rparr>, L'))))"

definition audit_Read :: "crypto \<Rightarrow> instant \<Rightarrow> int \<Rightarrow> int \<Rightarrow> audit_log \<Rightarrow> Page result \<times> audit_log" where
  "audit_Read C now after limit L =
     (case ReadTx C now after limit ''local-operator'' ''local'' L of
        Inl e \<Rightarrow> (Inl e, L) | Inr (p, L') \<Rightarrow> (Inr p, L'))"

definition TaskEvent :: "string \<Rightarrow> Task \<Rightarrow> string \<Rightarrow> string \<Rightarrow> string \<Rightarrow> string \<Rightarrow> Event" where
  "TaskEvent kind t source status ec digest =
     no_event\<lparr>e_Kind := kind, e_AgentID := t_AgentID t, e_Epoch := t_EnrollmentEpoch t,
       e_RequestID := t_RequestID t, e_TaskType := t_Type t, e_ActorID := t_ActorID t, e_Source := source,
       e_Status := status, e_Code := ec, e_PolicyDigest := t_PolicyDigest t, e_PayloadDigest := digest\<rparr>"

subsection \<open>Functional behaviour of appending\<close>

definition event_row_of :: "crypto \<Rightarrow> Event \<Rightarrow> audit_log \<Rightarrow> event_row" where
  "event_row_of C e L = \<lparr>ae_sequence = al_sequence L + 1, ae_event = MarshalEvent e, ae_previous = al_hash L,
     ae_hash = chain C (al_hash L) (MarshalEvent e), ae_kind = e_Kind e, ae_agent = e_AgentID e,
     ae_request = e_RequestID e\<rparr>"

lemma Append_eq_Inr:
  assumes "Append C now e d L = Inr L'"
  shows "al_sequence L' = al_sequence L + 1" "al_reserved L' = al_reserved L + d"
    "al_events L' = al_events L @ [event_row_of C (stamp now e) L]"
    "al_hash L' = chain C (al_hash L) (MarshalEvent (stamp now e))"
    "Event_validate (stamp now e)" "0 \<le> al_reserved L'" "al_sequence L' + al_reserved L' \<le> Capacity"
    "0 \<le> al_sequence L" "Hex (al_hash L) 64"
    "decision_kind (e_Kind e) \<Longrightarrow> (e_AgentID e, e_RequestID e) \<notin> set (decisions (al_events L))"
proof -
  have st: "e_Kind (stamp now e) = e_Kind e" "e_AgentID (stamp now e) = e_AgentID e"
    "e_RequestID (stamp now e) = e_RequestID e" by (simp_all add: stamp_def)
  show "al_sequence L' = al_sequence L + 1" "al_reserved L' = al_reserved L + d"
    "al_events L' = al_events L @ [event_row_of C (stamp now e) L]"
    "al_hash L' = chain C (al_hash L) (MarshalEvent (stamp now e))"
    "Event_validate (stamp now e)" "0 \<le> al_reserved L'" "al_sequence L' + al_reserved L' \<le> Capacity"
    "0 \<le> al_sequence L" "Hex (al_hash L) 64"
    using assms by (auto simp: Append_def Let_def insert_event_def event_row_of_def result_simps split: if_splits)
  show "(e_AgentID e, e_RequestID e) \<notin> set (decisions (al_events L))" if "decision_kind (e_Kind e)"
    using assms that st by (auto simp: Append_def Let_def insert_event_def result_simps split: if_splits)
qed

lemma decisions_append: "decisions (xs @ ys) = decisions xs @ decisions ys"
  by (simp add: decisions_def)

lemma decisions_row:
  "decisions [event_row_of C (stamp now e) L]
     = (if decision_kind (e_Kind e) then [(e_AgentID e, e_RequestID e)] else [])"
  by (simp add: decisions_def event_row_of_def stamp_def)

text \<open>Decisions are only ever added, and each names a request that had none.\<close>

lemma Append_decisions:
  assumes "Append C now e d L = Inr L'"
  shows "decisions (al_events L') = decisions (al_events L)
      @ (if decision_kind (e_Kind e) then [(e_AgentID e, e_RequestID e)] else [])"
    and "distinct (decisions (al_events L)) \<Longrightarrow> distinct (decisions (al_events L'))"
  using Append_eq_Inr [OF assms] by (auto simp: decisions_append decisions_row)

subsection \<open>Verification is an invariant\<close>

lemma int64_wrap64 [simp]: "int64 (wrap64 x)"
proof -
  have "- (2 ^ (LENGTH(64) - 1)) \<le> sint (word_of_int x :: 64 word)" by (rule sint_ge)
  moreover have "sint (word_of_int x :: 64 word) < 2 ^ (LENGTH(64) - 1)" by (rule sint_lt)
  ultimately show ?thesis by (simp add: wrap64_def int64_def)
qed

lemma stamp_int64: "int64 (e_At e) \<Longrightarrow> int64 (e_At (stamp now e))"
  by (simp add: stamp_def)

definition event_members :: "Event \<Rightarrow> member list" where
  "event_members e =
     [int_member ''at_unix_nano'' (e_At e), str_member ''kind'' (e_Kind e),
      str_member ''agent_id'' (e_AgentID e), str_member ''epoch'' (e_Epoch e),
      str_member ''request_id'' (e_RequestID e), str_member ''task_type'' (e_TaskType e),
      str_member ''actor_id'' (e_ActorID e), str_member ''source'' (e_Source e),
      str_member ''status'' (e_Status e), str_member ''code'' (e_Code e),
      str_member ''policy_digest'' (e_PolicyDigest e), str_member ''payload_digest'' (e_PayloadDigest e),
      str_member ''result_digest'' (e_ResultDigest e)]"

lemma MarshalEvent_members: "MarshalEvent e = object_text (event_members e)"
  by (simp add: MarshalEvent_def object_text_def event_members_def)

lemma event_keys: "map key_of (event_members e) = event_fields" "distinct event_fields" "list_all plain event_fields"
  by (simp_all add: event_members_def event_fields_def plain_char_def alnum_def char_in_def code_def)

lemma Event_validate_parts:
  assumes "Event_validate e"
  shows "audit_identifier (e_Kind e) 40" "audit_identifier (e_ActorID e) 64" "audit_identifier (e_Status e) 32"
    "audit_identifier (e_Code e) 64" "CleanText (e_Source e) 256"
    "e_AgentID e = '''' \<or> Hex (e_AgentID e) 32" "e_Epoch e = '''' \<or> Hex (e_Epoch e) 32"
    "e_RequestID e = '''' \<or> Hex (e_RequestID e) 32" "e_PolicyDigest e = '''' \<or> Hex (e_PolicyDigest e) 64"
    "e_PayloadDigest e = '''' \<or> Hex (e_PayloadDigest e) 64" "e_ResultDigest e = '''' \<or> Hex (e_ResultDigest e) 64"
    "e_TaskType e = '''' \<or> KnownTask (e_TaskType e)"
  using assms by (auto simp add: Event_validate_def)

lemma Event_validate_texts:
  assumes "Event_validate e"
  shows "plain (e_Kind e)" "plain (e_AgentID e)" "plain (e_Epoch e)" "plain (e_RequestID e)" "plain (e_TaskType e)"
    "plain (e_ActorID e)" "utf8_Valid (e_Source e)" "plain (e_Status e)" "plain (e_Code e)"
    "plain (e_PolicyDigest e)" "plain (e_PayloadDigest e)" "plain (e_ResultDigest e)"
proof -
  note parts = Event_validate_parts [OF assms]  have p: "plain v" if "v = '''' \<or> Hex v n" for v n using that by (auto intro: Hex_plain)
  from parts show "plain (e_Kind e)" "plain (e_ActorID e)" "plain (e_Status e)" "plain (e_Code e)" "utf8_Valid (e_Source e)"
    by (auto intro: audit_identifier_plain CleanText_valid)
  from parts show "plain (e_AgentID e)" "plain (e_Epoch e)" "plain (e_RequestID e)" "plain (e_PolicyDigest e)"
    "plain (e_PayloadDigest e)" "plain (e_ResultDigest e)" by (blast intro: p)+
  from parts(12) show "plain (e_TaskType e)"
    by (auto simp: KnownTask_def plain_char_def alnum_def char_in_def code_def)
qed
lemma decode_MarshalEvent:
  assumes v: "Event_validate e" and i: "int64 (e_At e)" and len: "length (MarshalEvent e) \<le> 2048"
  shows "decode_event (MarshalEvent e) = Inr e"
proof -
  note tx = Event_validate_texts [OF v]
  note k = event_keys(3) [unfolded event_fields_def, simplified]
  have "list_all read_member (event_members e)"
    using k tx by (simp add: event_members_def read_members plain_valid)
  then have "strict_decode (object_text (event_members e)) 2048 event_fields = Inr (object_members (event_members e))"
    using event_keys(1) [of e] event_keys(2) len by (intro strict_decode_object) (simp_all add: MarshalEvent_members event_members_def)
  then show ?thesis
    using i by (simp add: decode_event_def MarshalEvent_members event_members_def Let_def)
      (use v in \<open>simp add: Event_validate_def\<close>)
qed

text \<open>A log as \<open>Append\<close> leaves it: the rows are in order, so reading them back in order is the identity.\<close>

lemma verify_rows_sequence:
  "verify_rows C n p rs = Inr (m, q) \<Longrightarrow>
     m = n + int (length rs) \<and> map ae_sequence rs = map (\<lambda>i. n + 1 + int i) [0..<length rs]"
proof (induction rs arbitrary: n p)
  case Nil
  then show ?case by simp
next
  case (Cons r rs)
  then have rec: "verify_rows C (n + 1) (ae_hash r) rs = Inr (m, q)" and s: "ae_sequence r = n + 1"
    by (auto simp: result_simps split: if_splits)
  from Cons.IH [OF rec] s show ?case
    by (auto simp: map_upt_Suc simp del: upt_Suc)
qed

lemma verify_rows_append:
  "verify_rows C n p (rs @ ss) = andThen (verify_rows C n p rs) (\<lambda>(m, q). verify_rows C m q ss)"
proof (induction rs arbitrary: n p)
  case (Cons r rs)
  then show ?case by (cases "decode_event (ae_event r)") auto
qed simp

definition in_order :: "audit_log \<Rightarrow> bool" where
  "in_order L \<longleftrightarrow> sorted (map ae_sequence (al_events L))"

definition log_ok :: "crypto \<Rightarrow> audit_log \<Rightarrow> bool" where
  "log_ok C L \<longleftrightarrow> audit_Verify C L \<and> in_order L \<and> distinct (decisions (al_events L))"

lemma sort_key_sorted: "sorted (map f xs) \<Longrightarrow> sort_key f xs = xs"
  by (induction xs) (auto simp: insort_is_Cons)

lemma ordered_rows_in_order: "in_order L \<Longrightarrow> ordered_rows L = al_events L"
  by (simp add: ordered_rows_def in_order_def sort_key_sorted)

lemma audit_Verify_in_order:
  assumes "in_order L" "length (al_events L) \<le> nat Capacity + 1"
  shows "audit_Verify C L \<longleftrightarrow> 0 \<le> al_sequence L \<and> al_sequence L + al_reserved L \<le> Capacity \<and> 0 \<le> al_reserved L
    \<and> verify_rows C 0 genesis (al_events L) = Inr (al_sequence L, al_hash L)"
  using assms by (auto simp: audit_Verify_def ordered_rows_in_order split: sum.splits)

lemma log_ok_rows:
  assumes "log_ok C L"
  shows "verify_rows C 0 genesis (al_events L) = Inr (al_sequence L, al_hash L)"
    and "int (length (al_events L)) = al_sequence L" and "al_sequence L + al_reserved L \<le> Capacity"
    and "0 \<le> al_reserved L"
proof -
  have io: "in_order L" and v: "audit_Verify C L" using assms by (simp_all add: log_ok_def)
  from v have b: "al_sequence L + al_reserved L \<le> Capacity" "0 \<le> al_reserved L" "0 \<le> al_sequence L"
    and r: "verify_rows C 0 genesis (take (nat Capacity + 1) (al_events L)) = Inr (al_sequence L, al_hash L)"
    using io by (auto simp: audit_Verify_def ordered_rows_in_order split: sum.splits)
  from verify_rows_sequence [OF r] have "int (length (take (nat Capacity + 1) (al_events L))) = al_sequence L"
    by simp
  with b have "length (al_events L) \<le> nat Capacity" by (auto simp: min_def Capacity_def split: if_splits)
  with r verify_rows_sequence [OF r] show "verify_rows C 0 genesis (al_events L) = Inr (al_sequence L, al_hash L)"
    and "int (length (al_events L)) = al_sequence L" by simp_all
  from b show "al_sequence L + al_reserved L \<le> Capacity" "0 \<le> al_reserved L" by simp_all
qed

lemma log_ok_intro:
  assumes "verify_rows C 0 genesis (al_events L) = Inr (al_sequence L, al_hash L)"
    and "al_sequence L + al_reserved L \<le> Capacity" "0 \<le> al_reserved L" "distinct (decisions (al_events L))"
  shows "log_ok C L"
proof -
  from verify_rows_sequence [OF assms(1)]
  have m: "map ae_sequence (al_events L) = map (\<lambda>i. 0 + 1 + int i) [0..<length (al_events L)]"
    and n: "al_sequence L = int (length (al_events L))" by simp_all
  have io: "in_order L" unfolding in_order_def m by (simp add: sorted_iff_nth_mono)
  have "length (al_events L) \<le> nat Capacity + 1" using n assms(2,3) by (simp add: Capacity_def)
  with io assms n show ?thesis by (simp add: log_ok_def audit_Verify_in_order)
qed

text \<open>\<open>Append\<close> keeps the log verified. The event has to fit the 2048 bytes that reading it back allows;
  \<open>event_fits\<close> says so of the event as it is written.\<close>

definition event_fits :: "instant \<Rightarrow> Event \<Rightarrow> bool" where
  "event_fits now e \<longleftrightarrow> int64 (e_At e) \<and> length (MarshalEvent (stamp now e)) \<le> 2048"

lemma Append_log_ok [wf_intros]:
  assumes ok: "log_ok C L" and ap: "Append C now e d L = Inr L'" and fits: "event_fits now e"
  shows "log_ok C L'"
proof (rule log_ok_intro)
  note a = Append_eq_Inr [OF ap]
  let ?e = "stamp now e"
  have dec: "decode_event (MarshalEvent ?e) = Inr ?e"
    using a(5) fits by (intro decode_MarshalEvent) (simp_all add: event_fits_def stamp_int64)
  show "verify_rows C 0 genesis (al_events L') = Inr (al_sequence L', al_hash L')"
    unfolding a(1,3,4) verify_rows_append log_ok_rows(1) [OF ok] by (simp add: event_row_of_def dec)
  show "al_sequence L' + al_reserved L' \<le> Capacity" "0 \<le> al_reserved L'" using a by simp_all
  show "distinct (decisions (al_events L'))"
    using Append_decisions(2) [OF ap] ok by (simp add: log_ok_def)
qed

lemma log_ok_Initialize: "log_ok C audit_Initialize"
  by (rule log_ok_intro) (simp_all add: audit_Initialize_def decisions_def Capacity_def)

subsection \<open>Which events fit\<close>

text \<open>Every source the two programs record is a peer address, the server's origin, \<open>local\<close> or a fixed word:
  plain bytes, colons, slashes and brackets. Such an event always fits.\<close>

definition source_char :: "char \<Rightarrow> bool" where
  "source_char c \<longleftrightarrow> plain_char c \<or> c \<in> set '':/[]''"

definition source_ok :: "string \<Rightarrow> bool" where
  "source_ok s \<longleftrightarrow> list_all source_char s"

lemma source_local [simp]: "source_ok ''local''"
  by (simp add: source_ok_def source_char_def plain_char_def alnum_def char_in_def code_def)

lemma quote_body_source: "list_all source_char s \<Longrightarrow> quote_body s = s"
proof (rule quote_body_fix)
  have "quote_char (CHR '':'') = '':''" "quote_char (CHR ''/'') = ''/''" "quote_char (CHR ''['') = ''[''"
    "quote_char (CHR '']'') = '']''" "code (CHR '':'') < 128" "code (CHR ''/'') < 128" "code (CHR ''['') < 128"
    "code (CHR '']'') < 128"
    by (simp_all add: quote_char_def code_def)
  then show "list_all source_char s \<Longrightarrow> list_all (\<lambda>c. quote_char c = [c] \<and> code c < 128) s"
    by (auto simp: list_all_iff source_char_def quote_char_plain)
qed

lemma Event_validate_lengths:
  assumes "Event_validate e"
  shows "length (e_Kind e) \<le> 40" "length (e_AgentID e) \<le> 32" "length (e_Epoch e) \<le> 32" "length (e_RequestID e) \<le> 32"
    "length (e_TaskType e) \<le> 14" "length (e_ActorID e) \<le> 64" "length (e_Source e) \<le> 256" "length (e_Status e) \<le> 32"
    "length (e_Code e) \<le> 64" "length (e_PolicyDigest e) \<le> 64" "length (e_PayloadDigest e) \<le> 64"
    "length (e_ResultDigest e) \<le> 64"
proof -
  note p = Event_validate_parts [OF assms]
  have l: "length v \<le> n" if "v = '''' \<or> Hex v n" for v n using that by (auto simp: Hex_def)
  from p show "length (e_Kind e) \<le> 40" "length (e_ActorID e) \<le> 64" "length (e_Status e) \<le> 32"
    "length (e_Code e) \<le> 64" "length (e_Source e) \<le> 256"
    by (simp_all add: audit_identifier_def CleanText_def)
  from p show "length (e_AgentID e) \<le> 32" "length (e_Epoch e) \<le> 32" "length (e_RequestID e) \<le> 32"
    "length (e_PolicyDigest e) \<le> 64" "length (e_PayloadDigest e) \<le> 64" "length (e_ResultDigest e) \<le> 64"
    by (blast intro: l)+
  from p(12) show "length (e_TaskType e) \<le> 14" by (auto simp: KnownTask_def)
qed
lemma event_fitsI:
  assumes v: "Event_validate (stamp now e)" and i: "int64 (e_At e)" and s: "source_ok (e_Source e)"
  shows "event_fits now e"
proof -
  let ?e = "stamp now e"
  have "e_Source ?e = e_Source e" by (simp add: stamp_def)
  with s have "length (json_string (e_Source ?e)) = length (e_Source ?e) + 2"
    by (simp add: json_string_def quote_body_source source_ok_def)
  then have "length (MarshalEvent ?e) \<le> 2048"
    using Event_validate_texts [OF v] Event_validate_lengths [OF v] length_show_int [OF stamp_int64 [OF i, of now]]
      event_keys(3) [unfolded event_fields_def, simplified]
    by (simp add: MarshalEvent_members length_object_text event_members_def length_json_string_plain)
  with i show ?thesis by (simp add: event_fits_def)
qed

subsection \<open>Tamper evidence\<close>

lemma verify_rows_snoc:
  assumes "verify_rows C n p (rs @ [r]) = Inr (m, q)"
  obtains e where "verify_rows C n p rs = Inr (m - 1, ae_previous r)" "decode_event (ae_event r) = Inr e"
    "r = \<lparr>ae_sequence = m, ae_event = ae_event r, ae_previous = ae_previous r, ae_hash = q, ae_kind = e_Kind e,
         ae_agent = e_AgentID e, ae_request = e_RequestID e\<rparr>" "q = chain C (ae_previous r) (ae_event r)"
  using assms by (cases r) (auto simp: verify_rows_append result_simps split: if_splits)

lemma verify_rows_hash_length:
  assumes "sha256_spec C" "verify_rows C n p rs = Inr (m, q)" "length p = 64"
  shows "length q = 64"
proof (cases rs rule: rev_cases)
  case Nil
  with assms show ?thesis by simp
next
  case (snoc ss r)
  with assms(2) verify_rows_snoc have "q = chain C (ae_previous r) (ae_event r)" by metis
  then show ?thesis using Hex_Digest [OF assms(1)] by (simp add: chain_def Hex_def)
qed

lemma chain_eqD:
  assumes "chain C p x = chain C q y" "length p = length q"
  shows "(p = q \<and> x = y) \<or> (\<exists>u v. collision C u v)"
  using Digest_eqD [OF assms(1) [unfolded chain_def]] assms(2) by (auto simp: append_eq_append_conv)

lemma verify_rows_unique:
  assumes "sha256_spec C" "length p = 64"
    and "verify_rows C n p rs = Inr (m, q)" "verify_rows C n p ss = Inr (m, q)"
  shows "rs = ss \<or> (\<exists>u v. collision C u v)"
  using assms(3,4)
proof (induction rs arbitrary: ss m q rule: rev_induct)
  case Nil
  then show ?case using verify_rows_sequence [of C n p ss m q] by auto
next
  case (snoc r rs)
  from verify_rows_sequence [OF snoc.prems(1)] verify_rows_sequence [OF snoc.prems(2)]
  have "length ss = length (rs @ [r])" by simp
  then obtain ss' s where ss: "ss = ss' @ [s]" by (cases ss rule: rev_cases) auto
  from snoc.prems(1) obtain e where r: "verify_rows C n p rs = Inr (m - 1, ae_previous r)"
    "decode_event (ae_event r) = Inr e" "q = chain C (ae_previous r) (ae_event r)"
    "r = \<lparr>ae_sequence = m, ae_event = ae_event r, ae_previous = ae_previous r, ae_hash = q, ae_kind = e_Kind e,
         ae_agent = e_AgentID e, ae_request = e_RequestID e\<rparr>"
    by (rule verify_rows_snoc) blast
  from snoc.prems(2) [unfolded ss] obtain f where s: "verify_rows C n p ss' = Inr (m - 1, ae_previous s)"
    "decode_event (ae_event s) = Inr f" "q = chain C (ae_previous s) (ae_event s)"
    "s = \<lparr>ae_sequence = m, ae_event = ae_event s, ae_previous = ae_previous s, ae_hash = q, ae_kind = e_Kind f,
         ae_agent = e_AgentID f, ae_request = e_RequestID f\<rparr>"
    by (rule verify_rows_snoc) blast
  have "length (ae_previous r) = length (ae_previous s)"
    using verify_rows_hash_length [OF assms(1) r(1) assms(2)] verify_rows_hash_length [OF assms(1) s(1) assms(2)] by simp
  with chain_eqD [of C "ae_previous r" "ae_event r" "ae_previous s" "ae_event s"] r(3) s(3)
  consider "ae_previous r = ae_previous s" "ae_event r = ae_event s" | "\<exists>u v. collision C u v" by auto
  then show ?case
  proof cases
    case 1
    with r s have "r = s" by (metis Inr_inject)
    moreover from 1 snoc.IH [OF r(1)] s(1) have "rs = ss' \<or> (\<exists>u v. collision C u v)" by simp
    ultimately show ?thesis by (auto simp: ss)
  qed simp
qed

subsection \<open>Reservations\<close>

text \<open>
  What a store relies on. \<open>append e d\<close> is one entry that changes the reserved slots by \<open>d\<close>;
  \<open>ready e s\<close> is what makes the entry acceptable apart from its size (a valid event, a sound log and no
  earlier decision on the same request).
\<close>

locale reserving_log =
  fixes append :: "'e \<Rightarrow> int \<Rightarrow> 's \<Rightarrow> 's result"
    and used :: "'s \<Rightarrow> int" and reserved :: "'s \<Rightarrow> int" and ready :: "'e \<Rightarrow> 's \<Rightarrow> bool" and capacity :: int
  assumes append_used: "append e d s = Inr t \<Longrightarrow> used t = used s + 1"
    and append_reserved: "append e d s = Inr t \<Longrightarrow> reserved t = reserved s + d"
    and append_bound: "append e d s = Inr t \<Longrightarrow> 0 \<le> reserved t \<and> used t + reserved t \<le> capacity"
    and append_total: "ready e s \<Longrightarrow> 0 \<le> reserved s + d \<Longrightarrow> used s + 1 + (reserved s + d) \<le> capacity
      \<Longrightarrow> \<exists>t. append e d s = Inr t"
begin

text \<open>Consuming a reserved slot always succeeds: the entry takes the slot that was kept for it.\<close>

lemma consume_succeeds:
  assumes "ready e s" "used s + reserved s \<le> capacity" "0 < reserved s"
  shows "\<exists>t. append e (- 1) s = Inr t"
  using append_total [OF assms(1), of "- 1"] assms(2,3) by simp

text \<open>A sequence of entries, each with its own change of the reservation.\<close>

definition append_all :: "('e \<times> int) list \<Rightarrow> 's \<Rightarrow> 's result" where
  "append_all es s = fold_res (\<lambda>(e, d) s. append e d s) es s"

lemma append_all_account:
  "append_all es s = Inr t \<Longrightarrow>
     used t = used s + int (length es) \<and> reserved t = reserved s + sum_list (map snd es)"
proof (induction es arbitrary: s)
  case Nil
  then show ?case by (simp add: append_all_def)
next
  case (Cons x es)
  then obtain u where "append (fst x) (snd x) s = Inr u" "append_all es u = Inr t"
    by (auto simp: append_all_def result_simps split_beta)
  with Cons.IH [of u] append_used append_reserved show ?case by fastforce
qed

lemma append_all_bound:
  "append_all es s = Inr t \<Longrightarrow> 0 \<le> reserved s \<and> used s + reserved s \<le> capacity
     \<Longrightarrow> 0 \<le> reserved t \<and> used t + reserved t \<le> capacity"
  unfolding append_all_def by (erule fold_res_invariant) (auto dest: append_bound)

end

definition append_ready :: "crypto \<Rightarrow> instant \<Rightarrow> Event \<Rightarrow> audit_log \<Rightarrow> bool" where
  "append_ready C now e L \<longleftrightarrow> log_ok C L \<and> Hex (al_hash L) 64 \<and> Event_validate (stamp now e)
     \<and> (decision_kind (e_Kind e) \<longrightarrow> (e_AgentID e, e_RequestID e) \<notin> set (decisions (al_events L)))"

lemma log_ok_last:
  assumes "log_ok C L" "0 < al_sequence L"
  shows "\<exists>r. find (\<lambda>r. ae_sequence r = al_sequence L) (al_events L) = Some r \<and> ae_hash r = al_hash L"
proof -
  from log_ok_rows [OF assms(1)] assms(2) obtain rs r where rs: "al_events L = rs @ [r]"
    by (cases "al_events L" rule: rev_cases) auto
  note v = log_ok_rows(1) [OF assms(1), unfolded rs]
  from verify_rows_snoc [OF v] have r: "ae_sequence r = al_sequence L" "ae_hash r = al_hash L"
    and prev: "\<exists>q. verify_rows C 0 genesis rs = Inr (al_sequence L - 1, q)"
    by (metis event_row.select_convs)+
  from prev obtain q where "verify_rows C 0 genesis rs = Inr (al_sequence L - 1, q)" by blast
  from verify_rows_sequence [OF this] have s: "map ae_sequence rs = map (\<lambda>i. 1 + int i) [0..<length rs]"
    and n: "al_sequence L = int (length rs) + 1" by simp_all
  have "find (\<lambda>x. ae_sequence x = al_sequence L) rs = None"
  proof -
    have "ae_sequence x \<noteq> al_sequence L" if "x \<in> set rs" for x
    proof -
      from that have "ae_sequence x \<in> set (map ae_sequence rs)" by simp
      then show ?thesis unfolding s n by auto
    qed
    then show ?thesis by (simp add: find_None_iff)
  qed
  then have "find (\<lambda>x. ae_sequence x = al_sequence L) (rs @ [r]) = Some r"
    using r by (induction rs) (auto split: if_splits)
  with r rs show ?thesis by simp
qed

lemma Append_total:
  assumes rd: "append_ready C now e L" and b: "0 \<le> al_reserved L + d" "al_sequence L + 1 + (al_reserved L + d) \<le> Capacity"
  shows "\<exists>L'. Append C now e d L = Inr L'"
proof -
  have ok: "log_ok C L" using rd by (simp add: append_ready_def)
  from log_ok_rows [OF ok] have seq: "al_sequence L = int (length (al_events L))" by simp
  have new: "\<not> list_ex (\<lambda>q. ae_sequence q = al_sequence L + 1) (al_events L)"
  proof -
    have "ae_sequence x \<noteq> al_sequence L + 1" if "x \<in> set (al_events L)" for x
    proof -
      from that have "ae_sequence x \<in> set (map ae_sequence (al_events L))" by simp
      then show ?thesis using verify_rows_sequence [OF log_ok_rows(1) [OF ok]] seq by auto
    qed
    then show ?thesis by (auto simp: list_ex_iff)
  qed
  have st: "e_Kind (stamp now e) = e_Kind e" "e_AgentID (stamp now e) = e_AgentID e"
    "e_RequestID (stamp now e) = e_RequestID e" by (simp_all add: stamp_def)
  have hd: "\<not> (al_sequence L > 0 \<and> (case find (\<lambda>r. ae_sequence r = al_sequence L) (al_events L) of
      None \<Rightarrow> True | Some r \<Rightarrow> ae_hash r \<noteq> al_hash L))"
    using log_ok_last [OF ok] by auto
  show ?thesis
    using rd b new hd seq st
    by (simp add: Append_def Let_def insert_event_def append_ready_def)
qed

interpretation log: reserving_log "Append C now" al_sequence al_reserved "append_ready C now" Capacity
  by unfold_locales (auto dest: Append_eq_Inr Append_total)

subsection \<open>Valid events\<close>

lemma log_ok_hash: "sha256_spec C \<Longrightarrow> log_ok C L \<Longrightarrow> Hex (al_hash L) 64"
proof -
  assume C: "sha256_spec C" and ok: "log_ok C L"
  note v = log_ok_rows(1) [OF ok]
  show "Hex (al_hash L) 64"
  proof (cases "al_events L" rule: rev_cases)
    case Nil
    with v have "al_hash L = genesis" by simp
    then show ?thesis by (auto simp: genesis_def Hex_def is_hex_char_def char_in_def list_all_iff code_def)
  next
    case (snoc rs r)
    with v have "verify_rows C 0 genesis (rs @ [r]) = Inr (al_sequence L, al_hash L)" by simp
    then obtain e where "al_hash L = chain C (ae_previous r) (ae_event r)" by (rule verify_rows_snoc)
    with Hex_Digest [OF C] show ?thesis by (simp add: chain_def)
  qed
qed

lemma source_ok_clean: "source_ok s \<Longrightarrow> length s \<le> n \<Longrightarrow> CleanText s n"
proof -
  assume s: "source_ok s" and n: "length s \<le> n"
  have c: "code c < 128 \<and> \<not> control_at (c # r)" if "source_char c" for c r
    using that plain_not_control plain_char_ascii [of c]
    by (auto simp: source_char_def control_at_def code_def)
  then have "runes (\<lambda>t. \<not> control_at t) s = Some (length s)"
    using s by (intro runes_ascii) (auto simp: source_ok_def list_all_iff)
  with n show ?thesis by (simp add: CleanText_def)
qed

lemma task_identifier_audit: "task_identifier s \<Longrightarrow> audit_identifier s 64"
  by (auto simp: task_identifier_def audit_identifier_def list_all_iff)

lemma Task_Validate_ids:
  assumes "Task_Validate t"
  shows "Hex (t_RequestID t) 32" "Hex (t_AgentID t) 32" "Hex (t_EnrollmentEpoch t) 32" "Hex (t_PolicyDigest t) 64"
    "task_identifier (t_ActorID t)" "KnownTask (t_Type t)"
  using assms Task_Validate_known by (auto simp: Task_Validate_def Node_Validate_def)

text \<open>An event about a valid task, with a bounded source, is one that the log takes.\<close>

lemma TaskEvent_valid:
  assumes "Task_Validate t" "source_ok source" "length source \<le> 256" "0 < wrap64 rd" "Hex h 64" "Hex pd 64" "Hex rdg 64"
    "audit_identifier kind 40" "kind \<noteq> ''''" "audit_identifier status 32" "audit_identifier ec 64"
  shows "Event_validate (stamp rd ((TaskEvent kind t source status ec h)\<lparr>e_PolicyDigest := pd, e_ResultDigest := rdg\<rparr>))"
  using Task_Validate_ids [OF assms(1)] assms(2-) task_identifier_audit source_ok_clean
  by (simp add: Event_validate_def stamp_def TaskEvent_def no_event_def)

lemma Result_codes:
  assumes "Result_Validate r"
  shows "audit_identifier (r_Status r) 32" "audit_identifier (r_ErrorCode r) 64"
  using assms unfolding audit_identifier_def
  by (auto simp: Result_Validate_def error_code_ok_def alnum_def char_in_def code_def split: if_splits)

end
