(* ===== verification/Policy.thy ===== *)
theory Policy
  imports Audit_Log "HOL-Library.Char_ord" "HOL-Library.List_Lexorder"
begin

section \<open>Local resources and the probe's policy\<close>

text \<open>
  \<open>internal/resources/resources.go\<close>, the configuration of \<open>internal/collector/collector.go\<close> and
  \<open>internal/policy/policy.go\<close>. The path functions are those of Go's \<open>path\<close> package; strings are
  ordered bytewise, as \<open>sort.Strings\<close> does. \<open>Load\<close> is \<open>Policy_Decode\<close> of the bytes of the file.

  The digest of a policy is shown not to depend on the order in which the administrator lists resources,
  and a policy to allow nothing that it does not spell out.
\<close>

subsection \<open>Slash-separated paths\<close>

text \<open>One component of \<open>path.Clean\<close>; \<open>acc\<close> is the cleaned prefix, last component first.\<close>

definition clean_step :: "bool \<Rightarrow> string \<Rightarrow> string list \<Rightarrow> string list" where
  "clean_step rooted part acc =
     (if part = '''' \<or> part = ''.'' then acc
      else if part = ''..'' then
        (case acc of [] \<Rightarrow> (if rooted then [] else [''..'']) | x # xs \<Rightarrow> if x = ''..'' then ''..'' # acc else xs)
      else part # acc)"

definition path_Clean :: "string \<Rightarrow> string" where
  "path_Clean p =
     (let rooted = has_prefix p ''/'';
          parts = rev (fold (clean_step rooted) (split_on (CHR ''/'') p) [])
      in if rooted then CHR ''/'' # join ''/'' parts
         else if parts = [] then ''.'' else join ''/'' parts)"

definition path_Base :: "string \<Rightarrow> string" where
  "path_Base p =
     (if p = '''' then ''.''
      else let q = rev (dropWhile (\<lambda>c. c = CHR ''/'') (rev p))
        in if q = '''' then ''/'' else rev (takeWhile (\<lambda>c. c \<noteq> CHR ''/'') (rev q)))"

definition path_Join :: "string \<Rightarrow> string \<Rightarrow> string" where
  "path_Join a b = (if a = '''' \<and> b = '''' then ''''
     else path_Clean (if a = '''' then b else if b = '''' then a else a @ ''/'' @ b))"

subsection \<open>Resources\<close>

definition MaxProfiles :: nat where "MaxProfiles = 4"
definition MaxFiles :: nat where "MaxFiles = 4"
definition MaxServices :: nat where "MaxServices = 16"

record SSHFile =
  fl_ID :: string
  fl_Kind :: string
  fl_BaseDir :: string
  fl_RelativePath :: string
  fl_OwnerUID :: int
  fl_OwnerGID :: int
  fl_MaxBytes :: int
  fl_BaselineSHA256 :: string

record SSHProfile =
  sp_ID :: string
  sp_Files :: "SSHFile slice"

record Service =
  sc_ID :: string
  sc_Unit :: string

definition UnitName :: "string \<Rightarrow> bool" where
  "UnitName s \<longleftrightarrow> length s \<le> 128 \<and> has_suffix s ''.service'' \<and> length ''.service'' < length s
     \<and> list_all (\<lambda>c. alnum c \<or> c \<in> set ''_.@-'') s
     \<and> \<not> contains s ''..'' \<and> \<not> has_prefix s ''.'' \<and> \<not> has_suffix s ''@.service''"

definition SSHFile_Validate :: "SSHFile \<Rightarrow> bool" where
  "SSHFile_Validate f \<longleftrightarrow>
     ResourceID (fl_ID f) \<and> CleanText (fl_BaseDir f) 256 \<and> has_prefix (fl_BaseDir f) ''/''
     \<and> path_Clean (fl_BaseDir f) = fl_BaseDir f \<and> CleanText (fl_RelativePath f) 256 \<and> fl_RelativePath f \<noteq> ''''
     \<and> \<not> has_prefix (fl_RelativePath f) ''/'' \<and> path_Clean (fl_RelativePath f) = fl_RelativePath f
     \<and> 1024 \<le> fl_MaxBytes f \<and> fl_MaxBytes f \<le> 65536
     \<and> list_all (\<lambda>part. \<not> (part = ''.'' \<or> part = ''..'' \<or> contains_any part (CHR 0x5C # ''*?[]%~'')))
         (split_on (CHR ''/'') (fl_RelativePath f))
     \<and> list_all (\<lambda>prefix. \<not> (fl_BaseDir f = prefix \<or> has_prefix (fl_BaseDir f) (prefix @ ''/'')))
         [''/proc'', ''/sys'', ''/dev'', ''/run'']
     \<and> (if fl_Kind f = ''sshd_config'' then
          path_Base (fl_RelativePath f) = ''sshd_config''
          \<or> (has_suffix (path_Base (fl_RelativePath f)) ''.conf''
             \<and> contains (''/'' @ fl_RelativePath f) ''/sshd_config.d/'')
        else if fl_Kind f = ''authorized_keys'' then
          path_Base (fl_RelativePath f) = ''authorized_keys'' \<or> path_Base (fl_RelativePath f) = ''authorized_keys2''
        else False)
     \<and> \<not> (fl_BaselineSHA256 f \<noteq> '''' \<and> \<not> Hex (fl_BaselineSHA256 f) 64)"

definition full_path :: "SSHFile \<Rightarrow> string" where
  "full_path f = path_Join (fl_BaseDir f) (fl_RelativePath f)"

text \<open>The loop keeps two sets, of identifiers and of full paths.\<close>

definition SSHProfile_Validate :: "SSHProfile \<Rightarrow> bool" where
  "SSHProfile_Validate p \<longleftrightarrow>
     ResourceID (sp_ID p) \<and> sp_Files p \<noteq> None \<and> 1 \<le> length (elems (sp_Files p))
     \<and> length (elems (sp_Files p)) \<le> MaxFiles
     \<and> seen_loop fl_ID SSHFile_Validate {} (elems (sp_Files p))
     \<and> seen_loop full_path (\<lambda>_. True) {} (elems (sp_Files p))"

definition Service_Validate :: "Service \<Rightarrow> bool" where
  "Service_Validate s \<longleftrightarrow> ResourceID (sc_ID s) \<and> UnitName (sc_Unit s)"

definition decode_SSHFile :: "bytes \<Rightarrow> SSHFile result" where
  "decode_SSHFile b = andThen (strict_decode b 2048
       [''id'', ''kind'', ''base_dir'', ''relative_path'', ''owner_uid'', ''owner_gid'', ''max_bytes'',
        ''baseline_sha256'']) (\<lambda>ob.
     andThen (get_str ob ''id'') (\<lambda>i. andThen (get_str ob ''kind'') (\<lambda>k.
     andThen (get_str ob ''base_dir'') (\<lambda>bd. andThen (get_str ob ''relative_path'') (\<lambda>rp.
     andThen (get_uint 32 ob ''owner_uid'') (\<lambda>u. andThen (get_uint 32 ob ''owner_gid'') (\<lambda>g.
     andThen (get_int ob ''max_bytes'') (\<lambda>m. andThen (get_str ob ''baseline_sha256'') (\<lambda>bl.
       Inr \<lparr>fl_ID = i, fl_Kind = k, fl_BaseDir = bd, fl_RelativePath = rp, fl_OwnerUID = u, fl_OwnerGID = g,
            fl_MaxBytes = m, fl_BaselineSHA256 = bl\<rparr>)))))))))"

definition DecodeProfile :: "bytes \<Rightarrow> SSHProfile result" where
  "DecodeProfile data = andThen (strict_decode data 16384 [''id'', ''files'']) (\<lambda>ob.
     andThen (get_str ob ''id'') (\<lambda>i. andThen (get_arr ob ''files'') (\<lambda>fs.
       if length fs > MaxFiles then Inl (Err ''too many SSH files'')
       else andThen (map_res (\<lambda>v. decode_SSHFile (raw_of v)) fs) (\<lambda>files.
         let p = \<lparr>sp_ID = i, sp_Files = Some files\<rparr>
         in if SSHProfile_Validate p then Inr p else Inl (Err ''invalid local SSH profile'')))))"

definition DecodeService :: "bytes \<Rightarrow> Service result" where
  "DecodeService data = andThen (strict_decode data 512 [''id'', ''unit'']) (\<lambda>ob.
     andThen (get_str ob ''id'') (\<lambda>i. andThen (get_str ob ''unit'') (\<lambda>u.
       let s = \<lparr>sc_ID = i, sc_Unit = u\<rparr>
       in if Service_Validate s then Inr s else Inl (Err ''invalid local service mapping''))))"

subsection \<open>Telemetry configuration\<close>

record Config =
  cf_IntervalSeconds :: int
  cf_SampleMilliseconds :: int
  cf_DiskPaths :: "string slice"
  cf_NetworkInterfaces :: "string slice"

definition Config_Validate :: "Config \<Rightarrow> bool" where
  "Config_Validate c \<longleftrightarrow>
     \<not> (cf_IntervalSeconds c < 10 \<or> cf_IntervalSeconds c > 300 \<or> cf_SampleMilliseconds c < 100
        \<or> cf_SampleMilliseconds c > 5000 \<or> cf_DiskPaths c = None \<or> cf_NetworkInterfaces c = None
        \<or> length (elems (cf_DiskPaths c)) > 8 \<or> length (elems (cf_NetworkInterfaces c)) > 16)
     \<and> seen_loop id (\<lambda>p. CleanText p 256 \<and> has_prefix p ''/'' \<and> path_Clean p = p) {} (elems (cf_DiskPaths c))
     \<and> seen_loop id (\<lambda>n. CleanText n 15 \<and> n \<noteq> '''' \<and> \<not> contains_any n ''/: '') {} (elems (cf_NetworkInterfaces c))"

definition DecodeConfig :: "bytes \<Rightarrow> Config result" where
  "DecodeConfig b = andThen (strict_decode b 4096
       [''interval_seconds'', ''sample_milliseconds'', ''disk_paths'', ''network_interfaces'']) (\<lambda>ob.
     andThen (get_int ob ''interval_seconds'') (\<lambda>i. andThen (get_int ob ''sample_milliseconds'') (\<lambda>s.
     andThen (get_strs ob ''disk_paths'') (\<lambda>d. andThen (get_strs ob ''network_interfaces'') (\<lambda>n.
       let c = \<lparr>cf_IntervalSeconds = i, cf_SampleMilliseconds = s, cf_DiskPaths = Some d,
                cf_NetworkInterfaces = Some n\<rparr>
       in if Config_Validate c then Inr c else Inl (Err ''invalid local telemetry limits''))))))"

subsection \<open>Policies\<close>

record Policy =
  p_Version :: int
  p_Paused :: bool
  p_AllowSystemInfo :: bool
  p_AllowSystemMetrics :: bool
  p_PollSeconds :: int
  p_TimeoutSeconds :: int
  p_MaxPerMinute :: int
  p_Burst :: int
  p_MaxResultBytes :: int
  p_PendingBytes :: int
  p_Telemetry :: Config
  p_AllowSSHAudit :: bool
  p_AllowServiceStatus :: bool
  p_SSHProfiles :: "SSHProfile slice"
  p_Services :: "Service slice"

definition Policy_Validate :: "Policy \<Rightarrow> bool" where
  "Policy_Validate p \<longleftrightarrow>
     \<not> ((p_Version p \<noteq> 1 \<and> p_Version p \<noteq> 2) \<or> p_PollSeconds p < 5 \<or> p_PollSeconds p > 60
        \<or> p_TimeoutSeconds p < 1 \<or> p_TimeoutSeconds p > 30 \<or> p_MaxPerMinute p < 1 \<or> p_MaxPerMinute p > 30
        \<or> p_Burst p < 1 \<or> p_Burst p > 5 \<or> p_Burst p > p_MaxPerMinute p \<or> p_MaxResultBytes p < 1024
        \<or> p_MaxResultBytes p > 16384 \<or> p_PendingBytes p < p_MaxResultBytes p
        \<or> p_PendingBytes p > 32 * 1024 * 1024)
     \<and> \<not> (p_Version p = 1 \<and> (p_AllowSSHAudit p \<or> p_AllowServiceStatus p \<or> p_SSHProfiles p \<noteq> None
          \<or> p_Services p \<noteq> None))
     \<and> (p_Version p = 2 \<longrightarrow>
          \<not> (p_SSHProfiles p = None \<or> p_Services p = None \<or> length (elems (p_SSHProfiles p)) > MaxProfiles
             \<or> length (elems (p_Services p)) > MaxServices)
          \<and> seen_loop sp_ID SSHProfile_Validate {} (elems (p_SSHProfiles p))
          \<and> seen_loop sc_ID Service_Validate {} (elems (p_Services p)))
     \<and> Config_Validate (p_Telemetry p)"

definition Policy_Decode :: "bytes \<Rightarrow> Policy result" where
  "Policy_Decode data =
     (if length data > 32768 then Inl (Err ''policy too large'')
      else andThen (header_version data) (\<lambda>hv.
        let v2 = (hv = 2) in
        andThen (strict_decode data 32768
          ([''version'', ''paused'', ''allow_system_info'', ''allow_system_metrics'', ''poll_seconds'',
            ''timeout_seconds'', ''max_per_minute'', ''burst'', ''max_result_bytes'', ''pending_bytes'', ''telemetry'']
           @ (if v2 then [''allow_ssh_audit'', ''allow_service_status'', ''ssh_profiles'', ''services''] else []))) (\<lambda>ob.
        andThen (get_int ob ''version'') (\<lambda>v. andThen (get_bool ob ''paused'') (\<lambda>pa.
        andThen (get_bool ob ''allow_system_info'') (\<lambda>ai. andThen (get_bool ob ''allow_system_metrics'') (\<lambda>am.
        andThen (get_int ob ''poll_seconds'') (\<lambda>ps. andThen (get_int ob ''timeout_seconds'') (\<lambda>ts.
        andThen (get_int ob ''max_per_minute'') (\<lambda>mm. andThen (get_int ob ''burst'') (\<lambda>bu.
        andThen (get_int ob ''max_result_bytes'') (\<lambda>mr. andThen (get_int ob ''pending_bytes'') (\<lambda>pb.
        andThen (get_raw ob ''telemetry'') (\<lambda>rt.
        andThen (if v2 then get_bool ob ''allow_ssh_audit'' else Inr False) (\<lambda>sa.
        andThen (if v2 then get_bool ob ''allow_service_status'' else Inr False) (\<lambda>ss.
        andThen (if v2 then get_arr ob ''ssh_profiles'' else Inr []) (\<lambda>rp.
        andThen (if v2 then get_arr ob ''services'' else Inr []) (\<lambda>rs.
        andThen (DecodeConfig rt) (\<lambda>c.
        andThen (if v \<noteq> 2 then Inr (None, None)
           else if length rp > MaxProfiles \<or> length rs > MaxServices then Inl (Err ''too many local resources'')
           else andThen (map_res (\<lambda>b. DecodeProfile (raw_of b)) rp) (\<lambda>profiles.
             andThen (map_res (\<lambda>b. DecodeService (raw_of b)) rs) (\<lambda>services.
               Inr (Some profiles, Some services)))) (\<lambda>(profiles, services).
          let p = \<lparr>p_Version = v, p_Paused = pa, p_AllowSystemInfo = ai, p_AllowSystemMetrics = am,
                   p_PollSeconds = ps, p_TimeoutSeconds = ts, p_MaxPerMinute = mm, p_Burst = bu,
                   p_MaxResultBytes = mr, p_PendingBytes = pb, p_Telemetry = c, p_AllowSSHAudit = sa,
                   p_AllowServiceStatus = ss, p_SSHProfiles = profiles, p_Services = services\<rparr>
          in if Policy_Validate p then Inr p else Inl (Err ''invalid local policy'')))))))))))))))))))))"

definition marshal_strings :: "string slice \<Rightarrow> string" where
  "marshal_strings s = (case s of None \<Rightarrow> ''null'' | Some xs \<Rightarrow> json_array (map json_string xs))"

definition marshal_Config :: "Config \<Rightarrow> string" where
  "marshal_Config c = json_object
     [(''interval_seconds'', show_int (cf_IntervalSeconds c)),
      (''sample_milliseconds'', show_int (cf_SampleMilliseconds c)),
      (''disk_paths'', marshal_strings (cf_DiskPaths c)),
      (''network_interfaces'', marshal_strings (cf_NetworkInterfaces c))]"

definition marshal_SSHFile :: "SSHFile \<Rightarrow> string" where
  "marshal_SSHFile f = json_object
     [(''id'', json_string (fl_ID f)), (''kind'', json_string (fl_Kind f)), (''base_dir'', json_string (fl_BaseDir f)),
      (''relative_path'', json_string (fl_RelativePath f)), (''owner_uid'', show_int (fl_OwnerUID f)),
      (''owner_gid'', show_int (fl_OwnerGID f)), (''max_bytes'', show_int (fl_MaxBytes f)),
      (''baseline_sha256'', json_string (fl_BaselineSHA256 f))]"

definition marshal_slice :: "('a \<Rightarrow> string) \<Rightarrow> 'a slice \<Rightarrow> string" where
  "marshal_slice f s = (case s of None \<Rightarrow> ''null'' | Some xs \<Rightarrow> json_array (map f xs))"

definition marshal_SSHProfile :: "SSHProfile \<Rightarrow> string" where
  "marshal_SSHProfile p = json_object
     [(''id'', json_string (sp_ID p)), (''files'', marshal_slice marshal_SSHFile (sp_Files p))]"

definition marshal_Service :: "Service \<Rightarrow> string" where
  "marshal_Service s = json_object [(''id'', json_string (sc_ID s)), (''unit'', json_string (sc_Unit s))]"

text \<open>\<open>MarshalJSON\<close>: version 2 prints its four further fields always, other versions only when they are
  not empty.\<close>

definition Policy_MarshalJSON :: "Policy \<Rightarrow> string" where
  "Policy_MarshalJSON p =
     (let base = [(''version'', show_int (p_Version p)), (''paused'', json_bool (p_Paused p)),
        (''allow_system_info'', json_bool (p_AllowSystemInfo p)),
        (''allow_system_metrics'', json_bool (p_AllowSystemMetrics p)),
        (''poll_seconds'', show_int (p_PollSeconds p)), (''timeout_seconds'', show_int (p_TimeoutSeconds p)),
        (''max_per_minute'', show_int (p_MaxPerMinute p)), (''burst'', show_int (p_Burst p)),
        (''max_result_bytes'', show_int (p_MaxResultBytes p)), (''pending_bytes'', show_int (p_PendingBytes p)),
        (''telemetry'', marshal_Config (p_Telemetry p))];
        always = (p_Version p = 2)
      in json_object (base
        @ (if always \<or> p_AllowSSHAudit p then [(''allow_ssh_audit'', json_bool (p_AllowSSHAudit p))] else [])
        @ (if always \<or> p_AllowServiceStatus p then [(''allow_service_status'', json_bool (p_AllowServiceStatus p))] else [])
        @ (if always \<or> elems (p_SSHProfiles p) \<noteq> []
           then [(''ssh_profiles'', marshal_slice marshal_SSHProfile (p_SSHProfiles p))] else [])
        @ (if always \<or> elems (p_Services p) \<noteq> []
           then [(''services'', marshal_slice marshal_Service (p_Services p))] else [])))"

text \<open>The sorted copy that \<open>Digest\<close> prints. \<open>sort.Slice\<close> is not stable, but the identifiers of a
  valid policy are distinct, so the order it produces is the only one.\<close>

definition canonical_profile :: "SSHProfile \<Rightarrow> SSHProfile" where
  "canonical_profile pr = pr\<lparr>sp_Files := Some (sort_key fl_ID (elems (sp_Files pr)))\<rparr>"

definition canonical_config :: "Config \<Rightarrow> Config" where
  "canonical_config c = c\<lparr>cf_DiskPaths := Some (sort (elems (cf_DiskPaths c))),
     cf_NetworkInterfaces := Some (sort (elems (cf_NetworkInterfaces c)))\<rparr>"

definition canonical_policy :: "Policy \<Rightarrow> Policy" where
  "canonical_policy p =
     (let q = p\<lparr>p_Telemetry := canonical_config (p_Telemetry p)\<rparr>
      in if p_Version p = 2 then
           q\<lparr>p_Services := Some (sort_key sc_ID (elems (p_Services p))),
             p_SSHProfiles := Some (map canonical_profile (sort_key sp_ID (elems (p_SSHProfiles p))))\<rparr>
         else q)"

definition policy_domain :: "Policy \<Rightarrow> string" where
  "policy_domain p = (if p_Version p = 2 then ''argus-c2/policy/v2'' @ [CHR 0x00] else ''argus-c2/policy/v1'' @ [CHR 0x00])"

definition Policy_Digest :: "crypto \<Rightarrow> Policy \<Rightarrow> string result" where
  "Policy_Digest C p =
     (if \<not> Policy_Validate p then Inl (Err ''invalid local policy'')
      else Inr (Digest C (policy_domain p @ Policy_MarshalJSON (canonical_policy p))))"

definition Policy_Allows :: "Policy \<Rightarrow> TaskType \<Rightarrow> bool" where
  "Policy_Allows p kind \<longleftrightarrow> \<not> p_Paused p
     \<and> (kind = SystemInfo \<and> p_AllowSystemInfo p \<or> kind = SystemMetrics \<and> p_AllowSystemMetrics p
        \<or> kind = SSHAudit \<and> p_Version p = 2 \<and> p_AllowSSHAudit p
        \<or> kind = ServiceStatus \<and> p_Version p = 2 \<and> p_AllowServiceStatus p)"

definition Policy_SSHProfile :: "Policy \<Rightarrow> string \<Rightarrow> SSHProfile option" where
  "Policy_SSHProfile p i = find (\<lambda>v. sp_ID v = i) (elems (p_SSHProfiles p))"

definition Policy_Service :: "Policy \<Rightarrow> string \<Rightarrow> Service option" where
  "Policy_Service p i = find (\<lambda>v. sc_ID v = i) (elems (p_Services p))"

definition AllowsResource :: "Policy \<Rightarrow> Task \<Rightarrow> bool" where
  "AllowsResource p t =
     (if t_Type t = SSHAudit then
        (case Task_Resource t of Inl _ \<Rightarrow> False | Inr i \<Rightarrow> Policy_SSHProfile p i \<noteq> None)
      else if t_Type t = ServiceStatus then
        (case Task_Resource t of Inl _ \<Rightarrow> False | Inr i \<Rightarrow> Policy_Service p i \<noteq> None)
      else t_Type t = SystemInfo \<or> t_Type t = SystemMetrics)"

subsection \<open>Laws\<close>

text \<open>Two policies that differ only in the order in which they list resources.\<close>

definition reordered :: "Policy \<Rightarrow> Policy \<Rightarrow> bool" where
  "reordered p q \<longleftrightarrow>
     q = p\<lparr>p_Telemetry := (p_Telemetry p)\<lparr>cf_DiskPaths := cf_DiskPaths (p_Telemetry q),
             cf_NetworkInterfaces := cf_NetworkInterfaces (p_Telemetry q)\<rparr>,
           p_SSHProfiles := p_SSHProfiles q, p_Services := p_Services q\<rparr>
     \<and> mset (elems (cf_DiskPaths (p_Telemetry p))) = mset (elems (cf_DiskPaths (p_Telemetry q)))
     \<and> mset (elems (cf_NetworkInterfaces (p_Telemetry p))) = mset (elems (cf_NetworkInterfaces (p_Telemetry q)))
     \<and> mset (elems (p_Services p)) = mset (elems (p_Services q))
     \<and> mset (map (\<lambda>r. (sp_ID r, mset (elems (sp_Files r)))) (elems (p_SSHProfiles p)))
       = mset (map (\<lambda>r. (sp_ID r, mset (elems (sp_Files r)))) (elems (p_SSHProfiles q)))
     \<and> (p_Version p \<noteq> 2 \<longrightarrow> p_SSHProfiles p = p_SSHProfiles q \<and> p_Services p = p_Services q)"

lemma sort_key_unique:
  assumes "mset xs = mset ys" "distinct (map f xs)"
  shows "sort_key f xs = sort_key f ys"
proof -
  have "inj_on f (set xs)" using assms(2) by (simp add: distinct_map)
  with assms(1) show ?thesis by (intro sort_key_inj_key_eq) simp_all
qed

lemma sort_unique: "mset xs = mset ys \<Longrightarrow> sort xs = sort ys"
  by (simp add: properties_for_sort)

text \<open>A permutation of the profiles, each with its files permuted, has the same canonical profiles.\<close>

lemma canonical_profiles:
  assumes "mset (map (\<lambda>r. (sp_ID r, mset (elems (sp_Files r)))) xs) = mset (map (\<lambda>r. (sp_ID r, mset (elems (sp_Files r)))) ys)"
    and "distinct (map sp_ID xs)" and "\<And>r. r \<in> set xs \<Longrightarrow> distinct (map fl_ID (elems (sp_Files r)))"
  shows "map canonical_profile (sort_key sp_ID xs) = map canonical_profile (sort_key sp_ID ys)"
proof -
  define g where "g r = (sp_ID r, mset (elems (sp_Files r)))" for r :: SSHProfile
  define h where "h k = \<lparr>sp_ID = fst k, sp_Files = Some (sort_key fl_ID (SOME fs. mset fs = snd k))\<rparr>" for k :: "string \<times> SSHFile multiset"
  have canon: "canonical_profile r = h (g r)" if "distinct (map fl_ID (elems (sp_Files r)))" for r
  proof -
    have "mset (SOME fs. mset fs = mset (elems (sp_Files r))) = mset (elems (sp_Files r))"
      by (rule someI [of "\<lambda>fs. mset fs = mset (elems (sp_Files r))"]) simp
    then have "sort_key fl_ID (elems (sp_Files r)) = sort_key fl_ID (SOME fs. mset fs = mset (elems (sp_Files r)))"
      using that by (intro sort_key_unique) simp_all
    then show ?thesis by (simp add: canonical_profile_def h_def g_def)
  qed
  have ins: "insort_key fst (g z) (map g zs) = map g (insort_key sp_ID z zs)" for z zs
    by (induction zs) (simp_all add: g_def)
  have sk: "sort_key fst (map g zs) = map g (sort_key sp_ID zs)" for zs
    by (induction zs) (simp_all add: ins)
  have "distinct (map fst (map g xs))" using assms(2) by (simp add: g_def comp_def)
  then have "sort_key fst (map g xs) = sort_key fst (map g ys)"
    using assms(1) by (intro sort_key_unique) (simp_all add: g_def [abs_def])
  then have eq: "map h (map g (sort_key sp_ID xs)) = map h (map g (sort_key sp_ID ys))" by (simp add: sk)
  have "distinct (map fl_ID (elems (sp_Files r)))" if "r \<in> set ys" for r
  proof -
    have "g r \<in> set (map g xs)"
      using that mset_eq_setD [OF assms(1)] by (auto simp: g_def)
    then obtain x where "x \<in> set xs" "mset (elems (sp_Files x)) = mset (elems (sp_Files r))" by (auto simp: g_def)
    with assms(3) show ?thesis by (metis mset_eq_imp_distinct_iff mset_map)
  qed
  with assms(3) have "map canonical_profile (sort_key sp_ID xs) = map h (map g (sort_key sp_ID xs))"
    and "map canonical_profile (sort_key sp_ID ys) = map h (map g (sort_key sp_ID ys))"
    by (simp_all add: canon)
  with eq show ?thesis by (simp only:)
qed

lemma Policy_Validate_v2:
  assumes "Policy_Validate p" "p_Version p = 2"
  shows "distinct (map sp_ID (elems (p_SSHProfiles p)))" "distinct (map sc_ID (elems (p_Services p)))"
    "r \<in> set (elems (p_SSHProfiles p)) \<Longrightarrow> distinct (map fl_ID (elems (sp_Files r)))"
  using assms by (auto simp: Policy_Validate_def seen_loop_iff SSHProfile_Validate_def list_all_iff)

lemma canonical_policy_reordered:
  assumes "Policy_Validate p" "reordered p q"
  shows "canonical_policy p = canonical_policy q"
proof -
  from assms(2) have q: "q = p\<lparr>p_Telemetry := (p_Telemetry p)\<lparr>cf_DiskPaths := cf_DiskPaths (p_Telemetry q),
             cf_NetworkInterfaces := cf_NetworkInterfaces (p_Telemetry q)\<rparr>,
           p_SSHProfiles := p_SSHProfiles q, p_Services := p_Services q\<rparr>"
    and m: "sort (elems (cf_DiskPaths (p_Telemetry p))) = sort (elems (cf_DiskPaths (p_Telemetry q)))"
      "sort (elems (cf_NetworkInterfaces (p_Telemetry p))) = sort (elems (cf_NetworkInterfaces (p_Telemetry q)))"
    by (auto simp: reordered_def intro: sort_unique)
  have c: "canonical_config (p_Telemetry p) = canonical_config (p_Telemetry q)"
    unfolding canonical_config_def m by (subst (3) q) simp
  have v: "p_Version q = p_Version p" by (subst q) simp
  show ?thesis
  proof (cases "p_Version p = 2")
    case True
    have s: "sort_key sc_ID (elems (p_Services p)) = sort_key sc_ID (elems (p_Services q))"
      using assms Policy_Validate_v2 [OF assms(1) True] by (intro sort_key_unique) (simp_all add: reordered_def)
    have r: "map canonical_profile (sort_key sp_ID (elems (p_SSHProfiles p)))
      = map canonical_profile (sort_key sp_ID (elems (p_SSHProfiles q)))"
      using assms Policy_Validate_v2 [OF assms(1) True] by (intro canonical_profiles) (simp_all add: reordered_def)
    show ?thesis
      unfolding canonical_policy_def Let_def v s r c using True by (subst (3) q) simp
  next
    case False
    then have "p_SSHProfiles p = p_SSHProfiles q" "p_Services p = p_Services q"
      using assms(2) by (auto simp: reordered_def)
    then show ?thesis
      unfolding canonical_policy_def Let_def v c using False by (subst (2) q) simp
  qed
qed

lemma Policy_Validate_v1:
  "Policy_Validate p \<Longrightarrow> p_Version p = 1 \<Longrightarrow> \<not> Policy_Allows p SSHAudit \<and> \<not> Policy_Allows p ServiceStatus"
  by (simp add: Policy_Allows_def)

lemma Policy_limits:
  assumes "Policy_Validate p"
  shows "1 \<le> p_Burst p" "p_Burst p \<le> 5" "p_Burst p \<le> p_MaxPerMinute p" "p_MaxPerMinute p \<le> 30"
    "1024 \<le> p_MaxResultBytes p" "p_MaxResultBytes p \<le> 16384" "p_MaxResultBytes p \<le> p_PendingBytes p"
    "p_PendingBytes p \<le> 32 * 1024 * 1024" "1 \<le> p_TimeoutSeconds p" "p_TimeoutSeconds p \<le> 30"
  using assms by (simp_all add: Policy_Validate_def)

lemma Policy_Decode_valid: "Policy_Decode data = Inr p \<Longrightarrow> Policy_Validate p"
  by (auto simp: Policy_Decode_def Let_def result_simps split: if_splits prod.splits)
end
