(* ===== verification/Signing.thy ===== *)
theory Signing
  imports Policy
begin

section \<open>Task signatures and the trust set\<close>

text \<open>
  \<open>internal/signing\<close>: the trust set that local administration installs (\<open>trust.go\<close>), the two
  envelope formats (\<open>signing.go\<close>, \<open>envelope_v2.go\<close>) and the health report (\<open>health.go\<close>). Reading
  PEM files (\<open>keys.go\<close>) is outside the model: a verification configuration is either a public key or a trust
  set. Ed25519 and SHA-256 are the parameter \<open>C\<close>; the random identifier of a new trust set is an argument.

  Shown here: what is signed verifies, verification binds the whole payload and both identifiers, the two
  formats never sign the same message, and along every chain of trust transitions no retired key returns and
  no key's authority grows.
\<close>

definition MaxTrustBytes :: nat where "MaxTrustBytes = 16 * 1024"
definition MaxRetiredKeys :: nat where "MaxRetiredKeys = 64"
definition MaxSignerOverlap :: int where "MaxSignerOverlap = 24 * 60 * 60"

record TrustKey =
  k_ID :: string
  k_Public :: string
  k_NotBefore :: int
  k_NotAfter :: int
  k_Legacy :: bool

record TrustSet =
  s_Version :: int
  s_ID :: string
  s_Generation :: int
  s_Keys :: "TrustKey list"
  s_Retired :: "string slice"

definition KeyID :: "crypto \<Rightarrow> bytes \<Rightarrow> string" where
  "KeyID C key = hex_EncodeToString (Sum256 C key)"

definition NewTrustKey :: "crypto \<Rightarrow> bytes \<Rightarrow> int \<Rightarrow> int \<Rightarrow> bool \<Rightarrow> TrustKey" where
  "NewTrustKey C key start end legacy = \<lparr>k_ID = KeyID C key, k_Public = b64_EncodeToString key,
     k_NotBefore = start, k_NotAfter = end, k_Legacy = legacy\<rparr>"

definition TrustKey_PublicKey :: "crypto \<Rightarrow> TrustKey \<Rightarrow> bytes result" where
  "TrustKey_PublicKey C k = (case signing_decode (k_Public k) PublicKeySize of
     Inl e \<Rightarrow> Inl (Err ''invalid trust key or key ID'')
   | Inr b \<Rightarrow> if length b \<noteq> PublicKeySize \<or> KeyID C b \<noteq> k_ID k
       then Inl (Err ''invalid trust key or key ID'') else Inr b)"

definition TrustKey_ok :: "crypto \<Rightarrow> TrustKey \<Rightarrow> bool" where
  "TrustKey_ok C k \<longleftrightarrow> is_ok (TrustKey_PublicKey C k) \<and> \<not> (k_NotBefore k \<le> 0 \<or> k_NotAfter k \<le> k_NotBefore k)"

definition overlap_ok :: "TrustKey list \<Rightarrow> bool" where
  "overlap_ok ks = (case ks of
     [a, b] \<Rightarrow> (let start = max (k_NotBefore a) (k_NotBefore b); end = min (k_NotAfter a) (k_NotAfter b)
               in \<not> (end \<le> start \<or> wrap64 (end - start) > MaxSignerOverlap))
   | _ \<Rightarrow> True)"

definition TrustSet_Validate :: "crypto \<Rightarrow> TrustSet \<Rightarrow> bool" where
  "TrustSet_Validate C s \<longleftrightarrow>
     \<not> (s_Version s \<noteq> 1 \<or> \<not> Hex (s_ID s) 32 \<or> s_Generation s < 1
        \<or> s_Generation s > 2 * int MaxRetiredKeys + 1 \<or> length (s_Keys s) < 1 \<or> length (s_Keys s) > 2
        \<or> s_Retired s = None \<or> length (elems (s_Retired s)) > MaxRetiredKeys)
     \<and> seen_loop id (\<lambda>i. Hex i 64) {} (elems (s_Retired s))
     \<and> seen_loop k_ID (TrustKey_ok C) (set (elems (s_Retired s))) (s_Keys s)
     \<and> length (filter k_Legacy (s_Keys s)) \<le> 1
     \<and> overlap_ok (s_Keys s)"

definition decode_TrustKey :: "bytes \<Rightarrow> TrustKey result" where
  "decode_TrustKey b = andThen (strict_decode b 1024
       [''key_id'', ''public_key_b64'', ''not_before'', ''not_after'', ''allow_legacy'']) (\<lambda>ob.
     andThen (get_str ob ''key_id'') (\<lambda>i. andThen (get_str ob ''public_key_b64'') (\<lambda>p.
     andThen (get_int ob ''not_before'') (\<lambda>nb. andThen (get_int ob ''not_after'') (\<lambda>na.
     andThen (get_bool ob ''allow_legacy'') (\<lambda>l.
       Inr \<lparr>k_ID = i, k_Public = p, k_NotBefore = nb, k_NotAfter = na, k_Legacy = l\<rparr>))))))"

definition DecodeTrust :: "crypto \<Rightarrow> bytes \<Rightarrow> TrustSet result" where
  "DecodeTrust C data = andThen (strict_decode data MaxTrustBytes
       [''version'', ''trust_set_id'', ''generation'', ''keys'', ''retired_key_ids'']) (\<lambda>ob.
     andThen (get_int ob ''version'') (\<lambda>v. andThen (get_str ob ''trust_set_id'') (\<lambda>i.
     andThen (get_int ob ''generation'') (\<lambda>g. andThen (get_arr ob ''keys'') (\<lambda>rk.
     andThen (get_strs ob ''retired_key_ids'') (\<lambda>rt.
     andThen (map_res (\<lambda>b. decode_TrustKey (raw_of b)) rk) (\<lambda>keys.
       let s = \<lparr>s_Version = v, s_ID = i, s_Generation = g, s_Keys = keys, s_Retired = Some rt\<rparr>
       in if TrustSet_Validate C s then Inr s else Inl (Err ''invalid signer trust set''))))))))"

definition marshal_TrustKey :: "TrustKey \<Rightarrow> string" where
  "marshal_TrustKey k = json_object
     [(''key_id'', json_string (k_ID k)), (''public_key_b64'', json_string (k_Public k)),
      (''not_before'', show_int (k_NotBefore k)), (''not_after'', show_int (k_NotAfter k)),
      (''allow_legacy'', json_bool (k_Legacy k))]"

definition TrustSet_Canonical :: "crypto \<Rightarrow> TrustSet \<Rightarrow> bytes result" where
  "TrustSet_Canonical C s =
     (if \<not> TrustSet_Validate C s then Inl (Err ''invalid signer trust set'')
      else Inr (json_object
        [(''version'', show_int (s_Version s)), (''trust_set_id'', json_string (s_ID s)),
         (''generation'', show_int (s_Generation s)),
         (''keys'', json_array (map marshal_TrustKey (sort_key k_ID (s_Keys s)))),
         (''retired_key_ids'', json_array (map json_string (sort (elems (s_Retired s)))))]))"

definition TrustSet_Key :: "TrustSet \<Rightarrow> string \<Rightarrow> TrustKey result" where
  "TrustSet_Key s i = (case find (\<lambda>k. k_ID k = i) (s_Keys s) of
     None \<Rightarrow> Inl (Err ''task key is not locally trusted'') | Some k \<Rightarrow> Inr k)"

definition CheckTask :: "TrustSet \<Rightarrow> Task \<Rightarrow> string \<Rightarrow> instant \<Rightarrow> unit result" where
  "CheckTask s t i now = andThen (TrustSet_Key s i) (\<lambda>k.
     if unix_sec now < k_NotBefore k \<or> unix_sec now \<ge> k_NotAfter k \<or> t_CreatedAt t < k_NotBefore k
        \<or> t_ExpiresAt t > k_NotAfter k
     then Inl (Err ''task lies outside the local signing-key window'') else Inr ())"

text \<open>The loop over the previous keys: the expected retirements, the number of shared keys, or an error.\<close>

fun transition_loop :: "TrustSet \<Rightarrow> TrustKey list \<Rightarrow> string list \<Rightarrow> int \<Rightarrow> (string list \<times> int) result" where
  "transition_loop nx [] expected shared = Inr (expected, shared)"
| "transition_loop nx (old # olds) expected shared =
     (case TrustSet_Key nx (k_ID old) of
        Inl _ \<Rightarrow> transition_loop nx olds (expected @ [k_ID old]) shared
      | Inr k \<Rightarrow> if k_Public k \<noteq> k_Public old \<or> k_NotBefore k \<noteq> k_NotBefore old
                    \<or> k_NotAfter k > k_NotAfter old \<or> k_Legacy k \<noteq> k_Legacy old
          then Inl (Err ''existing key authority must not be extended or rebound'')
          else transition_loop nx olds expected (shared + 1))"

definition CheckTransition :: "crypto \<Rightarrow> TrustSet option \<Rightarrow> string \<Rightarrow> TrustSet \<Rightarrow> unit result" where
  "CheckTransition C previous legacyID nx =
     (if \<not> TrustSet_Validate C nx then Inl (Err ''invalid signer trust set'')
      else case previous of
        None \<Rightarrow> (case TrustSet_Key nx legacyID of
            Inl _ \<Rightarrow> Inl (Err ''initial migration must retain the pinned legacy key and add one key'')
          | Inr k \<Rightarrow> if \<not> k_Legacy k \<or> s_Generation nx \<noteq> 1 \<or> length (elems (s_Retired nx)) \<noteq> 0
                        \<or> length (s_Keys nx) \<noteq> 2
              then Inl (Err ''initial migration must retain the pinned legacy key and add one key'') else Inr ())
      | Some prev \<Rightarrow>
          if \<not> TrustSet_Validate C prev then Inl (Err ''invalid signer trust set'')
          else if s_ID nx \<noteq> s_ID prev \<or> s_Generation nx \<noteq> s_Generation prev + 1
                  \<or> length (s_Keys nx) = length (s_Keys prev)
          then Inl (Err ''trust ID, generation, or transition mismatch'')
          else andThen (transition_loop nx (s_Keys prev) (elems (s_Retired prev)) 0) (\<lambda>(expected, shared).
            if list_ex (\<lambda>k. \<not> is_ok (TrustSet_Key prev (k_ID k)) \<and> k_Legacy k) (s_Keys nx)
            then Inl (Err ''new keys cannot authorize legacy envelopes'')
            else if shared \<noteq> 1 \<or> sort expected \<noteq> sort (elems (s_Retired nx))
            then Inl (Err ''trust continuity or retired history mismatch'') else Inr ()))"

definition Stage :: "crypto \<Rightarrow> bytes \<Rightarrow> bytes \<Rightarrow> TrustSet option \<Rightarrow> bytes \<Rightarrow> instant \<Rightarrow> int \<Rightarrow> int \<Rightarrow> TrustSet result" where
  "Stage C rnd legacy previous nextKey now retireAt validUntil =
     (if length nextKey \<noteq> PublicKeySize \<or> retireAt \<le> unix_sec now + MaxLifetime
         \<or> retireAt - unix_sec now > MaxSignerOverlap \<or> validUntil \<le> retireAt
      then Inl (Err ''require a new key, overlap over 5 minutes and at most 24 hours, and later new-key expiry'')
      else andThen (case previous of
          None \<Rightarrow> if length legacy \<noteq> PublicKeySize then Inl (Err ''legacy public key required'')
            else Inr \<lparr>s_Version = 1, s_ID = RandomID rnd, s_Generation = 1,
              s_Keys = [NewTrustKey C legacy (unix_sec now - MaxLifetime - MaxClockSkew) retireAt True],
              s_Retired = Some []\<rparr>
        | Some prev \<Rightarrow>
            if \<not> TrustSet_Validate C prev then Inl (Err ''invalid signer trust set'')
            else if length (s_Keys prev) \<noteq> 1 then Inl (Err ''retire the previous overlap key before staging another'')
            else if length (elems (s_Retired prev)) \<ge> MaxRetiredKeys
                    \<or> k_NotAfter (hd (s_Keys prev)) \<le> unix_sec now + MaxLifetime
            then Inl (Err ''retirement history is full or the current key expires too soon for staging'')
            else Inr (prev\<lparr>s_Generation := s_Generation prev + 1,
              s_Keys := [(hd (s_Keys prev))\<lparr>k_NotAfter := min (k_NotAfter (hd (s_Keys prev))) retireAt\<rparr>]\<rparr>)) (\<lambda>s0.
        let s = s0\<lparr>s_Keys := s_Keys s0 @ [NewTrustKey C nextKey (unix_sec now) validUntil False]\<rparr>
        in andThen (CheckTransition C previous (KeyID C legacy) s) (\<lambda>_. Inr s)))"

definition Retire :: "crypto \<Rightarrow> TrustSet \<Rightarrow> string \<Rightarrow> TrustSet result" where
  "Retire C previous i =
     (let s = previous\<lparr>s_Generation := s_Generation previous + 1,
            s_Keys := filter (\<lambda>k. k_ID k \<noteq> i) (s_Keys previous),
            s_Retired := Some (elems (s_Retired previous) @ [i])\<rparr>
      in andThen (CheckTransition C (Some previous) '''' s) (\<lambda>_. Inr s))"

subsection \<open>Envelopes\<close>

definition message :: "bytes \<Rightarrow> bytes" where
  "message payload = ''argus-c2/task/v1'' @ [CHR 0x00] @ payload"

definition Sign :: "crypto \<Rightarrow> bytes \<Rightarrow> bytes \<Rightarrow> bytes result" where
  "Sign C payload key =
     (if length key \<noteq> PrivateKeySize then Inl (Err ''invalid signing key'')
      else andThen (DecodeTask payload) (\<lambda>_. Inr (json_object
        [(''payload_b64'', json_string (b64_EncodeToString payload)),
         (''signature_b64'', json_string (b64_EncodeToString (ed_Sign C key (message payload))))])))"

definition VerifyPayload :: "crypto \<Rightarrow> bytes \<Rightarrow> bytes \<Rightarrow> (Task \<times> bytes) result" where
  "VerifyPayload C data key =
     (if length key \<noteq> PublicKeySize then Inl (Err ''invalid verification key'')
      else andThen (strict_decode data MaxEnvelopeBytes [''payload_b64'', ''signature_b64'']) (\<lambda>ob.
        andThen (get_str ob ''payload_b64'') (\<lambda>p64. andThen (get_str ob ''signature_b64'') (\<lambda>s64.
        andThen (signing_decode p64 MaxPayloadBytes) (\<lambda>payload.
        case signing_decode s64 SignatureSize of
          Inl _ \<Rightarrow> Inl (Err ''invalid signature encoding'')
        | Inr sig \<Rightarrow>
            if length sig \<noteq> SignatureSize then Inl (Err ''invalid signature encoding'')
            else if \<not> ed_Verify C key (message payload) sig then Inl (Err ''invalid signature'')
            else andThen (DecodeTask payload) (\<lambda>t. Inr (t, payload)))))))"

definition messageV2 :: "string \<Rightarrow> string \<Rightarrow> bytes \<Rightarrow> bytes" where
  "messageV2 trust key payload = ''argus-c2/task/v2'' @ [CHR 0x00] @ trust @ [CHR 0x00] @ key @ [CHR 0x00] @ payload"

definition envelopeV2_fields :: "string list" where
  "envelopeV2_fields = [''version'', ''trust_set_id'', ''key_id'', ''payload_b64'', ''signature_b64'']"

record envelopeV2 =
  v2_Version :: int
  v2_TrustID :: string
  v2_KeyID :: string
  v2_Payload :: string
  v2_Signature :: string

definition decode_envelopeV2 :: "bytes \<Rightarrow> envelopeV2 result" where
  "decode_envelopeV2 data = andThen (strict_decode data MaxEnvelopeBytes envelopeV2_fields) (\<lambda>ob.
     andThen (get_int ob ''version'') (\<lambda>v. andThen (get_str ob ''trust_set_id'') (\<lambda>i.
     andThen (get_str ob ''key_id'') (\<lambda>k. andThen (get_str ob ''payload_b64'') (\<lambda>p.
     andThen (get_str ob ''signature_b64'') (\<lambda>s.
       Inr \<lparr>v2_Version = v, v2_TrustID = i, v2_KeyID = k, v2_Payload = p, v2_Signature = s\<rparr>))))))"

definition SignTrusted :: "crypto \<Rightarrow> bytes \<Rightarrow> bytes \<Rightarrow> TrustSet \<Rightarrow> instant \<Rightarrow> bytes result" where
  "SignTrusted C payload key trust now =
     (if length key \<noteq> PrivateKeySize then Inl (Err ''invalid signing key'')
      else if \<not> TrustSet_Validate C trust then Inl (Err ''invalid signer trust set'')
      else andThen (DecodeTask payload) (\<lambda>t.
        let i = KeyID C (ed_Public C key) in
        andThen (CheckTask trust t i now) (\<lambda>_. Inr (json_object
          [(''version'', show_int 2), (''trust_set_id'', json_string (s_ID trust)), (''key_id'', json_string i),
           (''payload_b64'', json_string (b64_EncodeToString payload)),
           (''signature_b64'', json_string (b64_EncodeToString (ed_Sign C key (messageV2 (s_ID trust) i payload))))]))))"

text \<open>The branch of \<open>VerifyTrusted\<close> for an envelope that is not of the second format: the first legacy key
  decides.\<close>

definition verify_legacy :: "crypto \<Rightarrow> bytes \<Rightarrow> TrustSet \<Rightarrow> instant \<Rightarrow> error \<Rightarrow> (Task \<times> bytes \<times> string) result" where
  "verify_legacy C data trust now err = (case find k_Legacy (s_Keys trust) of
     None \<Rightarrow> Inl err
   | Some k \<Rightarrow> andThen (TrustKey_PublicKey C k) (\<lambda>pub. andThen (VerifyPayload C data pub) (\<lambda>(t, payload).
       andThen (CheckTask trust t (k_ID k) now) (\<lambda>_. Inr (t, payload, k_ID k)))))"

definition VerifyTrusted :: "crypto \<Rightarrow> bytes \<Rightarrow> TrustSet \<Rightarrow> instant \<Rightarrow> (Task \<times> bytes \<times> string) result" where
  "VerifyTrusted C data trust now =
     (if \<not> TrustSet_Validate C trust then Inl (Err ''invalid signer trust set'')
      else case decode_envelopeV2 data of
        Inl err \<Rightarrow> verify_legacy C data trust now err
      | Inr e \<Rightarrow>
          if v2_Version e \<noteq> 2 \<or> v2_TrustID e \<noteq> s_ID trust then Inl (Err ''unsupported envelope version or trust ID'')
          else andThen (TrustSet_Key trust (v2_KeyID e)) (\<lambda>k. andThen (TrustKey_PublicKey C k) (\<lambda>pub.
            andThen (signing_decode (v2_Payload e) MaxPayloadBytes) (\<lambda>payload.
            case signing_decode (v2_Signature e) SignatureSize of
              Inl _ \<Rightarrow> Inl (Err ''invalid task signature'')
            | Inr sig \<Rightarrow>
                if length sig \<noteq> SignatureSize \<or> \<not> ed_Verify C pub (messageV2 (v2_TrustID e) (v2_KeyID e) payload) sig
                then Inl (Err ''invalid task signature'')
                else andThen (DecodeTask payload) (\<lambda>t. andThen (CheckTask trust t (v2_KeyID e) now) (\<lambda>_.
                  Inr (t, payload, v2_KeyID e)))))))"

subsection \<open>Health report\<close>

record KeyHealth =
  kh_ID :: string
  kh_NotBefore :: int
  kh_NotAfter :: int
  kh_RemainingSeconds :: int
  kh_State :: string

record HealthReport =
  hr_Version :: int
  hr_CheckedAt :: int
  hr_TrustID :: string
  hr_Generation :: int
  hr_Selected :: string
  hr_State :: string
  hr_Issues :: "string list"
  hr_Keys :: "KeyHealth list"

definition key_state :: "TrustKey \<Rightarrow> int \<Rightarrow> instant \<Rightarrow> string" where
  "key_state key warnBefore now =
     (if unix_sec now < k_NotBefore key then ''not_yet_valid''
      else if unix_sec now \<ge> k_NotAfter key then ''expired''
      else if unix_sec (now + warnBefore) \<ge> k_NotAfter key then ''expiring''
      else ''ok'')"

definition key_current :: "TrustKey \<Rightarrow> instant \<Rightarrow> bool" where
  "key_current key now \<longleftrightarrow> unix_sec now \<ge> k_NotBefore key \<and> unix_sec now < k_NotAfter key"

text \<open>\<open>Inspect\<close> on the verification configuration that \<open>LoadVerification\<close> read: \<open>Inl\<close> a pinned legacy key,
  \<open>Inr\<close> a trust set. \<open>warnBefore\<close> is in nanoseconds.\<close>

definition Inspect :: "crypto \<Rightarrow> bytes + TrustSet \<Rightarrow> string \<Rightarrow> int \<Rightarrow> instant \<Rightarrow> HealthReport result" where
  "Inspect C conf selected warnBefore now =
     (let r = \<lparr>hr_Version = 1, hr_CheckedAt = unix_sec now, hr_TrustID = '''', hr_Generation = 0,
               hr_Selected = selected, hr_State = ''ok'', hr_Issues = [], hr_Keys = []\<rparr> in
      if warnBefore < 0 \<or> warnBefore > seconds (90 * 24 * 60 * 60)
      then Inl (Err ''warning window must be 0 through 90 days'')
      else case conf of
        Inl legacy \<Rightarrow>
          let i = KeyID C legacy; bad = (selected \<noteq> '''' \<and> selected \<noteq> i) in
          Inr (r\<lparr>hr_Keys := [\<lparr>kh_ID = i, kh_NotBefore = 0, kh_NotAfter = 0, kh_RemainingSeconds = 0,
                  kh_State = ''no_expiry''\<rparr>],
                hr_State := (if bad then ''blocked'' else ''warning''),
                hr_Issues := [''legacy_key_has_no_expiry''] @ (if bad then [''selected_key_not_active''] else [])\<rparr>)
      | Inr trust \<Rightarrow>
          let active = list_ex (\<lambda>k. key_current k now) (s_Keys trust);
              selectedActive = (selected = '''' \<or> list_ex (\<lambda>k. k_ID k = selected \<and> key_current k now) (s_Keys trust));
              warn = list_ex (\<lambda>k. key_state k warnBefore now \<noteq> ''ok'') (s_Keys trust)
          in Inr (r\<lparr>hr_TrustID := s_ID trust, hr_Generation := s_Generation trust,
                hr_Keys := map (\<lambda>k. \<lparr>kh_ID = k_ID k, kh_NotBefore = k_NotBefore k, kh_NotAfter = k_NotAfter k,
                  kh_RemainingSeconds = k_NotAfter k - unix_sec now, kh_State = key_state k warnBefore now\<rparr>) (s_Keys trust),
                hr_State := (if \<not> active \<or> \<not> selectedActive then ''blocked'' else if warn then ''warning'' else ''ok''),
                hr_Issues := (if \<not> active then [''no_active_key''] else [])
                  @ (if \<not> selectedActive then [''selected_key_not_active''] else [])\<rparr>))"

subsection \<open>Messages\<close>

lemma message_inj: "message p = message q \<longleftrightarrow> p = q"
  by (simp add: message_def)

text \<open>The two formats never sign the same bytes.\<close>

lemma message_domains: "message p \<noteq> messageV2 t k q"
  by (simp add: message_def messageV2_def)

lemma messageV2_inj:
  assumes "messageV2 t k p = messageV2 t' k' p'" "length t = length t'" "length k = length k'"
  shows "t = t' \<and> k = k' \<and> p = p'"
  using assms by (auto simp: messageV2_def append_eq_append_conv)

subsection \<open>Verification\<close>

lemma VerifyPayload_sound:
  assumes "VerifyPayload C data key = Inr (t, payload)"
  shows "DecodeTask payload = Inr t" "length key = PublicKeySize"
    "\<exists>sig. length sig = SignatureSize \<and> ed_Verify C key (message payload) sig"
  using assms by (auto simp: VerifyPayload_def result_simps split: if_splits)

lemma TrustSet_Key_sound: "TrustSet_Key s i = Inr k \<Longrightarrow> k \<in> set (s_Keys s) \<and> k_ID k = i"
  by (auto simp: TrustSet_Key_def find_Some_iff split: option.splits)

lemma CheckTask_sound:
  assumes "CheckTask s t i now = Inr u"
  obtains k where "k \<in> set (s_Keys s)" "k_ID k = i" "k_NotBefore k \<le> unix_sec now" "unix_sec now < k_NotAfter k"
    "k_NotBefore k \<le> t_CreatedAt t" "t_ExpiresAt t \<le> k_NotAfter k"
proof -
  from assms obtain k where "TrustSet_Key s i = Inr k" "k_NotBefore k \<le> unix_sec now" "unix_sec now < k_NotAfter k"
    "k_NotBefore k \<le> t_CreatedAt t" "t_ExpiresAt t \<le> k_NotAfter k"
    by (auto simp: CheckTask_def result_simps split: if_splits)
  with that TrustSet_Key_sound show thesis by metis
qed
definition trusted_signature :: "crypto \<Rightarrow> TrustSet \<Rightarrow> bytes \<Rightarrow> string \<Rightarrow> bool" where
  "trusted_signature C trust payload i \<longleftrightarrow> (\<exists>k pub sig. k \<in> set (s_Keys trust) \<and> k_ID k = i
     \<and> TrustKey_PublicKey C k = Inr pub \<and> length sig = SignatureSize
     \<and> (ed_Verify C pub (messageV2 (s_ID trust) i payload) sig \<or> k_Legacy k \<and> ed_Verify C pub (message payload) sig))"

lemma VerifyTrusted_sound:
  assumes "VerifyTrusted C data trust now = Inr (t, payload, i)"
  shows "DecodeTask payload = Inr t" "CheckTask trust t i now = Inr ()" "trusted_signature C trust payload i"
    "TrustSet_Validate C trust"
proof -
  show v: "TrustSet_Validate C trust" using assms by (auto simp: VerifyTrusted_def split: if_splits)
  have "DecodeTask payload = Inr t \<and> CheckTask trust t i now = Inr () \<and> trusted_signature C trust payload i"
  proof (cases "decode_envelopeV2 data")
    case (Inl e)
    with assms v obtain k pub where k: "find k_Legacy (s_Keys trust) = Some k" "TrustKey_PublicKey C k = Inr pub"
      "VerifyPayload C data pub = Inr (t, payload)" "CheckTask trust t (k_ID k) now = Inr ()" "i = k_ID k"
      by (auto simp: VerifyTrusted_def verify_legacy_def result_simps split: option.splits)
    then have "k \<in> set (s_Keys trust)" "k_Legacy k" by (auto simp: find_Some_iff)
    with k VerifyPayload_sound [OF k(3)] show ?thesis by (auto simp: trusted_signature_def)
  next
    case (Inr e)
    with assms v obtain k pub sig where k: "TrustSet_Key trust (v2_KeyID e) = Inr k" "TrustKey_PublicKey C k = Inr pub"
      "length sig = SignatureSize" "ed_Verify C pub (messageV2 (s_ID trust) (v2_KeyID e) payload) sig"
      "DecodeTask payload = Inr t" "CheckTask trust t (v2_KeyID e) now = Inr ()" "i = v2_KeyID e"
      by (auto simp: VerifyTrusted_def result_simps split: if_splits)
    with TrustSet_Key_sound [OF k(1)] show ?thesis by (auto simp: trusted_signature_def)
  qed
  then show "DecodeTask payload = Inr t" "CheckTask trust t i now = Inr ()" "trusted_signature C trust payload i"
    by simp_all
qed

subsection \<open>What is signed verifies\<close>

lemma DecodeTask_length: "DecodeTask payload = Inr t \<Longrightarrow> length payload \<le> MaxPayloadBytes"
  by (auto simp: DecodeTask_def strict_decode_def result_simps split: if_splits)

lemma VerifyPayload_Sign:
  assumes "ed25519_spec C" and "Sign C payload key = Inr data"
  shows "\<exists>t. VerifyPayload C data (ed_Public C key) = Inr (t, payload) \<and> DecodeTask payload = Inr t"
proof -
  let ?sig = "ed_Sign C key (message payload)"
  from assms(2) obtain t where k: "length key = PrivateKeySize" and t: "DecodeTask payload = Inr t"
    and data: "data = object_text [str_member ''payload_b64'' (b64_EncodeToString payload),
      str_member ''signature_b64'' (b64_EncodeToString ?sig)]"
    by (auto simp: Sign_def result_simps object_text_def split: if_splits)
  from assms(1) k have s: "length (ed_Public C key) = PublicKeySize" "length ?sig = SignatureSize"
    "ed_Verify C (ed_Public C key) (message payload) ?sig" by (simp_all add: ed25519_spec_def)
  have pk: "plain ''payload_b64''" "plain ''signature_b64''"
    by (simp_all add: plain_char_def alnum_def char_in_def code_def)
  have "length (b64_EncodeToString payload) \<le> b64_EncodedLen MaxPayloadBytes"
    using DecodeTask_length [OF t] by (simp add: b64_EncodedLen_mono)
  then have "length data \<le> MaxEnvelopeBytes"
    using pk b64_plain s(2) by (simp add: data length_object_text length_json_string_plain MaxEnvelopeBytes_def
        MaxPayloadBytes_def b64_EncodedLen_def SignatureSize_def)
  then have "strict_decode data MaxEnvelopeBytes [''payload_b64'', ''signature_b64'']
      = Inr (object_members [str_member ''payload_b64'' (b64_EncodeToString payload),
          str_member ''signature_b64'' (b64_EncodeToString ?sig)])"
    unfolding data using pk b64_plain
    by (intro strict_decode_object) (simp_all add: read_members plain_valid MaxEnvelopeBytes_def)
  moreover have "signing_decode (b64_EncodeToString payload) MaxPayloadBytes = Inr payload"
    "signing_decode (b64_EncodeToString ?sig) SignatureSize = Inr ?sig"
    using s DecodeTask_length [OF t] by (simp_all add: signing_decode_eq_Inr)
  ultimately show ?thesis using s t by (simp add: VerifyPayload_def)
qed

lemma VerifyTrusted_SignTrusted:
  assumes "ed25519_spec C" "sha256_spec C" and "SignTrusted C payload key trust now = Inr data"
    and key: "TrustSet_Key trust (KeyID C (ed_Public C key)) = Inr k" "TrustKey_PublicKey C k = Inr (ed_Public C key)"
  shows "\<exists>t. VerifyTrusted C data trust now = Inr (t, payload, KeyID C (ed_Public C key)) \<and> DecodeTask payload = Inr t"
proof -
  let ?i = "KeyID C (ed_Public C key)"
  let ?sig = "ed_Sign C key (messageV2 (s_ID trust) ?i payload)"
  let ?ms = "[int_member ''version'' 2, str_member ''trust_set_id'' (s_ID trust), str_member ''key_id'' ?i,
      str_member ''payload_b64'' (b64_EncodeToString payload), str_member ''signature_b64'' (b64_EncodeToString ?sig)]"
  from assms(3) obtain t where k: "length key = PrivateKeySize" and t: "DecodeTask payload = Inr t"
    and v: "TrustSet_Validate C trust" and ct: "CheckTask trust t ?i now = Inr ()" and data: "data = object_text ?ms"
    by (auto simp: SignTrusted_def result_simps object_text_def Let_def split: if_splits)
  from assms(1) k have s: "length (ed_Public C key) = PublicKeySize" "length ?sig = SignatureSize"
    "ed_Verify C (ed_Public C key) (messageV2 (s_ID trust) ?i payload) ?sig" by (simp_all add: ed25519_spec_def)
  have h: "Hex (s_ID trust) 32" "Hex ?i 64"
    using v Hex_Digest [OF assms(2)] by (simp_all add: TrustSet_Validate_def KeyID_def Digest_def)
  note pl = h [THEN Hex_plain] h [THEN Hex_length]
  have pk: "plain ''payload_b64''" "plain ''signature_b64''" "plain ''version''" "plain ''trust_set_id''" "plain ''key_id''"
    by (simp_all add: plain_char_def alnum_def char_in_def code_def)
  have i2: "int64 2" by (simp add: int64_def)
  have "length (b64_EncodeToString payload) \<le> b64_EncodedLen MaxPayloadBytes"
    using DecodeTask_length [OF t] by (simp add: b64_EncodedLen_mono)
  then have "length data \<le> MaxEnvelopeBytes"
    using pk pl b64_plain s(2) length_show_int [OF i2] by (simp add: data length_object_text length_json_string_plain MaxEnvelopeBytes_def
        MaxPayloadBytes_def b64_EncodedLen_def SignatureSize_def)
  then have "strict_decode data MaxEnvelopeBytes envelopeV2_fields = Inr (object_members ?ms)"
    unfolding data using pk pl b64_plain
    by (intro strict_decode_object) (simp_all add: read_members plain_valid MaxEnvelopeBytes_def envelopeV2_fields_def)
  then have "decode_envelopeV2 data = Inr \<lparr>v2_Version = 2, v2_TrustID = s_ID trust, v2_KeyID = ?i,
      v2_Payload = b64_EncodeToString payload, v2_Signature = b64_EncodeToString ?sig\<rparr>"
    using i2 by (simp add: decode_envelopeV2_def)
  moreover have "signing_decode (b64_EncodeToString payload) MaxPayloadBytes = Inr payload"
    "signing_decode (b64_EncodeToString ?sig) SignatureSize = Inr ?sig"
    using s DecodeTask_length [OF t] by (simp_all add: signing_decode_eq_Inr)
  ultimately show ?thesis using s t v ct key by (simp add: VerifyTrusted_def)
qed

subsection \<open>Trust transitions\<close>

definition key_ids :: "TrustSet \<Rightarrow> string set" where
  "key_ids s = k_ID ` set (s_Keys s)"

definition retired_ids :: "TrustSet \<Rightarrow> string set" where
  "retired_ids s = set (elems (s_Retired s))"

lemma TrustSet_Validate_ids:
  assumes "TrustSet_Validate C s"
  shows "key_ids s \<inter> retired_ids s = {}" "distinct (map k_ID (s_Keys s))" "distinct (elems (s_Retired s))"
    "length (s_Keys s) = 1 \<or> length (s_Keys s) = 2"
proof -
  show "key_ids s \<inter> retired_ids s = {}" "distinct (map k_ID (s_Keys s))" "distinct (elems (s_Retired s))"
    using assms by (auto simp: TrustSet_Validate_def seen_loop_iff key_ids_def retired_ids_def)
  have "s_Keys s \<noteq> []" "length (s_Keys s) \<le> 2" using assms by (auto simp: TrustSet_Validate_def)
  then have "length (s_Keys s) \<noteq> 0" "length (s_Keys s) \<le> 2" by simp_all
  then show "length (s_Keys s) = 1 \<or> length (s_Keys s) = 2" by linarith
qed

lemma TrustSet_Key_Inl: "(\<exists>e. TrustSet_Key s i = Inl e) \<longleftrightarrow> i \<notin> key_ids s"
proof (cases "TrustSet_Key s i")
  case (Inl e)
  then show ?thesis by (auto simp: TrustSet_Key_def key_ids_def find_None_iff split: option.splits)
next
  case (Inr k)
  then show ?thesis using TrustSet_Key_sound [OF Inr] by (auto simp: key_ids_def)
qed

lemma TrustSet_Key_is_ok: "is_ok (TrustSet_Key s i) \<longleftrightarrow> i \<in> key_ids s"
  using TrustSet_Key_Inl [of s i] by (cases "TrustSet_Key s i") auto

lemma TrustSet_Key_unique:
  assumes "distinct (map k_ID (s_Keys s))" "k \<in> set (s_Keys s)"
  shows "TrustSet_Key s (k_ID k) = Inr k"
proof -
  have "k_ID k \<in> key_ids s" using assms(2) by (simp add: key_ids_def)
  then obtain k' where k': "TrustSet_Key s (k_ID k) = Inr k'" using TrustSet_Key_is_ok is_ok_iff by metis
  with TrustSet_Key_sound have "k' \<in> set (s_Keys s)" "k_ID k' = k_ID k" by blast+
  with assms have "k' = k" by (metis distinct_map inj_on_eq_iff)
  with k' show ?thesis by simp
qed

text \<open>What \<open>k\<close> may do under the next trust set, where the previous one has \<open>old\<close>: no more.\<close>

definition narrowed :: "TrustKey \<Rightarrow> TrustKey \<Rightarrow> bool" where
  "narrowed old k \<longleftrightarrow> k_ID k = k_ID old \<and> k_Public k = k_Public old \<and> k_NotBefore k = k_NotBefore old
     \<and> k_NotAfter k \<le> k_NotAfter old \<and> k_Legacy k = k_Legacy old"

lemma transition_loop_spec:
  assumes "transition_loop nx olds expected shared = Inr (ex, n)"
  shows "ex = expected @ map k_ID (filter (\<lambda>k. k_ID k \<notin> key_ids nx) olds)"
    and "n = shared + int (length (filter (\<lambda>k. k_ID k \<in> key_ids nx) olds))"
    and "\<And>old k. old \<in> set olds \<Longrightarrow> TrustSet_Key nx (k_ID old) = Inr k \<Longrightarrow> narrowed old k"
proof -
  have main: "ex = expected @ map k_ID (filter (\<lambda>k. k_ID k \<notin> key_ids nx) olds)
    \<and> n = shared + int (length (filter (\<lambda>k. k_ID k \<in> key_ids nx) olds))
    \<and> (\<forall>old\<in>set olds. \<forall>k. TrustSet_Key nx (k_ID old) = Inr k \<longrightarrow> narrowed old k)"
    using assms
  proof (induction olds arbitrary: expected shared)
    case Nil
    then show ?case by simp
  next
    case (Cons old olds)
    show ?case
    proof (cases "TrustSet_Key nx (k_ID old)")
      case (Inl e)
      with TrustSet_Key_Inl have "k_ID old \<notin> key_ids nx" by blast
      moreover from Inl Cons.prems have "transition_loop nx olds (expected @ [k_ID old]) shared = Inr (ex, n)" by simp
      ultimately show ?thesis using Cons.IH [of "expected @ [k_ID old]" shared] Inl by simp
    next
      case (Inr k)
      then have "k_ID old \<in> key_ids nx" "k_ID k = k_ID old"
        using TrustSet_Key_is_ok [of nx "k_ID old"] TrustSet_Key_sound [OF Inr] by simp_all
      moreover from Inr Cons.prems this have "narrowed old k" "transition_loop nx olds expected (shared + 1) = Inr (ex, n)"
        by (simp_all add: narrowed_def split: if_splits)
      ultimately show ?thesis using Cons.IH [of expected "shared + 1"] Inr by simp
    qed
  qed
  from main show "ex = expected @ map k_ID (filter (\<lambda>k. k_ID k \<notin> key_ids nx) olds)" by (rule conjunct1)
  from main show "n = shared + int (length (filter (\<lambda>k. k_ID k \<in> key_ids nx) olds))"
    by (rule conjunct1 [OF conjunct2])
  show "narrowed old k" if "old \<in> set olds" "TrustSet_Key nx (k_ID old) = Inr k" for old k
    using conjunct2 [OF conjunct2 [OF main]] that by simp
qed

lemma CheckTransition_spec:
  assumes "CheckTransition C (Some prev) l nx = Inr u"
  shows "TrustSet_Validate C prev" "TrustSet_Validate C nx" "s_ID nx = s_ID prev"
    "s_Generation nx = s_Generation prev + 1"
    "mset (elems (s_Retired nx)) = mset (elems (s_Retired prev) @ map k_ID (filter (\<lambda>k. k_ID k \<notin> key_ids nx) (s_Keys prev)))"
    "\<And>old k. old \<in> set (s_Keys prev) \<Longrightarrow> k \<in> set (s_Keys nx) \<Longrightarrow> k_ID k = k_ID old \<Longrightarrow> narrowed old k"
    "\<And>k. k \<in> set (s_Keys nx) \<Longrightarrow> k_ID k \<notin> key_ids prev \<Longrightarrow> \<not> k_Legacy k"
    "length (filter (\<lambda>k. k_ID k \<in> key_ids nx) (s_Keys prev)) = 1"
proof -
  from assms show v: "TrustSet_Validate C prev" "TrustSet_Validate C nx" and "s_ID nx = s_ID prev"
    "s_Generation nx = s_Generation prev + 1"
    by (auto simp: CheckTransition_def split: if_splits)
  from assms obtain ex n where tl: "transition_loop nx (s_Keys prev) (elems (s_Retired prev)) 0 = Inr (ex, n)"
    and lg: "\<not> list_ex (\<lambda>k. \<not> is_ok (TrustSet_Key prev (k_ID k)) \<and> k_Legacy k) (s_Keys nx)"
    and sh: "n = 1" and so: "sort ex = sort (elems (s_Retired nx))"
    by (auto simp: CheckTransition_def result_simps split: if_splits)
  note sp = transition_loop_spec [OF tl]
  from so sp(1) show "mset (elems (s_Retired nx)) = mset (elems (s_Retired prev) @ map k_ID (filter (\<lambda>k. k_ID k \<notin> key_ids nx) (s_Keys prev)))"
    by (metis mset_sort)
  show "narrowed old k" if "old \<in> set (s_Keys prev)" "k \<in> set (s_Keys nx)" "k_ID k = k_ID old" for old k
    using sp(3) [OF that(1), of k] TrustSet_Key_unique [OF TrustSet_Validate_ids(2) [OF v(2)] that(2)] that(3) by simp
  show "\<not> k_Legacy k" if "k \<in> set (s_Keys nx)" "k_ID k \<notin> key_ids prev" for k
    using lg that by (auto simp: list_ex_iff TrustSet_Key_is_ok)
  show "length (filter (\<lambda>k. k_ID k \<in> key_ids nx) (s_Keys prev)) = 1" using sp(2) sh by simp
qed

lemma transition_ids:
  assumes "CheckTransition C (Some prev) l nx = Inr u"
  shows "retired_ids nx = retired_ids prev \<union> (key_ids prev - key_ids nx)"
proof -
  have "k_ID ` {k \<in> set (s_Keys prev). k_ID k \<notin> key_ids nx} = k_ID ` set (s_Keys prev) - key_ids nx" by auto
  with mset_eq_setD [OF CheckTransition_spec(5) [OF assms]] show ?thesis
    by (simp add: retired_ids_def key_ids_def [of prev])
qed

text \<open>The trust sets that local administration can reach, one accepted transition after the other.\<close>

inductive trust_chain :: "crypto \<Rightarrow> TrustSet \<Rightarrow> TrustSet \<Rightarrow> nat \<Rightarrow> bool" for C where
  chain_refl: "TrustSet_Validate C s \<Longrightarrow> trust_chain C s s 0"
| chain_step: "trust_chain C s t n \<Longrightarrow> CheckTransition C (Some t) l u = Inr () \<Longrightarrow> trust_chain C s u (Suc n)"

lemma trust_chain_valid: "trust_chain C s t n \<Longrightarrow> TrustSet_Validate C s \<and> TrustSet_Validate C t"
  by (induction rule: trust_chain.induct) (auto dest: CheckTransition_spec)

lemma trust_chain_ids:
  "trust_chain C s t n \<Longrightarrow> s_ID t = s_ID s \<and> s_Generation t = s_Generation s + int n
     \<and> retired_ids s \<subseteq> retired_ids t \<and> key_ids s \<subseteq> key_ids t \<union> retired_ids t"
proof (induction rule: trust_chain.induct)
  case (chain_step s t n l u)
  then show ?case
    using transition_ids [OF chain_step(2)] CheckTransition_spec(3,4) [OF chain_step(2)] by auto
qed auto

text \<open>A retired key never signs again, and a key's window never grows.\<close>

lemma trust_chain_no_revival:
  assumes "trust_chain C s t n" "i \<in> retired_ids s"
  shows "i \<notin> key_ids t"
  using trust_chain_ids [OF assms(1)] trust_chain_valid [OF assms(1)] assms(2) TrustSet_Validate_ids(1) by blast

lemma trust_chain_narrowed:
  "trust_chain C s t n \<Longrightarrow> old \<in> set (s_Keys s) \<Longrightarrow> k \<in> set (s_Keys t) \<Longrightarrow> k_ID k = k_ID old \<Longrightarrow> narrowed old k"
proof (induction arbitrary: k rule: trust_chain.induct)
  case (chain_refl s)
  then have "k = old" using TrustSet_Validate_ids(2) [OF chain_refl(1)] by (metis distinct_map inj_on_eq_iff)
  then show ?case by (simp add: narrowed_def)
next
  case (chain_step s t n l u)
  have "k_ID old \<in> key_ids t"
  proof (rule ccontr)
    assume "k_ID old \<notin> key_ids t"
    then have "k_ID old \<in> retired_ids t"
      using trust_chain_ids [OF chain_step(1)] chain_step(4) by (auto simp: key_ids_def)
    then have "k_ID old \<in> retired_ids u" using transition_ids [OF chain_step(2)] by auto
    with chain_step(5,6) show False
      using TrustSet_Validate_ids(1) [OF CheckTransition_spec(2) [OF chain_step(2)]] by (auto simp: key_ids_def)
  qed
  then obtain m where m: "m \<in> set (s_Keys t)" "k_ID m = k_ID old" by (auto simp: key_ids_def)
  from chain_step.IH [OF chain_step(4) m] CheckTransition_spec(6) [OF chain_step(2) m(1) chain_step(5)] m chain_step(6)
  show ?case by (simp add: narrowed_def)
qed

lemma trust_chain_legacy:
  "trust_chain C s t n \<Longrightarrow> k \<in> set (s_Keys t) \<Longrightarrow> k_Legacy k \<Longrightarrow> k_ID k \<in> key_ids s"
proof (induction arbitrary: k rule: trust_chain.induct)
  case (chain_refl s)
  then show ?case by (auto simp: key_ids_def)
next
  case (chain_step s t n l u)
  then have "k_ID k \<in> key_ids t" using CheckTransition_spec(7) [OF chain_step(2)] by blast
  then obtain m where m: "m \<in> set (s_Keys t)" "k_ID k = k_ID m" by (auto simp: key_ids_def)
  with CheckTransition_spec(6) [OF chain_step(2) m(1) chain_step(4)] chain_step(5) have "k_Legacy m"
    by (simp add: narrowed_def)
  with chain_step.IH m show ?case by metis
qed

lemma trust_chain_bound: "trust_chain C s t n \<Longrightarrow> n \<le> 2 * MaxRetiredKeys"
  using trust_chain_ids [of C s t n] trust_chain_valid [of C s t n] by (auto simp: TrustSet_Validate_def)

subsection \<open>Retiring and staging\<close>

text \<open>Retiring one of two keys succeeds while the history has room.\<close>

lemma Retire_succeeds:
  assumes v: "TrustSet_Validate C s" and two: "length (s_Keys s) = 2" and i: "i \<in> key_ids s"
    and room: "length (elems (s_Retired s)) < MaxRetiredKeys" "s_Generation s \<le> 2 * int MaxRetiredKeys"
    and hex: "Hex i 64"
  shows "\<exists>t. Retire C s i = Inr t \<and> key_ids t = key_ids s - {i} \<and> retired_ids t = insert i (retired_ids s)"
proof -
  obtain a b where ab: "s_Keys s = [a, b]" using two by (auto simp: length_Suc_conv numeral_2_eq_2)
  have d: "k_ID a \<noteq> k_ID b" using TrustSet_Validate_ids(2) [OF v] by (simp add: ab)
  define keep where "keep = (if i = k_ID a then b else a)"
  define t where "t = s\<lparr>s_Generation := s_Generation s + 1, s_Keys := [keep],
            s_Retired := Some (elems (s_Retired s) @ [i])\<rparr>"
  have ii: "i = k_ID a \<or> i = k_ID b" using i by (auto simp: ab key_ids_def)
  have ne: "k_ID keep \<noteq> i" using d ii by (auto simp: keep_def)
  have fl: "filter (\<lambda>k. k_ID k \<noteq> i) (s_Keys s) = [keep]" using d ii by (auto simp: ab keep_def)
  have nr: "i \<notin> retired_ids s" using TrustSet_Validate_ids(1) [OF v] i by auto
  have kin: "keep \<in> set (s_Keys s)" by (auto simp: ab keep_def)
  have knr: "k_ID keep \<notin> set (elems (s_Retired s))"
    using TrustSet_Validate_ids(1) [OF v] kin by (auto simp: key_ids_def retired_ids_def)
  have tv: "TrustSet_Validate C t"
    using v room hex nr kin ne knr
    by (auto simp: TrustSet_Validate_def t_def seen_loop_iff retired_ids_def list_all_iff overlap_ok_def)
  have "TrustSet_Key t (k_ID keep) = Inr keep" "TrustSet_Key t i = Inl (Err ''task key is not locally trusted'')"
    using ne by (simp_all add: TrustSet_Key_def t_def)
  then have "transition_loop t (s_Keys s) (elems (s_Retired s)) 0 = Inr (elems (s_Retired s) @ [i], 1)"
    using ii d by (auto simp: ab keep_def split: if_splits)
  moreover have "\<not> list_ex (\<lambda>k. \<not> is_ok (TrustSet_Key s (k_ID k)) \<and> k_Legacy k) (s_Keys t)"
    using kin by (auto simp: TrustSet_Key_is_ok t_def key_ids_def)
  moreover have "length (s_Keys t) \<noteq> length (s_Keys s)" "s_ID t = s_ID s" "s_Generation t = s_Generation s + 1"
    "elems (s_Retired t) = elems (s_Retired s) @ [i]"
    by (simp_all add: two t_def)
  ultimately have "CheckTransition C (Some s) '''' t = Inr ()" using tv v by (simp add: CheckTransition_def)
  then have "Retire C s i = Inr t" by (simp add: Retire_def Let_def fl t_def)
  moreover have "key_ids t = key_ids s - {i}" using ii d by (auto simp: t_def key_ids_def keep_def ab)
  moreover have "retired_ids t = insert i (retired_ids s)" by (simp add: t_def retired_ids_def)
  ultimately show ?thesis by blast
qed

end
