(* ===== verification/Probe.thy ===== *)
theory Probe
  imports Signing
begin

section \<open>The probe's durable execution gate\<close>

text \<open>
  \<open>internal/probe\<close> (\<open>state.go\<close>, \<open>trust.go\<close>, \<open>engine.go\<close>) and \<open>internal/tasks\<close>: the definitions. The
  database file is the record \<open>probe_db\<close>, with one field per column of the one-row tables and one list for the
  table \<open>executions\<close>; \<open>State\<close> is the handle of an open database. A transaction is a function of
  the database (\<open>run_tx\<close>): an error before the commit leaves the database unchanged.

  \<open>clk i\<close> is the i-th reading of the wall clock that a call makes on its own (\<open>time.Now()\<close>), beside the
  instant \<open>now\<close> it is given. \<open>d_quick_check\<close> is SQLite's answer to the pragma of that name. The collectors and
  what the context of a running task reports are parameters of \<open>Process\<close>, gathered in the record \<open>env\<close>.
\<close>

definition MaxRecords :: int where "MaxRecords = 8192"

record exec_row =
  x_request :: string
  x_epoch :: string
  x_payload :: bytes
  x_payload_digest :: string
  x_policy_digest :: string
  x_state :: TaskStatus
  x_started_at :: int
  x_accepted_ms :: int
  x_executed :: bool
  x_expires_at :: int
  x_result :: "bytes option"
  x_result_digest :: string
  x_delivered :: bool

record probe_db =
  d_user_version :: int
  d_quick_check :: string
  d_agent :: string
  d_epoch :: string
  d_key_digest :: string
  d_clock_high :: int
  d_clock_blocked :: bool
  d_policy_digest :: string
  d_trust :: "bytes option"
  d_execs :: "exec_row list"
  d_audit :: audit_log

record State =
  st_node :: Node
  st_key :: bytes
  st_trust :: "TrustSet option"

type_synonym readings = "nat \<Rightarrow> instant"

text \<open>\<open>audit.Append\<close> inside a transaction on the probe's database.\<close>

definition probe_append :: "crypto \<Rightarrow> instant \<Rightarrow> Event \<Rightarrow> int \<Rightarrow> probe_db \<Rightarrow> probe_db result" where
  "probe_append C now e delta db = andThen (Append C now e delta (d_audit db)) (\<lambda>L. Inr (db\<lparr>d_audit := L\<rparr>))"

subsection \<open>Creating the database\<close>

definition createTrust :: "bytes \<Rightarrow> probe_db \<Rightarrow> probe_db result" where
  "createTrust data db = (case d_trust db of
     Some _ \<Rightarrow> Inl (Err ''table probe_trust already exists'')
   | None \<Rightarrow> Inr (db\<lparr>d_trust := Some data, d_user_version := 2\<rparr>))"

definition probe_initialize :: "crypto \<Rightarrow> Node \<Rightarrow> bytes \<Rightarrow> TrustSet option \<Rightarrow> readings \<Rightarrow> probe_db result" where
  "probe_initialize C node key trust clk =
     (if \<not> Node_Validate node \<or> (trust = None \<and> length key \<noteq> PublicKeySize)
      then Inl (Err ''valid node and task key are required'')
      else let db0 = \<lparr>d_user_version = 1, d_quick_check = ''ok'', d_agent = '''', d_epoch = '''', d_key_digest = '''',
                      d_clock_high = 0, d_clock_blocked = False, d_policy_digest = '''', d_trust = None,
                      d_execs = [], d_audit = audit_Initialize\<rparr> in
        andThen (case trust of
            None \<Rightarrow> Inr (Digest C key, db0)
          | Some s \<Rightarrow> andThen (TrustSet_Canonical C s) (\<lambda>data.
              andThen (createTrust data db0) (\<lambda>db. Inr (Digest C data, db)))) (\<lambda>(digest, db).
        let db1 = db\<lparr>d_agent := n_AgentID node, d_epoch := n_EnrollmentEpoch node, d_key_digest := digest,
                     d_clock_high := unix_sec (clk 0)\<rparr>
        in probe_append C (clk 1) (no_event\<lparr>e_Kind := ''state_initialized'', e_AgentID := n_AgentID node,
             e_Epoch := n_EnrollmentEpoch node, e_Source := ''local'', e_Status := ''succeeded'',
             e_PayloadDigest := digest\<rparr>) 0 db1))"

definition InitializeWithTrust :: "crypto \<Rightarrow> Node \<Rightarrow> TrustSet \<Rightarrow> readings \<Rightarrow> probe_db result" where
  "InitializeWithTrust C node trust clk =
     (if \<not> TrustSet_Validate C trust then Inl (Err ''invalid signer trust set'')
      else probe_initialize C node [] (Some trust) clk)"

subsection \<open>Guards shared by the operations\<close>

definition checkTrustBinding :: "crypto \<Rightarrow> probe_db \<Rightarrow> bytes \<Rightarrow> TrustSet option \<Rightarrow> unit result" where
  "checkTrustBinding C db key trust =
     (if d_user_version db = 1 \<and> trust = None \<and> length key = PublicKeySize \<and> d_key_digest db = Digest C key
      then Inr ()
      else if d_user_version db \<noteq> 2 then Inl (Err ''explicit local signer trust migration required'')
      else case trust of
        None \<Rightarrow> Inl (Err ''explicit local signer trust migration required'')
      | Some s \<Rightarrow> andThen (TrustSet_Canonical C s) (\<lambda>want. case d_trust db of
          None \<Rightarrow> Inl (Err ''no such table: probe_trust'')
        | Some stored \<Rightarrow> if stored \<noteq> want then Inl (Err ''installed signer trust does not match replay binding'')
            else Inr ()))"

text \<open>\<open>clock\<close>: the flag says whether execution is blocked.\<close>

definition probe_clock :: "crypto \<Rightarrow> State \<Rightarrow> instant \<Rightarrow> instant \<Rightarrow> probe_db \<Rightarrow> (bool \<times> probe_db) result" where
  "probe_clock C st now rd db =
     (let high = d_clock_high db in
      if high \<le> 0 \<or> unix_sec now \<le> 0 then Inl (Err ''invalid persisted clock state'')
      else if d_clock_blocked db then Inr (True, db)
      else if unix_sec now < high - MaxClockSkew then
        let db1 = db\<lparr>d_clock_blocked := True\<rparr> in
        if al_sequence (d_audit db1) + al_reserved (d_audit db1) < Capacity
        then andThen (probe_append C rd (no_event\<lparr>e_Kind := ''clock_rollback'', e_AgentID := n_AgentID (st_node st),
               e_Epoch := n_EnrollmentEpoch (st_node st), e_Source := ''local'', e_Status := ''blocked''\<rparr>) 0 db1)
               (\<lambda>db2. Inr (True, db2))
        else Inr (True, db1)
      else if unix_sec now > high then Inr (False, db\<lparr>d_clock_high := unix_sec now\<rparr>)
      else Inr (False, db))"

definition probe_policy :: "crypto \<Rightarrow> State \<Rightarrow> string \<Rightarrow> instant \<Rightarrow> probe_db \<Rightarrow> probe_db result" where
  "probe_policy C st digest rd db =
     (if d_policy_digest db = digest then Inr db
      else andThen (probe_append C rd (no_event\<lparr>e_Kind := ''policy_changed'', e_AgentID := n_AgentID (st_node st),
             e_Epoch := n_EnrollmentEpoch (st_node st), e_Source := ''local'', e_Status := ''succeeded'',
             e_PolicyDigest := digest\<rparr>) 0 db)
           (\<lambda>db1. Inr (db1\<lparr>d_policy_digest := digest\<rparr>)))"

text \<open>The rows that \<open>capacity\<close> deletes: delivered, final and a day past their expiry.\<close>

definition prunable :: "instant \<Rightarrow> exec_row \<Rightarrow> bool" where
  "prunable now x \<longleftrightarrow> x_delivered x \<and> x_state x \<noteq> Running \<and> x_state x \<noteq> Indeterminate
     \<and> x_expires_at x < unix_sec now - 86400"

definition pending_bytes :: "exec_row list \<Rightarrow> int" where
  "pending_bytes xs = (\<Sum>x\<leftarrow>xs. if \<not> x_delivered x then (case x_result x of None \<Rightarrow> 0 | Some r \<Rightarrow> int (length r)) else 0)"

definition probe_capacity :: "Policy \<Rightarrow> instant \<Rightarrow> probe_db \<Rightarrow> probe_db result" where
  "probe_capacity p now db =
     (let db1 = db\<lparr>d_execs := filter (\<lambda>x. \<not> prunable now x) (d_execs db)\<rparr> in
      if int (length (d_execs db1)) \<ge> MaxRecords \<or> pending_bytes (d_execs db1) + p_MaxResultBytes p > p_PendingBytes p
      then Inl ErrCapacity
      else if al_sequence (d_audit db1) + al_reserved (d_audit db1) + 2 > Capacity then Inl ErrAuditCapacity
      else Inr db1)"

definition running_rows :: "probe_db \<Rightarrow> exec_row list" where
  "running_rows db = filter (\<lambda>x. x_state x = Running) (d_execs db)"

definition Ready :: "crypto \<Rightarrow> State \<Rightarrow> Policy \<Rightarrow> instant \<Rightarrow> readings \<Rightarrow> probe_db \<Rightarrow> unit result \<times> probe_db" where
  "Ready C st p now clk db =
     (if (case st_trust st of None \<Rightarrow> False
          | Some s \<Rightarrow> \<not> list_ex (\<lambda>k. unix_sec now \<ge> k_NotBefore k \<and> unix_sec now < k_NotAfter k) (s_Keys s))
      then (Inl (Err ''no currently valid local task key''), db)
      else case Policy_Digest C p of Inl e \<Rightarrow> (Inl e, db) | Inr digest \<Rightarrow>
        run_tx (\<lambda>db. andThen (probe_clock C st now (clk 0) db) (\<lambda>(blocked, db1).
          if blocked then Inr (Inl ErrClock, db1)
          else andThen (probe_policy C st digest (clk 1) db1) (\<lambda>db2.
            andThen (probe_capacity p now db2) (\<lambda>db3.
              if running_rows db3 \<noteq> [] then Inl ErrBusy else Inr (Inr (), db3))))) db)"

subsection \<open>Results and completion\<close>

definition emptyResult :: "Task \<Rightarrow> string \<Rightarrow> int \<Rightarrow> int \<Rightarrow> TaskStatus \<Rightarrow> ErrorCode \<Rightarrow> Result" where
  "emptyResult t digest start end status ec =
     \<lparr>r_RequestID = t_RequestID t, r_AgentID = t_AgentID t, r_Epoch = t_EnrollmentEpoch t, r_Type = t_Type t,
      r_StartedAt = start, r_FinishedAt = end, r_Status = status, r_Data = ''{}'', r_ErrorCode = ec,
      r_Truncated = False, r_PolicyDigest = digest\<rparr>"

definition has_key :: "string \<Rightarrow> string \<Rightarrow> exec_row \<Rightarrow> bool" where
  "has_key epoch request x \<longleftrightarrow> x_epoch x = epoch \<and> x_request x = request"

definition find_exec :: "string \<Rightarrow> string \<Rightarrow> probe_db \<Rightarrow> exec_row option" where
  "find_exec epoch request db = find (has_key epoch request) (d_execs db)"

definition finishTx :: "crypto \<Rightarrow> Task \<Rightarrow> Result \<Rightarrow> string \<Rightarrow> string \<Rightarrow> instant \<Rightarrow> probe_db \<Rightarrow> probe_db result" where
  "finishTx C t r source kind rd db =
     (if \<not> Result_Validate r then Inl (Err ''invalid task result'')
      else if \<not> CheckAssignment r t then Inl (Err ''result assignment mismatch'')
      else andThen (MarshalResult r) (\<lambda>data.
        let hit = (\<lambda>x. has_key (t_EnrollmentEpoch t) (t_RequestID t) x \<and> x_state x = Running);
            db1 = db\<lparr>d_execs := map (\<lambda>x. if hit x then x\<lparr>x_state := r_Status r, x_result := Some data,
                     x_result_digest := Digest C data\<rparr> else x) (d_execs db)\<rparr>
        in if length (filter hit (d_execs db)) \<noteq> 1 then Inl (Err ''execution state changed before completion'')
           else case find_exec (t_EnrollmentEpoch t) (t_RequestID t) db1 of
             None \<Rightarrow> Inl (Err ''sql: no rows in result set'')
           | Some x \<Rightarrow> probe_append C rd ((TaskEvent kind t source (r_Status r) (r_ErrorCode r) (x_payload_digest x))
                 \<lparr>e_PolicyDigest := r_PolicyDigest r, e_ResultDigest := Digest C data\<rparr>) (- 1) db1))"

definition finish :: "crypto \<Rightarrow> Task \<Rightarrow> Result \<Rightarrow> string \<Rightarrow> instant \<Rightarrow> probe_db \<Rightarrow> bytes result \<times> probe_db" where
  "finish C t r source rd db =
     run_tx (\<lambda>db. andThen (finishTx C t r source ''task_completed'' rd db) (\<lambda>db1. Inr (MarshalResult r, db1))) db"

subsection \<open>Opening and recovery\<close>

definition recover_row :: "crypto \<Rightarrow> instant \<Rightarrow> instant \<Rightarrow> exec_row \<Rightarrow> probe_db \<Rightarrow> probe_db result" where
  "recover_row C now rd x db = (case DecodeTask (x_payload x) of
     Inl _ \<Rightarrow> Inl (Err ''corrupt interrupted execution'')
   | Inr t \<Rightarrow>
       if Digest C (x_payload x) \<noteq> x_payload_digest x then Inl (Err ''corrupt interrupted execution'')
       else finishTx C t (emptyResult t (x_policy_digest x) (x_started_at x) (max (x_started_at x) (unix_sec now))
              Indeterminate ''recovered_after_restart'') ''local'' ''task_recovered'' rd db)"

definition recover :: "crypto \<Rightarrow> State \<Rightarrow> instant \<Rightarrow> readings \<Rightarrow> probe_db \<Rightarrow> unit result \<times> probe_db" where
  "recover C st now clk db = run_tx (\<lambda>db.
     if d_user_version db \<noteq> 1 \<and> d_user_version db \<noteq> 2 then Inl (Err ''unknown probe schema'')
     else if d_quick_check db \<noteq> ''ok'' then Inl (Err ''probe database integrity check failed'')
     else if d_agent db \<noteq> n_AgentID (st_node st) \<or> d_epoch db \<noteq> n_EnrollmentEpoch (st_node st)
     then Inl (Err ''probe state belongs to a different identity or task key'')
     else andThen (checkTrustBinding C db (st_key st) (st_trust st)) (\<lambda>_.
       if \<not> audit_Verify C (d_audit db) then Inl (Err ''audit chain verification failed'')
       else andThen (probe_clock C st now (clk 0) db) (\<lambda>(blocked, db1).
         if blocked then Inr (Inl ErrClock, db1)
         else let items = running_rows db1 in
           if al_reserved (d_audit db1) \<noteq> int (length items) \<or> length items > 1
           then Inl (Err ''inconsistent execution reservations'')
           else andThen (fold_res (recover_row C now (clk 1)) items db1) (\<lambda>db2. Inr (Inr (), db2))))) db"

text \<open>\<open>open\<close> and \<open>OpenWithTrust\<close>: a handle, and the database as recovery leaves it.\<close>

definition probe_open :: "crypto \<Rightarrow> Node \<Rightarrow> bytes \<Rightarrow> TrustSet option \<Rightarrow> readings \<Rightarrow> probe_db \<Rightarrow> State result \<times> probe_db" where
  "probe_open C node key trust clk db =
     (if \<not> Node_Validate node \<or> (trust = None \<and> length key \<noteq> PublicKeySize)
      then (Inl (Err ''valid node and task key are required''), db)
      else let st = \<lparr>st_node = node, st_key = key, st_trust = trust\<rparr> in
        case recover C st (clk 0) (\<lambda>i. clk (i + 1)) db of
          (Inl e, db1) \<Rightarrow> (Inl e, db1) | (Inr _, db1) \<Rightarrow> (Inr st, db1))"

definition OpenWithTrust :: "crypto \<Rightarrow> Node \<Rightarrow> TrustSet \<Rightarrow> readings \<Rightarrow> probe_db \<Rightarrow> State result \<times> probe_db" where
  "OpenWithTrust C node trust clk db =
     (case andThen (TrustSet_Canonical C trust) (DecodeTrust C) of
        Inl e \<Rightarrow> (Inl e, db) | Inr copy \<Rightarrow> probe_open C node [] (Some copy) clk db)"

subsection \<open>Accepting a task\<close>

record decision =
  dc_run :: bool
  dc_result :: "bytes option"
  dc_digest :: string
  dc_started :: int

definition cached :: "bytes option \<Rightarrow> decision" where
  "cached result = \<lparr>dc_run = False, dc_result = result, dc_digest = '''', dc_started = 0\<rparr>"

text \<open>The switch of \<open>prepare\<close>: the status and error code of a request that is not in the table.\<close>

definition classify :: "Task \<Rightarrow> Policy \<Rightarrow> string \<Rightarrow> instant \<Rightarrow> int \<Rightarrow> int \<Rightarrow> TaskStatus \<times> ErrorCode" where
  "classify t p digest now minute burst =
     (if unix_sec now \<ge> t_ExpiresAt t then (Expired, ''expired'')
      else if unix_sec now < t_CreatedAt t - MaxClockSkew then (Rejected, ''future'')
      else if t_PolicyDigest t \<noteq> digest then (Rejected, ''policy_mismatch'')
      else if p_Paused p then (Rejected, ''paused'')
      else if \<not> Policy_Allows p (t_Type t) then (Rejected, ''task_disabled'')
      else if \<not> AllowsResource p t then (Rejected, ''resource_denied'')
      else if minute \<ge> p_MaxPerMinute p \<or> burst \<ge> p_Burst p then (Rejected, ''rate_limited'')
      else (Running, ''''))"

definition executed_since :: "int \<Rightarrow> probe_db \<Rightarrow> int" where
  "executed_since ms db = int (length (filter (\<lambda>x. x_executed x \<and> x_accepted_ms x > ms) (d_execs db)))"

definition insert_exec :: "exec_row \<Rightarrow> probe_db \<Rightarrow> probe_db result" where
  "insert_exec x db =
     (if list_ex (has_key (x_epoch x) (x_request x)) (d_execs db) then Inl (Err ''UNIQUE constraint failed: executions'')
      else Inr (db\<lparr>d_execs := d_execs db @ [x]\<rparr>))"

text \<open>A request that the table already holds: a conflict, still running, or its stored result again.\<close>

definition replay :: "crypto \<Rightarrow> Task \<Rightarrow> string \<Rightarrow> string \<Rightarrow> instant \<Rightarrow> exec_row \<Rightarrow> (decision, probe_db) tx" where
  "replay C t hash source rd x db =
     (if x_payload_digest x \<noteq> hash then
        andThen (probe_append C rd (TaskEvent ''task_conflict'' t source ''rejected'' ''request_conflict'' hash) 0 db)
          (\<lambda>db1. Inr (Inl ErrConflict, db1))
      else case x_result x of
        None \<Rightarrow> Inl ErrBusy
      | Some result \<Rightarrow>
          if result = [] then Inl ErrBusy
          else (case DecodeResult result of
            Inl _ \<Rightarrow> Inl (Err ''cached result is corrupt'')
          | Inr r \<Rightarrow>
              if Digest C result \<noteq> x_result_digest x \<or> r_RequestID r \<noteq> t_RequestID t \<or> r_AgentID r \<noteq> t_AgentID t
                 \<or> r_Epoch r \<noteq> t_EnrollmentEpoch t \<or> r_Type r \<noteq> t_Type t
              then Inl (Err ''cached result is corrupt'')
              else Inr (Inr (cached (Some result)), db)))"

text \<open>A request that the table does not hold, after the policy and capacity checks.\<close>

definition decide :: "crypto \<Rightarrow> Task \<Rightarrow> bytes \<Rightarrow> Policy \<Rightarrow> string \<Rightarrow> string \<Rightarrow> instant \<Rightarrow> instant \<Rightarrow> (decision, probe_db) tx" where
  "decide C t payload p digest source now rd db =
     (if running_rows db \<noteq> [] then Inl ErrBusy
      else let hash = Digest C payload;
               minute = executed_since (unix_milli (now - seconds 60)) db;
               burst = executed_since (unix_milli (now - seconds 1)) db;
               (status, ec) = classify t p digest now minute burst;
               execute = (status = Running)
        in andThen (insert_exec \<lparr>x_request = t_RequestID t, x_epoch = t_EnrollmentEpoch t, x_payload = payload,
             x_payload_digest = hash, x_policy_digest = digest, x_state = status, x_started_at = unix_sec now,
             x_accepted_ms = unix_milli now, x_executed = execute, x_expires_at = t_ExpiresAt t, x_result = None,
             x_result_digest = '''', x_delivered = False\<rparr> db) (\<lambda>db1.
          let event = (TaskEvent ''task_accepted'' t source status ec hash)\<lparr>e_PolicyDigest := digest\<rparr> in
          if execute then
            andThen (probe_append C rd event 1 db1) (\<lambda>db2.
              Inr (Inr \<lparr>dc_run = True, dc_result = None, dc_digest = digest, dc_started = unix_sec now\<rparr>, db2))
          else andThen (MarshalResult (emptyResult t digest (unix_sec now) (unix_sec now) status ec)) (\<lambda>result.
            andThen (probe_append C rd (event\<lparr>e_Kind := ''task_rejected'', e_ResultDigest := Digest C result\<rparr>) 0 db1) (\<lambda>db2.
              let db3 = db2\<lparr>d_execs := map (\<lambda>x. if has_key (t_EnrollmentEpoch t) (t_RequestID t) x
                    then x\<lparr>x_result := Some result, x_result_digest := Digest C result\<rparr> else x) (d_execs db2)\<rparr>
              in Inr (Inr \<lparr>dc_run = False, dc_result = Some result, dc_digest = digest, dc_started = unix_sec now\<rparr>, db3)))))"

text \<open>With a trust set, the key that verified the envelope has to cover the task at the moment of acceptance.\<close>

definition trust_check :: "State \<Rightarrow> Task \<Rightarrow> string list \<Rightarrow> instant \<Rightarrow> unit result" where
  "trust_check st t keyID now = (case st_trust st of None \<Rightarrow> Inr ()
     | Some s \<Rightarrow> if length keyID \<noteq> 1 then Inl (Err ''verified task key ID required'')
         else CheckTask s t (hd keyID) now)"

definition prepare :: "crypto \<Rightarrow> State \<Rightarrow> Task \<Rightarrow> bytes \<Rightarrow> Policy \<Rightarrow> string \<Rightarrow> instant \<Rightarrow> readings \<Rightarrow> string list
    \<Rightarrow> probe_db \<Rightarrow> decision result \<times> probe_db" where
  "prepare C st t payload p source now clk keyID db =
     (case Policy_Digest C p of Inl e \<Rightarrow> (Inl e, db) | Inr digest \<Rightarrow>
      if t_AgentID t \<noteq> n_AgentID (st_node st) \<or> t_EnrollmentEpoch t \<noteq> n_EnrollmentEpoch (st_node st)
      then (Inl (Err ''wrong task identity''), db)
      else run_tx (\<lambda>db. andThen (probe_clock C st now (clk 0) db) (\<lambda>(blocked, db1).
        if blocked then Inr (Inl ErrClock, db1)
        else andThen (trust_check st t keyID (clk 1)) (\<lambda>_.
          case find_exec (t_EnrollmentEpoch t) (t_RequestID t) db1 of
            Some x \<Rightarrow> replay C t (Digest C payload) source (clk 2) x db1
          | None \<Rightarrow> andThen (probe_policy C st digest (clk 2) db1) (\<lambda>db2.
              andThen (probe_capacity p now db2) (\<lambda>db3.
                decide C t payload p digest source now (clk 3) db3))))) db)"

definition rejectInvalid :: "crypto \<Rightarrow> State \<Rightarrow> string \<Rightarrow> string \<Rightarrow> instant \<Rightarrow> probe_db \<Rightarrow> unit result \<times> probe_db" where
  "rejectInvalid C st digest source rd db = run_tx (\<lambda>db.
     andThen (probe_append C rd (no_event\<lparr>e_Kind := ''invalid_task'', e_AgentID := n_AgentID (st_node st),
       e_Epoch := n_EnrollmentEpoch (st_node st), e_Source := source, e_Status := ''rejected'',
       e_Code := ''invalid_envelope'', e_PayloadDigest := digest\<rparr>) 0 db) (\<lambda>db1. Inr (Inr (), db1))) db"

subsection \<open>The outbox\<close>

definition outbox :: "probe_db \<Rightarrow> exec_row list" where
  "outbox db = sort_key x_accepted_ms (sort_key x_request
     (filter (\<lambda>x. \<not> x_delivered x \<and> x_state x \<noteq> Running) (d_execs db)))"

definition Pending :: "crypto \<Rightarrow> probe_db \<Rightarrow> bytes option result" where
  "Pending C db = (case outbox db of
     [] \<Rightarrow> Inr None
   | x # _ \<Rightarrow> (case x_result x of
       None \<Rightarrow> Inl (Err ''pending result is corrupt'')
     | Some data \<Rightarrow> if is_ok (DecodeResult data) \<and> x_result_digest x = Digest C data then Inr (Some data)
         else Inl (Err ''pending result is corrupt'')))"

definition Acknowledge :: "State \<Rightarrow> string \<Rightarrow> string \<Rightarrow> probe_db \<Rightarrow> unit result \<times> probe_db" where
  "Acknowledge st request digest db =
     (let hit = (\<lambda>x. x_request x = request \<and> x_epoch x = n_EnrollmentEpoch (st_node st)
            \<and> x_result_digest x = digest \<and> x_state x \<noteq> Running);
          db1 = db\<lparr>d_execs := map (\<lambda>x. if hit x then x\<lparr>x_delivered := True\<rparr> else x) (d_execs db)\<rparr>
      in (if length (filter hit (d_execs db)) \<noteq> 1 then Inl (Err ''result acknowledgment mismatch'') else Inr (), db1))"

definition ReadAudit :: "crypto \<Rightarrow> instant \<Rightarrow> int \<Rightarrow> int \<Rightarrow> probe_db \<Rightarrow> Page result \<times> probe_db" where
  "ReadAudit C rd after limit db =
     (case audit_Read C rd after limit (d_audit db) of (r, L) \<Rightarrow> (r, db\<lparr>d_audit := L\<rparr>))"

subsection \<open>Changing the signer trust\<close>

definition record_ok :: "crypto \<Rightarrow> Node \<Rightarrow> exec_row \<Rightarrow> bool" where
  "record_ok C node x = (case DecodeTask (x_payload x) of Inl _ \<Rightarrow> False | Inr t \<Rightarrow>
     t_AgentID t = n_AgentID node \<and> x_epoch x = n_EnrollmentEpoch node \<and> t_EnrollmentEpoch t = x_epoch x
     \<and> t_RequestID t = x_request x \<and> Digest C (x_payload x) = x_payload_digest x \<and> Hex (x_policy_digest x) 64
     \<and> (case x_result x of None \<Rightarrow> False | Some result \<Rightarrow> (case DecodeResult result of Inl _ \<Rightarrow> False | Inr r \<Rightarrow>
          CheckAssignment r t \<and> r_Status r = x_state x \<and> r_PolicyDigest r = x_policy_digest x
          \<and> Digest C result = x_result_digest x)))"

definition verifyMigrationRecords :: "crypto \<Rightarrow> Node \<Rightarrow> probe_db \<Rightarrow> unit result" where
  "verifyMigrationRecords C node db =
     (if al_reserved (d_audit db) \<noteq> 0
      then Inl (Err ''recover interrupted execution with the current trust before migration'')
      else if int (length (d_execs db)) > MaxRecords \<or> \<not> list_all (record_ok C node) (d_execs db)
      then Inl (Err ''corrupt replay assignment'') else Inr ())"

definition MigrateTrust :: "crypto \<Rightarrow> Node \<Rightarrow> bytes \<Rightarrow> TrustSet option \<Rightarrow> TrustSet \<Rightarrow> readings \<Rightarrow> probe_db
    \<Rightarrow> unit result \<times> probe_db" where
  "MigrateTrust C node legacy previous nx clk db =
     (if \<not> Node_Validate node then (Inl (Err ''invalid node identity''), db)
      else if previous = None \<and> length legacy \<noteq> PublicKeySize then (Inl (Err ''current pinned key required''), db)
      else case andThen (CheckTransition C previous (KeyID C legacy) nx) (\<lambda>_. TrustSet_Canonical C nx) of
        Inl e \<Rightarrow> (Inl e, db)
      | Inr data \<Rightarrow> run_tx (\<lambda>db.
          if d_user_version db \<noteq> 1 \<and> d_user_version db \<noteq> 2 then Inl (Err ''unknown probe schema'')
          else if d_quick_check db \<noteq> ''ok'' then Inl (Err ''probe integrity check failed'')
          else if d_agent db \<noteq> n_AgentID node \<or> d_epoch db \<noteq> n_EnrollmentEpoch node
          then Inl (Err ''wrong replay identity'')
          else if d_clock_high db \<le> 0 \<or> d_clock_blocked db \<or> unix_sec (clk 0) < d_clock_high db - MaxClockSkew
          then Inl ErrClock
          else if \<not> audit_Verify C (d_audit db) then Inl (Err ''audit chain verification failed'')
          else andThen (verifyMigrationRecords C node db) (\<lambda>_.
            if d_user_version db = 2 \<and> d_trust db = None then Inl (Err ''no such table: probe_trust'')
            else if d_user_version db = 2 \<and> d_trust db = Some data then Inr (Inr (), db)
            else andThen (checkTrustBinding C db legacy previous) (\<lambda>_.
              andThen (case previous of None \<Rightarrow> Inr (d_key_digest db)
                  | Some s \<Rightarrow> andThen (TrustSet_Canonical C s) (\<lambda>old. Inr (Digest C old))) (\<lambda>oldDigest.
              andThen (if d_user_version db = 1 then createTrust data db else Inr (db\<lparr>d_trust := Some data\<rparr>)) (\<lambda>db1.
              andThen (probe_append C (clk 1) (no_event\<lparr>e_Kind := ''signer_trust_changed'', e_AgentID := n_AgentID node,
                  e_Epoch := n_EnrollmentEpoch node, e_Source := ''local'', e_ActorID := ''local-operator'',
                  e_Status := ''succeeded'', e_PayloadDigest := oldDigest, e_ResultDigest := Digest C data\<rparr>) 0 db1) (\<lambda>db2.
                Inr (Inr (), db2))))))) db)"

subsection \<open>Executing a task\<close>

datatype exec_error = DeadlineExceeded | Canceled | OtherError

record collectors =
  co_Information :: "exec_error + bytes"
  co_Measurements :: "Config \<Rightarrow> exec_error + bytes"
  co_SSH :: "SSHProfile \<Rightarrow> exec_error + bytes"
  co_Service :: "Service \<Rightarrow> exec_error + bytes"

text \<open>\<open>tasks.Execute\<close>; a collector stands for the collection and the \<open>json.Marshal\<close> of its value.\<close>

definition tasks_Execute :: "exec_error option \<Rightarrow> collectors \<Rightarrow> Task \<Rightarrow> Policy \<Rightarrow> exec_error + bytes" where
  "tasks_Execute ctx_err co t p =
     (case ctx_err of Some e \<Rightarrow> Inl e | None \<Rightarrow>
      if \<not> Task_Validate t \<or> \<not> Policy_Validate p then Inl OtherError
      else if \<not> Policy_Allows p (t_Type t) \<or> \<not> AllowsResource p t then Inl OtherError
      else if t_Type t = SystemInfo then co_Information co
      else if t_Type t = SystemMetrics then co_Measurements co (p_Telemetry p)
      else if t_Type t = SSHAudit then
        (case Task_Resource t of Inl _ \<Rightarrow> Inl OtherError | Inr i \<Rightarrow>
          (case Policy_SSHProfile p i of None \<Rightarrow> Inl OtherError | Some profile \<Rightarrow> co_SSH co profile))
      else if t_Type t = ServiceStatus then
        (case Task_Resource t of Inl _ \<Rightarrow> Inl OtherError | Inr i \<Rightarrow>
          (case Policy_Service p i of None \<Rightarrow> Inl OtherError | Some mapping \<Rightarrow> co_Service co mapping))
      else Inl OtherError)"

record env =
  en_cancelled :: bool
  en_policy :: "Policy result"
  en_collectors :: collectors
  en_start_err :: "instant \<Rightarrow> exec_error option"
  en_end_err :: "instant \<Rightarrow> bool"

text \<open>The first half of \<open>Process\<close>: what makes an envelope a task for this probe.\<close>

definition authenticate :: "crypto \<Rightarrow> State \<Rightarrow> bytes \<Rightarrow> instant \<Rightarrow> (Task \<times> bytes \<times> string) result" where
  "authenticate C st envelope now =
     andThen (case st_trust st of
         None \<Rightarrow> andThen (VerifyPayload C envelope (st_key st)) (\<lambda>(t, payload). Inr (t, payload, ''''))
       | Some s \<Rightarrow> VerifyTrusted C envelope s now) (\<lambda>(t, payload, keyID).
     if t_AgentID t \<noteq> n_AgentID (st_node st) \<or> t_EnrollmentEpoch t \<noteq> n_EnrollmentEpoch (st_node st)
     then Inl (Err ''task failed signature, structure, or target checks'') else Inr (t, payload, keyID))"

text \<open>The result of an accepted task: readings 0 to 2 are the two deadline computations and the finish time.\<close>

definition task_result :: "env \<Rightarrow> Task \<Rightarrow> Policy \<Rightarrow> decision \<Rightarrow> readings \<Rightarrow> Result result" where
  "task_result en t p d clk =
     (let end = min (clk 0 + seconds (p_TimeoutSeconds p)) (seconds (t_ExpiresAt t));
          r0 = emptyResult t (dc_digest d) (dc_started d) (dc_started d) Failed ''collector_failed'';
          r1 = (if unix_sec (clk 1) \<ge> t_ExpiresAt t then r0\<lparr>r_Status := Expired, r_ErrorCode := ''expired''\<rparr>
                else (case tasks_Execute (en_start_err en end) (en_collectors en) t p of
                    Inl e \<Rightarrow> if e = DeadlineExceeded \<or> e = Canceled \<or> en_end_err en end
                      then r0\<lparr>r_ErrorCode := ''deadline''\<rparr> else r0
                  | Inr data \<Rightarrow> if en_end_err en end then r0\<lparr>r_ErrorCode := ''deadline''\<rparr>
                      else r0\<lparr>r_Status := Succeeded, r_ErrorCode := '''', r_Data := data\<rparr>));
          r2 = r1\<lparr>r_FinishedAt := max (r_StartedAt r1) (unix_sec (clk 2))\<rparr>;
          r3 = (if \<not> Result_Validate r2 \<or> \<not> CheckAssignment r2 t
                then r2\<lparr>r_Status := Failed, r_ErrorCode := ''collector_failed'', r_Data := ''{}''\<rparr> else r2)
      in andThen (MarshalResult r3) (\<lambda>data.
        Inr (if int (length data) > p_MaxResultBytes p
             then r3\<lparr>r_Status := Failed, r_ErrorCode := ''result_limit'', r_Data := ''{}''\<rparr> else r3)))"

definition Process :: "crypto \<Rightarrow> State \<Rightarrow> string \<Rightarrow> env \<Rightarrow> readings \<Rightarrow> bytes \<Rightarrow> probe_db \<Rightarrow> bytes option result \<times> probe_db" where
  "Process C st source en clk envelope db =
     (if en_cancelled en then (Inl (Err ''context canceled''), db)
      else case authenticate C st envelope (clk 0) of
        Inl _ \<Rightarrow> (case rejectInvalid C st (Digest C (take MaxEnvelopeBytes envelope)) source (clk 1) db of
            (Inl e, db1) \<Rightarrow> (Inl e, db1)
          | (Inr _, db1) \<Rightarrow> (Inl (Err ''task failed signature, structure, or target checks''), db1))
      | Inr (t, payload, keyID) \<Rightarrow> (case en_policy en of Inl e \<Rightarrow> (Inl e, db) | Inr p \<Rightarrow>
          (case prepare C st t payload p source (clk 1) (\<lambda>i. clk (i + 2)) [keyID] db of
            (Inl e, db1) \<Rightarrow> (Inl e, db1)
          | (Inr d, db1) \<Rightarrow>
              if \<not> dc_run d then (Inr (dc_result d), db1)
              else (case task_result en t p d (\<lambda>i. clk (i + 6)) of
                Inl e \<Rightarrow> (Inl e, db1)
              | Inr r \<Rightarrow> (case finish C t r source (clk 9) db1 of
                  (Inl e, db2) \<Rightarrow> (Inl e, db2) | (Inr data, db2) \<Rightarrow> (Inr (Some data), db2))))))"

end
