(* ===== verification/Probe_Laws.thy ===== *)
theory Probe_Laws
  imports Probe
begin

section \<open>Laws of the probe's execution gate\<close>

text \<open>
  What the operations of the theory \<open>Probe\<close> do to the database: the requests its audit chain has decided on, the
  clock latch, the invariant \<open>probe_inv\<close>, and the step relation \<open>probe_step\<close> whose traces are the histories of a
  probe, crashes and restarts included.
\<close>

subsection \<open>Frames\<close>

definition decided :: "probe_db \<Rightarrow> (string \<times> string) list" where
  "decided db = decisions (al_events (d_audit db))"

lemma probe_append_eq_Inr:
  "probe_append C rd e delta db = Inr db' \<longleftrightarrow> (\<exists>L. Append C rd e delta (d_audit db) = Inr L \<and> db' = db\<lparr>d_audit := L\<rparr>)"
  by (auto simp: probe_append_def result_simps)

lemma probe_append_decided:
  assumes "probe_append C rd e delta db = Inr db'"
  shows "decided db' = decided db @ (if decision_kind (e_Kind e) then [(e_AgentID e, e_RequestID e)] else [])"
    and "decision_kind (e_Kind e) \<Longrightarrow> (e_AgentID e, e_RequestID e) \<notin> set (decided db)"
  using assms by (auto simp: probe_append_eq_Inr decided_def Append_decisions dest: Append_eq_Inr(10))

lemma probe_append_update:
  "probe_append C rd e delta db = Inr db' \<Longrightarrow>
     \<exists>L. db' = db\<lparr>d_audit := L\<rparr> \<and> al_reserved L = al_reserved (d_audit db) + delta"
  by (auto simp: probe_append_eq_Inr Append_eq_Inr(2))

lemma probe_append_frame:
  assumes "probe_append C rd e delta db = Inr db'"
  shows "d_execs db' = d_execs db" "d_clock_high db' = d_clock_high db" "d_clock_blocked db' = d_clock_blocked db"
    "d_policy_digest db' = d_policy_digest db" "d_trust db' = d_trust db" "d_user_version db' = d_user_version db"
    "d_agent db' = d_agent db" "d_epoch db' = d_epoch db" "d_key_digest db' = d_key_digest db"
    "d_quick_check db' = d_quick_check db"
    "al_reserved (d_audit db') = al_reserved (d_audit db) + delta"
  using assms by (auto simp: probe_append_eq_Inr Append_eq_Inr)

lemma TaskEvent_simps [simp]:
  "e_Kind (TaskEvent k t s st ec h) = k" "e_AgentID (TaskEvent k t s st ec h) = t_AgentID t"
  "e_RequestID (TaskEvent k t s st ec h) = t_RequestID t" "e_At (TaskEvent k t s st ec h) = 0"
  "e_Source (TaskEvent k t s st ec h) = s"
  by (simp_all add: TaskEvent_def no_event_def)

lemma no_event_simps [simp]: "e_Kind no_event = ''''" "e_At no_event = 0"
  by (simp_all add: no_event_def)

lemma decision_kind_simps [simp]:
  "decision_kind ''task_accepted''" "decision_kind ''task_rejected''" "\<not> decision_kind ''clock_rollback''"
  "\<not> decision_kind ''policy_changed''" "\<not> decision_kind ''task_conflict''" "\<not> decision_kind ''task_completed''"
  "\<not> decision_kind ''task_recovered''" "\<not> decision_kind ''invalid_task''" "\<not> decision_kind ''audit_read''"
  "\<not> decision_kind ''signer_trust_changed''" "\<not> decision_kind ''state_initialized''"
  by (simp_all add: decision_kind_def)

lemma probe_clock_decided:
  "probe_clock C st now rd db = Inr (b, db') \<Longrightarrow> decided db' = decided db"
  by (auto simp: probe_clock_def Let_def result_simps split: if_splits dest!: probe_append_decided(1))
     (simp_all add: decided_def)

lemma probe_policy_decided: "probe_policy C st digest rd db = Inr db' \<Longrightarrow> decided db' = decided db"
  by (auto simp: probe_policy_def result_simps split: if_splits dest!: probe_append_decided(1))
     (simp add: decided_def)

lemma probe_capacity_decided: "probe_capacity p now db = Inr db' \<Longrightarrow> decided db' = decided db"
  by (auto simp: probe_capacity_def Let_def decided_def split: if_splits)

lemma finishTx_decided:
  assumes "finishTx C t r source kind rd db = Inr db'" "\<not> decision_kind kind"
  shows "decided db' = decided db"
  using assms by (auto simp: finishTx_def Let_def result_simps split: if_splits option.splits
      dest!: probe_append_decided(1)) (simp add: decided_def)

lemma replay_decided: "replay C t hash source rd x db = Inr (r, db') \<Longrightarrow> decided db' = decided db
    \<and> (\<forall>d. r = Inr d \<longrightarrow> \<not> dc_run d)"
  by (auto simp: replay_def result_simps cached_def split: if_splits option.splits sum.splits
      dest!: probe_append_decided(1))

lemma insert_exec_eq_Inr:
  "insert_exec x db = Inr db' \<longleftrightarrow>
     \<not> list_ex (has_key (x_epoch x) (x_request x)) (d_execs db) \<and> db' = db\<lparr>d_execs := d_execs db @ [x]\<rparr>"
  by (auto simp: insert_exec_def)

lemma decide_decided:
  assumes "decide C t payload p digest source now rd db = Inr (r, db')"
  shows "decided db' = decided db @ [(t_AgentID t, t_RequestID t)]"
    and "(t_AgentID t, t_RequestID t) \<notin> set (decided db)"
proof -
  have x: "decided (db\<lparr>d_execs := xs\<rparr>) = decided db" for xs db by (simp add: decided_def)
  show "decided db' = decided db @ [(t_AgentID t, t_RequestID t)]"
    using assms by (auto simp: decide_def Let_def result_simps insert_exec_eq_Inr x split: if_splits prod.splits
        dest!: probe_append_decided(1))
  show "(t_AgentID t, t_RequestID t) \<notin> set (decided db)"
    using assms by (auto simp: decide_def Let_def result_simps insert_exec_eq_Inr x split: if_splits prod.splits
        dest!: probe_append_decided(2))
qed

text \<open>The ways a call of \<open>prepare\<close> can end.\<close>

lemma prepare_cases:
  assumes "prepare C st t payload p source now clk keyID db = (r, db')"
  obtains (rollback) e where "r = Inl e" "db' = db"
  | (blocked) "r = Inl ErrClock" "probe_clock C st now (clk 0) db = Inr (True, db')"
  | (known) digest db1 x where "Policy_Digest C p = Inr digest" "t_AgentID t = n_AgentID (st_node st)"
      "t_EnrollmentEpoch t = n_EnrollmentEpoch (st_node st)" "probe_clock C st now (clk 0) db = Inr (False, db1)"
      "trust_check st t keyID (clk 1) = Inr ()" "find_exec (t_EnrollmentEpoch t) (t_RequestID t) db1 = Some x"
      "replay C t (Digest C payload) source (clk 2) x db1 = Inr (r, db')"
  | (fresh) digest db1 db2 db3 where "Policy_Digest C p = Inr digest" "t_AgentID t = n_AgentID (st_node st)"
      "t_EnrollmentEpoch t = n_EnrollmentEpoch (st_node st)" "probe_clock C st now (clk 0) db = Inr (False, db1)"
      "trust_check st t keyID (clk 1) = Inr ()" "find_exec (t_EnrollmentEpoch t) (t_RequestID t) db1 = None"
      "probe_policy C st digest (clk 2) db1 = Inr db2" "probe_capacity p now db2 = Inr db3"
      "decide C t payload p digest source now (clk 3) db3 = Inr (r, db')"
proof (cases "Policy_Digest C p")
  case (Inl e)
  with assms show thesis by (intro rollback) (auto simp: prepare_def)
next
  case (Inr digest)
  show thesis
  proof (cases "t_AgentID t = n_AgentID (st_node st) \<and> t_EnrollmentEpoch t = n_EnrollmentEpoch (st_node st)")
    case False
    with assms Inr show thesis by (intro rollback) (auto simp: prepare_def)
  next
    case True
    define body where "body = (\<lambda>db. andThen (probe_clock C st now (clk 0) db) (\<lambda>(blocked, db1).
        if blocked then Inr (Inl ErrClock, db1)
        else andThen (trust_check st t keyID (clk 1)) (\<lambda>_.
          case find_exec (t_EnrollmentEpoch t) (t_RequestID t) db1 of
            Some x \<Rightarrow> replay C t (Digest C payload) source (clk 2) x db1
          | None \<Rightarrow> andThen (probe_policy C st digest (clk 2) db1) (\<lambda>db2.
              andThen (probe_capacity p now db2) (\<lambda>db3.
                decide C t payload p digest source now (clk 3) db3)))))"
    have run: "run_tx body db = (r, db')"
      using assms Inr True by (simp add: prepare_def body_def)
    show thesis
    proof (cases body db rule: run_tx_cases)
      case (rollback e)
      with run that(1) show thesis by auto
    next
      case (commit r0 s)
      with run have b: "body db = Inr (r, db')" by simp
      then obtain blocked db1 where c: "probe_clock C st now (clk 0) db = Inr (blocked, db1)"
        by (auto simp: body_def result_simps)
      show thesis
      proof (cases blocked)
        case True
        with b c that(2) show thesis by (auto simp: body_def)
      next
        case False
        with b c have tc: "trust_check st t keyID (clk 1) = Inr ()"
          and rest: "(case find_exec (t_EnrollmentEpoch t) (t_RequestID t) db1 of
            Some x \<Rightarrow> replay C t (Digest C payload) source (clk 2) x db1
          | None \<Rightarrow> andThen (probe_policy C st digest (clk 2) db1) (\<lambda>db2.
              andThen (probe_capacity p now db2) (\<lambda>db3.
                decide C t payload p digest source now (clk 3) db3))) = Inr (r, db')"
          by (auto simp: body_def result_simps)
        show thesis
        proof (cases "find_exec (t_EnrollmentEpoch t) (t_RequestID t) db1")
          case None
          with rest obtain db2 db3 where "probe_policy C st digest (clk 2) db1 = Inr db2"
            "probe_capacity p now db2 = Inr db3" "decide C t payload p digest source now (clk 3) db3 = Inr (r, db')"
            by (auto simp: result_simps)
          then show thesis
            using Inr True c False tc None by (intro that(4) [of digest db1 db2 db3]) simp_all
        next
          case (Some x)
          then show thesis
            using Inr True c False tc rest by (intro that(3) [of digest db1 x]) simp_all
        qed
      qed
    qed
  qed
qed

definition run_label :: "Task \<Rightarrow> decision result \<Rightarrow> (string \<times> string) list" where
  "run_label t r = (case r of Inl _ \<Rightarrow> [] | Inr d \<Rightarrow> if dc_run d then [(t_AgentID t, t_RequestID t)] else [])"

lemma prepare_decided:
  assumes "prepare C st t payload p source now clk keyID db = (r, db')"
  shows "\<exists>new. decided db' = decided db @ new \<and> set (run_label t r) \<subseteq> set new \<and> set (run_label t r) \<inter> set (decided db) = {}"
  using assms
proof (cases rule: prepare_cases)
  case (rollback e)
  then show ?thesis by (simp add: run_label_def)
next
  case blocked
  then show ?thesis by (auto simp: run_label_def probe_clock_decided)
next
  case (known digest db1 x)
  then have "decided db' = decided db" "run_label t r = []"
    using replay_decided [OF known(7)] probe_clock_decided [OF known(4)]
    by (auto simp: run_label_def split: sum.splits)
  then show ?thesis by simp
next
  case (fresh digest db1 db2 db3)
  then have "decided db3 = decided db"
    using probe_clock_decided [OF fresh(4)] probe_policy_decided [OF fresh(7)] probe_capacity_decided [OF fresh(8)] by simp
  with decide_decided [OF fresh(9)] show ?thesis by (auto simp: run_label_def split: sum.splits)
qed

subsection \<open>Steps\<close>

text \<open>
  What can happen to a probe's database: every operation of the package, in any order, with any arguments,
  by any handle; \<open>S\<close> says which sources an engine may record. \<open>accept\<close> and \<open>complete\<close> are the two transactions of
  \<open>Process\<close>; a crash between them is a trace whose next step is a \<open>reopen\<close>. The label lists the requests for
  which the step lets a collector run.
\<close>

inductive probe_step :: "crypto \<Rightarrow> (string \<Rightarrow> bool) \<Rightarrow> probe_db \<Rightarrow> (string \<times> string) list \<Rightarrow> probe_db \<Rightarrow> bool" for C S where
  ready: "Ready C st p now clk db = (r, db') \<Longrightarrow> probe_step C S db [] db'"
| accept: "authenticate C st envelope now0 = Inr (t, payload, keyID) \<Longrightarrow>
     prepare C st t payload p source now clk [keyID] db = (r, db') \<Longrightarrow> S source \<Longrightarrow> probe_step C S db (run_label t r) db'"
| complete: "x \<in> set (running_rows db) \<Longrightarrow> DecodeTask (x_payload x) = Inr t \<Longrightarrow> finish C t res source rd db = (r, db')
     \<Longrightarrow> S source \<Longrightarrow> probe_step C S db [] db'"
| refuse: "rejectInvalid C st digest source rd db = (r, db') \<Longrightarrow> S source \<Longrightarrow> probe_step C S db [] db'"
| acknowledge: "Acknowledge st request digest db = (r, db') \<Longrightarrow> probe_step C S db [] db'"
| reopen: "probe_open C node key trust clk db = (r, db') \<Longrightarrow> probe_step C S db [] db'"
| migrate: "MigrateTrust C node legacy previous nx clk db = (r, db') \<Longrightarrow> probe_step C S db [] db'"
| read_audit: "ReadAudit C rd after limit db = (r, db') \<Longrightarrow> probe_step C S db [] db'"

inductive probe_trace :: "crypto \<Rightarrow> (string \<Rightarrow> bool) \<Rightarrow> probe_db \<Rightarrow> (string \<times> string) list \<Rightarrow> probe_db \<Rightarrow> bool" for C S where
  trace_refl: "probe_trace C S db [] db"
| trace_step: "probe_trace C S db runs db1 \<Longrightarrow> probe_step C S db1 l db2 \<Longrightarrow> probe_trace C S db (runs @ l) db2"

lemma Ready_decided: "Ready C st p now clk db = (r, db') \<Longrightarrow> decided db' = decided db"
  by (auto simp: Ready_def run_tx_def result_simps split: if_splits option.splits sum.splits
      dest!: probe_clock_decided probe_policy_decided probe_capacity_decided)

lemma finish_decided: "finish C t res source rd db = (r, db') \<Longrightarrow> decided db' = decided db"
  by (auto simp: finish_def run_tx_def result_simps split: sum.splits dest: finishTx_decided)

lemma rejectInvalid_decided: "rejectInvalid C st digest source rd db = (r, db') \<Longrightarrow> decided db' = decided db"
  by (auto simp: rejectInvalid_def run_tx_def result_simps split: sum.splits dest!: probe_append_decided(1))

lemma recover_row_decided: "recover_row C now rd x db = Inr db' \<Longrightarrow> decided db' = decided db"
  by (auto simp: recover_row_def split: sum.splits if_splits dest!: finishTx_decided)

lemma fold_recover_decided: "fold_res (recover_row C now rd) xs db = Inr db' \<Longrightarrow> decided db' = decided db"
  by (erule fold_res_invariant) (auto dest: recover_row_decided)

lemma recover_decided: "recover C st now clk db = (r, db') \<Longrightarrow> decided db' = decided db"
  by (auto simp: recover_def run_tx_def result_simps Let_def split: sum.splits if_splits
      dest!: probe_clock_decided fold_recover_decided)

lemma probe_open_decided: "probe_open C node key trust clk db = (r, db') \<Longrightarrow> decided db' = decided db"
  by (auto simp: probe_open_def Let_def split: if_splits prod.splits sum.splits dest: recover_decided)

lemma Acknowledge_decided: "Acknowledge st request digest db = (r, db') \<Longrightarrow> decided db' = decided db"
  by (auto simp: Acknowledge_def Let_def decided_def)

lemma ReadTx_log:
  assumes "ReadTx C rd after limit actor source L = Inr (pg, L')"
  shows "\<exists>e. Append C rd e 0 L = Inr L' \<and> \<not> decision_kind (e_Kind e) \<and> e_At e = 0 \<and> e_Source e = source"
  using assms by (auto simp: ReadTx_def result_simps split: if_splits)

lemma ReadAudit_cases:
  assumes "ReadAudit C rd after limit db = (r, db')"
  obtains "db' = db" | e where "probe_append C rd e 0 db = Inr db'" "\<not> decision_kind (e_Kind e)" "e_At e = 0"
      "e_Source e = ''local''"
  using assms by (auto simp: ReadAudit_def audit_Read_def probe_append_eq_Inr split: sum.splits dest!: ReadTx_log)

lemma ReadAudit_decided: "ReadAudit C rd after limit db = (r, db') \<Longrightarrow> decided db' = decided db"
  by (erule ReadAudit_cases) (auto dest: probe_append_decided(1))

lemma createTrust_frame:
  "createTrust data db = Inr db' \<Longrightarrow> db' = db\<lparr>d_trust := Some data, d_user_version := 2\<rparr>"
  by (simp add: createTrust_def split: option.splits)

lemma MigrateTrust_cases:
  assumes "MigrateTrust C node legacy previous nx clk db = (r, db')"
  obtains "db' = db" | data e db1 where "TrustSet_Canonical C nx = Inr data" "CheckTransition C previous (KeyID C legacy) nx = Inr ()"
      "db1 = db\<lparr>d_trust := Some data, d_user_version := 2\<rparr>" "probe_append C (clk 1) e 0 db1 = Inr db'"
      "\<not> decision_kind (e_Kind e)" "e_At e = 0" "e_Source e = ''local''"
      "d_clock_blocked db = False" "d_user_version db = 1 \<or> d_user_version db = 2"
      "verifyMigrationRecords C node db = Inr ()" "r = Inr ()"
proof (cases "db' = db")
  case True
  with that(1) show thesis .
next
  case False
  with assms obtain data where data: "TrustSet_Canonical C nx = Inr data" "CheckTransition C previous (KeyID C legacy) nx = Inr ()"
    by (auto simp: MigrateTrust_def result_simps split: if_splits sum.splits)
  define ev where "ev od = no_event\<lparr>e_Kind := ''signer_trust_changed'', e_AgentID := n_AgentID node,
                  e_Epoch := n_EnrollmentEpoch node, e_Source := ''local'', e_ActorID := ''local-operator'',
                  e_Status := ''succeeded'', e_PayloadDigest := od, e_ResultDigest := Digest C data\<rparr>" for od
  have "\<exists>od db1. (d_user_version db = 1 \<and> createTrust data db = Inr db1 \<or> d_user_version db = 2 \<and> db1 = db\<lparr>d_trust := Some data\<rparr>)
      \<and> probe_append C (clk 1) (ev od) 0 db1 = Inr db'
      \<and> \<not> d_clock_blocked db \<and> verifyMigrationRecords C node db = Inr () \<and> r = Inr ()"
    using assms False data
    by (auto simp: MigrateTrust_def run_tx_def result_simps ev_def split: if_splits sum.splits)
  moreover have "\<not> decision_kind (e_Kind (ev od))" "e_At (ev od) = 0" "e_Source (ev od) = ''local''" for od
    by (simp_all add: ev_def)
  ultimately have "\<exists>e db1. (d_user_version db = 1 \<and> createTrust data db = Inr db1 \<or> d_user_version db = 2 \<and> db1 = db\<lparr>d_trust := Some data\<rparr>)
      \<and> probe_append C (clk 1) e 0 db1 = Inr db' \<and> \<not> decision_kind (e_Kind e) \<and> e_At e = 0 \<and> e_Source e = ''local''
      \<and> \<not> d_clock_blocked db \<and> verifyMigrationRecords C node db = Inr () \<and> r = Inr ()"
    by blast
  then obtain e db1 where d: "d_user_version db = 1 \<and> createTrust data db = Inr db1 \<or> d_user_version db = 2 \<and> db1 = db\<lparr>d_trust := Some data\<rparr>"
    and e: "probe_append C (clk 1) e 0 db1 = Inr db'" "\<not> decision_kind (e_Kind e)" "e_At e = 0" "e_Source e = ''local''"
      "\<not> d_clock_blocked db" "verifyMigrationRecords C node db = Inr ()" "r = Inr ()" by blast
  from d have "db1 = db\<lparr>d_trust := Some data, d_user_version := 2\<rparr>"
    by (auto dest: createTrust_frame)
  with that(2) data e d show thesis by (metis (full_types))
qed

lemma MigrateTrust_decided: "MigrateTrust C node legacy previous nx clk db = (r, db') \<Longrightarrow> decided db' = decided db"
  by (erule MigrateTrust_cases) (auto dest!: probe_append_decided(1) simp: decided_def)

lemma probe_step_decided:
  assumes "probe_step C S db l db'"
  shows "\<exists>new. decided db' = decided db @ new \<and> set l \<subseteq> set new \<and> set l \<inter> set (decided db) = {} \<and> distinct l"
  using assms
proof cases
  case (accept st envelope now0 t payload keyID p source now clk r)
  have "distinct (run_label t r)" by (simp add: run_label_def split: sum.splits)
  with prepare_decided [OF accept(3)] accept(1) show ?thesis by auto
qed (auto dest: Ready_decided finish_decided rejectInvalid_decided Acknowledge_decided probe_open_decided
    MigrateTrust_decided ReadAudit_decided)

lemma probe_trace_decided:
  "probe_trace C S db runs db' \<Longrightarrow> distinct runs \<and> set runs \<inter> set (decided db) = {}
     \<and> set runs \<subseteq> set (decided db') \<and> set (decided db) \<subseteq> set (decided db')"
proof (induction rule: probe_trace.induct)
  case (trace_refl db)
  then show ?case by simp
next
  case (trace_step db runs db1 l db2)
  from probe_step_decided [OF trace_step(2)] obtain new where
    "decided db2 = decided db1 @ new" "set l \<subseteq> set new" "set l \<inter> set (decided db1) = {}" "distinct l" by blast
  with trace_step.IH show ?case by auto
qed

subsection \<open>The clock latch\<close>

lemma probe_clock_spec:
  assumes "probe_clock C st now rd db = Inr (b, db')"
  shows "d_execs db' = d_execs db" "d_clock_high db \<le> d_clock_high db'" "b = d_clock_blocked db'"
    "d_clock_blocked db \<Longrightarrow> d_clock_blocked db'" "al_reserved (d_audit db') = al_reserved (d_audit db)"
    "0 < d_clock_high db" "0 < unix_sec now"
    "\<not> b \<Longrightarrow> d_audit db' = d_audit db \<and> \<not> d_clock_blocked db \<and> unix_sec now \<ge> d_clock_high db - MaxClockSkew
       \<and> unix_sec now \<le> d_clock_high db'"
    "d_epoch db' = d_epoch db" "d_agent db' = d_agent db" "d_user_version db' = d_user_version db"
    "d_trust db' = d_trust db" "d_key_digest db' = d_key_digest db" "d_policy_digest db' = d_policy_digest db"
    "d_quick_check db' = d_quick_check db"
  using assms by (auto simp: probe_clock_def Let_def result_simps split: if_splits dest!: probe_append_update)

lemma probe_clock_blocked:
  "d_clock_blocked db \<Longrightarrow> probe_clock C st now rd db = Inr (b, db') \<Longrightarrow> b \<and> db' = db"
  by (auto simp: probe_clock_def Let_def split: if_splits)

lemma probe_policy_spec:
  assumes "probe_policy C st digest rd db = Inr db'"
  shows "d_execs db' = d_execs db" "d_clock_high db' = d_clock_high db" "d_clock_blocked db' = d_clock_blocked db"
    "d_policy_digest db' = digest" "al_reserved (d_audit db') = al_reserved (d_audit db)"
    "d_epoch db' = d_epoch db" "d_agent db' = d_agent db" "d_user_version db' = d_user_version db"
    "d_trust db' = d_trust db" "d_key_digest db' = d_key_digest db" "d_quick_check db' = d_quick_check db"
  using assms by (auto simp: probe_policy_def result_simps split: if_splits dest!: probe_append_update)

lemma probe_capacity_spec:
  assumes "probe_capacity p now db = Inr db'"
  shows "db' = db\<lparr>d_execs := filter (\<lambda>x. \<not> prunable now x) (d_execs db)\<rparr>"
    "int (length (d_execs db')) < MaxRecords" "pending_bytes (d_execs db') + p_MaxResultBytes p \<le> p_PendingBytes p"
    "al_sequence (d_audit db') + al_reserved (d_audit db') + 2 \<le> Capacity"
  using assms by (auto simp: probe_capacity_def Let_def split: if_splits)

subsection \<open>The invariant of the database\<close>

definition exec_key :: "exec_row \<Rightarrow> string \<times> string" where
  "exec_key x = (x_epoch x, x_request x)"

text \<open>A finished row carries the printed form of a valid result for its task.\<close>

definition stored_ok :: "crypto \<Rightarrow> Task \<Rightarrow> exec_row \<Rightarrow> bool" where
  "stored_ok C t x \<longleftrightarrow> (\<exists>r data. x_result x = Some data \<and> MarshalResult r = Inr data \<and> Result_Validate r
     \<and> CheckAssignment r t \<and> r_Status r = x_state x \<and> x_result_digest x = Digest C data)"

definition row_ok :: "crypto \<Rightarrow> exec_row \<Rightarrow> bool" where
  "row_ok C x \<longleftrightarrow> (\<exists>t. DecodeTask (x_payload x) = Inr t \<and> t_RequestID t = x_request x
     \<and> t_EnrollmentEpoch t = x_epoch x \<and> x_payload_digest x = Digest C (x_payload x) \<and> Hex (x_policy_digest x) 64
     \<and> 0 < x_started_at x \<and> (x_executed x \<longrightarrow> x_accepted_ms x < 1000 * x_expires_at x)
     \<and> (if x_state x = Running then x_result x = None \<and> \<not> x_delivered x \<and> x_executed x else stored_ok C t x))"

definition rows_inv :: "crypto \<Rightarrow> exec_row list \<Rightarrow> bool" where
  "rows_inv C xs \<longleftrightarrow> distinct (map exec_key xs) \<and> list_all (row_ok C) xs \<and> int (length xs) \<le> MaxRecords"

definition running_count :: "exec_row list \<Rightarrow> nat" where
  "running_count xs = length (filter (\<lambda>x. x_state x = Running) xs)"

definition probe_inv :: "crypto \<Rightarrow> probe_db \<Rightarrow> bool" where
  "probe_inv C db \<longleftrightarrow> log_ok C (d_audit db) \<and> rows_inv C (d_execs db)
     \<and> al_reserved (d_audit db) = int (running_count (d_execs db)) \<and> running_count (d_execs db) \<le> 1
     \<and> 0 < d_clock_high db"

lemma running_rows_count: "length (running_rows db) = running_count (d_execs db)"
  by (simp add: running_rows_def running_count_def)

text \<open>What an append does to the invariant: the log stays verified and the reservation moves by \<open>delta\<close>.\<close>

lemma probe_append_log:
  assumes "probe_append C rd e delta db = Inr db'" "log_ok C (d_audit db)" "e_At e = 0" "source_ok (e_Source e)"
  shows "log_ok C (d_audit db')" "al_reserved (d_audit db') = al_reserved (d_audit db) + delta"
    "d_execs db' = d_execs db" "d_clock_high db' = d_clock_high db"
proof -
  from assms(1) obtain L where L: "Append C rd e delta (d_audit db) = Inr L" "db' = db\<lparr>d_audit := L\<rparr>"
    by (auto simp: probe_append_eq_Inr)
  have "event_fits rd e"
    using Append_eq_Inr(5) [OF L(1)] assms(3,4) by (intro event_fitsI) (simp_all add: int64_def)
  with Append_log_ok [OF assms(2) L(1)] Append_eq_Inr(2) [OF L(1)] L(2)
  show "log_ok C (d_audit db')" "al_reserved (d_audit db') = al_reserved (d_audit db) + delta"
    "d_execs db' = d_execs db" "d_clock_high db' = d_clock_high db" by simp_all
qed


lemma append_inv:
  assumes "probe_append C rd e 0 db = Inr db'" "probe_inv C db" "e_At e = 0" "source_ok (e_Source e)"
  shows "probe_inv C db'"
  using probe_append_log [OF assms(1) _ assms(3,4)] assms(2) by (simp add: probe_inv_def)

lemma probe_inv_blocked: "probe_inv C (db\<lparr>d_clock_blocked := b\<rparr>) = probe_inv C db"
  by (simp add: probe_inv_def)

lemma probe_clock_inv:
  assumes "probe_clock C st now rd db = Inr (b, db')" "probe_inv C db"
  shows "probe_inv C db'"
proof -
  have high: "probe_inv C (db\<lparr>d_clock_high := h\<rparr>)" if "0 < h" for h
    using assms(2) that by (simp add: probe_inv_def)
  show ?thesis
    using assms by (auto simp: probe_clock_def Let_def result_simps probe_inv_blocked split: if_splits
        intro: high elim!: append_inv)
qed

lemma probe_policy_inv:
  assumes "probe_policy C st digest rd db = Inr db'" "probe_inv C db"
  shows "probe_inv C db'"
proof -
  have upd: "probe_inv C (db\<lparr>d_policy_digest := digest\<rparr>)" if "probe_inv C db" for db
    using that by (simp add: probe_inv_def)
  show ?thesis
    using assms by (auto simp: probe_policy_def result_simps split: if_splits intro!: upd elim: append_inv)
qed

lemma running_count_filter: "running_count (filter (\<lambda>x. \<not> prunable now x) xs) = running_count xs"
  unfolding running_count_def filter_filter
  by (rule arg_cong [where f = length], rule filter_cong) (auto simp: prunable_def)

lemma rows_inv_filter: "rows_inv C xs \<Longrightarrow> rows_inv C (filter P xs)"
  using order_trans [OF of_nat_mono [OF length_filter_le [of P xs]], of MaxRecords]
  by (auto simp: rows_inv_def list_all_iff distinct_map_filterI)

lemma probe_capacity_inv:
  assumes "probe_capacity p now db = Inr db'" "probe_inv C db"
  shows "probe_inv C db'"
  using probe_capacity_spec(1) [OF assms(1)] assms(2)
  by (simp add: probe_inv_def running_count_filter rows_inv_filter)

lemma Result_status: "Result_Validate r \<Longrightarrow> r_Status r \<noteq> Running"
  by (auto simp: Result_Validate_def error_code_ok_def split: if_splits)

lemma length_filter_hit:
  assumes "\<And>x. h x \<Longrightarrow> P x" "\<And>x. h x \<Longrightarrow> \<not> P (f x)"
  shows "length (filter P (map (\<lambda>x. if h x then f x else x) xs)) + length (filter h xs) = length (filter P xs)"
  by (induction xs) (auto simp: assms)

text \<open>The row that \<open>finishTx\<close> completes.\<close>

lemma finishTx_spec:
  assumes "finishTx C t r source kind rd db = Inr db'"
  obtains data and x :: exec_row where "Result_Validate r" "CheckAssignment r t" "MarshalResult r = Inr data"
    "probe_append C rd ((TaskEvent kind t source (r_Status r) (r_ErrorCode r) (x_payload_digest x))
       \<lparr>e_PolicyDigest := r_PolicyDigest r, e_ResultDigest := Digest C data\<rparr>) (- 1)
       (db\<lparr>d_execs := map (\<lambda>y. if has_key (t_EnrollmentEpoch t) (t_RequestID t) y \<and> x_state y = Running
           then y\<lparr>x_state := r_Status r, x_result := Some data, x_result_digest := Digest C data\<rparr> else y) (d_execs db)\<rparr>) = Inr db'"
    "length (filter (\<lambda>y. has_key (t_EnrollmentEpoch t) (t_RequestID t) y \<and> x_state y = Running) (d_execs db)) = 1"
proof -
  from assms obtain data where v: "Result_Validate r" "CheckAssignment r t" "MarshalResult r = Inr data"
    by (auto simp: finishTx_def result_simps split: if_splits)
  let ?db1 = "db\<lparr>d_execs := map (\<lambda>y. if has_key (t_EnrollmentEpoch t) (t_RequestID t) y \<and> x_state y = Running
           then y\<lparr>x_state := r_Status r, x_result := Some data, x_result_digest := Digest C data\<rparr> else y) (d_execs db)\<rparr>"
  from assms v obtain x where "find_exec (t_EnrollmentEpoch t) (t_RequestID t) ?db1 = Some x"
    by (auto simp: finishTx_def Let_def split: if_splits option.splits)
  with assms v that [of data x] show thesis
    by (auto simp: finishTx_def Let_def split: if_splits)
qed

lemma finishTx_inv:
  assumes fin: "finishTx C t r source kind rd db = Inr db'" and inv: "probe_inv C db" and src: "source_ok source"
    and task: "x \<in> set (running_rows db)" "DecodeTask (x_payload x) = Inr t"
  shows "probe_inv C db'" "running_count (d_execs db') = 0"
proof -
  let ?hit = "\<lambda>y. has_key (t_EnrollmentEpoch t) (t_RequestID t) y \<and> x_state y = Running"
  from fin obtain data and z :: exec_row where v: "Result_Validate r" "CheckAssignment r t" "MarshalResult r = Inr data"
    and ap: "probe_append C rd ((TaskEvent kind t source (r_Status r) (r_ErrorCode r) (x_payload_digest z))
       \<lparr>e_PolicyDigest := r_PolicyDigest r, e_ResultDigest := Digest C data\<rparr>) (- 1)
       (db\<lparr>d_execs := map (\<lambda>y. if ?hit y
           then y\<lparr>x_state := r_Status r, x_result := Some data, x_result_digest := Digest C data\<rparr> else y) (d_execs db)\<rparr>) = Inr db'"
    and one: "length (filter ?hit (d_execs db)) = 1"
    by (rule finishTx_spec)
  let ?f = "\<lambda>y. y\<lparr>x_state := r_Status r, x_result := Some data, x_result_digest := Digest C data\<rparr>"
  let ?db1 = "db\<lparr>d_execs := map (\<lambda>y. if ?hit y then ?f y else y) (d_execs db)\<rparr>"
  have log: "log_ok C (d_audit db')" "al_reserved (d_audit db') = al_reserved (d_audit db) - 1"
    "d_execs db' = d_execs ?db1" "d_clock_high db' = d_clock_high db"
    using probe_append_log [OF ap] inv src by (simp_all add: probe_inv_def)
  have cnt: "running_count (d_execs db') + 1 = running_count (d_execs db)"
    using length_filter_hit [of ?hit "\<lambda>y. x_state y = Running" ?f "d_execs db"] Result_status [OF v(1)] one
    unfolding running_count_def log(3) by simp
  have keys: "map exec_key (d_execs db') = map exec_key (d_execs db)"
    by (simp add: log(3) exec_key_def)
  have "row_ok C (?f y)" if "y \<in> set (d_execs db)" "?hit y" for y
  proof -
    have xin: "x \<in> set (d_execs db)" "x_state x = Running" using task(1) by (auto simp: running_rows_def)
    have ok: "row_ok C x" "row_ok C y" using inv xin that by (auto simp: probe_inv_def rows_inv_def list_all_iff)
    have "exec_key x = exec_key y"
      using ok(1) task(2) that(2) by (auto simp: row_ok_def exec_key_def has_key_def)
    then have "x = y" using inv xin that(1) by (auto simp: probe_inv_def rows_inv_def distinct_map inj_on_def)
    with ok task(2) v Result_status [OF v(1)] show ?thesis by (auto simp: row_ok_def stored_ok_def)
  qed
  then have "list_all (row_ok C) (d_execs db')"
    using inv by (auto simp: log(3) list_all_iff probe_inv_def rows_inv_def)
  then have rows: "rows_inv C (d_execs db')"
    using inv keys by (simp add: probe_inv_def rows_inv_def) (metis length_map)
  from rows cnt log inv show "probe_inv C db'" by (simp add: probe_inv_def)
  from cnt inv show "running_count (d_execs db') = 0" by (simp add: probe_inv_def)
qed

subsection \<open>Accepting keeps the invariant\<close>

lemma strict_decode_empty: "0 < n \<Longrightarrow> 2 \<le> n \<Longrightarrow> strict_decode ''{}'' n [] = Inr []"
  using strict_decode_object [of "[]" n "[]"] by (simp add: object_text_alt object_members_def)

lemma marshal_raw_empty: "marshal_raw ''{}'' = Inr ''{}''"
  using json_parse_reads [OF reads_empty_object(1)]
  by (simp add: marshal_raw_def compact_step compact_Nil is_ws_def code_def)

lemma emptyResult_ok:
  assumes "Task_Validate t" "Hex digest 64" "0 < a" "a \<le> b" "error_code_ok st ec"
  shows "Result_Validate (emptyResult t digest a b st ec)" "CheckAssignment (emptyResult t digest a b st ec) t"
    "\<exists>data. MarshalResult (emptyResult t digest a b st ec) = Inr data"
proof -
  have st: "st \<noteq> Succeeded" using assms(5) by (auto simp: error_code_ok_def split: if_splits)
  then show "CheckAssignment (emptyResult t digest a b st ec) t" by (simp add: CheckAssignment_def emptyResult_def)
  show "\<exists>data. MarshalResult (emptyResult t digest a b st ec) = Inr data"
    by (simp add: MarshalResult_def emptyResult_def marshal_raw_empty)
  have "Hex (t_RequestID t) 32" "Hex (t_AgentID t) 32" "Hex (t_EnrollmentEpoch t) 32"
    using assms(1) by (auto simp: Task_Validate_def Node_Validate_def)
  then show "Result_Validate (emptyResult t digest a b st ec)"
    using assms st Task_Validate_known [OF assms(1)]
    by (simp add: Result_Validate_def emptyResult_def strict_decode_empty)
qed

lemma classify_cases:
  assumes "classify t p digest now minute burst = (status, ec)"
  shows "status = Running \<and> ec = '''' \<or> status \<noteq> Running \<and> error_code_ok status ec"
  using assms by (auto simp: classify_def error_code_ok_def split: if_splits)

lemma classify_Running:
  assumes "classify t p digest now minute burst = (status, ec)" "status = Running"
  shows "unix_sec now < t_ExpiresAt t" "t_CreatedAt t - MaxClockSkew \<le> unix_sec now" "t_PolicyDigest t = digest"
    "\<not> p_Paused p" "Policy_Allows p (t_Type t)" "AllowsResource p t" "minute < p_MaxPerMinute p" "burst < p_Burst p"
  using assms by (auto simp: classify_def split: if_splits)

lemma unix_milli_less: "unix_sec now < n \<Longrightarrow> unix_milli now < 1000 * n"
  by (simp add: unix_sec_def unix_milli_def)

lemma replay_inv:
  assumes "replay C t hash source rd x db = Inr (r, db')" "probe_inv C db" "source_ok source"
  shows "probe_inv C db'"
proof -
  have "e_At (TaskEvent ''task_conflict'' t source ''rejected'' ''request_conflict'' hash) = 0"
    "source_ok (e_Source (TaskEvent ''task_conflict'' t source ''rejected'' ''request_conflict'' hash))"
    using assms(3) by simp_all
  with assms(1,2) append_inv show ?thesis
    by (auto simp: replay_def result_simps split: if_splits option.splits sum.splits)
qed

lemma running_count_append [simp]: "running_count (xs @ ys) = running_count xs + running_count ys"
  by (simp add: running_count_def)

text \<open>The row that \<open>decide\<close> leaves in the table.\<close>

definition new_row :: "crypto \<Rightarrow> Task \<Rightarrow> bytes \<Rightarrow> string \<Rightarrow> instant \<Rightarrow> TaskStatus \<Rightarrow> bytes option \<Rightarrow> exec_row" where
  "new_row C t payload digest now status result =
     \<lparr>x_request = t_RequestID t, x_epoch = t_EnrollmentEpoch t, x_payload = payload,
      x_payload_digest = Digest C payload, x_policy_digest = digest, x_state = status, x_started_at = unix_sec now,
      x_accepted_ms = unix_milli now, x_executed = (status = Running), x_expires_at = t_ExpiresAt t, x_result = result,
      x_result_digest = (case result of None \<Rightarrow> '''' | Some d \<Rightarrow> Digest C d), x_delivered = False\<rparr>"

lemma decide_spec:
  assumes "decide C t payload p digest source now rd db = Inr (r, db')"
  obtains status ec result d e where
    "classify t p digest now (executed_since (unix_milli (now - seconds 60)) db)
       (executed_since (unix_milli (now - seconds 1)) db) = (status, ec)"
    "running_rows db = []" "\<not> list_ex (has_key (t_EnrollmentEpoch t) (t_RequestID t)) (d_execs db)"
    "r = Inr d" "dc_run d \<longleftrightarrow> status = Running" "dc_result d = result" "dc_digest d = digest" "dc_started d = unix_sec now"
    "d_execs db' = d_execs db @ [new_row C t payload digest now status result]"
    "status = Running \<Longrightarrow> result = None"
    "status \<noteq> Running \<Longrightarrow> \<exists>data. result = Some data
       \<and> MarshalResult (emptyResult t digest (unix_sec now) (unix_sec now) status ec) = Inr data"
    "probe_append C rd e (if status = Running then 1 else 0) (db\<lparr>d_execs := d_execs db'\<rparr>) = Inr db'"
    "e_At e = 0" "e_Source e = source"
proof -
  obtain status ec where cl: "classify t p digest now (executed_since (unix_milli (now - seconds 60)) db)
       (executed_since (unix_milli (now - seconds 1)) db) = (status, ec)" by fastforce
  define ev where "ev = (TaskEvent ''task_accepted'' t source status ec (Digest C payload))\<lparr>e_PolicyDigest := digest\<rparr>"
  have rows: "running_rows db = []" "\<not> list_ex (has_key (t_EnrollmentEpoch t) (t_RequestID t)) (d_execs db)"
    using assms cl by (auto simp: decide_def Let_def result_simps insert_exec_eq_Inr split: if_splits)
  let ?row = "\<lambda>res. new_row C t payload digest now status res"
  let ?db1 = "db\<lparr>d_execs := d_execs db @ [?row None]\<rparr>"
  have nomatch: "map (\<lambda>x. if has_key (t_EnrollmentEpoch t) (t_RequestID t) x then f x else x) (d_execs db) = d_execs db" for f
    using rows(2) by (intro map_idI) (auto simp: list_ex_iff)
  show thesis
  proof (cases "status = Running")
    case True
    have "\<exists>db2. probe_append C rd ev 1 ?db1 = Inr db2 \<and> db' = db2
        \<and> r = Inr \<lparr>dc_run = True, dc_result = None, dc_digest = digest, dc_started = unix_sec now\<rparr>"
      using assms cl True rows
      by (auto simp: decide_def Let_def result_simps insert_exec_eq_Inr new_row_def ev_def split: if_splits)
    then have ap: "probe_append C rd ev 1 ?db1 = Inr db'"
      and r: "r = Inr \<lparr>dc_run = True, dc_result = None, dc_digest = digest, dc_started = unix_sec now\<rparr>" by auto
    have x: "d_execs db' = d_execs db @ [?row None]" using probe_append_frame(1) [OF ap] by simp
    show thesis
      by (rule that [OF cl rows r, of None ev]) (use True ap x in \<open>simp_all add: ev_def\<close>)
  next
    case False
    have "\<exists>data db2. MarshalResult (emptyResult t digest (unix_sec now) (unix_sec now) status ec) = Inr data
        \<and> probe_append C rd (ev\<lparr>e_Kind := ''task_rejected'', e_ResultDigest := Digest C data\<rparr>) 0 ?db1 = Inr db2
        \<and> db' = db2\<lparr>d_execs := map (\<lambda>x. if has_key (t_EnrollmentEpoch t) (t_RequestID t) x
                    then x\<lparr>x_result := Some data, x_result_digest := Digest C data\<rparr> else x) (d_execs db2)\<rparr>
        \<and> r = Inr \<lparr>dc_run = False, dc_result = Some data, dc_digest = digest, dc_started = unix_sec now\<rparr>"
      using assms cl False rows
      by (auto simp: decide_def Let_def result_simps insert_exec_eq_Inr new_row_def ev_def split: if_splits)
    then obtain data db2 where m: "MarshalResult (emptyResult t digest (unix_sec now) (unix_sec now) status ec) = Inr data"
      and ap: "probe_append C rd (ev\<lparr>e_Kind := ''task_rejected'', e_ResultDigest := Digest C data\<rparr>) 0 ?db1 = Inr db2"
      and db': "db' = db2\<lparr>d_execs := map (\<lambda>x. if has_key (t_EnrollmentEpoch t) (t_RequestID t) x
                    then x\<lparr>x_result := Some data, x_result_digest := Digest C data\<rparr> else x) (d_execs db2)\<rparr>"
      and r: "r = Inr \<lparr>dc_run = False, dc_result = Some data, dc_digest = digest, dc_started = unix_sec now\<rparr>" by blast
    have x2: "d_execs db2 = d_execs db @ [?row None]" using probe_append_frame(1) [OF ap] by simp
    have x: "d_execs db' = d_execs db @ [?row (Some data)]"
      by (simp add: db' x2 nomatch) (simp add: new_row_def has_key_def)
    have ap': "probe_append C rd (ev\<lparr>e_Kind := ''task_rejected'', e_ResultDigest := Digest C data\<rparr>) 0 (db\<lparr>d_execs := d_execs db'\<rparr>) = Inr db'"
      using ap by (auto simp: probe_append_eq_Inr db')
    show thesis
      by (rule that [OF cl rows r, of "Some data" "ev\<lparr>e_Kind := ''task_rejected'', e_ResultDigest := Digest C data\<rparr>"])
         (use False m ap' x in \<open>simp_all add: ev_def\<close>)
  qed
qed

lemma decide_inv:
  assumes dec: "decide C t payload p digest source now rd db = Inr (r, db')" and inv: "probe_inv C db"
    and room: "int (length (d_execs db)) < MaxRecords" and src: "source_ok source"
    and t: "DecodeTask payload = Inr t" and dg: "Hex digest 64" and now: "0 < unix_sec now"
  shows "probe_inv C db'"
  using dec
proof (cases rule: decide_spec)
  case (1 status ec result d e)
  let ?row = "new_row C t payload digest now status result"
  have tv: "Task_Validate t" using DecodeTask_valid [OF t] by simp
  have ms: "unix_milli now < 1000 * t_ExpiresAt t" if "status = Running"
    using classify_Running [OF 1(1) that] by (simp add: unix_milli_less)
  have "row_ok C ?row"
  proof (cases "status = Running")
    case True
    with 1(10) t dg now ms show ?thesis by (auto simp: row_ok_def new_row_def)
  next
    case False
    with 1(11) obtain data where data: "result = Some data"
      "MarshalResult (emptyResult t digest (unix_sec now) (unix_sec now) status ec) = Inr data" by blast
    have "error_code_ok status ec" using classify_cases [OF 1(1)] False by simp
    from emptyResult_ok [OF tv dg now order_refl this] data have "stored_ok C t ?row"
      unfolding stored_ok_def
      by (intro exI [of _ "emptyResult t digest (unix_sec now) (unix_sec now) status ec"] exI [of _ data])
         (simp add: new_row_def emptyResult_def)
    with False t dg now show ?thesis by (auto simp: row_ok_def new_row_def)
  qed
  moreover have "exec_key ?row \<notin> set (map exec_key (d_execs db))"
    using 1(3) by (auto simp: list_ex_iff has_key_def exec_key_def new_row_def)
  ultimately have rows: "rows_inv C (d_execs db')"
    using inv room by (auto simp: 1(9) rows_inv_def probe_inv_def)
  have zero: "running_count (d_execs db) = 0" using 1(2) running_rows_count [of db] by simp
  have cnt: "running_count (d_execs db') = (if status = Running then 1 else 0)"
    by (simp add: 1(9) zero) (simp add: running_count_def new_row_def)
  note log = probe_append_log [OF 1(12) _ 1(13)]
  show ?thesis
    using log inv src 1(14) rows cnt zero by (auto simp: probe_inv_def)
qed

lemma Policy_Digest_hex: "sha256_spec C \<Longrightarrow> Policy_Digest C p = Inr digest \<Longrightarrow> Hex digest 64 \<and> Policy_Validate p"
  by (auto simp: Policy_Digest_def Hex_Digest split: if_splits)

lemma prepare_inv:
  assumes "prepare C st t payload p source now clk keyID db = (r, db')" and inv: "probe_inv C db"
    and C: "sha256_spec C" and src: "source_ok source" and t: "DecodeTask payload = Inr t"
  shows "probe_inv C db'"
  using assms(1)
proof (cases rule: prepare_cases)
  case (rollback e)
  with inv show ?thesis by simp
next
  case blocked
  with inv probe_clock_inv show ?thesis by blast
next
  case (known digest db1 x)
  with inv src probe_clock_inv replay_inv show ?thesis by blast
next
  case (fresh digest db1 db2 db3)
  have i3: "probe_inv C db3"
    using fresh inv probe_clock_inv probe_policy_inv probe_capacity_inv by blast
  show ?thesis
    using decide_inv [OF fresh(9) i3 probe_capacity_spec(2) [OF fresh(8)] src t _ probe_clock_spec(7) [OF fresh(4)]]
      Policy_Digest_hex [OF C fresh(1)] by simp
qed

lemma Ready_inv:
  assumes "Ready C st p now clk db = (r, db')" "probe_inv C db"
  shows "probe_inv C db'"
  using assms by (auto simp: Ready_def run_tx_def result_simps split: if_splits option.splits sum.splits
      dest!: probe_clock_inv probe_policy_inv probe_capacity_inv)

lemma finish_inv:
  assumes "finish C t res source rd db = (r, db')" "probe_inv C db" "source_ok source"
    "x \<in> set (running_rows db)" "DecodeTask (x_payload x) = Inr t"
  shows "probe_inv C db'"
  using assms finishTx_inv(1) [OF _ assms(2-5)]
  by (auto simp: finish_def run_tx_def result_simps split: sum.splits)

lemma rejectInvalid_inv:
  assumes "rejectInvalid C st digest source rd db = (r, db')" "probe_inv C db" "source_ok source"
  shows "probe_inv C db'"
  using assms append_inv [of C rd "no_event\<lparr>e_Kind := ''invalid_task'', e_AgentID := n_AgentID (st_node st),
       e_Epoch := n_EnrollmentEpoch (st_node st), e_Source := source, e_Status := ''rejected'',
       e_Code := ''invalid_envelope'', e_PayloadDigest := digest\<rparr>" db]
  by (auto simp: rejectInvalid_def run_tx_def result_simps split: sum.splits)

lemma row_ok_delivered: "row_ok C x \<Longrightarrow> x_state x \<noteq> Running \<Longrightarrow> row_ok C (x\<lparr>x_delivered := True\<rparr>)"
  by (auto simp: row_ok_def stored_ok_def)

lemma Acknowledge_inv:
  assumes "Acknowledge st request digest db = (r, db')" "probe_inv C db"
  shows "probe_inv C db'"
proof -
  let ?hit = "\<lambda>x. x_request x = request \<and> x_epoch x = n_EnrollmentEpoch (st_node st)
            \<and> x_result_digest x = digest \<and> x_state x \<noteq> Running"
  have db': "db' = db\<lparr>d_execs := map (\<lambda>x. if ?hit x then x\<lparr>x_delivered := True\<rparr> else x) (d_execs db)\<rparr>"
    using assms(1) by (simp add: Acknowledge_def Let_def)
  have keys: "map exec_key (d_execs db') = map exec_key (d_execs db)" by (simp add: db' exec_key_def)
  have log: "d_audit db' = d_audit db" "d_clock_high db' = d_clock_high db" "length (d_execs db') = length (d_execs db)"
    by (simp_all add: db')
  have "running_count (d_execs db') = running_count (d_execs db)"
    unfolding db' running_count_def by (simp add: filter_map comp_def) (rule arg_cong [where f = length], rule filter_cong, auto)
  moreover have "list_all (row_ok C) (d_execs db')"
    using assms(2) row_ok_delivered by (fastforce simp: db' list_all_iff probe_inv_def rows_inv_def)
  ultimately show ?thesis
    using assms(2) log unfolding probe_inv_def rows_inv_def keys by simp
qed

lemma recover_row_inv:
  assumes "recover_row C now rd x db = Inr db'" "probe_inv C db" "x \<in> set (running_rows db)"
  shows "probe_inv C db'" "running_count (d_execs db') = 0"
proof -
  obtain t res where t: "DecodeTask (x_payload x) = Inr t" and f: "finishTx C t res ''local'' ''task_recovered'' rd db = Inr db'"
    using assms(1) by (auto simp: recover_row_def split: sum.splits if_splits)
  show "probe_inv C db'" "running_count (d_execs db') = 0"
    using finishTx_inv [OF f assms(2) _ assms(3) t] by simp_all
qed

lemma recover_items_inv:
  assumes "fold_res (recover_row C now rd) (running_rows db) db = Inr db'" "probe_inv C db"
  shows "probe_inv C db'" "running_count (d_execs db') = 0"
proof -
  have "length (running_rows db) \<le> 1" using assms(2) by (simp add: running_rows_count probe_inv_def)
  then consider "running_rows db = []" | x where "running_rows db = [x]"
    by (cases "running_rows db") auto
  then have "probe_inv C db' \<and> running_count (d_execs db') = 0"
  proof cases
    case 1
    then show ?thesis using assms running_rows_count [of db] by simp
  next
    case (2 x)
    then have "recover_row C now rd x db = Inr db'" "x \<in> set (running_rows db)"
      using assms(1) by (auto simp: result_simps)
    then show ?thesis using recover_row_inv assms(2) by blast
  qed
  then show "probe_inv C db'" "running_count (d_execs db') = 0" by simp_all
qed

lemma recover_inv:
  assumes "recover C st now clk db = (r, db')" "probe_inv C db"
  shows "probe_inv C db'"
  using assms probe_clock_inv recover_items_inv
  by (auto simp: recover_def run_tx_def result_simps Let_def split: sum.splits if_splits)

lemma probe_open_inv:
  assumes "probe_open C node key trust clk db = (r, db')" "probe_inv C db"
  shows "probe_inv C db'"
  using assms by (auto simp: probe_open_def Let_def split: if_splits prod.splits sum.splits dest: recover_inv)

lemma ReadAudit_inv:
  assumes "ReadAudit C rd after limit db = (r, db')" "probe_inv C db"
  shows "probe_inv C db'"
  using assms(1) by (cases rule: ReadAudit_cases) (use assms(2) append_inv in auto)

lemma MigrateTrust_inv:
  assumes "MigrateTrust C node legacy previous nx clk db = (r, db')" "probe_inv C db"
  shows "probe_inv C db'"
  using assms(1)
proof (cases rule: MigrateTrust_cases)
  case 1
  with assms(2) show ?thesis by simp
next
  case (2 data e db1)
  have "probe_inv C db1" using assms(2) 2(3) by (simp add: probe_inv_def)
  with append_inv [OF 2(4)] 2 show ?thesis by simp
qed

lemma authenticate_sound:
  assumes "authenticate C st envelope now = Inr (t, payload, keyID)"
  shows "DecodeTask payload = Inr t" "t_AgentID t = n_AgentID (st_node st)"
    "t_EnrollmentEpoch t = n_EnrollmentEpoch (st_node st)"
    "case st_trust st of None \<Rightarrow> \<exists>sig. length sig = SignatureSize \<and> ed_Verify C (st_key st) (message payload) sig
       | Some s \<Rightarrow> trusted_signature C s payload keyID \<and> CheckTask s t keyID now = Inr ()"
proof -
  have "DecodeTask payload = Inr t \<and> t_AgentID t = n_AgentID (st_node st)
    \<and> t_EnrollmentEpoch t = n_EnrollmentEpoch (st_node st)
    \<and> (case st_trust st of None \<Rightarrow> \<exists>sig. length sig = SignatureSize \<and> ed_Verify C (st_key st) (message payload) sig
       | Some s \<Rightarrow> trusted_signature C s payload keyID \<and> CheckTask s t keyID now = Inr ())"
  proof (cases "st_trust st")
    case None
    with assms have v: "VerifyPayload C envelope (st_key st) = Inr (t, payload)"
      and "t_AgentID t = n_AgentID (st_node st)" "t_EnrollmentEpoch t = n_EnrollmentEpoch (st_node st)"
      by (auto simp: authenticate_def result_simps split: if_splits)
    with VerifyPayload_sound [OF v] None show ?thesis by auto
  next
    case (Some s)
    with assms have v: "VerifyTrusted C envelope s now = Inr (t, payload, keyID)"
      and "t_AgentID t = n_AgentID (st_node st)" "t_EnrollmentEpoch t = n_EnrollmentEpoch (st_node st)"
      by (auto simp: authenticate_def result_simps split: if_splits)
    with VerifyTrusted_sound [OF v] Some show ?thesis by auto
  qed
  then show "DecodeTask payload = Inr t" "t_AgentID t = n_AgentID (st_node st)"
    "t_EnrollmentEpoch t = n_EnrollmentEpoch (st_node st)"
    "case st_trust st of None \<Rightarrow> \<exists>sig. length sig = SignatureSize \<and> ed_Verify C (st_key st) (message payload) sig
       | Some s \<Rightarrow> trusted_signature C s payload keyID \<and> CheckTask s t keyID now = Inr ()" by blast+
qed

theorem probe_step_inv:
  assumes "probe_step C S db l db'" "probe_inv C db" "sha256_spec C" "\<And>s. S s \<Longrightarrow> source_ok s"
  shows "probe_inv C db'"
  using assms(1)
proof cases
  case (accept st envelope now0 t payload keyID p source now clk r)
  show ?thesis
    by (rule prepare_inv [OF accept(3) assms(2,3) assms(4) [OF accept(4)] authenticate_sound(1) [OF accept(2)]])
next
  case (complete x t res source rd r)
  show ?thesis by (rule finish_inv [OF complete(4) assms(2) assms(4) [OF complete(5)] complete(2,3)])
next
  case (refuse st digest source rd r)
  show ?thesis by (rule rejectInvalid_inv [OF refuse(2) assms(2) assms(4) [OF refuse(3)]])
qed (erule Ready_inv [OF _ assms(2)] Acknowledge_inv [OF _ assms(2)] probe_open_inv [OF _ assms(2)]
    MigrateTrust_inv [OF _ assms(2)] ReadAudit_inv [OF _ assms(2)])+

lemma probe_trace_inv:
  assumes "probe_trace C S db runs db'" "probe_inv C db" "sha256_spec C" "\<And>s. S s \<Longrightarrow> source_ok s"
  shows "probe_inv C db'"
  using assms(1,2) by (induction rule: probe_trace.induct) (use probe_step_inv assms(3,4) in blast)+

lemma probe_initialize_inv:
  assumes "probe_initialize C node key trust clk = Inr db" "0 < unix_sec (clk 0)"
  shows "probe_inv C db"
proof -
  have base: "probe_inv C db1" if "d_execs db1 = []" "d_audit db1 = audit_Initialize" "0 < d_clock_high db1" for db1
    using that log_ok_Initialize by (simp add: probe_inv_def rows_inv_def running_count_def MaxRecords_def audit_Initialize_def)
  from assms(1) obtain db1 e where "probe_append C (clk 1) e 0 db1 = Inr db" "e_At e = 0" "e_Source e = ''local''"
    "d_execs db1 = []" "d_audit db1 = audit_Initialize" "d_clock_high db1 = unix_sec (clk 0)"
    by (auto simp: probe_initialize_def Let_def result_simps createTrust_def split: if_splits option.splits)
  with append_inv base assms(2) show ?thesis by simp
qed


end
