(* ===== verification/Probe_Engine.thy ===== *)
theory Probe_Engine
  imports Probe_Laws
begin

section \<open>The probe's engine\<close>

text \<open>
  Consequences for \<open>Engine.Process\<close> and for a restart: what a decision to run implies, the rate limits, the clock
  latch over a history, that a task which ran is always completed and stored, that an interrupted one is always
  recovered, that stored results are final, and that collectors see nothing but what the policy grants.
\<close>

subsection \<open>What a decision to run implies\<close>

text \<open>A request is let through only when every check of the engine, the key, the clock, the policy and the
  rate limits passed; its row is then in the table and one audit slot is kept for its completion.\<close>

lemma prepare_run:
  assumes prep: "prepare C st t payload p source now clk keyID db = (Inr d, db')" and run: "dc_run d"
  obtains digest db3 e where "Policy_Digest C p = Inr digest" "dc_digest d = digest" "dc_started d = unix_sec now"
    "t_AgentID t = n_AgentID (st_node st)" "t_EnrollmentEpoch t = n_EnrollmentEpoch (st_node st)"
    "trust_check st t keyID (clk 1) = Inr ()" "\<not> d_clock_blocked db" "d_clock_high db - MaxClockSkew \<le> unix_sec now"
    "classify t p digest now (executed_since (unix_milli (now - seconds 60)) db3)
       (executed_since (unix_milli (now - seconds 1)) db3) = (Running, '''')"
    "d_execs db3 = filter (\<lambda>x. \<not> prunable now x) (d_execs db)" "running_rows db3 = []"
    "find_exec (t_EnrollmentEpoch t) (t_RequestID t) db = None"
    "pending_bytes (d_execs db3) + p_MaxResultBytes p \<le> p_PendingBytes p"
    "d_execs db' = d_execs db3 @ [new_row C t payload digest now Running None]"
    "probe_append C (clk 3) e 1 (db3\<lparr>d_execs := d_execs db'\<rparr>) = Inr db'" "e_At e = 0" "e_Source e = source"
  using prep
proof (cases rule: prepare_cases)
  case (rollback e)
  then show thesis by simp
next
  case blocked
  then show thesis by simp
next
  case (known digest db1 x)
  with replay_decided [OF known(7)] run show thesis by simp
next
  case (fresh digest db1 db2 db3)
  note c = probe_clock_spec [OF fresh(4)] and pc = probe_capacity_spec [OF fresh(8)] and pp = probe_policy_spec [OF fresh(7)]
  from fresh(9) show thesis
  proof (cases rule: decide_spec)
    case (1 status ec result d' e)
    have st: "status = Running" "ec = ''''" using 1 run classify_cases [OF 1(1)] by auto
    show thesis
    proof (rule that [of digest db3 e])
      show "find_exec (t_EnrollmentEpoch t) (t_RequestID t) db = None"
        using fresh(6) c(1) by (simp add: find_exec_def)
      have db3: "d_execs db3 = filter (\<lambda>x. \<not> prunable now x) (d_execs db)" using c(1) pp(1) pc(1) by simp
      then show "d_execs db3 = filter (\<lambda>x. \<not> prunable now x) (d_execs db)" .
      show "\<not> d_clock_blocked db" "d_clock_high db - MaxClockSkew \<le> unix_sec now" using c(8) by simp_all
      show "dc_digest d = digest" "dc_started d = unix_sec now" using 1(4,7,8) by simp_all
      show "d_execs db' = d_execs db3 @ [new_row C t payload digest now Running None]" using 1(9,10) st by simp
      show "probe_append C (clk 3) e 1 (db3\<lparr>d_execs := d_execs db'\<rparr>) = Inr db'" using 1(12) st by simp
      show "classify t p digest now (executed_since (unix_milli (now - seconds 60)) db3)
          (executed_since (unix_milli (now - seconds 1)) db3) = (Running, '''')" using 1(1) st by simp
    qed (fact fresh pc(3) 1(2,13,14))+
  qed
qed

lemma executed_since_prune:
  assumes "list_all (row_ok C) (d_execs db)" "d_execs db3 = filter (\<lambda>x. \<not> prunable now x) (d_execs db)"
    "unix_milli (now - seconds 86400) \<le> ms"
  shows "executed_since ms db3 = executed_since ms db"
proof -
  have "x_executed x \<and> ms < x_accepted_ms x \<Longrightarrow> \<not> prunable now x" if "x \<in> set (d_execs db)" for x
  proof
    assume x: "x_executed x \<and> ms < x_accepted_ms x" "prunable now x"
    have "row_ok C x" using assms(1) that by (simp add: list_all_iff)
    then have "x_accepted_ms x < 1000 * x_expires_at x" using x(1) by (auto simp: row_ok_def)
    moreover have "x_expires_at x < unix_sec now - 86400" using x(2) by (simp add: prunable_def)
    moreover have "1000 * (unix_sec now - 86400) \<le> unix_milli (now - seconds 86400)"
      by (simp add: unix_sec_def unix_milli_def seconds_def)
    moreover have "ms < x_accepted_ms x" using x(1) by simp
    ultimately have "ms < unix_milli (now - seconds 86400)" by simp
    with assms(3) show False by simp
  qed
  then show ?thesis
    unfolding executed_since_def assms(2) filter_filter
    by (intro arg_cong [where f = "\<lambda>l. int (length l)"] filter_cong) auto
qed

text \<open>The rate limits count every run of the last minute and second, pruning notwithstanding.\<close>

lemma prepare_rate:
  assumes prep: "prepare C st t payload p source now clk keyID db = (Inr d, db')" and run: "dc_run d"
    and inv: "probe_inv C db"
  shows "executed_since (unix_milli (now - seconds 60)) db' = executed_since (unix_milli (now - seconds 60)) db + 1"
    "executed_since (unix_milli (now - seconds 60)) db' \<le> p_MaxPerMinute p"
    "executed_since (unix_milli (now - seconds 1)) db' \<le> p_Burst p"
proof -
  from prep run obtain digest db3 e where
    cl: "classify t p digest now (executed_since (unix_milli (now - seconds 60)) db3)
       (executed_since (unix_milli (now - seconds 1)) db3) = (Running, '''')"
    and x3: "d_execs db3 = filter (\<lambda>x. \<not> prunable now x) (d_execs db)"
    and x': "d_execs db' = d_execs db3 @ [new_row C t payload digest now Running None]"
    by (rule prepare_run)
  have ok: "list_all (row_ok C) (d_execs db)" using inv by (simp add: probe_inv_def rows_inv_def)
  have ge: "unix_milli (now - seconds 86400) \<le> unix_milli (now - seconds 60)"
    "unix_milli (now - seconds 86400) \<le> unix_milli (now - seconds 1)"
    "unix_milli (now - seconds 60) < unix_milli now" "unix_milli (now - seconds 1) < unix_milli now"
    by (simp_all add: unix_milli_def seconds_def)
  have c: "executed_since ms db' = executed_since ms db3 + 1" if "ms < unix_milli now" for ms
    using that by (simp add: executed_since_def x') (simp add: new_row_def)
  note p = executed_since_prune [OF ok x3 ge(1)]
  show "executed_since (unix_milli (now - seconds 60)) db' = executed_since (unix_milli (now - seconds 60)) db + 1"
    using c [OF ge(3)] p by simp
  show "executed_since (unix_milli (now - seconds 60)) db' \<le> p_MaxPerMinute p"
    "executed_since (unix_milli (now - seconds 1)) db' \<le> p_Burst p"
    using c [OF ge(3)] c [OF ge(4)] classify_Running(7,8) [OF cl] by simp_all
qed

subsection \<open>The clock latch over a history\<close>

lemma run_tx_frame:
  assumes "run_tx f s = (r, s')" "\<And>r s'. f s = Inr (r, s') \<Longrightarrow> P s s'" "P s s"
  shows "P s s'"
  using assms by (auto simp: run_tx_def split: sum.splits)

definition clock_le :: "probe_db \<Rightarrow> probe_db \<Rightarrow> bool" where
  "clock_le db db' \<longleftrightarrow> d_clock_high db \<le> d_clock_high db' \<and> (d_clock_blocked db \<longrightarrow> d_clock_blocked db')"

lemma clock_le_refl [simp]: "clock_le db db"
  by (simp add: clock_le_def)

lemma clock_le_trans [trans]: "clock_le a b \<Longrightarrow> clock_le b c \<Longrightarrow> clock_le a c"
  by (auto simp: clock_le_def)

lemma clock_le_eq: "d_clock_high db' = d_clock_high db \<Longrightarrow> d_clock_blocked db' = d_clock_blocked db \<Longrightarrow> clock_le db db'"
  by (simp add: clock_le_def)

lemma probe_clock_le: "probe_clock C st now rd db = Inr (b, db') \<Longrightarrow> clock_le db db'"
  using probe_clock_spec(2,4) by (auto simp: clock_le_def)

lemma finishTx_clock:
  assumes "finishTx C t r source kind rd db = Inr db'"
  shows "d_clock_high db' = d_clock_high db" "d_clock_blocked db' = d_clock_blocked db"
  using assms by (auto elim!: finishTx_spec dest!: probe_append_update)

lemma recover_rows_clock:
  "fold_res (recover_row C now rd) xs db = Inr db' \<Longrightarrow>
     d_clock_high db' = d_clock_high db \<and> d_clock_blocked db' = d_clock_blocked db"
  by (erule fold_res_invariant) (auto simp: recover_row_def finishTx_clock split: sum.splits if_splits)

lemma recover_clock: "recover C st now clk db = (r, db') \<Longrightarrow> clock_le db db'"
  unfolding recover_def
  by (erule run_tx_frame)
     (auto simp: result_simps Let_def split: if_splits dest!: probe_clock_le recover_rows_clock simp: clock_le_def)

lemma prepare_clock:
  assumes "prepare C st t payload p source now clk keyID db = (r, db')"
  shows "clock_le db db'" "d_clock_blocked db \<Longrightarrow> run_label t r = [] \<and> d_execs db' = d_execs db"
proof -
  have rp: "clock_le db1 db'" if "replay C t h source rd x db1 = Inr (r, db')" for h rd x db1
    using that by (auto simp: replay_def result_simps split: if_splits option.splits sum.splits
        dest!: probe_append_update intro!: clock_le_eq)
  have dc: "clock_le db3 db'" if "decide C t payload p digest source now rd db3 = Inr (r, db')" for digest rd db3
    using that by (cases rule: decide_spec) (auto dest: probe_append_frame(2,3) intro!: clock_le_eq)
  show "clock_le db db'"
    using assms
  proof (cases rule: prepare_cases)
    case (known digest db1 x)
    then show ?thesis using clock_le_trans [OF probe_clock_le [OF known(4)] rp [OF known(7)]] by simp
  next
    case (fresh digest db1 db2 db3)
    have "clock_le db db1" by (rule probe_clock_le [OF fresh(4)])
    also have "clock_le db1 db2" using probe_policy_spec [OF fresh(7)] by (simp add: clock_le_eq)
    also have "clock_le db2 db3" using probe_capacity_spec(1) [OF fresh(8)] by (simp add: clock_le_eq)
    also have "clock_le db3 db'" by (rule dc [OF fresh(9)])
    finally show ?thesis .
  qed (use probe_clock_le in auto)
  show "run_label t r = [] \<and> d_execs db' = d_execs db" if "d_clock_blocked db"
    using assms by (cases rule: prepare_cases) (auto simp: run_label_def dest!: probe_clock_blocked [OF that])
qed

lemma Ready_clock: "Ready C st p now clk db = (r, db') \<Longrightarrow> clock_le db db'"
proof -
  have "clock_le db (db1\<lparr>d_execs := xs\<rparr>)" if "clock_le db db1" for db1 :: probe_db and xs
    using that by (simp add: clock_le_def)
  moreover have "clock_le db db2" if "clock_le db db1" "probe_policy C st digest rd db1 = Inr db2" for db1 db2 digest rd
    using that probe_policy_spec by (auto simp: clock_le_def)
  ultimately show "Ready C st p now clk db = (r, db') \<Longrightarrow> clock_le db db'"
    by (auto simp: Ready_def run_tx_def result_simps split: if_splits option.splits sum.splits
        dest!: probe_clock_le probe_capacity_spec(1))
qed

lemma probe_step_clock:
  assumes "probe_step C S db l db'"
  shows "clock_le db db'" "d_clock_blocked db \<Longrightarrow> l = []"
proof -
  show "clock_le db db'"
    using assms
  proof cases
    case (complete x t res source rd r)
    then show ?thesis by (auto simp: finish_def result_simps finishTx_clock intro: clock_le_eq elim!: run_tx_frame)
  next
    case (refuse st digest source rd r)
    then show ?thesis
      by (auto simp: rejectInvalid_def result_simps intro!: clock_le_eq elim!: run_tx_frame dest!: probe_append_update)
  next
    case (acknowledge st request digest r)
    then show ?thesis by (auto simp: Acknowledge_def Let_def intro!: clock_le_eq)
  next
    case (reopen node key trust clk r)
    then show ?thesis
      by (auto simp: probe_open_def Let_def split: if_splits prod.splits sum.splits dest: recover_clock)
  next
    case (migrate node legacy previous nx clk r)
    from migrate(2) show ?thesis
      by (cases rule: MigrateTrust_cases) (auto intro!: clock_le_eq dest!: probe_append_update)
  next
    case (read_audit rd after limit r)
    from read_audit(2) show ?thesis
      by (cases rule: ReadAudit_cases) (auto intro!: clock_le_eq dest!: probe_append_update)
  qed (use prepare_clock(1) Ready_clock in auto)
  show "l = []" if "d_clock_blocked db"
    using assms by cases (use that prepare_clock(2) in auto)
qed

lemma probe_trace_clock:
  "probe_trace C S db runs db' \<Longrightarrow> clock_le db db' \<and> (d_clock_blocked db \<longrightarrow> runs = [])"
proof (induction rule: probe_trace.induct)
  case (trace_step db runs db1 l db2)
  with probe_step_clock [OF trace_step(2)] show ?case by (auto simp: clock_le_def)
qed simp

subsection \<open>Completion cannot fail\<close>

lemma strict_decode_parses: "is_ok (strict_decode d n fs) \<Longrightarrow> \<exists>v. json_parse d = Some v"
  by (auto simp: strict_decode_def split: if_splits option.splits)

lemma andThen_ok: "is_ok (andThen a f) \<Longrightarrow> is_ok a"
  by (auto simp: is_ok_def andThen_def split: sum.splits)

lemma Result_data_parses:
  assumes "Result_Validate r"
  shows "\<exists>v. json_parse (r_Data r) = Some v"
proof -
  from assms consider "is_ok (DecodeInformation (r_Data r))" | "is_ok (DecodeMeasurements (r_Data r))"
    | "is_ok (DecodeSSHReport (r_Data r) (r_FinishedAt r))" | "is_ok (DecodeServiceReport (r_Data r) (r_FinishedAt r))"
    | "is_ok (strict_decode (r_Data r) 256 [])"
    by (auto simp: Result_Validate_def is_ok_def split: if_splits sum.splits)
  then have "\<exists>n fs. is_ok (strict_decode (r_Data r) n fs)"
    by cases (auto simp: DecodeInformation_def DecodeMeasurements_def DecodeSSHReport_def
        DecodeServiceReport_def dest!: andThen_ok)
  then show ?thesis using strict_decode_parses by blast
qed

lemma MarshalResult_valid: "Result_Validate r \<Longrightarrow> \<exists>data. MarshalResult r = Inr data"
  using Result_data_parses by (fastforce simp: MarshalResult_def marshal_raw_def)

text \<open>The row of a running task: it is the only row with its key.\<close>

lemma running_row_unique:
  assumes inv: "probe_inv C db" and x: "x \<in> set (running_rows db)" and t: "DecodeTask (x_payload x) = Inr t"
  shows "filter (\<lambda>y. has_key (t_EnrollmentEpoch t) (t_RequestID t) y \<and> x_state y = Running) (d_execs db) = [x]"
    "has_key (t_EnrollmentEpoch t) (t_RequestID t) x" "row_ok C x"
proof -
  have xin: "x \<in> set (d_execs db)" "x_state x = Running" using x by (auto simp: running_rows_def)
  show ok: "row_ok C x" using inv xin by (auto simp: probe_inv_def rows_inv_def list_all_iff)
  show k: "has_key (t_EnrollmentEpoch t) (t_RequestID t) x" using ok t by (auto simp: row_ok_def has_key_def)
  have "length (running_rows db) \<le> 1" using inv by (simp add: running_rows_count probe_inv_def)
  with x have "running_rows db = [x]" by (cases "running_rows db") auto
  then have "filter (has_key (t_EnrollmentEpoch t) (t_RequestID t)) (running_rows db) = [x]" using k by simp
  then show "filter (\<lambda>y. has_key (t_EnrollmentEpoch t) (t_RequestID t) y \<and> x_state y = Running) (d_execs db) = [x]"
    by (simp add: running_rows_def filter_filter conj_commute)
qed

lemma find_map_Some: "find P xs = Some x \<Longrightarrow> (\<And>y. P (f y) = P y) \<Longrightarrow> \<exists>z \<in> set xs. find P (map f xs) = Some (f z) \<and> P z"
  by (induction xs) auto

lemma finishTx_total:
  assumes inv: "probe_inv C db" and C: "sha256_spec C" and x: "x \<in> set (running_rows db)"
    and t: "DecodeTask (x_payload x) = Inr t" and r: "Result_Validate r" "CheckAssignment r t"
    and src: "source_ok source" "length source \<le> 256" and rd: "0 < wrap64 rd"
    and kind: "audit_identifier kind 40" "kind \<noteq> ''''" "\<not> decision_kind kind"
  shows "\<exists>db'. finishTx C t r source kind rd db = Inr db'"
proof -
  let ?hit = "\<lambda>y. has_key (t_EnrollmentEpoch t) (t_RequestID t) y \<and> x_state y = Running"
  note u = running_row_unique [OF inv x t]
  obtain data where data: "MarshalResult r = Inr data" using MarshalResult_valid [OF r(1)] by blast
  let ?f = "\<lambda>y. y\<lparr>x_state := r_Status r, x_result := Some data, x_result_digest := Digest C data\<rparr>"
  let ?g = "\<lambda>y. if ?hit y then ?f y else y"
  let ?db1 = "db\<lparr>d_execs := map ?g (d_execs db)\<rparr>"
  have "x \<in> set (d_execs db)" using x by (simp add: running_rows_def)
  with u(2) obtain y0 where "find (has_key (t_EnrollmentEpoch t) (t_RequestID t)) (d_execs db) = Some y0"
    by (metis find_None_iff not_None_eq)
  moreover have "has_key (t_EnrollmentEpoch t) (t_RequestID t) (?g y) = has_key (t_EnrollmentEpoch t) (t_RequestID t) y" for y
    by (simp add: has_key_def)
  ultimately obtain z where
    z: "find_exec (t_EnrollmentEpoch t) (t_RequestID t) ?db1 = Some (?g z)" "z \<in> set (d_execs db)"
    using find_map_Some [of "has_key (t_EnrollmentEpoch t) (t_RequestID t)" "d_execs db" y0 ?g]
    by (auto simp: find_exec_def)
  have zd: "x_payload_digest (?g z) = x_payload_digest z" by simp
  have "row_ok C z" using inv z(2) by (auto simp: probe_inv_def rows_inv_def list_all_iff)
  then have h: "Hex (x_payload_digest z) 64" using Hex_Digest [OF C] by (auto simp: row_ok_def)
  let ?e = "(TaskEvent kind t source (r_Status r) (r_ErrorCode r) (x_payload_digest z))
       \<lparr>e_PolicyDigest := r_PolicyDigest r, e_ResultDigest := Digest C data\<rparr>"
  have "Event_validate (stamp rd ?e)"
    using DecodeTask_valid [OF t] src rd kind h Hex_Digest [OF C] Result_codes [OF r(1)] r(1)
    by (intro TaskEvent_valid) (simp_all add: Result_Validate_def)
  then have "append_ready C rd ?e (d_audit db)"
    using inv kind log_ok_hash [OF C] by (simp add: append_ready_def probe_inv_def)
  moreover have "0 < al_reserved (d_audit db)" "al_sequence (d_audit db) + al_reserved (d_audit db) \<le> Capacity"
    using inv x running_rows_count [of db] log_ok_rows(3) [of C "d_audit db"]
    by (auto simp: probe_inv_def) (metis length_greater_0_conv length_pos_if_in_set)
  ultimately obtain L where "Append C rd ?e (- 1) (d_audit db) = Inr L" using log.consume_succeeds by blast
  then have ap: "\<exists>db'. probe_append C rd ?e (- 1) ?db1 = Inr db'" by (auto simp: probe_append_eq_Inr)
  show ?thesis
    using ap by (simp add: finishTx_def r data Let_def u(1) z zd)
qed

lemma finish_succeeds:
  assumes "probe_inv C db" "sha256_spec C" "x \<in> set (running_rows db)" "DecodeTask (x_payload x) = Inr t"
    "Result_Validate r" "CheckAssignment r t" "source_ok source" "length source \<le> 256" "0 < wrap64 rd"
  shows "\<exists>data db'. MarshalResult r = Inr data \<and> finish C t r source rd db = (Inr data, db')
    \<and> probe_inv C db' \<and> running_rows db' = []"
proof -
  have k: "audit_identifier ''task_completed'' 40"
    by (simp add: audit_identifier_def alnum_def char_in_def code_def)
  from finishTx_total [OF assms k] obtain db' where f: "finishTx C t r source ''task_completed'' rd db = Inr db'" by auto
  obtain data where "MarshalResult r = Inr data" using MarshalResult_valid [OF assms(5)] by blast
  moreover have "running_rows db' = []"
    using finishTx_inv(2) [OF f assms(1,7,3,4)] running_rows_count [of db'] by simp
  ultimately show ?thesis
    using f finishTx_inv(1) [OF f assms(1,7,3,4)] by (simp add: finish_def run_tx_def)
qed

subsection \<open>The result of a task that ran\<close>

lemma CheckAssignment_failed: "r_RequestID r = t_RequestID t \<Longrightarrow> r_AgentID r = t_AgentID t \<Longrightarrow> r_Epoch r = t_EnrollmentEpoch t
    \<Longrightarrow> r_Type r = t_Type t \<Longrightarrow> r_Status r \<noteq> Succeeded \<Longrightarrow> CheckAssignment r t"
  by (simp add: CheckAssignment_def)

definition about :: "Task \<Rightarrow> string \<Rightarrow> int \<Rightarrow> Result \<Rightarrow> bool" where
  "about t digest start r \<longleftrightarrow> r_RequestID r = t_RequestID t \<and> r_AgentID r = t_AgentID t \<and> r_Epoch r = t_EnrollmentEpoch t
     \<and> r_Type r = t_Type t \<and> r_PolicyDigest r = digest \<and> r_StartedAt r = start \<and> start \<le> r_FinishedAt r \<and> \<not> r_Truncated r"

lemma failed_valid:
  assumes "Task_Validate t" "Hex digest 64" "0 < start" "about t digest start r" "ec \<in> set [''collector_failed'', ''result_limit'']"
  shows "Result_Validate (r\<lparr>r_Status := Failed, r_ErrorCode := ec, r_Data := ''{}''\<rparr>)"
    "CheckAssignment (r\<lparr>r_Status := Failed, r_ErrorCode := ec, r_Data := ''{}''\<rparr>) t"
  using assms Task_Validate_ids [OF assms(1)]
  by (auto simp: Result_Validate_def about_def error_code_ok_def strict_decode_empty CheckAssignment_def)

lemma task_result_spec:
  assumes "Task_Validate t" "Hex (dc_digest d) 64" "0 < dc_started d"
  obtains r where "task_result en t p d clk = Inr r" "Result_Validate r" "CheckAssignment r t"
    "about t (dc_digest d) (dc_started d) r"
proof -
  define r0 where "r0 = emptyResult t (dc_digest d) (dc_started d) (dc_started d) Failed ''collector_failed''"
  define fin where "fin = min (clk 0 + seconds (p_TimeoutSeconds p)) (seconds (t_ExpiresAt t))"
  define r1 where "r1 = (if unix_sec (clk 1) \<ge> t_ExpiresAt t then r0\<lparr>r_Status := Expired, r_ErrorCode := ''expired''\<rparr>
                else (case tasks_Execute (en_start_err en fin) (en_collectors en) t p of
                    Inl e \<Rightarrow> if e = DeadlineExceeded \<or> e = Canceled \<or> en_end_err en fin
                      then r0\<lparr>r_ErrorCode := ''deadline''\<rparr> else r0
                  | Inr data \<Rightarrow> if en_end_err en fin then r0\<lparr>r_ErrorCode := ''deadline''\<rparr>
                      else r0\<lparr>r_Status := Succeeded, r_ErrorCode := '''', r_Data := data\<rparr>))"
  define r2 where "r2 = r1\<lparr>r_FinishedAt := max (r_StartedAt r1) (unix_sec (clk 2))\<rparr>"
  define r3 where "r3 = (if \<not> Result_Validate r2 \<or> \<not> CheckAssignment r2 t
                then r2\<lparr>r_Status := Failed, r_ErrorCode := ''collector_failed'', r_Data := ''{}''\<rparr> else r2)"
  have tr: "task_result en t p d clk = andThen (MarshalResult r3) (\<lambda>data.
        Inr (if int (length data) > p_MaxResultBytes p
             then r3\<lparr>r_Status := Failed, r_ErrorCode := ''result_limit'', r_Data := ''{}''\<rparr> else r3))"
    unfolding task_result_def Let_def r3_def r2_def r1_def r0_def fin_def ..
  have "about t (dc_digest d) (dc_started d) r2"
    by (simp add: r2_def r1_def r0_def emptyResult_def about_def split: sum.splits)
  then have a2: "about t (dc_digest d) (dc_started d) r2" .
  have a3: "about t (dc_digest d) (dc_started d) r3" using a2 by (simp add: r3_def about_def)
  have v3: "Result_Validate r3" "CheckAssignment r3 t"
    using failed_valid [OF assms a2, of "''collector_failed''"] by (auto simp: r3_def)
  from MarshalResult_valid [OF v3(1)] obtain data where data: "MarshalResult r3 = Inr data" by blast
  show thesis
  proof (cases "int (length data) > p_MaxResultBytes p")
    case True
    show thesis
      by (rule that [of "r3\<lparr>r_Status := Failed, r_ErrorCode := ''result_limit'', r_Data := ''{}''\<rparr>"])
         (use True data a3 failed_valid [OF assms a3, of "''result_limit''"] in \<open>simp_all add: tr about_def\<close>)
  next
    case False
    show thesis by (rule that [of r3]) (use False data a3 v3 in \<open>simp_all add: tr\<close>)
  qed
qed

subsection \<open>The engine\<close>

text \<open>The decision to run leaves the request's row as the running one.\<close>

lemma prepare_run_row:
  assumes "prepare C st t payload p source now clk keyID db = (Inr d, db')" "dc_run d"
  shows "\<exists>x \<in> set (running_rows db'). x_payload x = payload"
proof -
  from assms obtain digest and db3 :: probe_db where "d_execs db' = d_execs db3 @ [new_row C t payload digest now Running None]"
    by (rule prepare_run)
  then show ?thesis by (auto simp: running_rows_def new_row_def)
qed

text \<open>\<open>Process\<close> is made of the steps \<open>refuse\<close>, \<open>accept\<close> and \<open>complete\<close>.\<close>

lemma Process_steps:
  assumes "Process C st source en clk envelope db = (r, db')"
  shows "\<exists>runs. probe_trace C (\<lambda>s. s = source) db runs db'"
proof -
  let ?S = "\<lambda>s. s = source"
  have one: "probe_trace C ?S db l db1" if "probe_step C ?S db l db1" for l db1
    using probe_trace.trace_step [OF probe_trace.trace_refl that] by simp
  show ?thesis
  proof (cases "en_cancelled en")
    case True
    with assms show ?thesis by (auto simp: Process_def intro: probe_trace.trace_refl)
  next
    case nc: False
    show ?thesis
    proof (cases "authenticate C st envelope (clk 0)")
      case (Inl e)
      obtain q db1 where rj: "rejectInvalid C st (Digest C (take MaxEnvelopeBytes envelope)) source (clk 1) db = (q, db1)"
        by fastforce
      with assms nc Inl have "db' = db1" by (auto simp: Process_def split: sum.splits)
      with one [OF probe_step.refuse [OF rj]] show ?thesis by auto
    next
      case (Inr a)
      obtain t payload keyID where a: "a = (t, payload, keyID)" by (cases a)
      show ?thesis
      proof (cases "en_policy en")
        case (Inl e)
        with assms nc Inr a show ?thesis by (auto simp: Process_def intro: probe_trace.trace_refl)
      next
        case (Inr p)
        obtain q db1 where pr: "prepare C st t payload p source (clk 1) (\<lambda>i. clk (i + 2)) [keyID] db = (q, db1)"
          by fastforce
        note acc = one [OF probe_step.accept [OF \<open>authenticate C st envelope (clk 0) = Inr a\<close> [unfolded a] pr refl]]
        show ?thesis
        proof (cases "db' = db1")
          case True
          with acc show ?thesis by blast
        next
          case False
          with assms nc Inr pr \<open>authenticate C st envelope (clk 0) = Inr a\<close> a obtain d res q2 where
            d: "q = Inr d" "dc_run d" and fin: "finish C t res source (clk 9) db1 = (q2, db')"
            by (auto simp: Process_def split: sum.splits if_splits prod.splits)
          from prepare_run_row [OF pr [unfolded d(1)] d(2)] obtain x where
            x: "x \<in> set (running_rows db1)" "x_payload x = payload" by blast
          have "DecodeTask payload = Inr t"
            using authenticate_sound(1) \<open>authenticate C st envelope (clk 0) = Inr a\<close> a by blast
          with x fin have "probe_step C ?S db1 [] db'" by (intro probe_step.complete) auto
          with probe_trace.trace_step [OF acc] show ?thesis by blast
        qed
      qed
    qed
  qed
qed

text \<open>A task that is let through always gets its result stored and returned.\<close>

lemma Process_completes:
  assumes inv: "probe_inv C db" and C: "sha256_spec C" and src: "source_ok source" "length source \<le> 256"
    and rd: "0 < wrap64 (clk 9)" and nc: "\<not> en_cancelled en" and auth: "authenticate C st envelope (clk 0) = Inr (t, payload, keyID)"
    and p: "en_policy en = Inr p" and prep: "prepare C st t payload p source (clk 1) (\<lambda>i. clk (i + 2)) [keyID] db = (Inr d, db1)"
    and run: "dc_run d"
  obtains r data db' where "Process C st source en clk envelope db = (Inr (Some data), db')"
    "MarshalResult r = Inr data" "Result_Validate r" "CheckAssignment r t"
    "probe_inv C db'" "running_rows db' = []"
proof -
  have t: "DecodeTask payload = Inr t" using authenticate_sound(1) [OF auth] .
  have i1: "probe_inv C db1" by (rule prepare_inv [OF prep inv C src(1) t])
  from prepare_run_row [OF prep run] obtain x where x: "x \<in> set (running_rows db1)" "x_payload x = payload" by blast
  from prep run obtain digest where dg: "Policy_Digest C p = Inr digest" "dc_digest d = digest"
    "dc_started d = unix_sec (clk 1)" by (rule prepare_run)
  have started: "0 < unix_sec (clk 1)"
    using prep by (cases rule: prepare_cases) (auto dest: probe_clock_spec(7))
  have h: "Hex (dc_digest d) 64" using Policy_Digest_hex [OF C dg(1)] dg by simp
  obtain r where r: "task_result en t p d (\<lambda>i. clk (i + 6)) = Inr r" "Result_Validate r" "CheckAssignment r t"
    using task_result_spec [of t d en p "\<lambda>i. clk (i + 6)"] DecodeTask_valid [OF t] h started dg(3) by metis
  from finish_succeeds [OF i1 C x(1) _ r(2,3) src rd] t x(2) obtain data db' where
    f: "MarshalResult r = Inr data" "finish C t r source (clk 9) db1 = (Inr data, db')" "probe_inv C db'" "running_rows db' = []"
    by auto
  show thesis
    by (rule that [OF _ f(1) r(2,3) f(3,4)]) (use f r prep run p auth nc in \<open>simp add: Process_def\<close>)
qed

subsection \<open>Recovery after a crash\<close>

definition opens :: "crypto \<Rightarrow> State \<Rightarrow> probe_db \<Rightarrow> bool" where
  "opens C st db \<longleftrightarrow> (d_user_version db = 1 \<or> d_user_version db = 2) \<and> d_quick_check db = ''ok''
     \<and> d_agent db = n_AgentID (st_node st) \<and> d_epoch db = n_EnrollmentEpoch (st_node st)
     \<and> checkTrustBinding C db (st_key st) (st_trust st) = Inr ()"

lemma recover_row_total:
  assumes inv: "probe_inv C db" and C: "sha256_spec C" and x: "x \<in> set (running_rows db)" and rd: "0 < wrap64 rd"
  shows "\<exists>db'. recover_row C now rd x db = Inr db'"
proof -
  have "row_ok C x" using inv x by (auto simp: running_rows_def probe_inv_def rows_inv_def list_all_iff)
  then obtain t where t: "DecodeTask (x_payload x) = Inr t" "x_payload_digest x = Digest C (x_payload x)"
    "Hex (x_policy_digest x) 64" "0 < x_started_at x" by (auto simp: row_ok_def)
  have tv: "Task_Validate t" using DecodeTask_valid [OF t(1)] by simp
  have ec: "error_code_ok Indeterminate ''recovered_after_restart''" by (simp add: error_code_ok_def)
  have k: "audit_identifier ''task_recovered'' 40" by (simp add: audit_identifier_def alnum_def char_in_def code_def)
  note r = emptyResult_ok [OF tv t(3,4) max.cobounded1 ec, of "unix_sec now"]
  from finishTx_total [OF inv C x t(1) r(1,2) _ _ rd k] t show ?thesis by (simp add: recover_row_def)
qed

text \<open>Reopening a database after a crash in the middle of a task always succeeds on a sane clock: the interrupted
  task becomes indeterminate, and nothing else changes.\<close>

lemma recover_succeeds:
  assumes inv: "probe_inv C db" and C: "sha256_spec C" and op: "opens C st db" and rd: "0 < wrap64 (clk 1)"
    and ck: "\<not> d_clock_blocked db" "d_clock_high db - MaxClockSkew \<le> unix_sec now" "0 < unix_sec now"
  obtains db' where "recover C st now clk db = (Inr (), db')" "probe_inv C db'" "running_rows db' = []"
proof -
  have high: "0 < d_clock_high db" using inv by (simp add: probe_inv_def)
  obtain db1 where c: "probe_clock C st now (clk 0) db = Inr (False, db1)" "d_execs db1 = d_execs db" "d_audit db1 = d_audit db"
    using ck high by (cases "d_clock_high db < unix_sec now") (auto simp: probe_clock_def Let_def)
  have i1: "probe_inv C db1" by (rule probe_clock_inv [OF c(1) inv])
  have res: "al_reserved (d_audit db1) = int (length (running_rows db1))" "length (running_rows db1) \<le> 1"
    using i1 running_rows_count [of db1] by (simp_all add: probe_inv_def)
  obtain db2 where f: "fold_res (recover_row C now (clk 1)) (running_rows db1) db1 = Inr db2"
  proof (cases "running_rows db1")
    case Nil
    then show thesis using that by simp
  next
    case (Cons x xs)
    then have "running_rows db1 = [x]" using res(2) by simp
    with recover_row_total [OF i1 C _ rd, of x now] that show thesis by auto
  qed
  have v: "audit_Verify C (d_audit db)" using inv by (simp add: probe_inv_def log_ok_def)
  show thesis
  proof (rule that [of db2])
    show "recover C st now clk db = (Inr (), db2)"
      using op v c res f by (simp add: recover_def run_tx_def opens_def Let_def)
    show "probe_inv C db2" "running_rows db2 = []"
      using recover_items_inv [OF f i1] running_rows_count [of db2] by simp_all
  qed
qed

subsection \<open>Stored results\<close>

text \<open>A row is only ever completed once: afterwards its outcome is fixed, and it stays until it was delivered.\<close>

definition row_le :: "exec_row \<Rightarrow> exec_row \<Rightarrow> bool" where
  "row_le x y \<longleftrightarrow> exec_key y = exec_key x \<and> x_payload y = x_payload x \<and> x_payload_digest y = x_payload_digest x
     \<and> x_policy_digest y = x_policy_digest x \<and> x_accepted_ms y = x_accepted_ms x \<and> x_executed y = x_executed x
     \<and> x_expires_at y = x_expires_at x
     \<and> (x_state x \<noteq> Running \<longrightarrow> x_state y = x_state x \<and> x_result y = x_result x \<and> x_result_digest y = x_result_digest x)
     \<and> (x_delivered x \<longrightarrow> x_delivered y)"

definition keeps :: "exec_row list \<Rightarrow> exec_row list \<Rightarrow> bool" where
  "keeps xs ys \<longleftrightarrow> (\<forall>x \<in> set xs. (\<exists>y \<in> set ys. row_le x y) \<or> (x_delivered x \<and> x_state x \<noteq> Running \<and> x_state x \<noteq> Indeterminate))"

lemma row_le_refl [simp]: "row_le x x"
  by (simp add: row_le_def)

lemma keeps_refl [simp]: "keeps xs xs"
  by (auto simp: keeps_def intro: row_le_refl)

lemma keeps_map: "(\<And>x. row_le x (f x)) \<Longrightarrow> keeps xs (map f xs)"
  by (auto simp: keeps_def)

lemma keeps_prune: "keeps xs (filter (\<lambda>x. \<not> prunable now x) xs)"
  by (auto simp: keeps_def prunable_def intro: row_le_refl)

lemma keeps_prune_append: "keeps xs (filter (\<lambda>x. \<not> prunable now x) xs @ ys)"
  using keeps_prune [of xs now] by (auto simp: keeps_def)

lemma finishTx_keeps: "finishTx C t r source kind rd db = Inr db' \<Longrightarrow> keeps (d_execs db) (d_execs db')"
proof (erule finishTx_spec)
  fix data and x :: exec_row
  assume "probe_append C rd ((TaskEvent kind t source (r_Status r) (r_ErrorCode r) (x_payload_digest x))
       \<lparr>e_PolicyDigest := r_PolicyDigest r, e_ResultDigest := Digest C data\<rparr>) (- 1)
       (db\<lparr>d_execs := map (\<lambda>y. if has_key (t_EnrollmentEpoch t) (t_RequestID t) y \<and> x_state y = Running
           then y\<lparr>x_state := r_Status r, x_result := Some data, x_result_digest := Digest C data\<rparr> else y) (d_execs db)\<rparr>) = Inr db'"
  from probe_append_frame(1) [OF this] show "keeps (d_execs db) (d_execs db')"
    by simp (rule keeps_map, simp add: row_le_def exec_key_def)
qed

lemma prepare_keeps:
  assumes "prepare C st t payload p source now clk keyID db = (r, db')"
  shows "keeps (d_execs db) (d_execs db')"
  using assms
proof (cases rule: prepare_cases)
  case (known digest db1 x)
  have "d_execs db' = d_execs db1"
    using known(7) by (auto simp: replay_def result_simps split: if_splits option.splits sum.splits dest: probe_append_frame(1))
  then show ?thesis using probe_clock_spec(1) [OF known(4)] by simp
next
  case (fresh digest db1 db2 db3)
  have "d_execs db3 = filter (\<lambda>x. \<not> prunable now x) (d_execs db)"
    using probe_clock_spec(1) [OF fresh(4)] probe_policy_spec(1) [OF fresh(7)] probe_capacity_spec(1) [OF fresh(8)] by simp
  with fresh(9) show ?thesis by (auto elim!: decide_spec simp: keeps_prune_append)
qed (use probe_clock_spec(1) in auto)

lemma recover_keeps:
  assumes "recover C st now clk db = (r, db')" "probe_inv C db"
  shows "keeps (d_execs db) (d_execs db')"
proof -
  have row: "keeps (d_execs db1) (d_execs db2)" if "recover_row C now rd x db1 = Inr db2" for rd x db1 db2
    using that by (auto simp: recover_row_def finishTx_keeps split: sum.splits if_splits)
  have items: "keeps (d_execs db1) (d_execs db2)"
    if f: "fold_res (recover_row C now rd) (running_rows db1) db1 = Inr db2" and i: "length (running_rows db1) \<le> 1" for rd db1 db2
  proof (cases "running_rows db1")
    case Nil
    with f show ?thesis by simp
  next
    case (Cons x xs)
    with i have "running_rows db1 = [x]" by simp
    with f row show ?thesis by (auto simp: result_simps)
  qed
  have body: "keeps (d_execs db) (d_execs db2)"
    if "probe_clock C st now rd db = Inr (b, db1)" "fold_res (recover_row C now rd') (running_rows db1) db1 = Inr db2"
      "\<not> 1 < length (running_rows db1)" for rd rd' b db1 db2
    using items [OF that(2)] that(3) probe_clock_spec(1) [OF that(1)] by simp
  show ?thesis
    using assms(1) body unfolding recover_def run_tx_def
    by (auto simp: result_simps Let_def split: sum.splits if_splits dest: probe_clock_spec(1))
qed

lemma probe_step_keeps:
  assumes "probe_step C S db l db'" "probe_inv C db"
  shows "keeps (d_execs db) (d_execs db')"
  using assms(1)
proof cases
  case (ready st p now clk r)
  then show ?thesis
    by (auto simp: Ready_def run_tx_def result_simps split: if_splits option.splits sum.splits
        dest!: probe_clock_spec(1) probe_policy_spec(1) probe_capacity_spec(1) simp: keeps_prune)
next
  case (accept st envelope now0 t payload keyID p source now clk r)
  then show ?thesis using prepare_keeps by blast
next
  case (complete x t res source rd r)
  then show ?thesis by (auto simp: finish_def run_tx_def result_simps finishTx_keeps split: sum.splits)
next
  case (refuse st digest source rd r)
  then show ?thesis by (auto simp: rejectInvalid_def run_tx_def result_simps split: sum.splits dest!: probe_append_frame(1))
next
  case (acknowledge st request digest r)
  then show ?thesis
    by (auto simp: Acknowledge_def Let_def row_le_def exec_key_def intro!: keeps_map)
next
  case (reopen node key trust clk r)
  then show ?thesis
    by (auto simp: probe_open_def Let_def split: if_splits prod.splits sum.splits dest: recover_keeps [OF _ assms(2)])
next
  case (migrate node legacy previous nx clk r)
  from migrate(2) show ?thesis by (cases rule: MigrateTrust_cases) (auto dest!: probe_append_frame(1))
next
  case (read_audit rd after limit r)
  from read_audit(2) show ?thesis by (cases rule: ReadAudit_cases) (auto dest!: probe_append_frame(1))
qed

subsection \<open>Confinement of the collectors\<close>

text \<open>What the policy grants: two sets of collectors that agree on it cannot be told apart.\<close>

definition agree :: "Policy \<Rightarrow> collectors \<Rightarrow> collectors \<Rightarrow> bool" where
  "agree p co co' \<longleftrightarrow>
     (Policy_Allows p SystemInfo \<longrightarrow> co_Information co = co_Information co')
     \<and> (Policy_Allows p SystemMetrics \<longrightarrow> co_Measurements co (p_Telemetry p) = co_Measurements co' (p_Telemetry p))
     \<and> (Policy_Allows p SSHAudit \<longrightarrow> (\<forall>i s. Policy_SSHProfile p i = Some s \<longrightarrow> co_SSH co s = co_SSH co' s))
     \<and> (Policy_Allows p ServiceStatus \<longrightarrow> (\<forall>i s. Policy_Service p i = Some s \<longrightarrow> co_Service co s = co_Service co' s))"

lemma tasks_Execute_agree:
  assumes "agree p co co'"
  shows "tasks_Execute e co t p = tasks_Execute e co' t p"
  using assms
  by (cases "Policy_Allows p (t_Type t)") (auto simp: tasks_Execute_def agree_def split: option.splits sum.splits)

lemma task_result_agree:
  assumes "agree p co (en_collectors en)"
  shows "task_result (en\<lparr>en_collectors := co\<rparr>) t p d clk = task_result en t p d clk"
proof -
  have "tasks_Execute e co t p = tasks_Execute e (en_collectors en) t p" for e
    by (rule tasks_Execute_agree [OF assms])
  then show ?thesis by (cases en) (simp only: task_result_def env.simps)
qed

text \<open>The only part of \<open>Process\<close> that uses a collector is behind an authenticated envelope and a decision to run.\<close>

lemma Process_confined:
  assumes "\<And>t payload keyID p d db1. \<lbrakk>authenticate C st envelope (clk 0) = Inr (t, payload, keyID); en_policy en = Inr p;
      prepare C st t payload p source (clk 1) (\<lambda>i. clk (i + 2)) [keyID] db = (Inr d, db1); dc_run d\<rbrakk>
      \<Longrightarrow> agree p co (en_collectors en)"
  shows "Process C st source (en\<lparr>en_collectors := co\<rparr>) clk envelope db = Process C st source en clk envelope db"
proof (cases "authenticate C st envelope (clk 0)")
  case (Inl e)
  then show ?thesis by (simp add: Process_def)
next
  case auth: (Inr a)
  obtain t payload keyID where a: "a = (t, payload, keyID)" by (cases a)
  show ?thesis
  proof (cases "en_policy en")
    case (Inl e)
    with auth a show ?thesis by (simp add: Process_def)
  next
    case p: (Inr p)
    obtain q db1 where pr: "prepare C st t payload p source (clk 1) (\<lambda>i. clk (i + 2)) [keyID] db = (q, db1)" by fastforce
    show ?thesis
    proof (cases "\<exists>d. q = Inr d \<and> dc_run d")
      case True
      then obtain d where d: "q = Inr d" "dc_run d" by blast
      have "agree p co (en_collectors en)" using assms [of t payload keyID p d db1] auth a p pr d by simp
      with auth a p pr d show ?thesis by (simp add: Process_def task_result_agree)
    next
      case False
      with auth a p pr show ?thesis by (auto simp: Process_def split: sum.splits)
    qed
  qed
qed

subsection \<open>Authorised requests are let through\<close>

lemma probe_append_total:
  assumes C: "sha256_spec C" and ok: "log_ok C (d_audit db)" and e: "Event_validate (stamp rd e)" "e_At e = 0" "source_ok (e_Source e)"
    and fresh: "decision_kind (e_Kind e) \<Longrightarrow> (e_AgentID e, e_RequestID e) \<notin> set (decided db)"
    and room: "0 \<le> al_reserved (d_audit db) + d" "al_sequence (d_audit db) + 1 + (al_reserved (d_audit db) + d) \<le> Capacity"
  obtains L where "probe_append C rd e d db = Inr (db\<lparr>d_audit := L\<rparr>)" "log_ok C L"
    "al_sequence L = al_sequence (d_audit db) + 1" "al_reserved L = al_reserved (d_audit db) + d"
    "decided (db\<lparr>d_audit := L\<rparr>) = decided db @ (if decision_kind (e_Kind e) then [(e_AgentID e, e_RequestID e)] else [])"
proof -
  have "append_ready C rd e (d_audit db)"
    using ok e fresh log_ok_hash [OF C ok] by (simp add: append_ready_def decided_def)
  from Append_total [OF this room] obtain L where L: "Append C rd e d (d_audit db) = Inr L" by blast
  then have ap: "probe_append C rd e d db = Inr (db\<lparr>d_audit := L\<rparr>)" by (simp add: probe_append_eq_Inr)
  show thesis
    using that [OF ap] probe_append_log [OF ap ok e(2,3)] Append_eq_Inr(1,2) [OF L] probe_append_decided(1) [OF ap] by simp
qed

lemma accepted_valid:
  assumes "Task_Validate t" "source_ok source" "length source \<le> 256" "0 < wrap64 rd" "Hex h 64" "Hex pd 64"
  shows "Event_validate (stamp rd ((TaskEvent ''task_accepted'' t source Running '''' h)\<lparr>e_PolicyDigest := pd\<rparr>))"
proof -
  have "audit_identifier ''task_accepted'' 40" "audit_identifier Running 32" "audit_identifier '''' 64"
    by (simp_all add: audit_identifier_def alnum_def char_in_def code_def)
  then show ?thesis
    using Task_Validate_ids [OF assms(1)] assms task_identifier_audit source_ok_clean
    by (simp add: Event_validate_def stamp_def TaskEvent_def no_event_def)
qed

lemma policy_changed_valid:
  assumes "Hex a 32" "Hex ep 32" "0 < wrap64 rd" "Hex pd 64"
  shows "Event_validate (stamp rd (no_event\<lparr>e_Kind := ''policy_changed'', e_AgentID := a, e_Epoch := ep,
     e_Source := ''local'', e_Status := ''succeeded'', e_PolicyDigest := pd\<rparr>))"
proof -
  have "audit_identifier ''policy_changed'' 40" "audit_identifier ''succeeded'' 32" "audit_identifier '''' 64"
    by (simp_all add: audit_identifier_def alnum_def char_in_def code_def)
  then show ?thesis
    using assms source_ok_clean [of "''local''" 256] by (simp add: Event_validate_def stamp_def no_event_def)
qed

definition pruned :: "instant \<Rightarrow> probe_db \<Rightarrow> probe_db" where
  "pruned now db = db\<lparr>d_execs := filter (\<lambda>x. \<not> prunable now x) (d_execs db)\<rparr>"

text \<open>Room for one more task: a row, the bytes of its result, and the audit entries of a policy change, the
  acceptance and the completion.\<close>

definition has_room :: "Policy \<Rightarrow> instant \<Rightarrow> probe_db \<Rightarrow> bool" where
  "has_room p now db \<longleftrightarrow> int (length (d_execs (pruned now db))) < MaxRecords
     \<and> pending_bytes (d_execs (pruned now db)) + p_MaxResultBytes p \<le> p_PendingBytes p
     \<and> al_sequence (d_audit db) + al_reserved (d_audit db) + 3 \<le> Capacity"

definition clock_sane :: "probe_db \<Rightarrow> instant \<Rightarrow> bool" where
  "clock_sane db now \<longleftrightarrow> \<not> d_clock_blocked db \<and> d_clock_high db - MaxClockSkew \<le> unix_sec now \<and> 0 < unix_sec now"

lemma probe_clock_sane:
  assumes "clock_sane db now" "0 < d_clock_high db"
  shows "probe_clock C st now rd db = Inr (False, db\<lparr>d_clock_high := max (d_clock_high db) (unix_sec now)\<rparr>)"
  using assms by (simp add: probe_clock_def Let_def clock_sane_def)

lemma prepare_accepts:
  assumes inv: "probe_inv C db" and C: "sha256_spec C" and src: "source_ok source" "length source \<le> 256"
    and rd: "\<And>i. 0 < wrap64 (clk i)"
    and dg: "Policy_Digest C p = Inr digest"
    and t: "Task_Validate t" "t_AgentID t = n_AgentID (st_node st)" "t_EnrollmentEpoch t = n_EnrollmentEpoch (st_node st)"
    and tc: "trust_check st t keyID (clk 1) = Inr ()" and ck: "clock_sane db now"
    and new: "find_exec (t_EnrollmentEpoch t) (t_RequestID t) db = None" "(t_AgentID t, t_RequestID t) \<notin> set (decided db)"
    and idle: "running_rows db = []" and room: "has_room p now db"
    and cl: "classify t p digest now (executed_since (unix_milli (now - seconds 60)) (pruned now db))
       (executed_since (unix_milli (now - seconds 1)) (pruned now db)) = (Running, '''')"
  shows "\<exists>d db'. prepare C st t payload p source now clk keyID db = (Inr d, db') \<and> dc_run d"
proof -
  define db1 where "db1 = db\<lparr>d_clock_high := max (d_clock_high db) (unix_sec now)\<rparr>"
  have c: "probe_clock C st now (clk 0) db = Inr (False, db1)"
    using probe_clock_sane [OF ck] inv by (simp add: db1_def probe_inv_def)
  note ids = Task_Validate_ids [OF t(1)]
  have h: "Hex digest 64" using Policy_Digest_hex [OF C dg] by simp
  have i1: "log_ok C (d_audit db1)" using inv by (simp add: db1_def probe_inv_def)
  obtain L2 where p2: "probe_policy C st digest (clk 2) db1 = Inr (db1\<lparr>d_audit := L2, d_policy_digest := digest\<rparr>)"
    and L2: "log_ok C L2" "al_sequence L2 \<le> al_sequence (d_audit db) + 1" "al_reserved L2 = al_reserved (d_audit db)"
      "decided (db1\<lparr>d_audit := L2\<rparr>) = decided db"
  proof (cases "d_policy_digest db1 = digest")
    case True
    then have "probe_policy C st digest (clk 2) db1 = Inr (db1\<lparr>d_audit := d_audit db1, d_policy_digest := digest\<rparr>)"
      by (simp add: probe_policy_def)
    then show thesis by (rule that) (use i1 in \<open>simp_all add: db1_def decided_def\<close>)
  next
    case False
    have "Event_validate (stamp (clk 2) (no_event\<lparr>e_Kind := ''policy_changed'', e_AgentID := n_AgentID (st_node st),
        e_Epoch := n_EnrollmentEpoch (st_node st), e_Source := ''local'', e_Status := ''succeeded'', e_PolicyDigest := digest\<rparr>))"
      using policy_changed_valid [OF _ _ rd h] ids t by simp
    from probe_append_total [OF C i1 this, of 0] room obtain L where
      "probe_append C (clk 2) (no_event\<lparr>e_Kind := ''policy_changed'', e_AgentID := n_AgentID (st_node st),
        e_Epoch := n_EnrollmentEpoch (st_node st), e_Source := ''local'', e_Status := ''succeeded'',
        e_PolicyDigest := digest\<rparr>) 0 db1 = Inr (db1\<lparr>d_audit := L\<rparr>)" "log_ok C L"
      "al_sequence L = al_sequence (d_audit db1) + 1" "al_reserved L = al_reserved (d_audit db1)"
      "decided (db1\<lparr>d_audit := L\<rparr>) = decided db1"
      using log_ok_rows(4) [OF i1] by (auto simp: has_room_def db1_def)
    then show thesis
      using False by (intro that [of L]) (simp_all add: probe_policy_def db1_def decided_def)
  qed
  define db3 where "db3 = pruned now (db1\<lparr>d_audit := L2, d_policy_digest := digest\<rparr>)"
  have c3: "probe_capacity p now (db1\<lparr>d_audit := L2, d_policy_digest := digest\<rparr>) = Inr db3"
    using room L2 by (simp add: probe_capacity_def Let_def db3_def has_room_def pruned_def db1_def)
  have x3: "d_execs db3 = d_execs (pruned now db)" "d_audit db3 = L2" by (simp_all add: db3_def pruned_def db1_def)
  have idle3: "running_rows db3 = []"
    using idle by (auto simp: running_rows_def x3 pruned_def filter_empty_conv)
  have none: "\<not> list_ex (has_key (t_EnrollmentEpoch t) (t_RequestID t)) (d_execs db3)"
    using new(1) by (auto simp: x3 pruned_def find_exec_def find_None_iff list_ex_iff)
  have cl3: "classify t p digest now (executed_since (unix_milli (now - seconds 60)) db3)
       (executed_since (unix_milli (now - seconds 1)) db3) = (Running, '''')"
    using cl by (simp add: executed_since_def x3)
  define row where "row = new_row C t payload digest now Running None"
  define ev where "ev = (TaskEvent ''task_accepted'' t source Running '''' (Digest C payload))\<lparr>e_PolicyDigest := digest\<rparr>"
  have "Event_validate (stamp (clk 3) ev)"
    unfolding ev_def by (rule accepted_valid [OF t(1) src rd Hex_Digest [OF C] h])
  moreover have "decided (db3\<lparr>d_execs := d_execs db3 @ [row]\<rparr>) = decided db"
    using L2(4) by (simp add: decided_def x3)
  moreover have "al_sequence L2 + al_reserved L2 + 2 \<le> Capacity" "0 \<le> al_reserved L2"
    using room L2 log_ok_rows(4) [OF L2(1)] by (simp_all add: has_room_def)
  ultimately obtain db' where ap: "probe_append C (clk 3) ev 1 (db3\<lparr>d_execs := d_execs db3 @ [row]\<rparr>) = Inr db'"
    using probe_append_total [OF C, of "db3\<lparr>d_execs := d_execs db3 @ [row]\<rparr>" "clk 3" ev 1] L2(1) new(2) src(1)
    by (auto simp: x3 ev_def)
  have find1: "find_exec (t_EnrollmentEpoch t) (t_RequestID t) db1 = None" using new(1) by (simp add: find_exec_def db1_def)
  have "decide C t payload p digest source now (clk 3) db3
      = Inr (Inr \<lparr>dc_run = True, dc_result = None, dc_digest = digest, dc_started = unix_sec now\<rparr>, db')"
    using idle3 none cl3 ap
    by (simp add: decide_def Let_def insert_exec_def row_def new_row_def ev_def)
  then show ?thesis
    using c tc find1 p2 c3 dg t by (simp add: prepare_def run_tx_def)
qed

subsection \<open>Further facts on a decision\<close>

lemma replay_frame:
  assumes "replay C t hash source rd x db = Inr (r, db')"
  shows "d_execs db' = d_execs db" "d_user_version db' = d_user_version db" "d_quick_check db' = d_quick_check db"
    "d_agent db' = d_agent db" "d_epoch db' = d_epoch db" "d_key_digest db' = d_key_digest db" "d_trust db' = d_trust db"
    "case r of Inl _ \<Rightarrow> True | Inr d \<Rightarrow> \<not> dc_run d \<and> dc_result d = x_result x \<and> x_payload_digest x = hash"
  using assms
  by (auto simp: replay_def result_simps cached_def split: if_splits option.splits sum.splits dest!: probe_append_update)

text \<open>The binding of the database - schema, identity, key and trust - is out of reach of a request.\<close>

lemma prepare_frame:
  assumes "prepare C st t payload p source now clk keyID db = (r, db')"
  shows "d_user_version db' = d_user_version db" "d_quick_check db' = d_quick_check db"
    "d_agent db' = d_agent db" "d_epoch db' = d_epoch db" "d_key_digest db' = d_key_digest db" "d_trust db' = d_trust db"
proof -
  let ?b = "\<lambda>db :: probe_db. (d_user_version db, d_quick_check db, d_agent db, d_epoch db, d_key_digest db, d_trust db)"
  have "?b db' = ?b db"
    using assms
  proof (cases rule: prepare_cases)
    case blocked
    then show ?thesis using probe_clock_spec [OF blocked(2)] by simp
  next
    case (known digest db1 x)
    then show ?thesis using probe_clock_spec [OF known(4)] replay_frame [OF known(7)] by simp
  next
    case (fresh digest db1 db2 db3)
    from fresh(9) have "?b db' = ?b db3" by (auto elim!: decide_spec dest: probe_append_frame(5-10))
    then show ?thesis
      using probe_clock_spec [OF fresh(4)] probe_policy_spec [OF fresh(7)] probe_capacity_spec(1) [OF fresh(8)] by simp
  qed simp
  then show "d_user_version db' = d_user_version db" "d_quick_check db' = d_quick_check db"
    "d_agent db' = d_agent db" "d_epoch db' = d_epoch db" "d_key_digest db' = d_key_digest db" "d_trust db' = d_trust db"
    by simp_all
qed

lemma prepare_known:
  assumes "prepare C st t payload p source now clk keyID db = (r, db')"
    and "find_exec (t_EnrollmentEpoch t) (t_RequestID t) db = Some x"
  shows "d_execs db' = d_execs db \<and> (case r of Inl _ \<Rightarrow> True
    | Inr d \<Rightarrow> \<not> dc_run d \<and> dc_result d = x_result x \<and> x_payload_digest x = Digest C payload)"
  using assms(1)
proof (cases rule: prepare_cases)
  case (known digest db1 y)
  have "find_exec (t_EnrollmentEpoch t) (t_RequestID t) db1 = Some x"
    using assms(2) probe_clock_spec(1) [OF known(4)] by (simp add: find_exec_def)
  with known replay_frame [OF known(7)] probe_clock_spec(1) [OF known(4)] show ?thesis by (auto split: sum.splits)
next
  case (fresh digest db1 db2 db3)
  then show ?thesis using assms(2) probe_clock_spec(1) [OF fresh(4)] by (simp add: find_exec_def)
qed (auto dest: probe_clock_spec(1))

lemma prepare_run_clock:
  assumes "prepare C st t payload p source now clk keyID db = (Inr d, db')" "dc_run d"
  shows "\<not> d_clock_blocked db'" "d_clock_high db' = max (d_clock_high db) (unix_sec now)"
proof -
  have "\<not> d_clock_blocked db' \<and> d_clock_high db' = max (d_clock_high db) (unix_sec now)"
    using assms(1)
  proof (cases rule: prepare_cases)
    case (known digest db1 x)
    with replay_decided [OF known(7)] assms(2) show ?thesis by simp
  next
    case (fresh digest db1 db2 db3)
    have "\<not> d_clock_blocked db1 \<and> d_clock_high db1 = max (d_clock_high db) (unix_sec now)"
      using fresh(4) by (auto simp: probe_clock_def Let_def result_simps split: if_splits)
    moreover have "d_clock_blocked db' = d_clock_blocked db3 \<and> d_clock_high db' = d_clock_high db3"
      using fresh(9) by (auto elim!: decide_spec dest: probe_append_frame(2,3))
    ultimately show ?thesis
      using probe_policy_spec(2,3) [OF fresh(7)] probe_capacity_spec(1) [OF fresh(8)] by simp
  qed simp_all
  then show "\<not> d_clock_blocked db'" "d_clock_high db' = max (d_clock_high db) (unix_sec now)" by simp_all
qed

lemma prepare_run_found:
  assumes "prepare C st t payload p source now clk keyID db = (Inr d, db')" "dc_run d"
  shows "\<exists>x. find_exec (t_EnrollmentEpoch t) (t_RequestID t) db' = Some x"
proof -
  from assms obtain digest and db3 :: probe_db where
    "d_execs db' = d_execs db3 @ [new_row C t payload digest now Running None]" by (rule prepare_run)
  then have "new_row C t payload digest now Running None \<in> set (d_execs db')" by simp
  moreover have "has_key (t_EnrollmentEpoch t) (t_RequestID t) (new_row C t payload digest now Running None)"
    by (simp add: new_row_def has_key_def)
  ultimately have "find (has_key (t_EnrollmentEpoch t) (t_RequestID t)) (d_execs db') \<noteq> None"
    by (metis find_None_iff)
  then show ?thesis by (auto simp: find_exec_def)
qed

lemma Acknowledge_outbox:
  assumes "Acknowledge st request digest db = (r, db')"
  shows "set (outbox db') = set (filter (\<lambda>x. \<not> (x_request x = request
       \<and> x_epoch x = n_EnrollmentEpoch (st_node st) \<and> x_result_digest x = digest)) (outbox db))
   \<and> (\<not> list_ex (\<lambda>x. x_request x = request \<and> x_epoch x = n_EnrollmentEpoch (st_node st)
       \<and> x_result_digest x = digest \<and> x_state x \<noteq> Running) (d_execs db) \<longrightarrow> db' = db \<and> \<not> is_ok r)"
proof -
  define id where "id = (\<lambda>x :: exec_row. x_request x = request \<and> x_epoch x = n_EnrollmentEpoch (st_node st) \<and> x_result_digest x = digest)"
  define f where "f = (\<lambda>x :: exec_row. if id x \<and> x_state x \<noteq> Running then x\<lparr>x_delivered := True\<rparr> else x)"
  have db': "db' = db\<lparr>d_execs := map f (d_execs db)\<rparr>"
    and r: "r = (if length (filter (\<lambda>x. id x \<and> x_state x \<noteq> Running) (d_execs db)) \<noteq> 1
      then Inl (Err ''result acknowledgment mismatch'') else Inr ())"
    using assms by (simp_all add: Acknowledge_def Let_def f_def id_def)
  have box: "set (outbox db) = {x \<in> set (d_execs db). \<not> x_delivered x \<and> x_state x \<noteq> Running}" for db
    by (auto simp: outbox_def)
  have "set (outbox db') = {x \<in> set (outbox db). \<not> id x}"
    unfolding box by (auto simp: db' f_def split: if_splits)
  moreover have "db' = db \<and> \<not> is_ok r" if "\<not> list_ex (\<lambda>x. id x \<and> x_state x \<noteq> Running) (d_execs db)"
  proof -
    have "map f (d_execs db) = d_execs db" using that by (intro map_idI) (auto simp: list_ex_iff f_def)
    moreover have "filter (\<lambda>x. id x \<and> x_state x \<noteq> Running) (d_execs db) = []"
      using that by (auto simp: list_ex_iff filter_empty_conv)
    ultimately show ?thesis by (simp add: db' r is_ok_def)
  qed
  ultimately show ?thesis by (simp add: id_def conj_assoc)
qed

end
