(* ===== verification/Example_Run.thy ===== *)
theory Example_Run
  imports Probe_Engine
begin

section \<open>A concrete probe\<close>

text \<open>
  Concrete data that the closed instances of the properties share: a stand-in for the cryptographic package
  that satisfies its specification, a node, a task, a policy and the database of a freshly initialised probe.
\<close>

definition demo_crypto :: crypto where
  "demo_crypto = \<lparr>Sum256 = (\<lambda>m. replicate 32 (CHR 0x00)), ed_Verify = (\<lambda>k m s. s = replicate 64 (CHR 0x01)),
     ed_Sign = (\<lambda>k m. replicate 64 (CHR 0x01)), ed_Public = (\<lambda>k. replicate 32 (CHR 0x02))\<rparr>"

definition demo_node :: Node where
  "demo_node = \<lparr>n_AgentID = replicate 32 (CHR ''b''), n_EnrollmentEpoch = replicate 32 (CHR ''c'')\<rparr>"

definition demo_task :: Task where
  "demo_task = \<lparr>t_Version = 1, t_RequestID = replicate 32 (CHR ''a''), t_AgentID = n_AgentID demo_node,
     t_EnrollmentEpoch = n_EnrollmentEpoch demo_node, t_CreatedAt = 1000, t_ExpiresAt = 1060, t_Type = SystemInfo,
     t_TaskVersion = 1, t_Params = ''{}'', t_ActorID = ''ops'', t_PolicyDigest = replicate 64 (CHR ''0'')\<rparr>"

definition demo_policy :: Policy where
  "demo_policy = \<lparr>p_Version = 1, p_Paused = False, p_AllowSystemInfo = True, p_AllowSystemMetrics = False,
     p_PollSeconds = 5, p_TimeoutSeconds = 5, p_MaxPerMinute = 3, p_Burst = 1, p_MaxResultBytes = 4096,
     p_PendingBytes = 8192, p_Telemetry = \<lparr>cf_IntervalSeconds = 10, cf_SampleMilliseconds = 100,
       cf_DiskPaths = Some [], cf_NetworkInterfaces = Some []\<rparr>,
     p_AllowSSHAudit = False, p_AllowServiceStatus = False, p_SSHProfiles = None, p_Services = None\<rparr>"

definition demo_clk :: readings where "demo_clk i = seconds 1010"

definition demo_public :: bytes where "demo_public = replicate 32 (CHR 0x02)"
definition demo_private :: bytes where "demo_private = replicate 64 (CHR 0x03)"

definition demo_payload :: bytes where "demo_payload = projr (MarshalTask demo_task)"
definition demo_envelope :: bytes where "demo_envelope = projr (Sign demo_crypto demo_payload demo_private)"

definition demo_db :: probe_db where
  "demo_db = projr (probe_initialize demo_crypto demo_node demo_public None demo_clk)"

definition demo_state :: State where
  "demo_state = \<lparr>st_node = demo_node, st_key = demo_public, st_trust = None\<rparr>"

lemma demo_sha256: "sha256_spec demo_crypto"
  by (simp add: sha256_spec_def demo_crypto_def)

lemma demo_ed25519: "ed25519_spec demo_crypto"
  by (simp add: ed25519_spec_def demo_crypto_def PublicKeySize_def SignatureSize_def)

lemma demo_Digest [simp]: "Digest demo_crypto m = replicate 64 (CHR ''0'')"
proof -
  have "hex_EncodeToString (replicate 32 (CHR 0x00)) = replicate 64 (CHR ''0'')" by code_simp
  then show ?thesis by (simp add: Digest_def demo_crypto_def)
qed

lemma demo_clk_simps [simp]: "unix_sec (demo_clk i) = 1010" "0 < wrap64 (demo_clk i)"
  by (simp_all add: demo_clk_def unix_sec_def seconds_def int64_def)

lemma demo_task_valid: "Task_Validate demo_task"
  by code_simp

lemma demo_policy_valid: "Policy_Validate demo_policy"
  by code_simp

lemma demo_node_valid: "Node_Validate demo_node"
  by code_simp

lemma demo_policy_digest: "Policy_Digest demo_crypto demo_policy = Inr (replicate 64 (CHR ''0''))"
  using demo_policy_valid by (simp add: Policy_Digest_def)

lemma demo_marshal: "MarshalTask demo_task = Inr demo_payload" "DecodeTask demo_payload = Inr demo_task"
proof -
  have "\<exists>payload. MarshalTask demo_task = Inr payload \<and> DecodeTask payload = Inr demo_task"
    by (rule DecodeTask_MarshalTask [OF demo_task_valid]) (simp_all add: demo_task_def int64_def canonical_params_def)
  then show "MarshalTask demo_task = Inr demo_payload" "DecodeTask demo_payload = Inr demo_task"
    by (auto simp: demo_payload_def)
qed

lemma demo_sign: "Sign demo_crypto demo_payload demo_private = Inr demo_envelope"
proof -
  have "\<exists>e. Sign demo_crypto demo_payload demo_private = Inr e"
    by (simp add: Sign_def demo_marshal(2) demo_private_def PrivateKeySize_def)
  then show ?thesis by (auto simp: demo_envelope_def)
qed

lemma demo_authenticate:
  "authenticate demo_crypto demo_state demo_envelope now = Inr (demo_task, demo_payload, '''')"
proof -
  have "ed_Public demo_crypto demo_private = demo_public" by (simp add: demo_crypto_def demo_public_def)
  with VerifyPayload_Sign [OF demo_ed25519 demo_sign] demo_marshal(2)
  have "VerifyPayload demo_crypto demo_envelope demo_public = Inr (demo_task, demo_payload)" by auto
  then show ?thesis by (simp add: authenticate_def demo_state_def demo_task_def)
qed

text \<open>The database right after \<open>probe.Initialize\<close>.\<close>

lemma demo_initialize:
  "probe_initialize demo_crypto demo_node demo_public None demo_clk = Inr demo_db"
  "probe_inv demo_crypto demo_db" "d_execs demo_db = []" "d_clock_high demo_db = 1010" "\<not> d_clock_blocked demo_db"
  "al_sequence (d_audit demo_db) = 1" "al_reserved (d_audit demo_db) = 0" "decided demo_db = []"
  "d_user_version demo_db = 1" "d_quick_check demo_db = ''ok''" "d_agent demo_db = n_AgentID demo_node"
  "d_epoch demo_db = n_EnrollmentEpoch demo_node" "d_key_digest demo_db = replicate 64 (CHR ''0'')"
proof -
  define db1 where "db1 = \<lparr>d_user_version = 1, d_quick_check = ''ok'', d_agent = n_AgentID demo_node,
     d_epoch = n_EnrollmentEpoch demo_node, d_key_digest = replicate 64 (CHR ''0''),
     d_clock_high = 1010, d_clock_blocked = False, d_policy_digest = '''', d_trust = None,
     d_execs = [], d_audit = audit_Initialize\<rparr>"
  define e where "e = no_event\<lparr>e_Kind := ''state_initialized'', e_AgentID := n_AgentID demo_node,
     e_Epoch := n_EnrollmentEpoch demo_node, e_Source := ''local'', e_Status := ''succeeded'',
     e_PayloadDigest := replicate 64 (CHR ''0'')\<rparr>"
  have "Event_validate (stamp (seconds 1010) e)" unfolding e_def by code_simp
  then have v: "Event_validate (stamp (demo_clk 1) e)" by (simp add: demo_clk_def)
  have k: "e_At e = 0" "e_Source e = ''local''" "e_Kind e = ''state_initialized''" by (simp_all add: e_def)
  have b: "log_ok demo_crypto (d_audit db1)" "al_reserved (d_audit db1) = 0" "al_sequence (d_audit db1) = 0"
    using log_ok_Initialize by (simp_all add: db1_def audit_Initialize_def)
  obtain L where L: "probe_append demo_crypto (demo_clk 1) e 0 db1 = Inr (db1\<lparr>d_audit := L\<rparr>)" "al_sequence L = 1"
    "al_reserved L = 0" "decided (db1\<lparr>d_audit := L\<rparr>) = decided db1"
    using probe_append_total [OF demo_sha256 b(1) v, of 0] k b by (auto simp: Capacity_def)
  have i: "probe_initialize demo_crypto demo_node demo_public None demo_clk = Inr (db1\<lparr>d_audit := L\<rparr>)"
    using L(1) demo_node_valid
    by (simp add: probe_initialize_def demo_public_def PublicKeySize_def db1_def e_def)
  then have d: "demo_db = db1\<lparr>d_audit := L\<rparr>" by (simp add: demo_db_def)
  show "probe_initialize demo_crypto demo_node demo_public None demo_clk = Inr demo_db" using i d by simp
  then show "probe_inv demo_crypto demo_db" by (rule probe_initialize_inv) simp
  show "d_execs demo_db = []" "d_clock_high demo_db = 1010" "\<not> d_clock_blocked demo_db"
    "al_sequence (d_audit demo_db) = 1" "al_reserved (d_audit demo_db) = 0"
    "d_user_version demo_db = 1" "d_quick_check demo_db = ''ok''" "d_agent demo_db = n_AgentID demo_node"
    "d_epoch demo_db = n_EnrollmentEpoch demo_node" "d_key_digest demo_db = replicate 64 (CHR ''0'')"
    using L(2,3) by (simp_all add: d db1_def)
  have "decided db1 = []" by (simp add: db1_def decided_def audit_Initialize_def decisions_def)
  then show "decided demo_db = []" using L(4) d by simp
qed

text \<open>The task is let through.\<close>

lemma demo_run:
  obtains d db1 where "prepare demo_crypto demo_state demo_task demo_payload demo_policy ''local'' (demo_clk 1)
     (\<lambda>i. demo_clk (i + 2)) [''''] demo_db = (Inr d, db1)" "dc_run d"
proof -
  note ini = demo_initialize
  have x: "d_execs (pruned now demo_db) = []" for now by (simp add: pruned_def ini)
  have cl: "classify demo_task demo_policy (replicate 64 (CHR ''0'')) (demo_clk 1)
      (executed_since m (pruned (demo_clk 1) demo_db)) (executed_since b (pruned (demo_clk 1) demo_db)) = (Running, '''')" for m b
    by (simp add: classify_def executed_since_def x demo_task_def demo_policy_def Policy_Allows_def AllowsResource_def
        MaxClockSkew_def)
  have "\<exists>d db'. prepare demo_crypto demo_state demo_task demo_payload demo_policy ''local'' (demo_clk 1)
     (\<lambda>i. demo_clk (i + 2)) [''''] demo_db = (Inr d, db') \<and> dc_run d"
    by (rule prepare_accepts [OF ini(2) demo_sha256 _ _ _ demo_policy_digest demo_task_valid _ _ _ _ _ _ _ _ cl])
       (simp_all add: demo_task_def demo_state_def trust_check_def clock_sane_def ini find_exec_def running_rows_def
          has_room_def x MaxRecords_def pending_bytes_def demo_policy_def Capacity_def MaxClockSkew_def)
  with that show thesis by blast
qed

end
