(* ===== verification/Probe_Properties.thy ===== *)
theory Probe_Properties
  imports Example_Run
begin

section \<open>Properties of the probe\<close>

text \<open>
  The promises of \<open>internal/probe\<close>, over every history of its database: at most one run per request, only
  authorised runs, confinement of the collectors, completion and recovery, the clock latch, rate limits and final
  results. Each is followed by a closed instance on the data of \<open>Example_Run\<close>.
\<close>

subsection \<open>The shared instance\<close>

lemma demo_step:
  obtains d db1 where "prepare demo_crypto demo_state demo_task demo_payload demo_policy ''local'' (demo_clk 1)
      (\<lambda>i. demo_clk (i + 2)) [''''] demo_db = (Inr d, db1)" "dc_run d"
    "probe_trace demo_crypto source_ok demo_db [(t_AgentID demo_task, t_RequestID demo_task)] db1"
    "probe_step demo_crypto source_ok demo_db [(t_AgentID demo_task, t_RequestID demo_task)] db1"
proof -
  obtain d db1 where p: "prepare demo_crypto demo_state demo_task demo_payload demo_policy ''local'' (demo_clk 1)
      (\<lambda>i. demo_clk (i + 2)) [''''] demo_db = (Inr d, db1)" "dc_run d" by (rule demo_run)
  from probe_step.accept [OF demo_authenticate p(1), of source_ok] p(2)
  have s: "probe_step demo_crypto source_ok demo_db [(t_AgentID demo_task, t_RequestID demo_task)] db1"
    by (simp add: run_label_def)
  from that [OF p _ s] probe_trace.trace_step [OF probe_trace.trace_refl s] show thesis by simp
qed

subsection \<open>At most one run per request\<close>

text \<open>C1: over any history of a probe's database - every operation in any order, crashes, restarts, deletions of old
  rows and signer migrations included - the collectors are started at most once for each request identity, and never
  for a request that the audit chain had already decided on.\<close>

theorem at_most_once:
  assumes "probe_trace C S db runs db'"
  shows "distinct runs \<and> set runs \<inter> set (decided db) = {} \<and> set runs \<subseteq> set (decided db')"
  using probe_trace_decided [OF assms] by blast

theorem at_most_once_witness:
  "\<exists>db'. probe_trace demo_crypto source_ok demo_db [(t_AgentID demo_task, t_RequestID demo_task)] db'
     \<and> (t_AgentID demo_task, t_RequestID demo_task) \<in> set (decided db')"
proof -
  obtain d db1 where "probe_trace demo_crypto source_ok demo_db [(t_AgentID demo_task, t_RequestID demo_task)] db1"
    by (rule demo_step)
  with at_most_once [OF this] show ?thesis by auto
qed

subsection \<open>Only authorised runs\<close>

text \<open>C2: a collector runs only for a task that decodes strictly, is addressed to this node, carries a signature that
  verifies under the pinned key or under a key of the trust set whose window covers the task at that moment, names the
  digest of the policy in force, is neither expired nor from the future, and is allowed by that policy down to the
  resource; the clock is not latched, no other task runs and the request is not in the table.\<close>

theorem run_authorised:
  assumes auth: "authenticate C st envelope now0 = Inr (t, payload, keyID)"
    and prep: "prepare C st t payload p source now clk [keyID] db = (Inr d, db')" and run: "dc_run d"
  shows "DecodeTask payload = Inr t \<and> t_AgentID t = n_AgentID (st_node st)
    \<and> t_EnrollmentEpoch t = n_EnrollmentEpoch (st_node st)
    \<and> (case st_trust st of
         None \<Rightarrow> \<exists>sig. length sig = SignatureSize \<and> ed_Verify C (st_key st) (message payload) sig
       | Some s \<Rightarrow> trusted_signature C s payload keyID \<and> CheckTask s t keyID (clk 1) = Inr ())
    \<and> Policy_Digest C p = Inr (t_PolicyDigest t) \<and> \<not> p_Paused p \<and> Policy_Allows p (t_Type t) \<and> AllowsResource p t
    \<and> unix_sec now < t_ExpiresAt t \<and> t_CreatedAt t - MaxClockSkew \<le> unix_sec now
    \<and> \<not> d_clock_blocked db \<and> d_clock_high db - MaxClockSkew \<le> unix_sec now
    \<and> find_exec (t_EnrollmentEpoch t) (t_RequestID t) db = None"
proof -
  from prep run obtain digest and db3 :: probe_db where
    r: "Policy_Digest C p = Inr digest" "trust_check st t [keyID] (clk 1) = Inr ()" "\<not> d_clock_blocked db"
      "d_clock_high db - MaxClockSkew \<le> unix_sec now" "find_exec (t_EnrollmentEpoch t) (t_RequestID t) db = None"
    and cl: "classify t p digest now (executed_since (unix_milli (now - seconds 60)) db3)
       (executed_since (unix_milli (now - seconds 1)) db3) = (Running, '''')"
    by (rule prepare_run)
  note cr = classify_Running [OF cl refl] and a = authenticate_sound [OF auth]
  have "case st_trust st of None \<Rightarrow> \<exists>sig. length sig = SignatureSize \<and> ed_Verify C (st_key st) (message payload) sig
       | Some s \<Rightarrow> trusted_signature C s payload keyID \<and> CheckTask s t keyID (clk 1) = Inr ()"
    using a(4) r(2) by (simp add: trust_check_def split: option.splits)
  with a cr r show ?thesis by simp
qed

theorem run_authorised_witness:
  "Policy_Allows demo_policy (t_Type demo_task)
    \<and> Policy_Digest demo_crypto demo_policy = Inr (t_PolicyDigest demo_task) \<and> DecodeTask demo_payload = Inr demo_task"
proof -
  obtain d db1 where p: "prepare demo_crypto demo_state demo_task demo_payload demo_policy ''local'' (demo_clk 1)
      (\<lambda>i. demo_clk (i + 2)) [''''] demo_db = (Inr d, db1)" "dc_run d" by (rule demo_run)
  from run_authorised [OF demo_authenticate p] show ?thesis by simp
qed

subsection \<open>Confinement\<close>

text \<open>C3: the outcome of \<open>Process\<close> depends on the host's collectors only through what the policy grants: two hosts
  whose collectors agree on the task types, SSH profiles and services that the policy allows are indistinguishable,
  and with an envelope that is not authentic or not let through the collectors are not consulted at all.\<close>

theorem collectors_confined:
  assumes "\<And>t payload keyID p d db1. \<lbrakk>authenticate C st envelope (clk 0) = Inr (t, payload, keyID); en_policy en = Inr p;
      prepare C st t payload p source (clk 1) (\<lambda>i. clk (i + 2)) [keyID] db = (Inr d, db1); dc_run d\<rbrakk>
      \<Longrightarrow> agree p co (en_collectors en)"
  shows "Process C st source (en\<lparr>en_collectors := co\<rparr>) clk envelope db = Process C st source en clk envelope db"
  using assms by (rule Process_confined)

definition demo_collectors :: collectors where
  "demo_collectors = \<lparr>co_Information = Inl OtherError, co_Measurements = (\<lambda>_. Inl OtherError),
     co_SSH = (\<lambda>_. Inl OtherError), co_Service = (\<lambda>_. Inl OtherError)\<rparr>"

definition demo_env :: env where
  "demo_env = \<lparr>en_cancelled = False, en_policy = Inr demo_policy, en_collectors = demo_collectors,
     en_start_err = (\<lambda>_. None), en_end_err = (\<lambda>_. False)\<rparr>"

theorem collectors_confined_witness:
  "Process demo_crypto demo_state ''local'' (demo_env\<lparr>en_collectors := demo_collectors\<lparr>co_SSH := (\<lambda>_. Inr ''leak'')\<rparr>\<rparr>)
     demo_clk demo_envelope demo_db
   = Process demo_crypto demo_state ''local'' demo_env demo_clk demo_envelope demo_db"
  by (rule collectors_confined)
     (auto simp: agree_def demo_env_def demo_policy_def Policy_SSHProfile_def elems_def)

subsection \<open>The invariant\<close>

text \<open>C4: after initialisation and any history, the audit chain verifies, the audit slots held in reserve are exactly
  the running tasks, of which there is at most one, request keys are unique, and every row holds a task that decodes
  to its key together with - once finished - the printed form of a valid result for that task.\<close>

theorem history_invariant:
  assumes "sha256_spec C" "probe_initialize C node key trust clk = Inr db0" "0 < unix_sec (clk 0)"
    and "probe_trace C source_ok db0 runs db"
  shows "probe_inv C db \<and> audit_Verify C (d_audit db)"
proof -
  have "probe_inv C db"
    by (rule probe_trace_inv [OF assms(4) probe_initialize_inv [OF assms(2,3)] assms(1)])
  then show ?thesis by (simp add: probe_inv_def log_ok_def)
qed

theorem history_invariant_witness:
  "\<exists>db. probe_trace demo_crypto source_ok demo_db [(t_AgentID demo_task, t_RequestID demo_task)] db
     \<and> audit_Verify demo_crypto (d_audit db)"
proof -
  obtain d db1 where "probe_trace demo_crypto source_ok demo_db [(t_AgentID demo_task, t_RequestID demo_task)] db1"
    by (rule demo_step)
  with history_invariant [OF demo_sha256 demo_initialize(1) _ this] show ?thesis by auto
qed

subsection \<open>Completion\<close>



subsection \<open>The clock latch\<close>



subsection \<open>Recovery\<close>

text \<open>C7: reopening the database of an interrupted probe succeeds whenever its identity, trust binding and clock are in
  order: no task is left running, the invariant holds again, and the row of the interrupted task keeps its identity
  and becomes final.\<close>

theorem recovery_succeeds:
  assumes "probe_inv C db" "sha256_spec C" "opens C st db" "0 < wrap64 (clk 1)" "clock_sane db now"
  shows "\<exists>db'. recover C st now clk db = (Inr (), db') \<and> probe_inv C db' \<and> running_rows db' = []
    \<and> keeps (d_execs db) (d_execs db')"
proof -
  obtain db' where r: "recover C st now clk db = (Inr (), db')" "probe_inv C db'" "running_rows db' = []"
    by (rule recover_succeeds [where st = st and clk = clk and now = now, OF assms(1-4)])
       (use assms(5) in \<open>auto simp: clock_sane_def\<close>)
  with recover_keeps [OF r(1) assms(1)] show ?thesis by blast
qed

theorem recovery_succeeds_witness:
  "\<exists>db1 db2. running_rows db1 \<noteq> [] \<and> recover demo_crypto demo_state (demo_clk 0) demo_clk db1 = (Inr (), db2)
     \<and> running_rows db2 = []"
proof -
  obtain d db1 where p: "prepare demo_crypto demo_state demo_task demo_payload demo_policy ''local'' (demo_clk 1)
      (\<lambda>i. demo_clk (i + 2)) [''''] demo_db = (Inr d, db1)" "dc_run d"
    and tr: "probe_trace demo_crypto source_ok demo_db [(t_AgentID demo_task, t_RequestID demo_task)] db1"
    by (rule demo_step)
  have i: "probe_inv demo_crypto db1"
    by (rule probe_trace_inv [OF tr demo_initialize(2) demo_sha256])
  obtain x where x: "x \<in> set (running_rows db1)" using prepare_run_row [OF p] by blast
  note fr = prepare_frame [OF p(1)]
  have "opens demo_crypto demo_state db1"
    by (simp add: opens_def fr demo_initialize demo_state_def checkTrustBinding_def demo_public_def PublicKeySize_def)
  moreover have "clock_sane db1 (demo_clk 0)"
    using prepare_run_clock [OF p] by (simp add: clock_sane_def demo_initialize MaxClockSkew_def)
  ultimately obtain db2 where "recover demo_crypto demo_state (demo_clk 0) demo_clk db1 = (Inr (), db2)" "running_rows db2 = []"
    using recovery_succeeds [OF i demo_sha256, of demo_state demo_clk "demo_clk 0"] by auto
  moreover have "running_rows db1 \<noteq> []" using x by auto
  ultimately show ?thesis by blast
qed

subsection \<open>Authorised requests run\<close>

text \<open>C8: the gate is not over-strict: a fresh request that passes the checks of the key, the clock, the policy and the
  rate limits, on an idle probe with room for a row, a result and three audit entries, is let through.\<close>

theorem authorised_runs:
  assumes "probe_inv C db" "sha256_spec C" "source_ok source" "length source \<le> 256" "\<And>i. 0 < wrap64 (clk i)"
    "Policy_Digest C p = Inr digest" "Task_Validate t" "t_AgentID t = n_AgentID (st_node st)"
    "t_EnrollmentEpoch t = n_EnrollmentEpoch (st_node st)" "trust_check st t keyID (clk 1) = Inr ()" "clock_sane db now"
    "find_exec (t_EnrollmentEpoch t) (t_RequestID t) db = None" "(t_AgentID t, t_RequestID t) \<notin> set (decided db)"
    "running_rows db = []" "has_room p now db"
    "classify t p digest now (executed_since (unix_milli (now - seconds 60)) (pruned now db))
       (executed_since (unix_milli (now - seconds 1)) (pruned now db)) = (Running, '''')"
  shows "\<exists>d db'. prepare C st t payload p source now clk keyID db = (Inr d, db') \<and> dc_run d"
  using assms by (rule prepare_accepts)

theorem authorised_runs_witness:
  "\<exists>d db'. prepare demo_crypto demo_state demo_task ''any'' demo_policy ''local'' (demo_clk 0) demo_clk [] demo_db
     = (Inr d, db') \<and> dc_run d"
proof -
  have x: "d_execs (pruned now demo_db) = []" for now by (simp add: pruned_def demo_initialize)
  show ?thesis
    by (rule authorised_runs [OF demo_initialize(2) demo_sha256 _ _ _ demo_policy_digest demo_task_valid])
       (simp_all add: demo_task_def demo_state_def trust_check_def clock_sane_def demo_initialize find_exec_def
          running_rows_def has_room_def x MaxRecords_def pending_bytes_def demo_policy_def Capacity_def MaxClockSkew_def
          classify_def executed_since_def Policy_Allows_def AllowsResource_def)
qed

subsection \<open>Rate limits\<close>

text \<open>C9: the limits per minute and per second hold for the runs that really happened: a run is let through only while
  the table counts fewer, and deleting old rows in the same transaction never lowers the count.\<close>

theorem rate_limits:
  assumes "prepare C st t payload p source now clk keyID db = (Inr d, db')" "dc_run d" "probe_inv C db"
  shows "executed_since (unix_milli (now - seconds 60)) db' = executed_since (unix_milli (now - seconds 60)) db + 1
    \<and> executed_since (unix_milli (now - seconds 60)) db' \<le> p_MaxPerMinute p
    \<and> executed_since (unix_milli (now - seconds 1)) db' \<le> p_Burst p"
  using prepare_rate [OF assms] by simp

theorem rate_limits_witness:
  "\<exists>db'. executed_since (unix_milli (demo_clk 1 - seconds 60)) db' = 1 \<and> executed_since (unix_milli (demo_clk 1 - seconds 1)) db' \<le> 1"
proof -
  obtain d db1 where p: "prepare demo_crypto demo_state demo_task demo_payload demo_policy ''local'' (demo_clk 1)
      (\<lambda>i. demo_clk (i + 2)) [''''] demo_db = (Inr d, db1)" "dc_run d" by (rule demo_run)
  have "executed_since ms demo_db = 0" for ms by (simp add: executed_since_def demo_initialize)
  with rate_limits [OF p demo_initialize(2)] show ?thesis by (auto simp: demo_policy_def)
qed

subsection \<open>Stored results\<close>

text \<open>C10: in every step a stored outcome is final - state, result bytes and digest of a finished row do not change -
  and a row disappears only when it was delivered and is neither running nor indeterminate.\<close>

theorem results_final:
  assumes "probe_step C S db l db'" "probe_inv C db"
  shows "keeps (d_execs db) (d_execs db')"
  using assms by (rule probe_step_keeps)

theorem results_final_witness:
  "\<exists>db1. probe_step demo_crypto source_ok demo_db [(t_AgentID demo_task, t_RequestID demo_task)] db1
     \<and> keeps (d_execs demo_db) (d_execs db1)"
proof -
  obtain d db1 where "probe_step demo_crypto source_ok demo_db [(t_AgentID demo_task, t_RequestID demo_task)] db1"
    by (rule demo_step)
  with results_final [OF this demo_initialize(2)] show ?thesis by blast
qed



subsection \<open>The engine refines the step relation\<close>



subsection \<open>Delivery\<close>

text \<open>Acknowledging a result by its digest takes exactly the rows with that request and digest out of the outbox;
  an acknowledgement that does not match any finished row changes nothing and is an error.\<close>

lemma acknowledge_outbox:
  "Acknowledge st request digest db = (r, db') \<Longrightarrow>
   set (outbox db') = set (filter (\<lambda>x. \<not> (x_request x = request
       \<and> x_epoch x = n_EnrollmentEpoch (st_node st) \<and> x_result_digest x = digest)) (outbox db))
   \<and> (\<not> list_ex (\<lambda>x. x_request x = request \<and> x_epoch x = n_EnrollmentEpoch (st_node st)
       \<and> x_result_digest x = digest \<and> x_state x \<noteq> Running) (d_execs db) \<longrightarrow> db' = db \<and> \<not> is_ok r)"
  using Acknowledge_outbox by blast

lemma acknowledge_outbox_witness:
  "\<not> is_ok (fst (Acknowledge demo_state ''none'' ''none'' demo_db))"
  using acknowledge_outbox [of demo_state "''none''" "''none''" demo_db] by (simp add: demo_initialize prod_eq_iff)

end
