(* ===== verification/Adminauth.thy ===== *)
theory Adminauth
  imports Inspection
begin

section \<open>Administrator credentials\<close>

text \<open>
  \<open>internal/adminauth/password.go\<close>: account names, roles, password input and the stored form of a password.
  The memory-hard function \<open>argon2.IDKey\<close> (with the fixed parameters of the package) is the parameter \<open>K\<close>; the
  salt that \<open>Hash\<close> draws is an argument. The two-slot semaphore \<open>Acquire\<close> is an argument of the callers.
\<close>

abbreviation Admin :: string where "Admin \<equiv> ''Admin''"
abbreviation ReadOnly :: string where "ReadOnly \<equiv> ''ReadOnly''"

definition hash_prefix :: string where "hash_prefix = ''$argon2id$v=19$m=65536,t=3,p=4$''"

definition Role :: "string \<Rightarrow> bool" where "Role s \<longleftrightarrow> s = Admin \<or> s = ReadOnly"

definition Username :: "string \<Rightarrow> bool" where
  "Username s \<longleftrightarrow> \<not> (length s < 3 \<or> length s > 32 \<or> \<not> char_in (CHR ''a'') (CHR ''z'') (hd s))
     \<and> list_all (\<lambda>c. char_in (CHR ''a'') (CHR ''z'') c \<or> char_in (CHR ''0'') (CHR ''9'') c
          \<or> c = CHR ''_'' \<or> c = CHR ''-'') s"

definition PasswordInput :: "string \<Rightarrow> bool" where
  "PasswordInput s \<longleftrightarrow> \<not> (length s < 1 \<or> length s > 256) \<and> runes (\<lambda>t. \<not> control_at t) s \<noteq> None"

definition NewPassword :: "string \<Rightarrow> bool" where
  "NewPassword s \<longleftrightarrow> PasswordInput s \<and> rune_count s \<ge> 15"

definition url_to_std :: "char \<Rightarrow> char" where
  "url_to_std c = (if c = CHR ''-'' then CHR ''+'' else if c = CHR ''_'' then CHR ''/'' else c)"

definition RawStd_EncodeToString :: "bytes \<Rightarrow> string" where
  "RawStd_EncodeToString b = map url_to_std (b64_EncodeToString b)"

type_synonym kdf = "bytes \<Rightarrow> bytes \<Rightarrow> bytes"

definition encode_hash :: "bytes \<Rightarrow> bytes \<Rightarrow> string" where
  "encode_hash salt tag = hash_prefix @ RawStd_EncodeToString salt @ ''$'' @ RawStd_EncodeToString tag"

definition Hash :: "kdf \<Rightarrow> bytes \<Rightarrow> string \<Rightarrow> string result" where
  "Hash K salt password =
     (if \<not> NewPassword password then Inl (Err ''password must contain at least 15 characters'')
      else Inr (encode_hash salt (K password salt)))"

definition Parse :: "string \<Rightarrow> (bytes \<times> bytes) result" where
  "Parse encoded =
     (if \<not> has_prefix encoded hash_prefix \<or> length encoded > 128 then Inl (Err ''unsupported password hash'')
      else case split_on (CHR ''$'') (trim_prefix encoded hash_prefix) of
        [a, b] \<Rightarrow> (case (RawStd_DecodeString a, RawStd_DecodeString b) of
            (Some salt, Some tag) \<Rightarrow>
              if length salt \<noteq> 16 \<or> length tag \<noteq> 32 then Inl (Err ''invalid password hash'') else Inr (salt, tag)
          | _ \<Rightarrow> Inl (Err ''invalid password hash''))
      | _ \<Rightarrow> Inl (Err ''invalid password hash''))"

definition Verify :: "kdf \<Rightarrow> string \<Rightarrow> string \<Rightarrow> bool result" where
  "Verify K password encoded = andThen (Parse encoded) (\<lambda>(salt, tag). Inr (K password salt = tag))"

definition Dummy :: string where
  "Dummy = encode_hash (replicate 16 (CHR 0x00)) (replicate 32 (CHR 0x00))"

text \<open>What was printed in the standard alphabet is read back.\<close>

lemma b64_text_roundtrip: "RawStd_DecodeString (RawStd_EncodeToString bs) = Some bs"
proof -
  have "std_to_url (url_to_std c) = c" if "plain_char c" for c
    using that by (auto simp: std_to_url_def url_to_std_def plain_char_def alnum_def char_in_def code_def)
  then have "map (std_to_url \<circ> url_to_std) (b64_EncodeToString bs) = b64_EncodeToString bs"
    using b64_plain [of bs] by (intro map_idI) (simp add: list_all_iff)
  then show ?thesis by (simp add: RawStd_DecodeString_def RawStd_EncodeToString_def b64_Decode_Encode)
qed

end
