(* ===== verification/Server.thy ===== *)
theory Server
  imports Signing Adminauth
begin

section \<open>The server's store: enrollment, credentials and telemetry\<close>

text \<open>
  \<open>internal/state\<close>, first part (\<open>state.go\<close>, \<open>certificates.go\<close>). The database is the record \<open>server_db\<close>: one list of
  row records per table, and one field per column of the one-row tables. A uniqueness constraint that a statement
  violates is an error of the transaction. \<open>clk i\<close> is the i-th reading of the wall clock of a call; random bytes are
  arguments. What \<open>crypto/x509\<close> and the certificate issuer do is gathered in the record \<open>pki\<close>.
\<close>

definition MaxNodes :: nat where "MaxNodes = 1000"

record token_row =
  tk_hash :: string
  tk_expires :: int
  tk_consumed :: bool

record node_row =
  nr_agent :: string
  nr_epoch :: string
  nr_cert :: string
  nr_enabled :: bool
  nr_enrolled :: int
  nr_received :: int
  nr_heartbeat :: "bytes option"
  nr_policy :: string
  nr_task_state :: string

record task_row =
  tr_sequence :: int
  tr_request :: string
  tr_agent :: string
  tr_epoch :: string
  tr_payload :: bytes
  tr_envelope :: "bytes option"
  tr_state :: string
  tr_expires :: int
  tr_result :: "bytes option"
  tr_result_digest :: string
  tr_code :: string

record cred_row =
  cr_cert :: string
  cr_agent :: string
  cr_epoch :: string
  cr_generation :: int
  cr_issuer :: string
  cr_serial :: string
  cr_public_key :: string
  cr_not_before :: int
  cr_not_after :: int
  cr_retire_at :: int
  cr_revoked :: bool
  cr_issued_at :: int

record renewal_row =
  rn_agent :: string
  rn_id :: string
  rn_authorizing :: string
  rn_csr :: string
  rn_cert :: string
  rn_response :: bytes

record user_row =
  us_id :: string
  us_name :: string
  us_role :: string
  us_enabled :: bool
  us_hash :: string
  us_generation :: int

record session_row =
  se_hash :: string
  se_id :: string
  se_user :: string
  se_created :: int
  se_last_used :: int
  se_expires :: int

record limit_row =
  li_bucket :: string
  li_started :: int
  li_count :: int

record server_db =
  v_version :: int
  v_quick_check :: string
  v_tokens :: "token_row list"
  v_nodes :: "node_row list"
  v_tasks :: "task_row list"
  v_key_digest :: string
  v_trust :: "bytes option"
  v_paused :: bool
  v_creds :: "cred_row list"
  v_renewals :: "renewal_row list"
  v_users :: "user_row list"
  v_sessions :: "session_row list"
  v_limits :: "limit_row list"
  v_admin_clock :: int
  v_audit :: audit_log

type_synonym sreadings = "nat \<Rightarrow> instant"

definition server_append :: "crypto \<Rightarrow> instant \<Rightarrow> Event \<Rightarrow> int \<Rightarrow> server_db \<Rightarrow> server_db result" where
  "server_append C now e delta db = andThen (Append C now e delta (v_audit db)) (\<lambda>L. Inr (db\<lparr>v_audit := L\<rparr>))"

text \<open>The audit entry of an operator's or an administrator's action.\<close>

definition admin_event :: "string \<Rightarrow> string \<Rightarrow> string \<Rightarrow> string \<Rightarrow> string \<Rightarrow> Event" where
  "admin_event kind actor source status ec =
     no_event\<lparr>e_Kind := kind, e_ActorID := actor, e_Source := source, e_Status := status, e_Code := ec\<rparr>"

definition node_event :: "string \<Rightarrow> string \<Rightarrow> string \<Rightarrow> string \<Rightarrow> string \<Rightarrow> Event" where
  "node_event kind agent epoch actor source =
     no_event\<lparr>e_Kind := kind, e_AgentID := agent, e_Epoch := epoch, e_ActorID := actor, e_Source := source,
       e_Status := ''succeeded''\<rparr>"

abbreviation local_operator :: string where "local_operator \<equiv> ''local-operator''"
abbreviation local :: string where "local \<equiv> ''local''"

subsection \<open>Schema\<close>

definition enabled_nodes :: "server_db \<Rightarrow> int" where
  "enabled_nodes db = int (length (filter nr_enabled (v_nodes db)))"

text \<open>The audit slots a task holds: its dispatch and its result.\<close>

definition task_weight :: "task_row \<Rightarrow> int" where
  "task_weight r = (if tr_state r = ''queued'' then 2 else if tr_state r = ''dispatched'' then 1 else 0)"

definition expected_reserved :: "server_db \<Rightarrow> int" where
  "expected_reserved db = enabled_nodes db + int (length (v_sessions db)) + (\<Sum>r\<leftarrow>v_tasks db. task_weight r)"

definition migrateTasks :: "server_db \<Rightarrow> server_db" where
  "migrateTasks db = db\<lparr>v_nodes := map (\<lambda>n. n\<lparr>nr_policy := '''', nr_task_state := ''''\<rparr>) (v_nodes db),
     v_key_digest := '''', v_tasks := []\<rparr>"

definition migrateAdmins :: "crypto \<Rightarrow> instant \<Rightarrow> server_db \<Rightarrow> server_db result" where
  "migrateAdmins C rd db = server_append C rd (admin_event ''state_migrated'' local_operator local ''succeeded'' ''server_schema_3'') 0
     (db\<lparr>v_users := [], v_sessions := [], v_limits := [], v_admin_clock := 0, v_version := 3\<rparr>)"

definition new_credential :: "string \<Rightarrow> string \<Rightarrow> string \<Rightarrow> int \<Rightarrow> int \<Rightarrow> cred_row" where
  "new_credential cert agent epoch generation issued =
     \<lparr>cr_cert = cert, cr_agent = agent, cr_epoch = epoch, cr_generation = generation, cr_issuer = '''', cr_serial = '''',
      cr_public_key = '''', cr_not_before = 0, cr_not_after = 0, cr_retire_at = 0, cr_revoked = False, cr_issued_at = issued\<rparr>"

definition migrateCertificates :: "crypto \<Rightarrow> instant \<Rightarrow> server_db \<Rightarrow> server_db result" where
  "migrateCertificates C rd db =
     server_append C rd (admin_event ''credentials_migrated'' local_operator local ''succeeded'' ''server_schema_4'') 0
     (db\<lparr>v_creds := map (\<lambda>n. new_credential (nr_cert n) (nr_agent n) (nr_epoch n) 1 (nr_enrolled n)) (v_nodes db),
        v_renewals := [], v_version := 4\<rparr>)"

definition migrateSigners :: "crypto \<Rightarrow> instant \<Rightarrow> server_db \<Rightarrow> server_db result" where
  "migrateSigners C rd db =
     server_append C rd (admin_event ''signer_schema_migrated'' local_operator local ''succeeded'' ''server_schema_5'') 0
     (db\<lparr>v_trust := None, v_paused := False, v_version := 5\<rparr>)"

text \<open>The whole of \<open>migrate\<close>, which \<open>Open\<close> runs: upgrade step by step, then check chain and reservations.\<close>

definition migrate :: "crypto \<Rightarrow> sreadings \<Rightarrow> server_db \<Rightarrow> unit result \<times> server_db" where
  "migrate C clk = run_tx (\<lambda>db.
     let version = v_version db in
     if version < 0 \<or> version > 5 then Inl (Err ''unsupported database schema version'')
     else let db0 = (if version = 0 then db\<lparr>v_tokens := [], v_nodes := [], v_version := 1\<rparr> else db) in
       andThen (if version < 2 then
           let db1 = migrateTasks db0; db2 = db1\<lparr>v_audit := audit_Initialize\<rparr> in
           andThen (server_append C (clk 0) (admin_event ''state_initialized'' local_operator local ''succeeded'' ''server_schema_2'')
               (enabled_nodes db2) db2) (\<lambda>db3. Inr (db3\<lparr>v_version := 2\<rparr>))
         else Inr db0) (\<lambda>db4.
       andThen (if version < 3 then migrateAdmins C (clk 1) db4 else Inr db4) (\<lambda>db5.
       andThen (if version < 4 then migrateCertificates C (clk 2) db5 else Inr db5) (\<lambda>db6.
       andThen (if version < 5 then migrateSigners C (clk 3) db6 else Inr db6) (\<lambda>db7.
         if \<not> audit_Verify C (v_audit db7) then Inl (Err ''audit chain verification failed'')
         else if al_reserved (v_audit db7) \<noteq> expected_reserved db7
         then Inl (Err ''inconsistent server audit reservations'')
         else Inr (Inr (), db7))))))"

subsection \<open>Enrollment tokens\<close>

definition tokenHash :: "crypto \<Rightarrow> string \<Rightarrow> string result" where
  "tokenHash C token = (if \<not> Hex token 64 then Inl ErrUnauthorized else Inr (Digest C token))"

definition hash_or_empty :: "string result \<Rightarrow> string" where
  "hash_or_empty r = (case r of Inl _ \<Rightarrow> '''' | Inr h \<Rightarrow> h)"

definition issueTokenTx :: "crypto \<Rightarrow> int \<Rightarrow> string \<Rightarrow> string \<Rightarrow> bytes \<Rightarrow> bytes \<Rightarrow> sreadings \<Rightarrow> server_db
    \<Rightarrow> (string \<times> server_db) result" where
  "issueTokenTx C ttl actor source b1 b2 clk db =
     (if ttl < seconds 1 \<or> ttl > seconds 900
      then Inl (Err ''token lifetime must be between 1 second and 15 minutes'')
      else let token = RandomID b1 @ RandomID b2; hash = hash_or_empty (tokenHash C token); now = clk 0;
               tokens = filter (\<lambda>k. \<not> (tk_expires k \<le> unix_sec now \<or> tk_consumed k)) (v_tokens db)
        in if length tokens \<ge> MaxNodes then Inl (Err ''pending token limit reached'')
           else if list_ex (\<lambda>k. tk_hash k = hash) tokens then Inl (Err ''UNIQUE constraint failed: enrollment_tokens.token_hash'')
           else andThen (server_append C (clk 1) (admin_event ''token_issued'' actor source ''succeeded'' '''') 0
               (db\<lparr>v_tokens := tokens @ [\<lparr>tk_hash = hash, tk_expires = unix_sec (now + ttl), tk_consumed = False\<rparr>]\<rparr>))
             (\<lambda>db1. Inr (token, db1)))"

definition IssueToken :: "crypto \<Rightarrow> int \<Rightarrow> bytes \<Rightarrow> bytes \<Rightarrow> sreadings \<Rightarrow> server_db \<Rightarrow> string result \<times> server_db" where
  "IssueToken C ttl b1 b2 clk = run_tx (\<lambda>db.
     andThen (issueTokenTx C ttl local_operator local b1 b2 clk db) (\<lambda>(token, db1). Inr (Inr token, db1)))"

subsection \<open>Certificates\<close>

record csr =
  q_Raw :: bytes
  q_SubjectPublicKeyInfo :: bytes

record pki =
  pk_CheckSignatureFrom :: "certificate \<Rightarrow> certificate \<Rightarrow> bool"
  pk_Parse :: "string \<Rightarrow> certificate option"
  pk_Issue :: "csr \<Rightarrow> Node \<Rightarrow> (bytes \<times> certificate) result"
  pk_Issuer :: "certificate option"

definition credential_live :: "int \<Rightarrow> cred_row \<Rightarrow> bool" where
  "credential_live now c \<longleftrightarrow> \<not> cr_revoked c \<and> (cr_retire_at c = 0 \<or> cr_retire_at c > now)
     \<and> (cr_not_after c = 0 \<or> (cr_not_before c \<le> now \<and> cr_not_after c > now))"

definition authorizeCertificate :: "crypto \<Rightarrow> certificate option \<Rightarrow> instant \<Rightarrow> server_db \<Rightarrow> Node result" where
  "authorizeCertificate C oc now db = andThen (FromCertificate oc) (\<lambda>n. case oc of
     None \<Rightarrow> Inl (Err ''certificate is not a probe identity'')
   | Some cert \<Rightarrow>
       if now < c_NotBefore cert \<or> \<not> now < c_NotAfter cert then Inl (Err ''certificate outside validity window'')
       else if list_ex (\<lambda>r. nr_agent r = n_AgentID n \<and> nr_epoch r = n_EnrollmentEpoch n \<and> nr_enabled r
            \<and> list_ex (\<lambda>c. cr_agent c = nr_agent r \<and> cr_epoch c = nr_epoch r \<and> cr_cert c = Fingerprint C cert
                 \<and> credential_live (unix_sec now) c) (v_creds db)) (v_nodes db)
       then Inr n else Inl (Err ''node credential is not authorized''))"

definition credentialMetadata :: "crypto \<Rightarrow> pki \<Rightarrow> certificate option \<Rightarrow> certificate option \<Rightarrow> server_db \<Rightarrow> server_db result" where
  "credentialMetadata C X oc oi db = (case (oc, oi) of
     (Some cert, Some issuer) \<Rightarrow>
       if \<not> pk_CheckSignatureFrom X cert issuer then Inl (Err ''invalid credential issuer'')
       else let fp = Fingerprint C cert; hit = (\<lambda>c. cr_cert c = fp) in
         if list_ex hit (v_creds db) \<and> Fingerprint C issuer \<noteq> ''''
            \<and> list_ex (\<lambda>c. \<not> hit c \<and> cr_issuer c = Fingerprint C issuer \<and> cr_serial c = c_SerialNumber cert) (v_creds db)
         then Inl (Err ''UNIQUE constraint failed: credential_issuer_serial'')
         else Inr (db\<lparr>v_creds := map (\<lambda>c. if hit c then c\<lparr>cr_issuer := Fingerprint C issuer, cr_serial := c_SerialNumber cert,
                cr_public_key := Digest C (c_SubjectPublicKeyInfo cert), cr_not_before := unix_sec (c_NotBefore cert),
                cr_not_after := unix_sec (c_NotAfter cert)\<rparr> else c) (v_creds db)\<rparr>)
   | _ \<Rightarrow> Inl (Err ''invalid credential issuer''))"

definition insert_node :: "node_row \<Rightarrow> server_db \<Rightarrow> server_db result" where
  "insert_node r db =
     (if list_ex (\<lambda>n. nr_agent n = nr_agent r \<or> nr_cert n = nr_cert r) (v_nodes db)
      then Inl (Err ''UNIQUE constraint failed: nodes'') else Inr (db\<lparr>v_nodes := v_nodes db @ [r]\<rparr>))"

definition insert_cred :: "cred_row \<Rightarrow> server_db \<Rightarrow> server_db result" where
  "insert_cred r db =
     (if list_ex (\<lambda>c. cr_cert c = cr_cert r \<or> cr_agent c = cr_agent r \<and> cr_generation c = cr_generation r) (v_creds db)
      then Inl (Err ''UNIQUE constraint failed: node_credentials'')
      else if cr_generation r < 1 \<or> cr_generation r > 64 then Inl (Err ''CHECK constraint failed: generation'')
      else if \<not> list_ex (\<lambda>n. nr_agent n = cr_agent r) (v_nodes db) then Inl (Err ''FOREIGN KEY constraint failed'')
      else Inr (db\<lparr>v_creds := v_creds db @ [r]\<rparr>))"

subsection \<open>Registration\<close>

text \<open>The certificate arguments of \<open>RegisterFrom\<close>: none, or the leaf and its issuer.\<close>

definition registration_certs :: "crypto \<Rightarrow> Registration \<Rightarrow> certificate option list \<Rightarrow> unit result" where
  "registration_certs C r certs = (case certs of
     [] \<Rightarrow> Inr ()
   | [leaf, _] \<Rightarrow> (case FromCertificate leaf of
       Inl _ \<Rightarrow> Inl (Err ''registration certificate mismatch'')
     | Inr n \<Rightarrow> if n_AgentID n \<noteq> g_AgentID r \<or> n_EnrollmentEpoch n \<noteq> g_EnrollmentEpoch r
           \<or> map_option (Fingerprint C) leaf \<noteq> Some (g_CertificateSHA256 r)
         then Inl (Err ''registration certificate mismatch'') else Inr ())
   | _ \<Rightarrow> Inl (Err ''expected leaf and issuer''))"

definition RegisterFrom :: "crypto \<Rightarrow> pki \<Rightarrow> string \<Rightarrow> Registration \<Rightarrow> string \<Rightarrow> certificate option list \<Rightarrow> sreadings
    \<Rightarrow> server_db \<Rightarrow> unit result \<times> server_db" where
  "RegisterFrom C X token r source certs clk db =
     (case andThen (tokenHash C token) (\<lambda>hash.
        if \<not> Node_Validate \<lparr>n_AgentID = g_AgentID r, n_EnrollmentEpoch = g_EnrollmentEpoch r\<rparr>
           \<or> \<not> Hex (g_CertificateSHA256 r) 64 \<or> \<not> g_Enabled r then Inl (Err ''invalid registration'')
        else andThen (registration_certs C r certs) (\<lambda>_. Inr hash)) of
       Inl e \<Rightarrow> (Inl e, db)
     | Inr hash \<Rightarrow> run_tx (\<lambda>db.
         let hit = (\<lambda>k. tk_hash k = hash \<and> \<not> tk_consumed k \<and> tk_expires k > unix_sec (clk 0));
             db1 = db\<lparr>v_tokens := map (\<lambda>k. if hit k then k\<lparr>tk_consumed := True\<rparr> else k) (v_tokens db)\<rparr>
         in if length (filter hit (v_tokens db)) \<noteq> 1 then Inl ErrUnauthorized
            else if length (v_nodes db1) \<ge> MaxNodes then Inl (Err ''node limit reached'')
            else andThen (insert_node \<lparr>nr_agent = g_AgentID r, nr_epoch = g_EnrollmentEpoch r,
                nr_cert = g_CertificateSHA256 r, nr_enabled = True, nr_enrolled = unix_sec (clk 1), nr_received = 0,
                nr_heartbeat = None, nr_policy = '''', nr_task_state = ''''\<rparr> db1) (\<lambda>db2.
              andThen (insert_cred (new_credential (g_CertificateSHA256 r) (g_AgentID r) (g_EnrollmentEpoch r) 1
                  (unix_sec (clk 2))) db2) (\<lambda>db3.
              andThen (case certs of [leaf, issuer] \<Rightarrow> credentialMetadata C X leaf issuer db3 | _ \<Rightarrow> Inr db3) (\<lambda>db4.
              andThen (server_append C (clk 3) (node_event ''node_enrolled'' (g_AgentID r) (g_EnrollmentEpoch r) '''' source) 1 db4)
                (\<lambda>db5. Inr (Inr (), db5)))))) db)"

definition Authorize :: "crypto \<Rightarrow> certificate option \<Rightarrow> instant \<Rightarrow> server_db \<Rightarrow> Node result" where
  "Authorize C oc now db = authorizeCertificate C oc now db"

text \<open>\<open>data\<close> is the text that \<open>json.Marshal\<close> prints of the heartbeat.\<close>

definition SaveHeartbeat :: "crypto \<Rightarrow> certificate option \<Rightarrow> Heartbeat \<Rightarrow> bytes \<Rightarrow> sreadings \<Rightarrow> server_db \<Rightarrow> unit result \<times> server_db" where
  "SaveHeartbeat C oc h data clk db =
     (case Authorize C oc (clk 0) db of
        Inl e \<Rightarrow> (Inl e, db)
      | Inr n \<Rightarrow>
          if \<not> Heartbeat_Validate h then (Inl (Err ''invalid heartbeat''), db)
          else if hb_AgentID h \<noteq> n_AgentID n \<or> hb_EnrollmentEpoch h \<noteq> n_EnrollmentEpoch n
          then (Inl (Err ''heartbeat identity mismatch''), db)
          else run_tx (\<lambda>db. andThen (authorizeCertificate C oc (clk 1) db) (\<lambda>_.
            case find (\<lambda>r. nr_agent r = n_AgentID n) (v_nodes db) of
              None \<Rightarrow> Inl (Err ''node identity is not authorized'')
            | Some r \<Rightarrow> let now = wrap64 (clk 2) in
                if wrap64 (now - nr_received r) < seconds 5 then Inl ErrRateLimited
                else Inr (Inr (), db\<lparr>v_nodes := map (\<lambda>r. if nr_agent r = n_AgentID n
                  then r\<lparr>nr_heartbeat := Some data, nr_received := now, nr_policy := hb_PolicyDigest h,
                         nr_task_state := hb_TaskState h\<rparr> else r) (v_nodes db)\<rparr>))) db)"

subsection \<open>Renewal\<close>

definition MarshalRenewalResponse :: "RenewalResponse \<Rightarrow> bytes" where
  "MarshalRenewalResponse r = json_object
     [(''version'', show_int (rs_Version r)), (''renewal_id'', json_string (rs_RenewalID r)),
      (''agent_id'', json_string (rs_AgentID r)), (''enrollment_epoch'', json_string (rs_Epoch r)),
      (''generation'', show_int (rs_Generation r)),
      (''previous_certificate_sha256'', json_string (rs_PreviousSHA256 r)),
      (''previous_valid_until'', show_int (rs_PreviousValidUntil r)),
      (''certificate_pem'', json_string (rs_CertificatePEM r))]"

text \<open>A renewal that was answered before: the stored answer again, if it still is one.\<close>

definition renewal_saved :: "crypto \<Rightarrow> pki \<Rightarrow> Node \<Rightarrow> string \<Rightarrow> string \<Rightarrow> string \<Rightarrow> renewal_row \<Rightarrow> instant \<Rightarrow> server_db
    \<Rightarrow> bytes result" where
  "renewal_saved C X n i oldHash csrHash w now db =
     (if rn_authorizing w \<noteq> oldHash \<or> rn_csr w \<noteq> csrHash then Inl ErrRenewal
      else case DecodeRenewalResponse (rn_response w) of
        Inl _ \<Rightarrow> Inl ErrRenewal
      | Inr r \<Rightarrow>
          if rs_AgentID r \<noteq> n_AgentID n \<or> rs_Epoch r \<noteq> n_EnrollmentEpoch n \<or> rs_RenewalID r \<noteq> i
             \<or> rs_PreviousSHA256 r \<noteq> oldHash then Inl ErrRenewal
          else (case pk_Parse X (rs_CertificatePEM r) of
            None \<Rightarrow> Inl ErrRenewal
          | Some cert \<Rightarrow>
              if Fingerprint C cert \<noteq> rn_cert w \<or> \<not> is_ok (authorizeCertificate C (Some cert) now db)
              then Inl ErrRenewal else Inr (rn_response w)))"

definition active_credential :: "int \<Rightarrow> cred_row \<Rightarrow> bool" where
  "active_credential now c \<longleftrightarrow> \<not> cr_revoked c \<and> (cr_retire_at c = 0 \<or> cr_retire_at c > now)
     \<and> (cr_not_after c = 0 \<or> cr_not_after c > now)"

text \<open>May this credential be renewed now: it is the newest, no other one is active beside it, and the node's
  generations and the hourly limit allow it.\<close>

definition renewal_allowed :: "string \<Rightarrow> string \<Rightarrow> int \<Rightarrow> server_db \<Rightarrow> int result" where
  "renewal_allowed agent oldHash now db = (case find (\<lambda>c. cr_cert c = oldHash) (v_creds db) of
     None \<Rightarrow> Inl (Err ''sql: no rows in result set'')
   | Some old \<Rightarrow>
       let owned = filter (\<lambda>c. cr_agent c = agent) (v_creds db); latest = fold max (map cr_generation owned) 0;
           active = length (filter (active_credential now) owned)
       in if cr_generation old \<noteq> latest \<or> active \<ge> 2 \<or> int (length owned) \<ge> MaxCertificateGenerations
             \<or> (cr_generation old > 1 \<and> wrap64 (now - cr_issued_at old) < 3600)
          then Inl ErrRenewal else Inr latest)"

definition insert_renewal :: "renewal_row \<Rightarrow> server_db \<Rightarrow> server_db result" where
  "insert_renewal w db =
     (if list_ex (\<lambda>x. rn_agent x = rn_agent w \<and> rn_id x = rn_id w) (v_renewals db)
      then Inl (Err ''UNIQUE constraint failed: certificate_renewals'')
      else Inr (db\<lparr>v_renewals := v_renewals db @ [w]\<rparr>))"

text \<open>The issuing half of \<open>RenewCertificate\<close>.\<close>

definition renew_issue :: "crypto \<Rightarrow> pki \<Rightarrow> Node \<Rightarrow> certificate \<Rightarrow> certificate option \<Rightarrow> string \<Rightarrow> csr \<Rightarrow> string
    \<Rightarrow> sreadings \<Rightarrow> (bytes, server_db) tx" where
  "renew_issue C X n old oldIssuer i q source clk db =
     (let oldHash = Fingerprint C old; csrHash = Digest C (q_Raw q); now = clk 0 in
      andThen (renewal_allowed (n_AgentID n) oldHash (unix_sec now) db) (\<lambda>latest.
      andThen (credentialMetadata C X (Some old) oldIssuer db) (\<lambda>db1.
      andThen (pk_Issue X q n) (\<lambda>(chn, cert).
        if FromCertificate (Some cert) \<noteq> Inr n \<or> c_SubjectPublicKeyInfo cert \<noteq> q_SubjectPublicKeyInfo q
           \<or> c_NotAfter cert > now + seconds (30 * 24 * 3600 + 60) \<or> \<not> c_NotAfter cert > now + seconds 60
        then Inl ErrRenewal
        else let nextHash = Fingerprint C cert;
                 cutoff = min (min (unix_sec (now + seconds (24 * 3600))) (unix_sec (c_NotAfter old))) (unix_sec (c_NotAfter cert))
          in andThen (insert_cred (new_credential nextHash (n_AgentID n) (n_EnrollmentEpoch n) (latest + 1) (unix_sec now)) db1) (\<lambda>db2.
             andThen (credentialMetadata C X (Some cert) (pk_Issuer X) db2) (\<lambda>db3.
             let db4 = db3\<lparr>v_creds := map (\<lambda>c. if cr_cert c = oldHash then c\<lparr>cr_retire_at := cutoff\<rparr> else c) (v_creds db3)\<rparr>;
                 data = MarshalRenewalResponse \<lparr>rs_Version = 1, rs_RenewalID = i, rs_AgentID = n_AgentID n,
                   rs_Epoch = n_EnrollmentEpoch n, rs_Generation = latest + 1, rs_PreviousSHA256 = oldHash,
                   rs_PreviousValidUntil = cutoff, rs_CertificatePEM = chn\<rparr>
             in andThen (DecodeRenewalResponse data) (\<lambda>_.
                andThen (insert_renewal \<lparr>rn_agent = n_AgentID n, rn_id = i, rn_authorizing = oldHash, rn_csr = csrHash,
                    rn_cert = nextHash, rn_response = data\<rparr> db4) (\<lambda>db5.
                andThen (server_append C (clk 1) ((node_event ''certificate_renewed'' (n_AgentID n) (n_EnrollmentEpoch n) '''' source)
                    \<lparr>e_Code := ''generation_'' @ show_int (latest + 1), e_PayloadDigest := csrHash, e_ResultDigest := nextHash\<rparr>) 0 db5) (\<lambda>db6.
                andThen (authorizeCertificate C (Some old) (clk 2) db6) (\<lambda>_. Inr (Inr data, db6)))))))))))"

definition RenewCertificate :: "crypto \<Rightarrow> pki \<Rightarrow> certificate option \<Rightarrow> certificate option \<Rightarrow> string \<Rightarrow> csr option \<Rightarrow> string
    \<Rightarrow> sreadings \<Rightarrow> server_db \<Rightarrow> bytes result \<times> server_db" where
  "RenewCertificate C X oc oldIssuer i oq source clk db = (case oq of
     None \<Rightarrow> (Inl ErrRenewal, db)
   | Some q \<Rightarrow>
       if \<not> Hex i 32 \<or> length (q_Raw q) = 0 \<or> length (q_Raw q) > 2048 then (Inl ErrRenewal, db)
       else run_tx (\<lambda>db. andThen (authorizeCertificate C oc (clk 0) db) (\<lambda>n. case oc of
           None \<Rightarrow> Inl ErrRenewal
         | Some old \<Rightarrow> (case find (\<lambda>w. rn_agent w = n_AgentID n \<and> rn_id w = i) (v_renewals db) of
             Some w \<Rightarrow> andThen (renewal_saved C X n i (Fingerprint C old) (Digest C (q_Raw q)) w (clk 1) db)
                 (\<lambda>saved. Inr (Inr saved, db))
           | None \<Rightarrow> renew_issue C X n old oldIssuer i q source (\<lambda>k. clk (k + 1)) db))) db)"

text \<open>\<open>Credentials\<close> reads the rows of a node; the JSON form of a row is its fields.\<close>

definition Credentials :: "crypto \<Rightarrow> string \<Rightarrow> instant \<Rightarrow> server_db \<Rightarrow> cred_row list result \<times> server_db" where
  "Credentials C node rd db =
     (if \<not> Hex node 32 then (Inl (Err ''invalid node ID''), db)
      else run_tx (\<lambda>db. andThen (server_append C rd (node_event ''certificates_read'' node '''' local_operator local) 0 db)
        (\<lambda>db1. Inr (Inr (take 64 (sort_key cr_generation (filter (\<lambda>c. cr_agent c = node) (v_creds db)))), db1))) db)"

definition RevokeCertificate :: "crypto \<Rightarrow> string \<Rightarrow> string \<Rightarrow> instant \<Rightarrow> server_db \<Rightarrow> unit result \<times> server_db" where
  "RevokeCertificate C node hash rd db =
     (if \<not> Hex node 32 \<or> \<not> Hex hash 64 then (Inl (Err ''invalid credential selector''), db)
      else run_tx (\<lambda>db.
        let hit = (\<lambda>c. cr_agent c = node \<and> cr_cert c = hash) in
        if length (filter hit (v_creds db)) \<noteq> 1 then Inl (Err ''credential not found'')
        else andThen (server_append C rd ((node_event ''certificate_revoked'' node '''' local_operator local)\<lparr>e_PayloadDigest := hash\<rparr>) 0
            (db\<lparr>v_creds := map (\<lambda>c. if hit c then c\<lparr>cr_revoked := True\<rparr> else c) (v_creds db)\<rparr>))
          (\<lambda>db1. Inr (Inr (), db1))) db)"

end
