(* ===== verification/Server_Tasks.thy ===== *)
theory Server_Tasks
  imports Server
begin

section \<open>The server's task queue and signer settings\<close>

text \<open>
  \<open>internal/state\<close>, second part (\<open>tasks.go\<close>, \<open>signers.go\<close>, and the operations of \<open>state.go\<close> that touch tasks). A
  \<open>SELECT\<close> without \<open>ORDER BY\<close> visits the rows in table order. Readings from 10 on serve the loops: the i-th row of a
  loop is recorded at \<open>clk (10 + i)\<close>.
\<close>

definition MaxStoredTasks :: nat where "MaxStoredTasks = 10000"

definition dispatchSettings :: "crypto \<Rightarrow> server_db \<Rightarrow> (string \<times> TrustSet option \<times> bool) result" where
  "dispatchSettings C db = (case v_trust db of
     None \<Rightarrow> Inr (v_key_digest db, None, v_paused db)
   | Some data \<Rightarrow> andThen (DecodeTrust C data) (\<lambda>s. case TrustSet_Canonical C s of
       Inl _ \<Rightarrow> Inl (Err ''noncanonical stored signer trust'')
     | Inr canonical \<Rightarrow>
         if data \<noteq> canonical then Inl (Err ''noncanonical stored signer trust'')
         else andThen (TrustSet_Key s (v_key_digest db)) (\<lambda>_. Inr (v_key_digest db, Some s, v_paused db))))"

definition ConfigureSigner :: "crypto \<Rightarrow> bytes \<Rightarrow> instant \<Rightarrow> server_db \<Rightarrow> unit result \<times> server_db" where
  "ConfigureSigner C key rd db =
     (if length key \<noteq> PrivateKeySize then (Inl (Err ''invalid task signing key''), db)
      else let digest = Digest C (ed_Public C key) in
        run_tx (\<lambda>db. andThen (dispatchSettings C db) (\<lambda>(current, _, _).
          if current \<noteq> '''' \<and> current \<noteq> digest
          then Inl (Err ''task signing key changed; explicit recovery is required'')
          else if current = '''' then
            andThen (server_append C rd ((admin_event ''signing_key_configured'' local_operator local ''succeeded'' '''')
                \<lparr>e_PayloadDigest := digest\<rparr>) 0 (db\<lparr>v_key_digest := digest\<rparr>)) (\<lambda>db1. Inr (Inr (), db1))
          else Inr (Inr (), db))) db)"

definition set_task :: "string \<Rightarrow> (task_row \<Rightarrow> task_row) \<Rightarrow> server_db \<Rightarrow> server_db" where
  "set_task request f db = db\<lparr>v_tasks := map (\<lambda>r. if tr_request r = request then f r else r) (v_tasks db)\<rparr>"

subsection \<open>Leaving the queue\<close>

definition expire_task :: "crypto \<Rightarrow> sreadings \<Rightarrow> nat \<times> task_row \<Rightarrow> server_db \<Rightarrow> server_db result" where
  "expire_task C clk = (\<lambda>(i, row) db. andThen (DecodeTask (tr_payload row)) (\<lambda>t.
     server_append C (clk i) (TaskEvent ''task_expired'' t ''server'' ''expired'' ''expired_before_dispatch'' (Digest C (tr_payload row))) (- 2)
       (set_task (t_RequestID t) (\<lambda>r. r\<lparr>tr_state := ''expired'', tr_code := ''expired_before_dispatch''\<rparr>) db)))"

definition expireTasks :: "crypto \<Rightarrow> string \<Rightarrow> int \<Rightarrow> sreadings \<Rightarrow> server_db \<Rightarrow> server_db result" where
  "expireTasks C i now clk db = fold_res (expire_task C clk)
     (enumerate 10 (filter (\<lambda>r. tr_agent r = i \<and> tr_state r = ''queued'' \<and> tr_expires r \<le> now) (v_tasks db))) db"

definition cancel_task :: "crypto \<Rightarrow> sreadings \<Rightarrow> nat \<times> task_row \<Rightarrow> server_db \<Rightarrow> server_db result" where
  "cancel_task C clk = (\<lambda>(i, row) db. andThen (DecodeTask (tr_payload row)) (\<lambda>t.
     let (delta, status) = (if tr_state row = ''queued'' then (- 2, ''rejected'') else (- 1, ''indeterminate'')) in
     server_append C (clk i) (TaskEvent ''task_cancelled'' t local status ''node_disabled'' (Digest C (tr_payload row))) delta
       (set_task (t_RequestID t) (\<lambda>r. r\<lparr>tr_state := status, tr_code := ''node_disabled''\<rparr>) db)))"

definition pending_of :: "string \<Rightarrow> task_row \<Rightarrow> bool" where
  "pending_of i r \<longleftrightarrow> tr_agent r = i \<and> (tr_state r = ''queued'' \<or> tr_state r = ''dispatched'')"

definition cancelNodeTasks :: "crypto \<Rightarrow> string \<Rightarrow> sreadings \<Rightarrow> server_db \<Rightarrow> server_db result" where
  "cancelNodeTasks C i clk db = fold_res (cancel_task C clk) (enumerate 10 (filter (pending_of i) (v_tasks db))) db"

definition disableTx :: "crypto \<Rightarrow> string \<Rightarrow> string \<Rightarrow> string \<Rightarrow> sreadings \<Rightarrow> server_db \<Rightarrow> server_db result" where
  "disableTx C i actor source clk db =
     (if \<not> Hex i 32 then Inl (Err ''invalid node ID'')
      else case find (\<lambda>r. nr_agent r = i) (v_nodes db) of
        None \<Rightarrow> Inl (Err ''node not found'')
      | Some r \<Rightarrow>
          if \<not> nr_enabled r then server_append C (clk 0) (node_event ''node_disable_unchanged'' i '''' actor source) 0 db
          else andThen (cancelNodeTasks C i clk
                (db\<lparr>v_nodes := map (\<lambda>r. if nr_agent r = i then r\<lparr>nr_enabled := False\<rparr> else r) (v_nodes db)\<rparr>)) (\<lambda>db1.
              server_append C (clk 0) (node_event ''node_disabled'' i '''' actor source) (- 1) db1))"

definition Disable :: "crypto \<Rightarrow> string \<Rightarrow> sreadings \<Rightarrow> server_db \<Rightarrow> unit result \<times> server_db" where
  "Disable C i clk = run_tx (\<lambda>db. andThen (disableTx C i local_operator local clk db) (\<lambda>db1. Inr (Inr (), db1)))"

subsection \<open>Entering the queue\<close>

definition next_sequence :: "task_row list \<Rightarrow> int" where
  "next_sequence rows = fold max (map tr_sequence rows) 0 + 1"

definition insert_task :: "task_row \<Rightarrow> server_db \<Rightarrow> server_db result" where
  "insert_task r db =
     (if list_ex (\<lambda>x. tr_request x = tr_request r) (v_tasks db) then Inl (Err ''UNIQUE constraint failed: tasks.request_id'')
      else if \<not> list_ex (\<lambda>n. nr_agent n = tr_agent r) (v_nodes db) then Inl (Err ''FOREIGN KEY constraint failed'')
      else Inr (db\<lparr>v_tasks := v_tasks db @ [r]\<rparr>))"

text \<open>The task that \<open>enqueueTx\<close> builds; \<open>ttl\<close> is in nanoseconds.\<close>

definition new_task :: "string \<Rightarrow> string \<Rightarrow> string \<Rightarrow> int \<Rightarrow> int \<Rightarrow> TaskType \<Rightarrow> bytes option \<Rightarrow> string \<Rightarrow> string \<Rightarrow> Task" where
  "new_task request i epoch now ttl kind params actor digest =
     \<lparr>t_Version = 1, t_RequestID = request, t_AgentID = i, t_EnrollmentEpoch = epoch, t_CreatedAt = now,
      t_ExpiresAt = wrap64 (now + ttl div seconds 1), t_Type = kind, t_TaskVersion = 1,
      t_Params = (case params of None \<Rightarrow> ''{}'' | Some ps \<Rightarrow> ps), t_ActorID = actor, t_PolicyDigest = digest\<rparr>"

text \<open>The second half of \<open>enqueueTx\<close>: build, check and store the task.\<close>

definition enqueue_store :: "crypto \<Rightarrow> Task \<Rightarrow> string \<Rightarrow> TrustSet option \<Rightarrow> string \<Rightarrow> sreadings \<Rightarrow> server_db \<Rightarrow> (Task \<times> server_db) result" where
  "enqueue_store C t keyDigest trust source clk db =
     (if \<not> Task_Validate t then Inl (Err ''invalid task'')
      else andThen (case trust of None \<Rightarrow> Inr () | Some s \<Rightarrow> CheckTask s t keyDigest (clk 3)) (\<lambda>_.
        andThen (MarshalTask t) (\<lambda>data.
        andThen (insert_task \<lparr>tr_sequence = next_sequence (v_tasks db), tr_request = t_RequestID t, tr_agent = t_AgentID t,
            tr_epoch = t_EnrollmentEpoch t, tr_payload = data, tr_envelope = None, tr_state = ''queued'',
            tr_expires = t_ExpiresAt t, tr_result = None, tr_result_digest = '''', tr_code = ''''\<rparr> db) (\<lambda>db1.
        andThen (server_append C (clk 4) (TaskEvent ''task_queued'' t source ''queued'' '''' (Digest C data)) 2 db1) (\<lambda>db2.
          Inr (t, db2))))))"

definition enqueueTx :: "crypto \<Rightarrow> string \<Rightarrow> TaskType \<Rightarrow> string \<Rightarrow> string \<Rightarrow> int \<Rightarrow> bytes list \<Rightarrow> bytes \<Rightarrow> sreadings \<Rightarrow> server_db
    \<Rightarrow> (Task \<times> server_db) result" where
  "enqueueTx C i kind actor source ttl params rnd clk db =
     (if length params > 1 then Inl (Err ''expected one typed parameter object'')
      else if \<not> Hex i 32 \<or> ttl < seconds 1 \<or> ttl > seconds MaxLifetime then Inl (Err ''invalid task target or lifetime'')
      else case find (\<lambda>r. nr_agent r = i \<and> nr_enabled r) (v_nodes db) of
        None \<Rightarrow> Inl (Err ''node is not enabled'')
      | Some r \<Rightarrow>
          if \<not> Hex (nr_policy r) 64 \<or> nr_task_state r \<noteq> ''ready'' \<or> nr_received r < wrap64 (clk 0 - seconds 300)
          then Inl (Err ''a recent ready task heartbeat is required'')
          else (case dispatchSettings C db of
            Inl _ \<Rightarrow> Inl (Err ''task signing is not configured'')
          | Inr (keyDigest, trust, paused) \<Rightarrow>
              if keyDigest = '''' then Inl (Err ''task signing is not configured'')
              else if paused then Inl (Err ''task dispatch is paused for local maintenance'')
              else andThen (expireTasks C i (unix_sec (clk 1)) clk db) (\<lambda>db1.
                if length (v_tasks db1) \<ge> MaxStoredTasks \<or> length (filter (pending_of i) (v_tasks db1)) \<ge> 10
                then Inl (Err ''task storage or node queue is full'')
                else enqueue_store C (new_task (RandomID rnd) i (nr_epoch r) (unix_sec (clk 2)) ttl kind
                       (case params of [] \<Rightarrow> None | ps # _ \<Rightarrow> Some ps) actor (nr_policy r)) keyDigest trust source clk db1)))"

definition Enqueue :: "crypto \<Rightarrow> string \<Rightarrow> TaskType \<Rightarrow> string \<Rightarrow> int \<Rightarrow> bytes list \<Rightarrow> bytes \<Rightarrow> sreadings \<Rightarrow> server_db
    \<Rightarrow> Task result \<times> server_db" where
  "Enqueue C i kind actor ttl params rnd clk = run_tx (\<lambda>db.
     andThen (enqueueTx C i kind actor local ttl params rnd clk db) (\<lambda>(t, db1). Inr (Inr t, db1)))"

subsection \<open>Delivery\<close>

definition next_task :: "Node \<Rightarrow> int \<Rightarrow> task_row list \<Rightarrow> task_row option" where
  "next_task n now rows = find (\<lambda>r. pending_of (n_AgentID n) r \<and> tr_epoch r = n_EnrollmentEpoch n \<and> tr_expires r > now)
     (sort_key tr_sequence rows)"

text \<open>\<open>Poll\<close> on the row it found: sign and record a queued task, check the stored envelope of a dispatched one.\<close>

definition poll_row :: "crypto \<Rightarrow> Node \<Rightarrow> bytes \<Rightarrow> TrustSet option \<Rightarrow> string \<Rightarrow> sreadings \<Rightarrow> task_row \<Rightarrow> server_db
    \<Rightarrow> (bytes \<times> server_db) result" where
  "poll_row C n key trust source clk r db = (case DecodeTask (tr_payload r) of
     Inl _ \<Rightarrow> Inl (Err ''stored task is invalid'')
   | Inr t \<Rightarrow>
       if t_AgentID t \<noteq> n_AgentID n \<or> t_EnrollmentEpoch t \<noteq> n_EnrollmentEpoch n then Inl (Err ''stored task is invalid'')
       else if tr_state r = ''queued'' then
         andThen (case trust of None \<Rightarrow> Sign C (tr_payload r) key | Some s \<Rightarrow> SignTrusted C (tr_payload r) key s (clk 3)) (\<lambda>envelope.
           andThen (server_append C (clk 4) (TaskEvent ''task_dispatched'' t source ''dispatched'' '''' (Digest C (tr_payload r))) (- 1)
             (set_task (t_RequestID t) (\<lambda>r. r\<lparr>tr_state := ''dispatched'', tr_envelope := Some envelope\<rparr>) db)) (\<lambda>db1.
           Inr (envelope, db1)))
       else let envelope = (case tr_envelope r of None \<Rightarrow> [] | Some e \<Rightarrow> e) in
         (case (case trust of
              None \<Rightarrow> andThen (VerifyPayload C envelope (ed_Public C key)) (\<lambda>(_, pl). Inr pl)
            | Some s \<Rightarrow> andThen (VerifyTrusted C envelope s (clk 3)) (\<lambda>(_, pl, _). Inr pl)) of
            Inl _ \<Rightarrow> Inl (Err ''stored task signature is invalid'')
          | Inr pl \<Rightarrow> if Digest C pl \<noteq> Digest C (tr_payload r) then Inl (Err ''stored task signature is invalid'')
              else Inr (envelope, db)))"

definition Poll :: "crypto \<Rightarrow> certificate option \<Rightarrow> string \<Rightarrow> bytes \<Rightarrow> string \<Rightarrow> sreadings \<Rightarrow> server_db
    \<Rightarrow> bytes option result \<times> server_db" where
  "Poll C oc policyDigest key source clk db =
     (if length key \<noteq> PrivateKeySize \<or> \<not> Hex policyDigest 64 then (Inl (Err ''invalid dispatch configuration''), db)
      else run_tx (\<lambda>db. andThen (authorizeCertificate C oc (clk 0) db) (\<lambda>n.
        case dispatchSettings C db of
          Inl _ \<Rightarrow> Inl (Err ''task signing configuration mismatch'')
        | Inr (current, trust, paused) \<Rightarrow>
            if current \<noteq> Digest C (ed_Public C key) then Inl (Err ''task signing configuration mismatch'')
            else if paused then Inr (Inr None, db)
            else andThen (expireTasks C (n_AgentID n) (unix_sec (clk 1)) clk db) (\<lambda>db1.
              case next_task n (unix_sec (clk 2)) (v_tasks db1) of
                None \<Rightarrow> Inr (Inr None, db1)
              | Some r \<Rightarrow> andThen (poll_row C n key trust source clk r db1) (\<lambda>(envelope, db2). Inr (Inr (Some envelope), db2))))) db)"

subsection \<open>Results\<close>

definition SubmitResult :: "crypto \<Rightarrow> certificate option \<Rightarrow> bytes \<Rightarrow> string \<Rightarrow> sreadings \<Rightarrow> server_db \<Rightarrow> ResultAck result \<times> server_db" where
  "SubmitResult C oc data source clk db =
     (if length data > MaxDispatchResultBytes then (Inl (Err ''result too large''), db)
      else case DecodeResult data of
        Inl e \<Rightarrow> (Inl e, db)
      | Inr r \<Rightarrow> run_tx (\<lambda>db. andThen (authorizeCertificate C oc (clk 0) db) (\<lambda>n.
          if r_AgentID r \<noteq> n_AgentID n \<or> r_Epoch r \<noteq> n_EnrollmentEpoch n then Inl (Err ''result identity mismatch'')
          else case find (\<lambda>x. tr_request x = r_RequestID r \<and> tr_agent x = n_AgentID n \<and> tr_epoch x = n_EnrollmentEpoch n)
              (v_tasks db) of
            None \<Rightarrow> Inl (Err ''result has no matching assignment'')
          | Some row \<Rightarrow> (case DecodeTask (tr_payload row) of
              Inl _ \<Rightarrow> Inl (Err ''result type mismatch'')
            | Inr t \<Rightarrow>
                if \<not> CheckAssignment r t then Inl (Err ''result type mismatch'')
                else if r_Status r \<noteq> Rejected \<and> r_Status r \<noteq> Expired \<and> r_PolicyDigest r \<noteq> t_PolicyDigest t
                then Inl (Err ''result policy mismatch'')
                else let want = Digest C data;
                         ack = \<lparr>ra_Version = 1, ra_AgentID = n_AgentID n, ra_Epoch = n_EnrollmentEpoch n,
                                ra_RequestID = r_RequestID r, ra_ResultDigest = want\<rparr>
                  in if tr_result_digest row \<noteq> '''' then
                       (if tr_result_digest row \<noteq> want then Inl (Err ''terminal result cannot be overwritten'')
                        else Inr (Inr ack, db))
                     else if tr_state row \<noteq> ''dispatched'' then Inl (Err ''task was not dispatched'')
                     else andThen (server_append C (clk 1)
                         ((TaskEvent ''result_received'' t source (r_Status r) (r_ErrorCode r) (Digest C (tr_payload row)))
                           \<lparr>e_PolicyDigest := r_PolicyDigest r, e_ResultDigest := want\<rparr>) (- 1)
                         (set_task (r_RequestID r) (\<lambda>x. x\<lparr>tr_state := r_Status r, tr_result := Some data,
                            tr_result_digest := want, tr_code := r_ErrorCode r\<rparr>) db)) (\<lambda>db1. Inr (Inr ack, db1))))) db)"

subsection \<open>Reading\<close>

definition pageScope :: "string \<Rightarrow> string \<Rightarrow> int \<Rightarrow> string" where
  "pageScope after i limit = (if i \<noteq> '''' then ''id_'' @ i
     else ''after_'' @ (if after = '''' then ''start'' else after) @ ''_limit_'' @ show_int limit)"

text \<open>SQLite compares text bytewise, as the lexicographic order on strings does.\<close>
definition snapshotsTx :: "crypto \<Rightarrow> string \<Rightarrow> string \<Rightarrow> int \<Rightarrow> string \<Rightarrow> string \<Rightarrow> instant \<Rightarrow> server_db
    \<Rightarrow> (node_row list \<times> server_db) result" where
  "snapshotsTx C after i limit actor source rd db =
     andThen (server_append C rd (admin_event ''nodes_read'' actor source ''succeeded'' (pageScope after i limit)) 0 db) (\<lambda>db1.
       Inr (take (nat limit) (sort_key nr_agent
         (filter (\<lambda>r. after < nr_agent r \<and> (i = '''' \<or> nr_agent r = i)) (v_nodes db))), db1))"

definition Snapshots :: "crypto \<Rightarrow> instant \<Rightarrow> server_db \<Rightarrow> node_row list result \<times> server_db" where
  "Snapshots C rd = run_tx (\<lambda>db. andThen (snapshotsTx C '''' '''' (int MaxNodes) local_operator local rd db)
     (\<lambda>(rows, db1). Inr (Inr rows, db1)))"

record TaskRecord =
  td_Sequence :: int
  td_Task :: Task
  td_State :: string
  td_Code :: string
  td_Result :: "bytes option"

definition task_record :: "crypto \<Rightarrow> task_row \<Rightarrow> TaskRecord result" where
  "task_record C r = andThen (DecodeTask (tr_payload r)) (\<lambda>t.
     let corrupt = (case tr_result r of None \<Rightarrow> False | Some data \<Rightarrow> data \<noteq> [] \<and>
           (case DecodeResult data of Inl _ \<Rightarrow> True | Inr v \<Rightarrow> Digest C data \<noteq> tr_result_digest r \<or> \<not> CheckAssignment v t))
     in if corrupt then Inl (Err ''stored task result is corrupt'')
        else Inr \<lparr>td_Sequence = tr_sequence r, td_Task = t, td_State = tr_state r, td_Code = tr_code r, td_Result = tr_result r\<rparr>)"

definition tasksTx :: "crypto \<Rightarrow> int \<Rightarrow> int \<Rightarrow> string \<Rightarrow> string \<Rightarrow> string \<Rightarrow> instant \<Rightarrow> server_db
    \<Rightarrow> (TaskRecord list \<times> server_db) result" where
  "tasksTx C after limit i actor source rd db =
     andThen (map_res (task_record C) (take (nat limit) (sort_key tr_sequence
       (filter (\<lambda>r. tr_sequence r > after \<and> (i = '''' \<or> tr_request r = i)) (v_tasks db))))) (\<lambda>rows.
     andThen (server_append C rd (admin_event ''tasks_read'' actor source ''succeeded'' (pageScope (show_int after) i limit)) 0 db)
       (\<lambda>db1. Inr (rows, db1)))"

definition Tasks :: "crypto \<Rightarrow> int \<Rightarrow> int \<Rightarrow> instant \<Rightarrow> server_db \<Rightarrow> TaskRecord list result \<times> server_db" where
  "Tasks C after limit rd db =
     (if after < 0 \<or> limit < 1 \<or> limit > 200 then (Inl (Err ''invalid task page''), db)
      else run_tx (\<lambda>db. andThen (tasksTx C after limit '''' local_operator local rd db) (\<lambda>(rows, db1). Inr (Inr rows, db1))) db)"

definition Store_Audit :: "crypto \<Rightarrow> instant \<Rightarrow> int \<Rightarrow> int \<Rightarrow> server_db \<Rightarrow> Page result \<times> server_db" where
  "Store_Audit C rd after limit db = (case audit_Read C rd after limit (v_audit db) of (r, L) \<Rightarrow> (r, db\<lparr>v_audit := L\<rparr>))"

subsection \<open>Signer maintenance\<close>

definition key_valid_at :: "TrustKey \<Rightarrow> int \<Rightarrow> bool" where
  "key_valid_at k now \<longleftrightarrow> \<not> (now < k_NotBefore k \<or> now \<ge> k_NotAfter k)"

definition PauseDispatch :: "crypto \<Rightarrow> bool \<Rightarrow> sreadings \<Rightarrow> server_db \<Rightarrow> unit result \<times> server_db" where
  "PauseDispatch C paused clk = run_tx (\<lambda>db. andThen (dispatchSettings C db) (\<lambda>(i, trust, old).
     if old = paused then Inr (Inr (), db)
     else andThen (case trust of None \<Rightarrow> Inr () | Some s \<Rightarrow> if paused then Inr ()
         else andThen (TrustSet_Key s i) (\<lambda>k. if key_valid_at k (unix_sec (clk 0)) then Inr ()
           else Inl (Err ''selected signer is outside its validity window''))) (\<lambda>_.
       andThen (server_append C (clk 1) (admin_event ''dispatch_state_changed'' local_operator local
           (if paused then ''paused'' else ''ready'') '''') 0 (db\<lparr>v_paused := paused\<rparr>)) (\<lambda>db1. Inr (Inr (), db1)))))"

text \<open>Every live envelope still verifies under the proposed trust.\<close>

definition live_envelopes_ok :: "crypto \<Rightarrow> TrustSet \<Rightarrow> instant \<Rightarrow> instant \<Rightarrow> server_db \<Rightarrow> bool" where
  "live_envelopes_ok C nx now vnow db =
     (let rows = take (MaxStoredTasks + 1) (filter (\<lambda>r. tr_state r = ''dispatched'' \<and> tr_expires r > unix_sec now) (v_tasks db)) in
      length rows \<le> MaxStoredTasks \<and> list_all (\<lambda>r.
        (case VerifyTrusted C (case tr_envelope r of None \<Rightarrow> [] | Some e \<Rightarrow> e) nx vnow of
           Inl _ \<Rightarrow> False | Inr (_, pl, _) \<Rightarrow> tr_payload r = pl)) rows)"

definition InstallSignerTrust :: "crypto \<Rightarrow> string \<Rightarrow> TrustSet \<Rightarrow> sreadings \<Rightarrow> server_db \<Rightarrow> unit result \<times> server_db" where
  "InstallSignerTrust C expected nx clk db = (case TrustSet_Canonical C nx of
     Inl e \<Rightarrow> (Inl e, db)
   | Inr data \<Rightarrow> run_tx (\<lambda>db. andThen (dispatchSettings C db) (\<lambda>(i, previous, paused).
       if \<not> paused then Inl (Err ''pause dispatch before installing signer trust'')
       else if \<not> audit_Verify C (v_audit db) then Inl (Err ''audit chain verification failed'')
       else if v_quick_check db \<noteq> ''ok'' then Inl (Err ''server database integrity check failed'')
       else andThen (case previous of None \<Rightarrow> Inr None
           | Some s \<Rightarrow> andThen (TrustSet_Canonical C s) (\<lambda>old. Inr (Some old))) (\<lambda>old.
         if old = Some data then Inr (Inr (), db)
         else let oldDigest = (case old of None \<Rightarrow> i | Some o1 \<Rightarrow> Digest C o1) in
           if expected \<noteq> oldDigest then Inl (Err ''current server signer trust changed'')
           else andThen (CheckTransition C previous i nx) (\<lambda>_.
             if \<not> is_ok (TrustSet_Key nx i) then Inl (Err ''switch the selected signer before retiring it'')
             else if \<not> live_envelopes_ok C nx (clk 0) (clk 1) db
             then Inl (Err ''drain live envelopes or wait for their expiry before changing trust'')
             else andThen (server_append C (clk 2) ((admin_event ''signer_trust_changed'' local_operator local ''succeeded'' '''')
                 \<lparr>e_PayloadDigest := oldDigest, e_ResultDigest := Digest C data\<rparr>) 0 (db\<lparr>v_trust := Some data\<rparr>)) (\<lambda>db1.
               Inr (Inr (), db1)))))) db)"

definition SwitchSigner :: "crypto \<Rightarrow> string \<Rightarrow> sreadings \<Rightarrow> server_db \<Rightarrow> unit result \<times> server_db" where
  "SwitchSigner C i clk = run_tx (\<lambda>db. andThen (dispatchSettings C db) (\<lambda>(old, trust, paused).
     case trust of
       None \<Rightarrow> Inl (Err ''paused dispatch and installed signer trust are required'')
     | Some s \<Rightarrow>
         if \<not> paused then Inl (Err ''paused dispatch and installed signer trust are required'')
         else andThen (TrustSet_Key s i) (\<lambda>k.
           if \<not> key_valid_at k (unix_sec (clk 0)) then Inl (Err ''new signer is outside its validity window'')
           else if old = i then Inr (Inr (), db)
           else if list_ex (\<lambda>r. tr_state r = ''queued'') (v_tasks db)
           then Inl (Err ''drain or explicitly cancel queued tasks before switching signer'')
           else andThen (server_append C (clk 1) ((admin_event ''signer_selected'' local_operator local ''succeeded'' '''')
               \<lparr>e_PayloadDigest := old, e_ResultDigest := i\<rparr>) 0 (db\<lparr>v_key_digest := i\<rparr>)) (\<lambda>db1. Inr (Inr (), db1)))))"

definition cancel_queued :: "crypto \<Rightarrow> sreadings \<Rightarrow> nat \<times> task_row \<Rightarrow> server_db \<Rightarrow> server_db result" where
  "cancel_queued C clk = (\<lambda>(i, row) db. andThen (DecodeTask (tr_payload row)) (\<lambda>t.
     server_append C (clk i) (TaskEvent ''task_cancelled'' t local ''rejected'' ''signer_changed_before_dispatch'' (Digest C (tr_payload row))) (- 2)
       (set_task (t_RequestID t) (\<lambda>r. if tr_state r = ''queued''
          then r\<lparr>tr_state := ''rejected'', tr_code := ''signer_changed_before_dispatch''\<rparr> else r) db)))"

definition CancelQueuedForSignerChange :: "crypto \<Rightarrow> sreadings \<Rightarrow> server_db \<Rightarrow> unit result \<times> server_db" where
  "CancelQueuedForSignerChange C clk = run_tx (\<lambda>db. andThen (dispatchSettings C db) (\<lambda>(_, _, paused).
     if \<not> paused then Inl (Err ''pause dispatch before cancelling queued work'')
     else let rows = take (MaxStoredTasks + 1) (sort_key tr_sequence (filter (\<lambda>r. tr_state r = ''queued'') (v_tasks db))) in
       if length rows > MaxStoredTasks then Inl (Err ''invalid task capacity'')
       else andThen (fold_res (cancel_queued C clk) (enumerate 10 rows) db) (\<lambda>db1. Inr (Inr (), db1))))"

definition Signers :: "crypto \<Rightarrow> instant \<Rightarrow> server_db \<Rightarrow> (string \<times> bool \<times> TrustSet option) result \<times> server_db" where
  "Signers C rd = run_tx (\<lambda>db. andThen (dispatchSettings C db) (\<lambda>(i, trust, paused).
     andThen (server_append C rd (admin_event ''signers_read'' local_operator local ''succeeded'' '''') 0 db) (\<lambda>db1.
       Inr (Inr (i, paused, trust), db1))))"

end
