(* ===== verification/Server_Admin.thy ===== *)
theory Server_Admin
  imports Server_Tasks
begin

section \<open>Administrators, sessions and the management entry\<close>

text \<open>
  \<open>internal/state\<close>, third part (\<open>admin.go\<close>, \<open>management.go\<close>). \<open>Login\<close> is two transactions with the password check
  between them: \<open>login_admit\<close> and \<open>login_issue\<close>; other calls may come in between, and \<open>Login\<close> is the case where none does.
  \<open>acquired\<close> says whether \<open>adminauth.Acquire\<close> got a slot.
\<close>

definition SessionIdle :: int where "SessionIdle = 1800"
definition SessionLifetime :: int where "SessionLifetime = 28800"
definition MaxUsers :: nat where "MaxUsers = 32"
definition MaxSessions :: nat where "MaxSessions = 128"

record User =
  ur_ID :: string
  ur_Username :: string
  ur_Role :: string
  ur_Enabled :: bool

record Login_reply =
  lo_Token :: string
  lo_User :: User
  lo_ExpiresAt :: int
  lo_IdleSeconds :: int

record admin_session =
  sn_User :: User
  sn_ID :: string
  sn_Hash :: string
  sn_ExpiresAt :: int

definition user_of :: "user_row \<Rightarrow> User" where
  "user_of u = \<lparr>ur_ID = us_id u, ur_Username = us_name u, ur_Role = us_role u, ur_Enabled = us_enabled u\<rparr>"

definition sessionHash :: "crypto \<Rightarrow> string \<Rightarrow> string result" where
  "sessionHash C token = (if \<not> Hex token 64 then Inl ErrAdminUnauthorized
     else Inr (Digest C (''argus-c2/admin-session/v1'' @ [CHR 0x00] @ token)))"

definition adminClock :: "int \<Rightarrow> server_db \<Rightarrow> server_db result" where
  "adminClock now db =
     (if now < 1 \<or> now < v_admin_clock db - 30 then Inl ErrAdminUnavailable
      else Inr (db\<lparr>v_admin_clock := max (v_admin_clock db) now\<rparr>))"

subsection \<open>Login budget\<close>

definition upsert_limit :: "string \<Rightarrow> int \<Rightarrow> int \<Rightarrow> limit_row list \<Rightarrow> limit_row list" where
  "upsert_limit bucket started n rows =
     (if list_ex (\<lambda>l. li_bucket l = bucket) rows
      then map (\<lambda>l. if li_bucket l = bucket then l\<lparr>li_count := n\<rparr> else l) rows
      else rows @ [\<lparr>li_bucket = bucket, li_started = started, li_count = n\<rparr>])"

definition admit_bucket :: "int \<Rightarrow> string \<times> int \<Rightarrow> bool \<times> bool \<times> limit_row list \<Rightarrow> (bool \<times> bool \<times> limit_row list) result" where
  "admit_bucket now = (\<lambda>(bucket, limit) (allowed, firstBlock, rows).
     andThen (case find (\<lambda>l. li_bucket l = bucket) rows of
         None \<Rightarrow> if length rows \<ge> 1024 then Inl ErrAdminLimited else Inr (now, 0)
       | Some l \<Rightarrow> Inr (li_started l, li_count l)) (\<lambda>(started, n).
     Inr (allowed \<and> \<not> n \<ge> limit, firstBlock \<or> n = limit, upsert_limit bucket started (min (n + 1) (limit + 1)) rows)))"

definition login_buckets :: "crypto \<Rightarrow> string \<Rightarrow> string \<Rightarrow> (string \<times> int) list" where
  "login_buckets C name source = [(''global'', 30), (''ip:'' @ Digest C source, 10), (''name:'' @ name, 5)]"

definition admitLogin :: "crypto \<Rightarrow> string \<Rightarrow> string \<Rightarrow> int \<Rightarrow> server_db \<Rightarrow> (bool \<times> bool \<times> server_db) result" where
  "admitLogin C name source now db =
     andThen (fold_res (admit_bucket now) (login_buckets C name source)
       (True, False, filter (\<lambda>l. \<not> li_started l \<le> now - 60) (v_limits db))) (\<lambda>(allowed, firstBlock, rows).
     Inr (allowed, firstBlock, db\<lparr>v_limits := rows\<rparr>))"

subsection \<open>Sessions\<close>

definition revokeSessionTx :: "crypto \<Rightarrow> string \<Rightarrow> string \<Rightarrow> string \<Rightarrow> string \<Rightarrow> instant \<Rightarrow> server_db \<Rightarrow> server_db result" where
  "revokeSessionTx C i actor source kind rd db =
     server_append C rd (admin_event kind actor source ''succeeded'' i) (- 1)
       (db\<lparr>v_sessions := filter (\<lambda>s. se_id s \<noteq> i) (v_sessions db)\<rparr>)"

definition session_over :: "int \<Rightarrow> session_row \<Rightarrow> bool" where
  "session_over now s \<longleftrightarrow> se_expires s \<le> now \<or> se_last_used s \<le> now - SessionIdle"

definition expireSessionsTx :: "crypto \<Rightarrow> int \<Rightarrow> sreadings \<Rightarrow> server_db \<Rightarrow> server_db result" where
  "expireSessionsTx C now clk db = fold_res (\<lambda>(k, s). revokeSessionTx C (se_id s) (se_user s) ''server'' ''session_expired'' (clk k))
     (enumerate 0 (filter (session_over now) (v_sessions db))) db"

definition revokeUserSessionsTx :: "crypto \<Rightarrow> string \<Rightarrow> string \<Rightarrow> string \<Rightarrow> sreadings \<Rightarrow> server_db \<Rightarrow> server_db result" where
  "revokeUserSessionsTx C user actor source clk db =
     fold_res (\<lambda>(k, s). revokeSessionTx C (se_id s) actor source ''session_revoked'' (clk k))
       (enumerate 0 (filter (\<lambda>s. se_user s = user) (v_sessions db))) db"

subsection \<open>Login\<close>

record login_pending =
  lp_user :: User
  lp_known :: bool
  lp_encoded :: string
  lp_generation :: int

definition login_admit :: "crypto \<Rightarrow> string \<Rightarrow> string \<Rightarrow> string \<Rightarrow> bool \<Rightarrow> sreadings \<Rightarrow> server_db \<Rightarrow> login_pending result \<times> server_db" where
  "login_admit C name password source acquired clk db =
     (if \<not> Username name \<or> \<not> PasswordInput password then (Inl ErrAdminUnauthorized, db)
      else if \<not> acquired then (Inl ErrAdminLimited, db)
      else run_tx (\<lambda>db. let now = unix_sec (clk 0) in
        andThen (adminClock now db) (\<lambda>db1. andThen (admitLogin C name source now db1) (\<lambda>(allowed, first, db2).
          if \<not> allowed then
            (if first then andThen (server_append C (clk 1) (admin_event ''login_limited'' '''' source ''rejected'' ''rate_limited'') 0 db2)
               (\<lambda>db3. Inr (Inl ErrAdminLimited, db3))
             else Inr (Inl ErrAdminLimited, db2))
          else andThen (server_append C (clk 1) (admin_event ''login_attempt'' '''' source ''accepted'' '''') 0 db2) (\<lambda>db3.
            Inr (Inr (case find (\<lambda>u. us_name u = name) (v_users db2) of
                None \<Rightarrow> \<lparr>lp_user = \<lparr>ur_ID = '''', ur_Username = '''', ur_Role = '''', ur_Enabled = False\<rparr>, lp_known = False,
                         lp_encoded = Dummy, lp_generation = 0\<rparr>
              | Some u \<Rightarrow> \<lparr>lp_user = user_of u, lp_known = True, lp_encoded = us_hash u, lp_generation = us_generation u\<rparr>), db3))))) db)"

definition still_live :: "login_pending \<Rightarrow> server_db \<Rightarrow> bool" where
  "still_live l db \<longleftrightarrow> length (filter (\<lambda>u. us_id u = ur_ID (lp_user l) \<and> us_enabled u \<and> us_generation u = lp_generation l
     \<and> us_hash u = lp_encoded l \<and> us_role u = ur_Role (lp_user l)) (v_users db)) = 1"

definition insert_session :: "session_row \<Rightarrow> server_db \<Rightarrow> server_db result" where
  "insert_session s db =
     (if list_ex (\<lambda>x. se_hash x = se_hash s \<or> se_id x = se_id s) (v_sessions db)
      then Inl (Err ''UNIQUE constraint failed: admin_sessions'')
      else if \<not> list_ex (\<lambda>u. us_id u = se_user s) (v_users db) then Inl (Err ''FOREIGN KEY constraint failed'')
      else Inr (db\<lparr>v_sessions := v_sessions db @ [s]\<rparr>))"

text \<open>The second transaction of \<open>Login\<close>; \<open>match\<close> is the answer of \<open>verifyPassword\<close>.\<close>

definition login_issue :: "crypto \<Rightarrow> login_pending \<Rightarrow> bool result \<Rightarrow> bool \<Rightarrow> string \<Rightarrow> bytes \<Rightarrow> bytes \<Rightarrow> bytes \<Rightarrow> sreadings
    \<Rightarrow> server_db \<Rightarrow> Login_reply result \<times> server_db" where
  "login_issue C l match cancelled source b1 b2 b3 clk db = (case match of
     Inl _ \<Rightarrow> (Inl ErrAdminUnavailable, db)
   | Inr ok \<Rightarrow>
       if cancelled then (Inl (Err ''context canceled''), db)
       else run_tx (\<lambda>db. let now = unix_sec (clk 0) in
         andThen (adminClock now db) (\<lambda>db1.
           if \<not> ok \<or> \<not> lp_known l \<or> \<not> ur_Enabled (lp_user l) \<or> \<not> still_live l db1 then
             andThen (server_append C (clk 1) (admin_event ''login_failed'' '''' source ''rejected'' ''credentials'') 0 db1)
               (\<lambda>db2. Inr (Inl ErrAdminUnauthorized, db2))
           else andThen (expireSessionsTx C now (\<lambda>k. clk (k + 10)) db1) (\<lambda>db2.
             if length (v_sessions db2) \<ge> MaxSessions
                \<or> length (filter (\<lambda>s. se_user s = ur_ID (lp_user l)) (v_sessions db2)) \<ge> 8 then
               andThen (server_append C (clk 2) (admin_event ''login_failed'' (ur_ID (lp_user l)) source ''rejected'' ''session_limit'') 0 db2)
                 (\<lambda>db3. Inr (Inl ErrAdminLimited, db3))
             else let token = RandomID b1 @ RandomID b2; hash = hash_or_empty (sessionHash C token); i = RandomID b3;
                      expires = now + SessionLifetime
               in andThen (insert_session \<lparr>se_hash = hash, se_id = i, se_user = ur_ID (lp_user l), se_created = now,
                      se_last_used = now, se_expires = expires\<rparr> db2) (\<lambda>db3.
                  andThen (server_append C (clk 3) (admin_event ''login_succeeded'' (ur_ID (lp_user l)) source ''succeeded'' i) 1 db3) (\<lambda>db4.
                    Inr (Inr \<lparr>lo_Token = token, lo_User = lp_user l, lo_ExpiresAt = expires, lo_IdleSeconds = SessionIdle\<rparr>, db4)))))) db)"

definition Login :: "crypto \<Rightarrow> kdf \<Rightarrow> string \<Rightarrow> string \<Rightarrow> string \<Rightarrow> bool \<Rightarrow> bool \<Rightarrow> bytes \<Rightarrow> bytes \<Rightarrow> bytes \<Rightarrow> sreadings \<Rightarrow> sreadings
    \<Rightarrow> server_db \<Rightarrow> Login_reply result \<times> server_db" where
  "Login C K name password source acquired cancelled b1 b2 b3 clk clk2 db =
     (case login_admit C name password source acquired clk db of
        (Inl e, db1) \<Rightarrow> (Inl e, db1)
      | (Inr l, db1) \<Rightarrow> login_issue C l (Verify K password (lp_encoded l)) cancelled source b1 b2 b3 clk2 db1)"

text \<open>The session a token stands for.\<close>

definition authorizeAdminTx :: "crypto \<Rightarrow> string \<Rightarrow> int \<Rightarrow> server_db \<Rightarrow> admin_session result" where
  "authorizeAdminTx C token now db = andThen (sessionHash C token) (\<lambda>hash.
     case find (\<lambda>(s, u). se_hash s = hash \<and> us_id u = se_user s \<and> us_enabled u \<and> se_expires s > now
         \<and> se_last_used s > now - SessionIdle \<and> se_created s \<le> now + 30) (List.product (v_sessions db) (v_users db)) of
       None \<Rightarrow> Inl ErrAdminUnauthorized
     | Some (s, u) \<Rightarrow>
         if \<not> Role (us_role u) \<or> \<not> Hex (us_id u) 32 then Inl ErrAdminUnavailable
         else Inr \<lparr>sn_User = user_of u, sn_ID = se_id s, sn_Hash = hash, sn_ExpiresAt = se_expires s\<rparr>)"

subsection \<open>Local account administration\<close>

definition insert_user :: "user_row \<Rightarrow> server_db \<Rightarrow> server_db result" where
  "insert_user u db =
     (if list_ex (\<lambda>x. us_id x = us_id u \<or> us_name x = us_name u) (v_users db) then Inl (Err ''could not create user'')
      else Inr (db\<lparr>v_users := v_users db @ [u]\<rparr>))"

definition CreateUser :: "crypto \<Rightarrow> kdf \<Rightarrow> string \<Rightarrow> string \<Rightarrow> string \<Rightarrow> bool \<Rightarrow> bytes \<Rightarrow> bytes \<Rightarrow> instant \<Rightarrow> server_db
    \<Rightarrow> User result \<times> server_db" where
  "CreateUser C K name role password acquired salt rnd rd db =
     (if \<not> Username name \<or> \<not> Role role then (Inl (Err ''invalid user name or role''), db)
      else if \<not> acquired then (Inl (Err ''password verification capacity reached''), db)
      else case Hash K salt password of
        Inl e \<Rightarrow> (Inl e, db)
      | Inr encoded \<Rightarrow> run_tx (\<lambda>db.
          if length (v_users db) \<ge> MaxUsers \<or> length (v_users db) = 0 \<and> role \<noteq> Admin
          then Inl (Err ''user limit reached or first account is not Admin'')
          else let u = \<lparr>us_id = RandomID rnd, us_name = name, us_role = role, us_enabled = True, us_hash = encoded, us_generation = 1\<rparr>
            in andThen (insert_user u db) (\<lambda>db1.
               andThen (server_append C rd (admin_event (''user_created_'' @ role) local_operator local ''succeeded'' (us_id u)) 0 db1)
                 (\<lambda>db2. Inr (Inr (user_of u), db2)))) db)"

text \<open>The account update of \<open>ChangeUser\<close>, and the kind of its audit entry.\<close>

definition change_account :: "string \<Rightarrow> string \<Rightarrow> user_row \<Rightarrow> user_row" where
  "change_account action value u =
     (let u1 = u\<lparr>us_generation := us_generation u + 1\<rparr> in
      if action = ''password'' then u1\<lparr>us_hash := value\<rparr>
      else if action = ''role'' then u1\<lparr>us_role := value\<rparr>
      else if action = ''disable'' then u1\<lparr>us_enabled := False\<rparr>
      else u1)"

definition change_value :: "kdf \<Rightarrow> string \<Rightarrow> string \<Rightarrow> bool \<Rightarrow> bytes \<Rightarrow> string result" where
  "change_value K action value acquired salt =
     (if action = ''password'' then
        (if \<not> acquired then Inl (Err ''password verification capacity reached'') else Hash K salt value)
      else if action = ''role'' then (if \<not> Role value then Inl (Err ''invalid role'') else Inr value)
      else if action = ''disable'' \<or> action = ''revoke'' then
        (if value \<noteq> '''' then Inl (Err ''unexpected account value'') else Inr value)
      else Inl (Err ''unknown user action''))"

definition ChangeUser :: "crypto \<Rightarrow> kdf \<Rightarrow> string \<Rightarrow> string \<Rightarrow> string \<Rightarrow> bool \<Rightarrow> bytes \<Rightarrow> instant \<Rightarrow> server_db \<Rightarrow> unit result \<times> server_db" where
  "ChangeUser C K name action value0 acquired salt rd db =
     (if \<not> Username name then (Inl (Err ''invalid user name''), db)
      else case change_value K action value0 acquired salt of
        Inl e \<Rightarrow> (Inl e, db)
      | Inr value \<Rightarrow> run_tx (\<lambda>db. case find (\<lambda>u. us_name u = name) (v_users db) of
          None \<Rightarrow> Inl (Err ''user not found'')
        | Some u \<Rightarrow>
            if \<not> us_enabled u \<and> action \<noteq> ''revoke'' then Inl (Err ''user is disabled'')
            else let revoked = int (length (filter (\<lambda>s. se_user s = us_id u) (v_sessions db)));
                     kind = ''user_'' @ action @ (if action = ''role'' then ''_'' @ value else '''');
                     db1 = db\<lparr>v_sessions := filter (\<lambda>s. se_user s \<noteq> us_id u) (v_sessions db),
                              v_users := map (\<lambda>x. if us_id x = us_id u then change_account action value x else x) (v_users db)\<rparr>
              in andThen (server_append C rd (admin_event kind local_operator local ''succeeded'' (us_id u)) (- revoked) db1)
                   (\<lambda>db2. Inr (Inr (), db2))) db)"

definition Users :: "crypto \<Rightarrow> instant \<Rightarrow> server_db \<Rightarrow> User list result \<times> server_db" where
  "Users C rd = run_tx (\<lambda>db.
     andThen (server_append C rd (admin_event ''users_read'' local_operator local ''succeeded'' '''') 0 db) (\<lambda>db1.
       Inr (Inr (map user_of (take MaxUsers (sort_key us_name (v_users db)))), db1)))"

definition bump :: "user_row \<Rightarrow> user_row" where
  "bump u = u\<lparr>us_generation := us_generation u + 1\<rparr>"

definition RevokeAllSessions :: "crypto \<Rightarrow> instant \<Rightarrow> server_db \<Rightarrow> unit result \<times> server_db" where
  "RevokeAllSessions C rd = run_tx (\<lambda>db.
     andThen (server_append C rd (admin_event ''all_sessions_revoked'' local_operator local ''succeeded'' '''')
         (- int (length (v_sessions db))) (db\<lparr>v_sessions := [], v_users := map bump (v_users db)\<rparr>)) (\<lambda>db1. Inr (Inr (), db1)))"

text \<open>The j-th node is disabled with the readings \<open>ck (j + 1)\<close>.\<close>

definition QuarantineRestore :: "crypto \<Rightarrow> (nat \<Rightarrow> sreadings) \<Rightarrow> server_db \<Rightarrow> unit result \<times> server_db" where
  "QuarantineRestore C ck = run_tx (\<lambda>db.
     andThen (fold_res (\<lambda>(j, i). disableTx C i local_operator ''local-restore'' (ck (j + 1)))
         (enumerate 0 (sort (map nr_agent (filter nr_enabled (v_nodes db))))) db) (\<lambda>db1.
     andThen (server_append C (ck 0 0) (admin_event ''restore_quarantined'' local_operator local ''succeeded'' '''')
         (- int (length (v_sessions db1)))
         (db1\<lparr>v_sessions := [], v_users := map bump (v_users db1),
             v_tokens := map (\<lambda>k. k\<lparr>tk_consumed := True\<rparr>) (v_tokens db1)\<rparr>)) (\<lambda>db2. Inr (Inr (), db2))))"

subsection \<open>The management entry\<close>

record ManagementRequest =
  mr_Operation :: string
  mr_AgentID :: string
  mr_RequestID :: string
  mr_AfterNode :: string
  mr_After :: int
  mr_Limit :: int
  mr_Type :: TaskType
  mr_Params :: bytes
  mr_TTLSeconds :: int

text \<open>The operation's own conditions; \<open>b1\<close> and \<open>b2\<close> are the random identities of the probing task.\<close>

definition operation_ok :: "crypto \<Rightarrow> bytes \<Rightarrow> bytes \<Rightarrow> ManagementRequest \<Rightarrow> bool" where
  "operation_ok C b1 b2 r =
     (let op = mr_Operation r in
      if op = ''agents'' then \<not> (mr_Limit r < 1 \<or> mr_After r \<noteq> 0 \<or> mr_RequestID r \<noteq> '''')
      else if op = ''tasks'' then \<not> (mr_Limit r < 1 \<or> mr_AfterNode r \<noteq> '''' \<or> mr_AgentID r \<noteq> '''')
      else if op = ''audit'' then \<not> (mr_Limit r < 1 \<or> mr_AfterNode r \<noteq> '''' \<or> mr_AgentID r \<noteq> '''' \<or> mr_RequestID r \<noteq> '''')
      else if op = ''submit'' then Task_Validate \<lparr>t_Version = 1, t_RequestID = RandomID b1, t_AgentID = mr_AgentID r,
        t_EnrollmentEpoch = RandomID b2, t_CreatedAt = 1, t_ExpiresAt = wrap64 (1 + mr_TTLSeconds r), t_Type = mr_Type r,
        t_TaskVersion = 1, t_Params = mr_Params r, t_ActorID = ''validation'', t_PolicyDigest = Digest C []\<rparr>
      else if op = ''token'' then \<not> (mr_TTLSeconds r < 1 \<or> mr_TTLSeconds r > 900)
      else if op = ''disable'' then mr_AgentID r \<noteq> ''''
      else op = ''whoami'' \<or> op = ''logout'' \<or> op = ''revoke'')"

definition ManagementRequest_validate :: "crypto \<Rightarrow> bytes \<Rightarrow> bytes \<Rightarrow> ManagementRequest \<Rightarrow> bool" where
  "ManagementRequest_validate C b1 b2 r \<longleftrightarrow>
     \<not> (mr_After r < 0 \<or> mr_Limit r < 0 \<or> mr_Limit r > 50 \<or> (mr_AgentID r \<noteq> '''' \<and> \<not> Hex (mr_AgentID r) 32)
        \<or> (mr_RequestID r \<noteq> '''' \<and> \<not> Hex (mr_RequestID r) 32) \<or> (mr_AfterNode r \<noteq> '''' \<and> \<not> Hex (mr_AfterNode r) 32))
     \<and> operation_ok C b1 b2 r
     \<and> \<not> (mr_Operation r \<noteq> ''submit'' \<and> (mr_Type r \<noteq> '''' \<or> length (mr_Params r) \<noteq> 0))
     \<and> \<not> (mr_Operation r \<noteq> ''submit'' \<and> mr_Operation r \<noteq> ''token'' \<and> mr_TTLSeconds r \<noteq> 0)"

datatype manage_result =
    ROk | RUser User | RAgents "node_row list" | RAgent node_row | RTasks "TaskRecord list" | RTask TaskRecord
  | RAudit Page | RSubmitted Task | RToken string int

text \<open>The \<open>switch\<close> of \<open>Manage\<close>, inside its savepoint.\<close>

definition manage_operation :: "crypto \<Rightarrow> admin_session \<Rightarrow> string \<Rightarrow> ManagementRequest \<Rightarrow> bytes \<Rightarrow> bytes \<Rightarrow> sreadings \<Rightarrow> server_db
    \<Rightarrow> (manage_result \<times> server_db) result" where
  "manage_operation C current source r b1 b2 clk db =
     (let actor = ur_ID (sn_User current); op = mr_Operation r in
      if op = ''whoami'' then andThen (server_append C (clk 0) (admin_event ''session_read'' actor source ''succeeded'' '''') 0 db)
        (\<lambda>db1. Inr (RUser (sn_User current), db1))
      else if op = ''logout'' then andThen (revokeSessionTx C (sn_ID current) actor source ''session_logout'' (clk 0) db)
        (\<lambda>db1. Inr (ROk, db1))
      else if op = ''revoke'' then andThen (revokeUserSessionsTx C actor actor source clk db)
        (\<lambda>db1. Inr (ROk, db1\<lparr>v_users := map (\<lambda>u. if us_id u = actor then bump u else u) (v_users db1)\<rparr>))
      else if op = ''agents'' then andThen (snapshotsTx C (mr_AfterNode r) (mr_AgentID r) (mr_Limit r) actor source (clk 0) db)
        (\<lambda>(rows, db1). if mr_AgentID r = '''' then Inr (RAgents rows, db1)
           else (case rows of [] \<Rightarrow> Inl ErrManagementNotFound | x # _ \<Rightarrow> Inr (RAgent x, db1)))
      else if op = ''tasks'' then andThen (tasksTx C (mr_After r) (mr_Limit r) (mr_RequestID r) actor source (clk 0) db)
        (\<lambda>(rows, db1). if mr_RequestID r = '''' then Inr (RTasks rows, db1)
           else (case rows of [] \<Rightarrow> Inl ErrManagementNotFound | x # _ \<Rightarrow> Inr (RTask x, db1)))
      else if op = ''audit'' then andThen (ReadTx C (clk 0) (mr_After r) (mr_Limit r) actor source (v_audit db))
        (\<lambda>(page, L). Inr (RAudit page, db\<lparr>v_audit := L\<rparr>))
      else if op = ''submit'' then andThen (enqueueTx C (mr_AgentID r) (mr_Type r) actor source
          (wrap64 (seconds (mr_TTLSeconds r))) [mr_Params r] b1 clk db) (\<lambda>(t, db1). Inr (RSubmitted t, db1))
      else if op = ''token'' then andThen (issueTokenTx C (wrap64 (seconds (mr_TTLSeconds r))) actor source b1 b2 clk db)
        (\<lambda>(token, db1). case find (\<lambda>k. tk_hash k = hash_or_empty (tokenHash C token)) (v_tokens db1) of
             None \<Rightarrow> Inl (Err ''sql: no rows in result set'') | Some k \<Rightarrow> Inr (RToken token (tk_expires k), db1))
      else if op = ''disable'' then andThen (disableTx C (mr_AgentID r) actor source clk db) (\<lambda>db1. Inr (ROk, db1))
      else Inr (ROk, db))"

definition privileged :: "string \<Rightarrow> bool" where
  "privileged op \<longleftrightarrow> op = ''submit'' \<or> op = ''token'' \<or> op = ''disable''"

text \<open>\<open>Manage\<close>: readings are split between the clock check, the expiry loop and the operation.\<close>

definition Manage :: "crypto \<Rightarrow> string \<Rightarrow> string \<Rightarrow> ManagementRequest \<Rightarrow> bytes \<Rightarrow> bytes \<Rightarrow> bytes \<Rightarrow> bytes \<Rightarrow> sreadings \<Rightarrow> server_db
    \<Rightarrow> manage_result result \<times> server_db" where
  "Manage C token source r b1 b2 b3 b4 clk db =
     (if \<not> ManagementRequest_validate C b1 b2 r then (Inl ErrManagementRequest, db)
      else run_tx (\<lambda>db. let now = unix_sec (clk 0) in
        andThen (adminClock now db) (\<lambda>db1.
        andThen (expireSessionsTx C now (\<lambda>k. clk (3 * k + 1)) db1) (\<lambda>db2.
        case authorizeAdminTx C token now db2 of
          Inl e \<Rightarrow> if e = ErrAdminUnauthorized then Inr (Inl e, db2) else Inl e
        | Inr current \<Rightarrow>
            let actor = ur_ID (sn_User current); op = mr_Operation r in
            if privileged op \<and> ur_Role (sn_User current) \<noteq> Admin then
              andThen (server_append C (clk 2) (admin_event ''admin_denied'' actor source ''rejected'' op) 0 db2)
                (\<lambda>db3. Inr (Inl ErrAdminForbidden, db3))
            else (case manage_operation C current source r b3 b4 (\<lambda>k. clk (3 * k + 3)) db2 of
              Inl e \<Rightarrow>
                if e = ErrAuditCapacity then Inl e
                else andThen (server_append C (clk 2) (admin_event ''admin_rejected'' actor source ''rejected'' op) 0 db2) (\<lambda>db3.
                  Inr (Inl (if e = ErrManagementNotFound then e else ErrManagementConflict), db3))
            | Inr (result, db3) \<Rightarrow> Inr (Inr result, db3\<lparr>v_sessions := map (\<lambda>s. if se_hash s = sn_Hash current
                  then s\<lparr>se_last_used := max (se_last_used s) now\<rparr> else s) (v_sessions db3)\<rparr>))))) db)"

end
