(* ===== verification/Task_Params.thy ===== *)
theory Task_Params
  imports Protocol
begin

section \<open>Storing a task\<close>

text \<open>
  The parameters of a submitted task are raw JSON from the operator; \<open>json.Marshal\<close> compacts them when the
  server stores the task. A valid task stays valid, and its stored form decodes to it with compacted parameters.
\<close>

lemma utf8_encode_plain:
  assumes "plain (utf8_encode n)"
  shows "n < 128"
proof (rule ccontr)
  assume n: "\<not> n < 128"
  then have "last (utf8_encode n) = byte (128 + n mod 64)" "utf8_encode n \<noteq> []" by (simp_all add: utf8_encode_def)
  with assms have "plain_char (byte (128 + n mod 64))" by (metis last_in_set list_all_iff)
  then have "code (byte (128 + n mod 64)) \<le> 122" using plain_char_ascii by blast
  moreover have "n mod 64 < 64" by simp
  ultimately show False by (subst (asm) code_byte) linarith+
qed

text \<open>An escape of a plain character is \<open>\u\<close> with four digits and reads the same in any context.\<close>

lemma unescape_plain:
  assumes "unescape s = Some (b, r)" "plain b"
  obtains h n where "s = CHR ''u'' # h @ r" "length h = 4" "hex4 h = Some n" "n < 128" "b = utf8_encode n"
proof -
  have low: "\<not> plain_char c" if "code c < 45" for c using that by (auto dest: plain_char_ascii)
  have np: "\<not> plain_char (byte 8)" "\<not> plain_char (byte 12)" "\<not> plain_char (byte 10)" "\<not> plain_char (byte 13)"
    "\<not> plain_char (byte 9)"
    by (rule low, simp)+
  have nq: "\<not> plain_char dquote" "\<not> plain_char bslash" "\<not> plain_char (CHR ''/'')"
    by (simp_all add: plain_char_def alnum_def char_in_def code_def)
  from assms obtain e t where s: "s = e # t" by (cases s) (auto simp: unescape_def)
  with assms np nq have e: "e = CHR ''u''" by (auto simp: unescape_def split: if_splits)
  from assms obtain n where h: "hex4 t = Some n" unfolding s e by (auto simp: unescape_def split: option.splits)
  have big: "\<not> plain (utf8_encode m)" if "128 \<le> m" for m using that utf8_encode_plain [of m] by auto
  have r: "b = utf8_encode n \<and> r = drop 4 t"
    using assms h unfolding s e
    by (auto simp: unescape_def Let_def big split: if_splits option.splits)
  with assms utf8_encode_plain have n: "n < 128" by blast
  have len: "4 \<le> length t" using h by (auto simp: hex4_def split: if_splits)
  show thesis
    by (rule that [of "take 4 t" n]) (use s e r h n len in \<open>auto simp: hex4_def\<close>)
qed

lemma hex4_append: "length h = 4 \<Longrightarrow> hex4 (h @ r) = hex4 h"
  by (simp add: hex4_def)

lemma unescape_u:
  assumes "length h = 4" "hex4 h = Some n" "n < 128"
  shows "unescape (CHR ''u'' # h @ r) = Some (utf8_encode n, r)"
  using assms by (simp add: unescape_def hex4_append high_surrogate_def low_surrogate_def Let_def)

lemma hex_digits_ascii:
  assumes "hex_num k h = Some n"
  shows "list_all (\<lambda>c. code c < 128 \<and> c \<noteq> bslash \<and> c \<noteq> dquote \<and> c \<noteq> CHR ''<'' \<and> c \<noteq> CHR ''>'' \<and> c \<noteq> CHR ''&'') h"
  using assms
proof (induction h arbitrary: k)
  case (Cons c h)
  have "code c < 128 \<and> c \<noteq> bslash \<and> c \<noteq> dquote \<and> c \<noteq> CHR ''<'' \<and> c \<noteq> CHR ''>'' \<and> c \<noteq> CHR ''&''" if "hex_val c = Some v" for v
    using that by (auto simp: hex_val_def char_in_def code_def split: if_splits)
  with Cons show ?case by (auto split: option.splits)
qed simp

lemma transparent_u:
  assumes "length h = 4" "hex4 h = Some n" "n < 128"
  shows "transparent (bslash # CHR ''u'' # h)"
  using assms by (simp add: transparent_def hex4_append high_surrogate_def low_surrogate_def)

lemma safe_u:
  assumes "length h = 4" "hex4 h = Some n" "n < 128"
  shows "safe (bslash # CHR ''u'' # h)"
proof -
  have "hex_num 0 h = Some n" using assms by (simp add: hex4_def)
  then have "list_all (\<lambda>c. code c < 128) (bslash # CHR ''u'' # h)"
    using hex_digits_ascii [of 0 h n] by (auto simp: list_all_iff code_def)
  with transparent_u [OF assms] show ?thesis by (simp add: safe_def utf8_Valid_ascii)
qed

lemma compact_plain_char: "plain_char c \<Longrightarrow> compact True (c # s) = c # compact True s"
proof -
  assume c: "plain_char c"
  from plain_char_ascii [OF c] have b: "45 \<le> code c" "code c \<le> 122" by simp_all
  have n: "c \<noteq> dquote" "c \<noteq> bslash" "c \<noteq> CHR ''<''" "c \<noteq> CHR ''>''" "c \<noteq> CHR ''&''"
    using c by (auto simp: plain_char_def alnum_def char_in_def code_def)
  have "\<not> line_separator (c # s)" using b(2) code_byte [of 226] by (auto simp: line_separator_def)
  with n show ?thesis by (subst compact.simps) simp
qed

lemma compact_escape: "compact True (bslash # c # s) = bslash # c # compact True s"
  by (subst compact.simps) simp

lemma compact_hex: "hex_num k h = Some n \<Longrightarrow> compact True (h @ s) = h @ compact True s"
proof (induction h arbitrary: k)
  case (Cons c h)
  then obtain v where v: "hex_val c = Some v" "hex_num (16 * k + v) h = Some n" by (auto split: option.splits)
  have "plain_char c" using v(1) by (auto simp: hex_val_def plain_char_def alnum_def char_in_def code_def split: if_splits)
  with Cons.IH [OF v(2)] show ?case by (simp add: compact_plain_char)
qed simp

text \<open>A string literal whose value is plain: it reads the same in any context and \<open>compact\<close> leaves it alone.\<close>

definition literal :: "string \<Rightarrow> string \<Rightarrow> bool" where
  "literal l x \<longleftrightarrow> safe l \<and> (\<forall>r. scan_string (l @ dquote # r) = Some (x, r)
     \<and> compact True (l @ dquote # r) = l @ dquote # compact False r)"

lemma literal_Nil: "literal [] []"
  by (simp add: literal_def) (subst compact.simps, simp)

lemma literal_char: "literal l x \<Longrightarrow> plain_char c \<Longrightarrow> literal (c # l) (c # x)"
proof -
  assume l: "literal l x" and c: "plain_char c"
  have n: "c \<noteq> dquote" "c \<noteq> bslash" "\<not> code c < 32" "code c < 128"
    using c plain_char_ascii [OF c] by (auto simp: plain_char_def alnum_def char_in_def code_def)
  with l c show ?thesis by (auto simp: literal_def compact_plain_char intro: safe_Cons)
qed

lemma literal_escape:
  assumes l: "literal l x" and h: "length h = 4" "hex4 h = Some n" "n < 128"
  shows "literal (bslash # CHR ''u'' # h @ l) (utf8_encode n @ x)"
proof -
  have "safe ((bslash # CHR ''u'' # h) @ l)" using l safe_u [OF h] by (simp add: literal_def del: append_Cons)
  moreover have "scan_string (bslash # CHR ''u'' # h @ l @ dquote # r) = Some (utf8_encode n @ x, r)" for r
    using l unescape_u [OF h, of "l @ dquote # r"] by (simp add: literal_def code_def)
  moreover have "compact True (bslash # CHR ''u'' # h @ l @ dquote # r) = bslash # CHR ''u'' # h @ l @ dquote # compact False r" for r
    using l h compact_hex [of 0 h n "l @ dquote # r"] by (simp add: literal_def compact_escape hex4_def)
  ultimately show ?thesis by (simp add: literal_def)
qed

lemma scan_literal_plain:
  "scan_string s = Some (x, r) \<Longrightarrow> plain x \<Longrightarrow> \<exists>l. s = l @ dquote # r \<and> literal l x"
proof (induction s arbitrary: x rule: scan_string.induct)
  case (2 c cs)
  show ?case
  proof (cases "c = dquote")
    case True
    with 2(3) show ?thesis by (intro exI [of _ "[]"]) (simp add: literal_Nil)
  next
    case q: False
    with 2(3) have lo: "\<not> code c < 32" by (simp split: if_splits)
    show ?thesis
    proof (cases "c = bslash")
      case True
      with q lo 2(3) obtain b t y where t: "unescape cs = Some (b, t)" "scan_string t = Some (y, r)" "x = b @ y"
        by (auto split: option.splits)
      with 2(4) have p: "plain b" "plain y" by simp_all
      from unescape_plain [OF t(1) p(1)] obtain h n where h: "cs = CHR ''u'' # h @ t" "length h = 4"
        "hex4 h = Some n" "n < 128" "b = utf8_encode n" .
      from 2(1) [OF q lo True t(1) refl t(2) p(2)] obtain l where l: "t = l @ dquote # r" "literal l y" by blast
      from literal_escape [OF l(2) h(2-4)] h l t(3) True show ?thesis
        by (intro exI [of _ "bslash # CHR ''u'' # h @ l"]) simp
    next
      case False
      with q lo 2(3) obtain y where y: "scan_string cs = Some (y, r)" "x = c # y" by auto
      with 2(4) have p: "plain_char c" "plain y" by simp_all
      from 2(2) [OF q lo False y(1) p(2)] obtain l where "cs = l @ dquote # r" "literal l y" by blast
      with literal_char [of l y c] p y show ?thesis by (intro exI [of _ "c # l"]) simp
    qed
  qed
qed simp

subsection \<open>Parameter objects\<close>

lemma compact_skip_ws: "compact False (skip_ws s) = compact False s"
  by (induction s) (auto simp: compact.simps [of False])

lemma compact_ws_only: "skip_ws s = [] \<Longrightarrow> compact False s = []"
  by (metis compact_skip_ws compact_Nil)

lemma compact_to: "skip_ws s = c # r \<Longrightarrow> compact False s = c # compact (c = dquote) r"
proof -
  assume s: "skip_ws s = c # r"
  then have "\<not> is_ws c" by (metis hd_dropWhile list.distinct(1) list.sel(1))
  then show ?thesis using compact_skip_ws [of s] s by (simp add: compact_step)
qed

definition selector_text :: "string \<Rightarrow> string \<Rightarrow> string" where
  "selector_text l m = CHR ''{'' # dquote # l @ dquote # CHR '':'' # dquote # m @ dquote # ''}''"

lemma reads_selector:
  assumes l: "literal l k" and m: "literal m x"
  shows "reads (selector_text l m) (JObj [(k, JV (dquote # m @ [dquote]) (JStr x))])"
proof -
  have w: "\<not> is_ws (CHR ''{'')" "\<not> is_ws dquote" "\<not> is_ws (CHR '':'')" "\<not> is_ws (CHR ''}'')" by (simp_all add: is_ws_def code_def)
  have "parse_value n (selector_text l m @ r)
      = Some (JV (selector_text l m) (JObj [(k, JV (dquote # m @ [dquote]) (JStr x))]), r)"
    if le: "2 * length (selector_text l m) + 1 \<le> n" for n r
  proof -
    from le obtain j where n: "n = Suc (Suc (Suc j))"
      by (auto simp: selector_text_def dest!: le_Suc_ex)
    have v: "parse_value (Suc j) (dquote # m @ dquote # CHR ''}'' # r)
        = Some (JV (dquote # m @ [dquote]) (JStr x), CHR ''}'' # r)"
      using m with_raw_Some [of "dquote # m @ [dquote]" "CHR ''}'' # r" "JStr x"] w by (simp add: literal_def)
    have "parse_members (Suc (Suc j)) (dquote # l @ dquote # CHR '':'' # dquote # m @ dquote # CHR ''}'' # r)
        = Some ([(k, JV (dquote # m @ [dquote]) (JStr x))], r)"
      using l w v by (subst parse_members.simps) (simp add: literal_def del: parse_value.simps)
    then show ?thesis
      using with_raw_Some [of "selector_text l m" r "JObj [(k, JV (dquote # m @ [dquote]) (JStr x))]"] w
      by (simp add: n selector_text_def del: parse_members.simps)
  qed
  then show ?thesis by (simp add: reads_def selector_text_def w del: parse_value.simps)
qed

lemma safe_selector: "literal l k \<Longrightarrow> literal m x \<Longrightarrow> safe (selector_text l m)"
proof -
  assume "literal l k" "literal m x"
  then have "safe (''{'' @ [dquote] @ l @ [dquote] @ '':'' @ [dquote] @ m @ [dquote] @ ''}'')"
    by (intro safe_append) (auto simp: literal_def code_def intro!: safe_ascii)
  then show ?thesis by (simp add: selector_text_def)
qed

lemma parse_members_nonempty: "parse_members n s \<noteq> Some ([], r)"
  by (cases n) (auto split: list.splits option.splits if_splits)

lemma parse_empty_object:
  assumes "json_parse s = Some v" "node_of v = JObj []"
  shows "compact False s = ''{}''"
proof -
  from assms(1) obtain r where p: "parse_value (2 * length s + 2) s = Some (v, r)" "skip_ws r = []"
    by (auto simp: json_parse_def split: option.splits if_splits)
  then obtain cs where cs: "skip_ws s = CHR ''{'' # cs" "skip_ws cs = CHR ''}'' # r"
    using assms(2) parse_members_nonempty
    by (auto simp: with_raw_def scan_literal_def split: list.splits if_splits option.splits)
  show ?thesis using compact_to [OF cs(1)] compact_to [OF cs(2)] compact_ws_only [OF p(2)] by simp
qed

lemma parse_members_single:
  assumes "parse_members n s = Some ([(k, v)], r)" "node_of v = JStr x" "plain k" "plain x"
  shows "\<exists>l m. literal l k \<and> literal m x \<and> length l + length m + 6 + length r \<le> length s
    \<and> compact False s = dquote # l @ dquote # CHR '':'' # dquote # m @ dquote # CHR ''}'' # compact False r"
proof -
  from assms(1) obtain j where n: "n = Suc j" by (cases n) auto
  from assms(1) obtain cs r1 r2 r3 where a: "skip_ws s = dquote # cs" "scan_string cs = Some (k, r1)" "skip_ws r1 = CHR '':'' # r2"
    "parse_value j r2 = Some (v, r3)" "skip_ws r3 = CHR ''}'' # r"
    unfolding n by (auto simp: parse_members_nonempty split: list.splits option.splits if_splits)
  from a(4) obtain j' where j: "j = Suc j'" by (cases j) auto
  from a(4) assms(2) obtain ds where b: "skip_ws r2 = dquote # ds" "scan_string ds = Some (x, r3)"
    unfolding j by (auto simp: with_raw_def scan_literal_def split: list.splits if_splits option.splits)
  from scan_literal_plain [OF a(2) assms(3)] obtain l where l: "cs = l @ dquote # r1" "literal l k" by blast
  from scan_literal_plain [OF b(2) assms(4)] obtain m where m: "ds = m @ dquote # r3" "literal m x" by blast
  show ?thesis
    using compact_to [OF a(1)] compact_to [OF a(3)] compact_to [OF b(1)] compact_to [OF a(5)] l m
      skip_ws_ConsD [OF a(1)] skip_ws_ConsD [OF a(3)] skip_ws_ConsD [OF b(1)] skip_ws_ConsD [OF a(5)]
    by (intro exI [of _ l] exI [of _ m]) (simp add: literal_def)
qed

lemma parse_selector:
  assumes "json_parse s = Some v" "node_of v = JObj [(k, w)]" "node_of w = JStr x" "plain k" "plain x"
  shows "\<exists>l m. literal l k \<and> literal m x \<and> compact False s = selector_text l m
    \<and> length (selector_text l m) \<le> length s"
proof -
  from assms(1) obtain r where p: "parse_value (2 * length s + 2) s = Some (v, r)" "skip_ws r = []"
    by (auto simp: json_parse_def split: option.splits if_splits)
  then obtain cs where cs: "skip_ws s = CHR ''{'' # cs" "parse_members (2 * length s + 1) cs = Some ([(k, w)], r)"
    using assms(2)
    by (auto simp: with_raw_def scan_literal_def simp del: parse_members.simps split: list.splits if_splits option.splits)
  from parse_members_single [OF cs(2) assms(3-5)] compact_to [OF cs(1)] compact_ws_only [OF p(2)]
    skip_ws_ConsD [OF cs(1)] show ?thesis
    by (auto simp: selector_text_def)
qed

lemma strict_decode_Inr:
  assumes "strict_decode data limit fs = Inr ms"
  obtains v where "0 < limit" "length data \<le> limit" "json_parse data = Some v" "node_of v = JObj ms" "strict_value 0 v"
    "length ms = length fs" "set fs \<subseteq> set (map fst ms)"
  using assms by (auto simp: strict_decode_def list_all_iff split: if_splits option.splits json.splits)

text \<open>A selector object stays the same selector when it is compacted.\<close>

lemma strict_decode_compact:
  assumes d: "strict_decode s limit [k] = Inr ob" "get_str ob k = Inr x" and p: "plain k" "plain x"
  obtains v where "reads (compact False s) v" "safe (compact False s)" "strict_node 1 v" "length (compact False s) \<le> length s"
    "\<exists>ob'. strict_decode (compact False s) limit [k] = Inr ob' \<and> get_str ob' k = Inr x" "json_parse s \<noteq> None"
proof -
  from strict_decode_Inr [OF d(1)] obtain v where v: "0 < limit" "length s \<le> limit" "json_parse s = Some v"
    "node_of v = JObj ob" "length ob = 1" "k \<in> set (map fst ob)" by (metis length_Cons list.set_intros(1) list.size(3) One_nat_def subsetD)
  then obtain w where ob: "ob = [(k, w)]" by (cases ob) auto
  with d(2) have w: "node_of w = JStr x" by (cases w) (auto simp: get_str_def split: json.splits)
  from parse_selector [OF v(3) v(4) [unfolded ob] w p] obtain l m where lm: "literal l k" "literal m x"
    "compact False s = selector_text l m" "length (selector_text l m) \<le> length s" by blast
  let ?w = "JV (dquote # m @ [dquote]) (JStr x)"
  note rd = reads_selector [OF lm(1,2)] and sf = safe_selector [OF lm(1,2)]
  have "strict_decode (selector_text l m) limit [k] = Inr [(k, ?w)]"
    using json_parse_reads [OF rd] sf v lm(4)
    by (simp add: strict_decode_def safe_def transparent_valid MaxDepth_def)
  then show thesis
    using that [of "JObj [(k, ?w)]"] rd sf lm v by (simp add: get_str_def MaxDepth_def)
qed

lemma strict_decode_compact_empty:
  assumes d: "strict_decode s limit [] = Inr ob"
  shows "compact False s = ''{}''" "is_ok (strict_decode (compact False s) limit [])" "2 \<le> limit" "json_parse s \<noteq> None"
proof -
  from strict_decode_Inr [OF d] obtain v where v: "0 < limit" "length s \<le> limit" "json_parse s = Some v"
    "node_of v = JObj []" by (metis length_0_conv)
  show c: "compact False s = ''{}''" by (rule parse_empty_object [OF v(3,4)])
  show "json_parse s \<noteq> None" using v by simp
  from v(3) obtain r where "parse_value (2 * length s + 2) s = Some (v, r)"
    by (auto simp: json_parse_def split: option.splits if_splits)
  with v(4) have "2 \<le> length s"
    by (auto simp: with_raw_def scan_literal_def parse_members_nonempty simp del: parse_members.simps
        dest!: skip_ws_ConsD split: list.splits if_splits option.splits)
  with v(2) show l: "2 \<le> limit" by simp
  show "is_ok (strict_decode (compact False s) limit [])"
    using l json_parse_reads [OF reads_empty_object(1)] reads_empty_object(2) unfolding c
    by (simp add: strict_decode_def safe_def transparent_valid MaxDepth_def)
qed

subsection \<open>The stored task\<close>

definition stored_task :: "Task \<Rightarrow> Task" where
  "stored_task t = t\<lparr>t_Params := compact False (t_Params t)\<rparr>"

lemma stored_task_sel [simp]:
  "t_Version (stored_task t) = t_Version t" "t_RequestID (stored_task t) = t_RequestID t"
  "t_AgentID (stored_task t) = t_AgentID t" "t_EnrollmentEpoch (stored_task t) = t_EnrollmentEpoch t"
  "t_CreatedAt (stored_task t) = t_CreatedAt t" "t_ExpiresAt (stored_task t) = t_ExpiresAt t"
  "t_Type (stored_task t) = t_Type t" "t_TaskVersion (stored_task t) = t_TaskVersion t"
  "t_Params (stored_task t) = compact False (t_Params t)" "t_ActorID (stored_task t) = t_ActorID t"
  "t_PolicyDigest (stored_task t) = t_PolicyDigest t"
  by (simp_all add: stored_task_def)

lemma stored_params:
  assumes "Task_Validate t"
  obtains v where "reads (compact False (t_Params t)) v" "safe (compact False (t_Params t))" "strict_node 1 v"
    "length (compact False (t_Params t)) \<le> 256" "Task_Validate (stored_task t)" "json_parse (t_Params t) \<noteq> None"
    "Task_Resource (stored_task t) = Task_Resource t"
proof -
  note fin = that
  have base: "Task_Validate (stored_task t)"
    if "if t_Type t = SystemInfo \<or> t_Type t = SystemMetrics
        then is_ok (strict_decode (compact False (t_Params t)) MaxParamsBytes [])
        else if t_Type t = SSHAudit \<or> t_Type t = ServiceStatus then is_ok (Task_Resource (stored_task t)) else False"
    using assms that by (simp add: Task_Validate_def split: if_splits)
  have pk: "plain ''profile_id''" "plain ''service_id''" by (simp_all add: plain_char_def alnum_def char_in_def code_def)
  have sel: thesis if kd: "t_Type t = SSHAudit \<and> k = ''profile_id'' \<or> t_Type t = ServiceStatus \<and> k = ''service_id''" for k
  proof -
    from kd assms obtain ob i where ob: "strict_decode (t_Params t) 256 [k] = Inr ob" "get_str ob k = Inr i" "ResourceID i"
      "Task_Resource t = Inr i"
      by (auto simp: Task_Validate_def Task_Resource_def is_ok_iff result_simps split: if_splits)
    have p: "plain k" "plain i" using kd pk ob(3) by (auto simp: ResourceID_def task_identifier_plain)
    from strict_decode_compact [OF ob(1,2) p] obtain v ob' where v: "reads (compact False (t_Params t)) v"
      "safe (compact False (t_Params t))" "strict_node 1 v" "length (compact False (t_Params t)) \<le> length (t_Params t)"
      "strict_decode (compact False (t_Params t)) 256 [k] = Inr ob'" "get_str ob' k = Inr i" "json_parse (t_Params t) \<noteq> None"
      by metis
    have r: "Task_Resource (stored_task t) = Inr i" using kd v ob by (auto simp: Task_Resource_def)
    have "length (t_Params t) \<le> 256" using strict_decode_Inr [OF ob(1)] by metis
    with fin [OF v(1-3) _ base v(7)] v(4) r ob(4) kd show thesis by auto
  qed
  have emp: thesis if kd: "t_Type t = SystemInfo \<or> t_Type t = SystemMetrics"
  proof -
    from kd assms obtain ob where ob: "strict_decode (t_Params t) MaxParamsBytes [] = Inr ob"
      by (auto simp: Task_Validate_def is_ok_iff)
    note c = strict_decode_compact_empty [OF ob]
    have "Task_Resource (stored_task t) = Task_Resource t" using kd by (auto simp: Task_Resource_def)
    with fin [of "JObj []"] base c reads_empty_object kd show thesis by (auto simp: MaxDepth_def)
  qed
  from assms have "KnownTask (t_Type t)" by (rule Task_Validate_known)
  then show thesis using sel emp unfolding KnownTask_def by metis
qed

lemma MarshalTask_stored:
  assumes "Task_Validate t" "int64 (t_CreatedAt t)" "int64 (t_ExpiresAt t)"
  shows "\<exists>payload. MarshalTask t = Inr payload \<and> DecodeTask payload = Inr (stored_task t)"
proof -
  obtain v where v: "reads (compact False (t_Params t)) v" "safe (compact False (t_Params t))" "strict_node 1 v"
    "length (compact False (t_Params t)) \<le> 256" "Task_Validate (stored_task t)" "json_parse (t_Params t) \<noteq> None"
    using stored_params [OF assms(1)] by metis
  have "MarshalTask t = Inr (object_text (task_members (stored_task t) v))"
    using v(6) by (auto simp: MarshalTask_def marshal_raw_def object_text_def task_members_def split: option.splits)
  moreover have "DecodeTask (object_text (task_members (stored_task t) v)) = Inr (stored_task t)"
    using assms v by (intro DecodeTask_members) simp_all
  ultimately show ?thesis by blast
qed

end
