(* ===== verification/Server_Laws.thy ===== *)
theory Server_Laws
  imports Server_Admin Task_Params
begin

section \<open>Laws of the server's store\<close>

text \<open>
  The invariant \<open>server_inv\<close> of the database: the audit chain verifies, its reservations are exactly what the
  enabled nodes, live sessions and unfinished tasks will still write, keys are unique, every task row agrees with
  its payload, unfinished tasks belong to enabled nodes, sessions to enabled accounts, and the tables are bounded.
\<close>

definition books :: "crypto \<Rightarrow> int \<Rightarrow> server_db \<Rightarrow> bool" where
  "books C k db \<longleftrightarrow> log_ok C (v_audit db) \<and> al_reserved (v_audit db) = expected_reserved db + k"

definition pending :: "task_row \<Rightarrow> bool" where
  "pending r \<longleftrightarrow> tr_state r = ''queued'' \<or> tr_state r = ''dispatched''"

definition row_task :: "task_row \<Rightarrow> Task \<Rightarrow> bool" where
  "row_task r t \<longleftrightarrow> DecodeTask (tr_payload r) = Inr t \<and> t_RequestID t = tr_request r \<and> t_AgentID t = tr_agent r
     \<and> t_EnrollmentEpoch t = tr_epoch r \<and> t_ExpiresAt t = tr_expires r"

text \<open>A row holds its task; a result is stored with its own digest and status, and never in an unfinished row.\<close>

definition trow_ok :: "crypto \<Rightarrow> task_row \<Rightarrow> bool" where
  "trow_ok C r \<longleftrightarrow> (\<exists>t. row_task r t
     \<and> (case tr_result r of None \<Rightarrow> tr_result_digest r = ''''
        | Some data \<Rightarrow> tr_result_digest r = Digest C data
            \<and> (\<exists>v. DecodeResult data = Inr v \<and> CheckAssignment v t \<and> tr_state r = r_Status v \<and> tr_code r = r_ErrorCode v
                 \<and> length data \<le> MaxDispatchResultBytes
                 \<and> (r_Status v = Rejected \<or> r_Status v = Expired \<or> r_PolicyDigest v = t_PolicyDigest t)))
     \<and> (tr_state r = ''queued'' \<longrightarrow> tr_envelope r = None) \<and> (tr_state r = ''dispatched'' \<longrightarrow> tr_envelope r \<noteq> None)
     \<and> (pending r \<longrightarrow> tr_result r = None))"

definition rows_ok :: "crypto \<Rightarrow> task_row list \<Rightarrow> bool" where
  "rows_ok C rows \<longleftrightarrow> distinct (map tr_request rows) \<and> (\<forall>r\<in>set rows. trow_ok C r)"

definition queue_ok :: "node_row list \<Rightarrow> task_row list \<Rightarrow> bool" where
  "queue_ok nodes rows \<longleftrightarrow> (\<forall>r\<in>set rows. pending r \<longrightarrow> (\<exists>n\<in>set nodes. nr_agent n = tr_agent r \<and> nr_enabled n))
     \<and> (\<forall>i. length (filter (pending_of i) rows) \<le> 10) \<and> length rows \<le> MaxStoredTasks"

definition nodes_ok :: "node_row list \<Rightarrow> bool" where
  "nodes_ok nodes \<longleftrightarrow> distinct (map nr_agent nodes) \<and> (\<forall>n\<in>set nodes. Hex (nr_agent n) 32) \<and> length nodes \<le> MaxNodes"

definition users_ok :: "user_row list \<Rightarrow> bool" where
  "users_ok us \<longleftrightarrow> distinct (map us_id us) \<and> distinct (map us_name us) \<and> length us \<le> MaxUsers
     \<and> (\<forall>u\<in>set us. Hex (us_id u) 32 \<and> Role (us_role u) \<and> Username (us_name u))"

definition sessions_ok :: "user_row list \<Rightarrow> session_row list \<Rightarrow> bool" where
  "sessions_ok us ss \<longleftrightarrow> distinct (map se_id ss) \<and> distinct (map se_hash ss) \<and> length ss \<le> MaxSessions
     \<and> (\<forall>i. length (filter (\<lambda>s. se_user s = i) ss) \<le> 8)
     \<and> (\<forall>s\<in>set ss. Hex (se_id s) 32 \<and> (\<exists>u\<in>set us. us_id u = se_user s \<and> us_enabled u))"

definition creds_ok :: "cred_row list \<Rightarrow> bool" where
  "creds_ok cs \<longleftrightarrow> distinct (map cr_cert cs) \<and> distinct (map (\<lambda>c. (cr_agent c, cr_generation c)) cs)
     \<and> (\<forall>c\<in>set cs. 1 \<le> cr_generation c \<and> cr_generation c \<le> 64)"

definition tokens_ok :: "token_row list \<Rightarrow> bool" where
  "tokens_ok ks \<longleftrightarrow> distinct (map tk_hash ks) \<and> length ks \<le> MaxNodes"

definition tables_ok :: "crypto \<Rightarrow> server_db \<Rightarrow> bool" where
  "tables_ok C db \<longleftrightarrow> nodes_ok (v_nodes db) \<and> rows_ok C (v_tasks db) \<and> queue_ok (v_nodes db) (v_tasks db)
     \<and> users_ok (v_users db) \<and> sessions_ok (v_users db) (v_sessions db) \<and> creds_ok (v_creds db) \<and> tokens_ok (v_tokens db)
     \<and> distinct (map (\<lambda>w. (rn_agent w, rn_id w)) (v_renewals db)) \<and> v_version db = 5"

definition server_inv :: "crypto \<Rightarrow> server_db \<Rightarrow> bool" where
  "server_inv C db \<longleftrightarrow> books C 0 db \<and> tables_ok C db"

subsection \<open>Recording\<close>

lemma expected_reserved_audit [simp]: "expected_reserved (db\<lparr>v_audit := L\<rparr>) = expected_reserved db"
  by (simp add: expected_reserved_def enabled_nodes_def)

lemma tables_ok_audit [simp]: "tables_ok C (db\<lparr>v_audit := L\<rparr>) = tables_ok C db"
  by (simp add: tables_ok_def)

text \<open>Events are written with time 0 and stamped by the log; their source is an address or a fixed word.\<close>

definition plain_event :: "Event \<Rightarrow> bool" where
  "plain_event e \<longleftrightarrow> e_At e = 0 \<and> source_ok (e_Source e)"

lemma plain_events [simp]:
  "plain_event (admin_event kind actor source status ec) = source_ok source"
  "plain_event (node_event kind agent epoch actor source) = source_ok source"
  "plain_event (TaskEvent kind t source status ec h) = source_ok source"
  "plain_event (e\<lparr>e_PayloadDigest := x\<rparr>) = plain_event e" "plain_event (e\<lparr>e_ResultDigest := x\<rparr>) = plain_event e"
  "plain_event (e\<lparr>e_PolicyDigest := x\<rparr>) = plain_event e" "plain_event (e\<lparr>e_Code := x\<rparr>) = plain_event e"
  by (simp_all add: plain_event_def admin_event_def node_event_def TaskEvent_def no_event_def)

lemma source_server [simp]: "source_ok ''server''" "source_ok ''local-restore''"
  by (simp_all add: source_ok_def source_char_def plain_char_def alnum_def char_in_def code_def)

lemma server_append_eq_Inr:
  "server_append C rd e d db = Inr db' \<longleftrightarrow> (\<exists>L. Append C rd e d (v_audit db) = Inr L \<and> db' = db\<lparr>v_audit := L\<rparr>)"
  by (auto simp: server_append_def result_simps)

lemma server_append_books:
  assumes "server_append C rd e d db = Inr db'" "log_ok C (v_audit db)" "plain_event e"
    and "al_reserved (v_audit db) + d = expected_reserved db + k"
  shows "books C k db'"
proof -
  from assms(1) obtain L where L: "Append C rd e d (v_audit db) = Inr L" "db' = db\<lparr>v_audit := L\<rparr>"
    by (auto simp: server_append_eq_Inr)
  have "event_fits rd e" using Append_eq_Inr(5) [OF L(1)] assms(3) by (intro event_fitsI) (simp_all add: plain_event_def int64_def)
  with Append_log_ok [OF assms(2) L(1)] Append_eq_Inr(2) [OF L(1)] assms(4) show ?thesis
    by (simp add: books_def L(2))
qed

text \<open>The shape of every operation: change the tables by \<open>db1\<close>, whose expected reservations differ by \<open>d\<close>, and record.\<close>

lemma record_inv:
  assumes "server_append C rd e d db1 = Inr db2" "plain_event e" "v_audit db1 = v_audit db" "books C k db"
    and "expected_reserved db1 = expected_reserved db + d" "tables_ok C db1"
  shows "books C k db2 \<and> tables_ok C db2"
proof -
  have "books C k db2" using assms by (intro server_append_books [OF assms(1)]) (simp_all add: books_def)
  moreover have "tables_ok C db2" using assms(1,6) by (auto simp: server_append_eq_Inr)
  ultimately show ?thesis by simp
qed

lemma server_append_total:
  assumes "sha256_spec C" "books C k db0" "v_audit db = v_audit db0" "Event_validate (stamp rd e)" "\<not> decision_kind (e_Kind e)"
    and "0 \<le> expected_reserved db0 + k + d" "d < 0"
  shows "\<exists>db'. server_append C rd e d db = Inr db'"
proof -
  let ?L = "v_audit db"
  have ok: "log_ok C ?L" and r: "al_reserved ?L = expected_reserved db0 + k" using assms by (simp_all add: books_def)
  have "append_ready C rd e ?L" using assms ok log_ok_hash by (simp add: append_ready_def)
  moreover have "al_sequence ?L + 1 + (al_reserved ?L + d) \<le> Capacity" using log_ok_rows(3) [OF ok] assms(7) by simp
  ultimately show ?thesis using Append_total [of C rd e ?L d] assms(6) r by (auto simp: server_append_def)
qed

subsection \<open>Closing unfinished tasks\<close>

definition close_row :: "(task_row \<Rightarrow> string) \<Rightarrow> string \<Rightarrow> task_row \<Rightarrow> task_row" where
  "close_row st ec r = r\<lparr>tr_state := st r, tr_code := ec\<rparr>"

definition close_rows :: "(task_row \<Rightarrow> string) \<Rightarrow> string \<Rightarrow> task_row list \<Rightarrow> task_row list \<Rightarrow> task_row list" where
  "close_rows st ec rs rows = map (\<lambda>r. if tr_request r \<in> tr_request ` set rs then close_row st ec r else r) rows"

lemma close_row_sel [simp]:
  "tr_request (close_row st ec r) = tr_request r" "tr_agent (close_row st ec r) = tr_agent r"
  "tr_epoch (close_row st ec r) = tr_epoch r" "tr_payload (close_row st ec r) = tr_payload r"
  "tr_expires (close_row st ec r) = tr_expires r" "tr_envelope (close_row st ec r) = tr_envelope r"
  "tr_result (close_row st ec r) = tr_result r" "tr_result_digest (close_row st ec r) = tr_result_digest r"
  "tr_sequence (close_row st ec r) = tr_sequence r" "tr_state (close_row st ec r) = st r" "tr_code (close_row st ec r) = ec"
  by (simp_all add: close_row_def)

lemma close_rows_Nil [simp]: "close_rows st ec [] rows = rows"
  by (simp add: close_rows_def)

lemma close_rows_Cons:
  assumes "tr_request x \<notin> tr_request ` set rs"
  shows "close_rows st ec (x # rs) rows = close_rows st ec rs (close_rows st ec [x] rows)"
  using assms by (auto simp: close_rows_def)

lemma map_request_close [simp]: "map tr_request (close_rows st ec rs rows) = map tr_request rows"
  by (simp add: close_rows_def)

lemma unique_row:
  "distinct (map f rows) \<Longrightarrow> r \<in> set rows \<Longrightarrow> s \<in> set rows \<Longrightarrow> f r = f s \<Longrightarrow> r = s"
  by (meson distinct_map inj_onD)

lemma sum_update_key:
  fixes w :: "'a \<Rightarrow> int"
  assumes "distinct (map k xs)" "x \<in> set xs"
  shows "(\<Sum>r\<leftarrow>map (\<lambda>r. if k r = k x then f r else r) xs. w r) = (\<Sum>r\<leftarrow>xs. w r) - w x + w (f x)"
  using assms
proof (induction xs)
  case (Cons a xs)
  show ?case
  proof (cases "a = x")
    case True
    with Cons.prems have "map (\<lambda>r. if k r = k x then f r else r) xs = xs" by (intro map_idI) (auto simp: image_iff)
    with True show ?thesis by simp
  next
    case False
    with Cons.prems have "k a \<noteq> k x" "x \<in> set xs" by (auto simp: image_iff)
    with Cons show ?thesis by simp
  qed
qed simp

lemma task_weight_pos: "pending r \<longleftrightarrow> 0 < task_weight r" "0 \<le> task_weight r"
  by (simp_all add: pending_def task_weight_def)

lemma expected_close:
  assumes "distinct (map tr_request (v_tasks db))" "x \<in> set (v_tasks db)" "st x \<noteq> ''queued''" "st x \<noteq> ''dispatched''"
  shows "expected_reserved (db\<lparr>v_tasks := close_rows st ec [x] (v_tasks db)\<rparr>) = expected_reserved db - task_weight x"
proof -
  have "task_weight (close_row st ec x) = 0" using assms(3,4) by (simp add: task_weight_def)
  then show ?thesis using sum_update_key [OF assms(1,2), of task_weight "close_row st ec"]
    by (simp add: expected_reserved_def enabled_nodes_def close_rows_def)
qed

lemma expected_nonneg: "0 \<le> expected_reserved db"
  unfolding expected_reserved_def enabled_nodes_def using task_weight_pos(2)
  by (intro add_nonneg_nonneg sum_list_nonneg) auto

lemma weight_le_expected: "x \<in> set (v_tasks db) \<Longrightarrow> task_weight x \<le> expected_reserved db"
proof -
  assume "x \<in> set (v_tasks db)"
  then have "task_weight x \<le> (\<Sum>r\<leftarrow>v_tasks db. task_weight r)"
    using task_weight_pos(2) by (intro member_le_sum_list) auto
  then show ?thesis by (simp add: expected_reserved_def enabled_nodes_def)
qed

lemma rows_ok_close:
  assumes "rows_ok C rows" "x \<in> set rows" "pending x" "st x \<noteq> ''queued''" "st x \<noteq> ''dispatched''"
  shows "rows_ok C (close_rows st ec [x] rows)"
proof -
  have d: "distinct (map tr_request rows)" using assms(1) by (simp add: rows_ok_def)
  have "trow_ok C (close_row st ec x)" if "trow_ok C x"
    using that assms(3-5) by (auto simp: trow_ok_def row_task_def pending_def split: option.splits)
  then have "trow_ok C (if tr_request r = tr_request x then close_row st ec r else r)" if "r \<in> set rows" for r
    using assms(1,2) that unique_row [OF d that assms(2)] by (auto simp: rows_ok_def)
  then have "\<forall>r\<in>set (close_rows st ec [x] rows). trow_ok C r"
    unfolding close_rows_def set_map ball_simps by simp
  then show ?thesis using d by (simp add: rows_ok_def)
qed

text \<open>
  The loops of \<open>expireTasks\<close>, \<open>cancelNodeTasks\<close> and \<open>CancelQueuedForSignerChange\<close> have one shape: \<open>g\<close> closes one
  unfinished row, records \<open>ev\<close> and returns the slots the row held.
\<close>

locale closing_loop =
  fixes C :: crypto and g :: "nat \<times> task_row \<Rightarrow> server_db \<Rightarrow> server_db result" and clk :: sreadings
    and ev :: "task_row \<Rightarrow> Task \<Rightarrow> Event" and st :: "task_row \<Rightarrow> string" and ec :: string and P :: "task_row \<Rightarrow> bool"
  assumes step: "P x \<Longrightarrow> rows_ok C (v_tasks db) \<Longrightarrow> x \<in> set (v_tasks db) \<Longrightarrow> row_task x t \<Longrightarrow>
      g (i, x) db = server_append C (clk i) (ev x t) (- task_weight x) (db\<lparr>v_tasks := close_rows st ec [x] (v_tasks db)\<rparr>)"
    and P_pending: "P x \<Longrightarrow> pending x"
    and st_final: "P x \<Longrightarrow> st x \<noteq> ''queued'' \<and> st x \<noteq> ''dispatched''"
    and ev_plain: "plain_event (ev x t)"
    and ev_valid: "sha256_spec C \<Longrightarrow> P x \<Longrightarrow> row_task x t \<Longrightarrow> 0 < wrap64 (clk i) \<Longrightarrow>
      Event_validate (stamp (clk i) (ev x t)) \<and> \<not> decision_kind (e_Kind (ev x t))"
begin

definition ready_rows :: "task_row list \<Rightarrow> server_db \<Rightarrow> bool" where
  "ready_rows rs db \<longleftrightarrow> rows_ok C (v_tasks db) \<and> distinct (map tr_request rs) \<and> set rs \<subseteq> set (v_tasks db) \<and> (\<forall>r\<in>set rs. P r)"

lemma one_step:
  assumes "ready_rows (x # rs) db" "books C k db" "g (i, x) db = Inr db1"
  shows "ready_rows rs db1 \<and> books C k db1 \<and> (\<exists>L. db1 = db\<lparr>v_tasks := close_rows st ec [x] (v_tasks db), v_audit := L\<rparr>)"
proof -
  let ?db = "db\<lparr>v_tasks := close_rows st ec [x] (v_tasks db)\<rparr>"
  have x: "P x" "x \<in> set (v_tasks db)" "rows_ok C (v_tasks db)" using assms(1) by (auto simp: ready_rows_def)
  then obtain t where t: "row_task x t" by (auto simp: rows_ok_def trow_ok_def)
  have g: "server_append C (clk i) (ev x t) (- task_weight x) ?db = Inr db1" using step [OF x(1,3,2) t] assms(3) by simp
  then obtain L where L: "db1 = ?db\<lparr>v_audit := L\<rparr>" by (auto simp: server_append_eq_Inr)
  have d: "distinct (map tr_request (v_tasks db))" using x(3) by (simp add: rows_ok_def)
  have "books C k db1"
    using assms(2) expected_close [OF d x(2)] st_final [OF x(1)] ev_plain
    by (intro server_append_books [OF g]) (simp_all add: books_def)
  moreover have "rows_ok C (close_rows st ec [x] (v_tasks db))"
    using rows_ok_close [OF x(3,2)] P_pending st_final x(1) by blast
  moreover have "r \<in> set (close_rows st ec [x] (v_tasks db))" if "r \<in> set rs" for r
  proof -
    have "r \<in> set (v_tasks db)" "tr_request r \<noteq> tr_request x" using that assms(1) by (auto simp: ready_rows_def image_iff)
    then show ?thesis by (force simp: close_rows_def)
  qed
  ultimately show ?thesis using assms(1) by (auto simp: ready_rows_def L)
qed

lemma loop_sound:
  assumes "fold_res g (enumerate n rs) db = Inr db'" "ready_rows rs db" "books C k db"
  shows "rows_ok C (v_tasks db') \<and> books C k db' \<and> (\<exists>L. db' = db\<lparr>v_tasks := close_rows st ec rs (v_tasks db), v_audit := L\<rparr>)"
  using assms
proof (induction rs arbitrary: n db)
  case Nil
  have "db = db\<lparr>v_tasks := close_rows st ec [] (v_tasks db), v_audit := v_audit db\<rparr>" by simp
  moreover have "db' = db" using Nil by simp
  ultimately show ?case using Nil(2,3) unfolding ready_rows_def by blast
next
  case (Cons x rs)
  then obtain db1 where db1: "g (n, x) db = Inr db1" "fold_res g (enumerate (Suc n) rs) db1 = Inr db'"
    by (auto simp: result_simps)
  from one_step [OF Cons.prems(2,3) db1(1)] obtain L where s: "ready_rows rs db1" "books C k db1"
    "db1 = db\<lparr>v_tasks := close_rows st ec [x] (v_tasks db), v_audit := L\<rparr>" by blast
  have "tr_request x \<notin> tr_request ` set rs" using Cons.prems(2) by (simp add: ready_rows_def)
  from Cons.IH [OF db1(2) s(1,2)] close_rows_Cons [OF this] show ?case by (auto simp: s(3))
qed

lemma loop_total:
  assumes "sha256_spec C" "\<forall>i. 0 < wrap64 (clk i)" "ready_rows rs db" "books C k db" "0 \<le> k"
  shows "\<exists>db'. fold_res g (enumerate n rs) db = Inr db'"
  using assms(3,4)
proof (induction rs arbitrary: n db)
  case (Cons x rs)
  let ?db = "db\<lparr>v_tasks := close_rows st ec [x] (v_tasks db)\<rparr>"
  have x: "P x" "x \<in> set (v_tasks db)" "rows_ok C (v_tasks db)" using Cons.prems(1) by (auto simp: ready_rows_def)
  then obtain t where t: "row_task x t" by (auto simp: rows_ok_def trow_ok_def)
  have "\<exists>db1. server_append C (clk n) (ev x t) (- task_weight x) ?db = Inr db1"
    using server_append_total [OF assms(1) Cons.prems(2), of ?db "clk n" "ev x t" "- task_weight x"]
      ev_valid [OF assms(1) x(1) t] assms(2,5) weight_le_expected [OF x(2)] P_pending [OF x(1)] task_weight_pos(1) by auto
  then obtain db1 where db1: "g (n, x) db = Inr db1" using step [OF x(1,3,2) t] by auto
  with one_step [OF Cons.prems db1] Cons.IH [of db1 "Suc n"] show ?case by auto
qed simp

end

lemma TaskEvent_valid_plain:
  assumes "Task_Validate t" "source_ok source" "length source \<le> 256" "0 < wrap64 rd" "Hex h 64"
    "audit_identifier kind 40" "kind \<noteq> ''''" "audit_identifier status 32" "audit_identifier ec 64"
  shows "Event_validate (stamp rd (TaskEvent kind t source status ec h))"
  using Task_Validate_ids [OF assms(1)] assms(2-) task_identifier_audit source_ok_clean
  by (simp add: Event_validate_def stamp_def TaskEvent_def no_event_def)

lemma set_task_close:
  assumes "rows_ok C (v_tasks db)" "x \<in> set (v_tasks db)" "\<And>r. r = x \<Longrightarrow> f r = close_row st ec r"
  shows "set_task (tr_request x) f db = db\<lparr>v_tasks := close_rows st ec [x] (v_tasks db)\<rparr>"
proof -
  have "map (\<lambda>r. if tr_request r = tr_request x then f r else r) (v_tasks db) = close_rows st ec [x] (v_tasks db)"
    unfolding close_rows_def using assms unique_row [of tr_request "v_tasks db"]
    by (intro map_cong) (auto simp: rows_ok_def)
  then show ?thesis by (simp add: set_task_def)
qed

abbreviation expired_before :: string where "expired_before \<equiv> ''expired_before_dispatch''"
abbreviation signer_changed :: string where "signer_changed \<equiv> ''signer_changed_before_dispatch''"

definition cancel_status :: "task_row \<Rightarrow> string" where
  "cancel_status r = (if tr_state r = ''queued'' then ''rejected'' else ''indeterminate'')"

lemma event_words:
  "\<not> decision_kind ''task_expired''" "\<not> decision_kind ''task_cancelled''"
  "audit_identifier ''task_expired'' 40" "audit_identifier ''task_cancelled'' 40" "audit_identifier ''expired'' 32"
  "audit_identifier ''rejected'' 32" "audit_identifier ''indeterminate'' 32" "audit_identifier ''node_disabled'' 64"
  "audit_identifier expired_before 64" "audit_identifier signer_changed 64"
  by (simp_all add: audit_identifier_def alnum_def char_in_def code_def decision_kind_def)

lemma row_task_valid: "row_task r t \<Longrightarrow> Task_Validate t"
  using DecodeTask_valid by (auto simp: row_task_def)

lemma closing_event:
  assumes "sha256_spec C" "row_task x t" "0 < wrap64 rd" "source_ok source" "length source \<le> 256"
    "audit_identifier kind 40" "kind \<noteq> ''''" "\<not> decision_kind kind" "audit_identifier status 32" "audit_identifier ec 64"
  shows "Event_validate (stamp rd (TaskEvent kind t source status ec (Digest C p)))
    \<and> \<not> decision_kind (e_Kind (TaskEvent kind t source status ec (Digest C p)))"
proof
  show "Event_validate (stamp rd (TaskEvent kind t source status ec (Digest C p)))"
    using assms row_task_valid [OF assms(2)] Hex_Digest by (intro TaskEvent_valid_plain) simp_all
qed (use assms(8) in \<open>simp add: TaskEvent_def no_event_def\<close>)

interpretation expiring: closing_loop C "expire_task C clk" clk
  "\<lambda>r t. TaskEvent ''task_expired'' t ''server'' ''expired'' expired_before (Digest C (tr_payload r))"
  "\<lambda>_. ''expired''" expired_before "\<lambda>r. tr_state r = ''queued''"
proof
  fix x :: task_row and db :: server_db and t i
  assume x: "tr_state x = ''queued''" "rows_ok C (v_tasks db)" "x \<in> set (v_tasks db)" "row_task x t"
  then show "expire_task C clk (i, x) db = server_append C (clk i)
      (TaskEvent ''task_expired'' t ''server'' ''expired'' expired_before (Digest C (tr_payload x))) (- task_weight x)
      (db\<lparr>v_tasks := close_rows (\<lambda>_. ''expired'') expired_before [x] (v_tasks db)\<rparr>)"
    using set_task_close [OF x(2,3), of "\<lambda>r. r\<lparr>tr_state := ''expired'', tr_code := expired_before\<rparr>" "\<lambda>_. ''expired''" expired_before]
    by (simp add: expire_task_def row_task_def task_weight_def close_row_def)
next
  fix x :: task_row and t i
  assume "sha256_spec C" "tr_state x = ''queued''" "row_task x t" "0 < wrap64 (clk i)"
  then show "Event_validate (stamp (clk i) (TaskEvent ''task_expired'' t ''server'' ''expired'' expired_before (Digest C (tr_payload x))))
      \<and> \<not> decision_kind (e_Kind (TaskEvent ''task_expired'' t ''server'' ''expired'' expired_before (Digest C (tr_payload x))))"
    by (intro closing_event event_words) simp_all
qed (simp_all add: pending_def)

interpretation cancelling: closing_loop C "cancel_task C clk" clk
  "\<lambda>r t. TaskEvent ''task_cancelled'' t local (cancel_status r) ''node_disabled'' (Digest C (tr_payload r))"
  cancel_status "''node_disabled''" pending
proof
  fix x :: task_row and db :: server_db and t i
  assume x: "pending x" "rows_ok C (v_tasks db)" "x \<in> set (v_tasks db)" "row_task x t"
  then show "cancel_task C clk (i, x) db = server_append C (clk i)
      (TaskEvent ''task_cancelled'' t local (cancel_status x) ''node_disabled'' (Digest C (tr_payload x))) (- task_weight x)
      (db\<lparr>v_tasks := close_rows cancel_status ''node_disabled'' [x] (v_tasks db)\<rparr>)"
    using set_task_close [OF x(2,3), of "\<lambda>r. r\<lparr>tr_state := cancel_status x, tr_code := ''node_disabled''\<rparr>" cancel_status "''node_disabled''"]
    by (auto simp: cancel_task_def row_task_def task_weight_def close_row_def cancel_status_def pending_def Let_def)
next
  fix x :: task_row and t i
  assume "sha256_spec C" "pending x" "row_task x t" "0 < wrap64 (clk i)"
  then show "Event_validate (stamp (clk i) (TaskEvent ''task_cancelled'' t local (cancel_status x) ''node_disabled'' (Digest C (tr_payload x))))
      \<and> \<not> decision_kind (e_Kind (TaskEvent ''task_cancelled'' t local (cancel_status x) ''node_disabled'' (Digest C (tr_payload x))))"
    using event_words by (intro closing_event) (simp_all add: cancel_status_def)
qed (simp_all add: cancel_status_def)

interpretation withdrawing: closing_loop C "cancel_queued C clk" clk
  "\<lambda>r t. TaskEvent ''task_cancelled'' t local ''rejected'' signer_changed (Digest C (tr_payload r))"
  "\<lambda>_. ''rejected''" signer_changed "\<lambda>r. tr_state r = ''queued''"
proof
  fix x :: task_row and db :: server_db and t i
  assume x: "tr_state x = ''queued''" "rows_ok C (v_tasks db)" "x \<in> set (v_tasks db)" "row_task x t"
  then show "cancel_queued C clk (i, x) db = server_append C (clk i)
      (TaskEvent ''task_cancelled'' t local ''rejected'' signer_changed (Digest C (tr_payload x))) (- task_weight x)
      (db\<lparr>v_tasks := close_rows (\<lambda>_. ''rejected'') signer_changed [x] (v_tasks db)\<rparr>)"
    using set_task_close [OF x(2,3), of "\<lambda>r. if tr_state r = ''queued''
        then r\<lparr>tr_state := ''rejected'', tr_code := signer_changed\<rparr> else r" "\<lambda>_. ''rejected''" signer_changed]
    by (simp add: cancel_queued_def row_task_def task_weight_def close_row_def)
next
  fix x :: task_row and t i
  assume "sha256_spec C" "tr_state x = ''queued''" "row_task x t" "0 < wrap64 (clk i)"
  then show "Event_validate (stamp (clk i) (TaskEvent ''task_cancelled'' t local ''rejected'' signer_changed (Digest C (tr_payload x))))
      \<and> \<not> decision_kind (e_Kind (TaskEvent ''task_cancelled'' t local ''rejected'' signer_changed (Digest C (tr_payload x))))"
    by (intro closing_event event_words) simp_all
qed (simp_all add: pending_def)

lemma filter_ready:
  "rows_ok C (v_tasks db) \<Longrightarrow> (\<And>r. Q r \<Longrightarrow> tr_state r = ''queued'') \<Longrightarrow> expiring.ready_rows C (filter Q (v_tasks db)) db"
  "rows_ok C (v_tasks db) \<Longrightarrow> cancelling.ready_rows C (filter (pending_of i) (v_tasks db)) db"
  by (auto simp: expiring.ready_rows_def cancelling.ready_rows_def rows_ok_def pending_of_def pending_def
      intro: distinct_map_filterI)

definition lapsed :: "string \<Rightarrow> int \<Rightarrow> task_row \<Rightarrow> bool" where
  "lapsed i now r \<longleftrightarrow> tr_agent r = i \<and> tr_state r = ''queued'' \<and> tr_expires r \<le> now"

definition expire_rows :: "string \<Rightarrow> int \<Rightarrow> task_row list \<Rightarrow> task_row list" where
  "expire_rows i now rows = close_rows (\<lambda>_. ''expired'') expired_before (filter (lapsed i now) rows) rows"

definition cancel_rows :: "string \<Rightarrow> task_row list \<Rightarrow> task_row list" where
  "cancel_rows i rows = close_rows cancel_status ''node_disabled'' (filter (pending_of i) rows) rows"

lemma expireTasks_alt:
  "expireTasks C i now clk db = fold_res (expire_task C clk) (enumerate 10 (filter (lapsed i now) (v_tasks db))) db"
  by (simp add: expireTasks_def lapsed_def [abs_def])

lemma lapsed_ready: "rows_ok C (v_tasks db) \<Longrightarrow> expiring.ready_rows C (filter (lapsed i now) (v_tasks db)) db"
  by (rule filter_ready(1)) (simp_all add: lapsed_def)

lemma expireTasks_sound:
  assumes "expireTasks C i now clk db = Inr db'" "rows_ok C (v_tasks db)" "books C k db"
  shows "rows_ok C (v_tasks db') \<and> books C k db' \<and> (\<exists>L. db' = db\<lparr>v_tasks := expire_rows i now (v_tasks db), v_audit := L\<rparr>)"
  using assms unfolding expireTasks_alt expire_rows_def
  by (intro expiring.loop_sound [where n = 10 and clk = clk] lapsed_ready)

lemma expireTasks_total:
  assumes "sha256_spec C" "\<forall>k. 0 < wrap64 (clk k)" "rows_ok C (v_tasks db)" "books C k db" "0 \<le> k"
  shows "\<exists>db'. expireTasks C i now clk db = Inr db'"
  using assms unfolding expireTasks_alt by (intro expiring.loop_total lapsed_ready)

lemma cancelNodeTasks_sound:
  assumes "cancelNodeTasks C i clk db = Inr db'" "rows_ok C (v_tasks db)" "books C k db"
  shows "rows_ok C (v_tasks db') \<and> books C k db' \<and> (\<exists>L. db' = db\<lparr>v_tasks := cancel_rows i (v_tasks db), v_audit := L\<rparr>)"
  using assms unfolding cancelNodeTasks_def cancel_rows_def
  by (intro cancelling.loop_sound [where n = 10 and clk = clk]) (simp_all add: filter_ready(2))

lemma cancelNodeTasks_total:
  assumes "sha256_spec C" "\<forall>k. 0 < wrap64 (clk k)" "rows_ok C (v_tasks db)" "books C k db" "0 \<le> k"
  shows "\<exists>db'. cancelNodeTasks C i clk db = Inr db'"
  using assms unfolding cancelNodeTasks_def by (intro cancelling.loop_total) (simp_all add: filter_ready(2))

text \<open>Rewriting rows in place holds the queue's bounds when no row becomes unfinished.\<close>

lemma queue_ok_map:
  assumes "queue_ok nodes rows" "\<And>r. r \<in> set rows \<Longrightarrow> tr_agent (h r) = tr_agent r \<and> (pending (h r) \<longrightarrow> pending r)"
  shows "queue_ok nodes (map h rows)"
proof -
  have "length (filter (pending_of i) (map h rows)) \<le> length (filter (pending_of i) rows)" for i
    using assms(2)
    by (induction rows) (auto simp: pending_of_def pending_def)
  then show ?thesis using assms by (fastforce simp: queue_ok_def intro: order_trans)
qed

lemma queue_ok_close:
  assumes "queue_ok nodes rows" "\<And>r. st r \<noteq> ''queued'' \<and> st r \<noteq> ''dispatched''"
  shows "queue_ok nodes (close_rows st ec rs rows)"
  unfolding close_rows_def using assms by (intro queue_ok_map) (auto simp: pending_def)

lemma cancel_rows_none: "r \<in> set (cancel_rows i rows) \<Longrightarrow> \<not> pending_of i r"
  by (auto simp: cancel_rows_def close_rows_def pending_of_def cancel_status_def split: if_splits)

definition disable_node :: "string \<Rightarrow> node_row list \<Rightarrow> node_row list" where
  "disable_node i nodes = map (\<lambda>r. if nr_agent r = i then r\<lparr>nr_enabled := False\<rparr> else r) nodes"

lemma enabled_disable:
  assumes "distinct (map nr_agent nodes)" "n \<in> set nodes" "nr_agent n = i" "nr_enabled n"
  shows "int (length (filter nr_enabled (disable_node i nodes))) = int (length (filter nr_enabled nodes)) - 1"
  using assms(1,2)
proof (induction nodes)
  case (Cons a nodes)
  show ?case
  proof (cases "a = n")
    case True
    with Cons.prems assms have "map (\<lambda>r. if nr_agent r = i then r\<lparr>nr_enabled := False\<rparr> else r) nodes = nodes"
      by (intro map_idI) (auto simp: image_iff)
    with True assms show ?thesis by (simp add: disable_node_def)
  next
    case False
    with Cons.prems assms have "nr_agent a \<noteq> i" "n \<in> set nodes" by (auto simp: image_iff)
    with Cons show ?thesis by (simp add: disable_node_def)
  qed
qed simp

lemma queue_ok_disable:
  assumes "queue_ok nodes rows" "\<And>r. r \<in> set rows \<Longrightarrow> \<not> pending_of i r"
  shows "queue_ok (disable_node i nodes) rows"
proof -
  have "\<exists>n\<in>set (disable_node i nodes). nr_agent n = tr_agent r \<and> nr_enabled n" if r: "r \<in> set rows" "pending r" for r
  proof -
    from r assms(1) obtain n where n: "n \<in> set nodes" "nr_agent n = tr_agent r" "nr_enabled n" by (auto simp: queue_ok_def)
    have "nr_agent n \<noteq> i" using assms(2) [OF r(1)] r(2) n(2) by (auto simp: pending_of_def pending_def)
    with n show ?thesis by (force simp: disable_node_def)
  qed
  then show ?thesis using assms(1) by (simp add: queue_ok_def)
qed

lemma disable_node_idle:
  assumes "nodes_ok nodes" "n \<in> set nodes" "nr_agent n = i" "\<not> nr_enabled n"
  shows "disable_node i nodes = nodes"
  unfolding disable_node_def
proof (rule map_idI)
  fix r assume "r \<in> set nodes"
  then have "r = n" if "nr_agent r = i" using that assms unique_row [of nr_agent nodes r n] by (simp add: nodes_ok_def)
  then show "(if nr_agent r = i then r\<lparr>nr_enabled := False\<rparr> else r) = r" using assms(4) by (cases r) auto
qed

lemma no_pending_of:
  assumes "queue_ok nodes rows" "nodes_ok nodes" "n \<in> set nodes" "nr_agent n = i" "\<not> nr_enabled n"
  shows "filter (pending_of i) rows = []"
proof -
  have "\<not> pending_of i r" if r: "r \<in> set rows" for r
  proof
    assume p: "pending_of i r"
    with r assms(1) obtain m where "m \<in> set nodes" "nr_agent m = i" "nr_enabled m"
      by (auto simp: queue_ok_def pending_of_def pending_def)
    with assms unique_row [of nr_agent nodes m n] show False by (auto simp: nodes_ok_def)
  qed
  then show ?thesis by (simp add: filter_empty_conv)
qed

lemma cancel_queue_ok:
  assumes "queue_ok nodes rows"
  shows "queue_ok (disable_node i nodes) (cancel_rows i rows)"
proof (rule queue_ok_disable)
  show "queue_ok nodes (cancel_rows i rows)"
    unfolding cancel_rows_def using assms by (rule queue_ok_close) (simp add: cancel_status_def)
qed (rule cancel_rows_none)

lemma nodes_ok_cong: "map nr_agent ns = map nr_agent ms \<Longrightarrow> nodes_ok ns = nodes_ok ms"
proof -
  have "nodes_ok ks \<longleftrightarrow> distinct (map nr_agent ks) \<and> (\<forall>a\<in>set (map nr_agent ks). Hex a 32) \<and> length (map nr_agent ks) \<le> MaxNodes" for ks
    by (simp add: nodes_ok_def)
  then show "map nr_agent ns = map nr_agent ms \<Longrightarrow> nodes_ok ns = nodes_ok ms" by presburger
qed

lemma nodes_ok_disable: "nodes_ok nodes \<Longrightarrow> nodes_ok (disable_node i nodes)"
  using nodes_ok_cong [of "disable_node i nodes" nodes] by (simp add: disable_node_def)

lemma node_event_valid:
  assumes "0 < wrap64 rd" "source_ok source" "length source \<le> 256" "audit_identifier actor 64" "Hex i 32"
    "audit_identifier kind 40" "kind \<noteq> ''''"
  shows "Event_validate (stamp rd (node_event kind i '''' actor source))"
proof -
  have "audit_identifier ''succeeded'' 32" "audit_identifier '''' 64"
    by (simp_all add: audit_identifier_def alnum_def char_in_def code_def)
  with assms source_ok_clean [OF assms(2,3)] show ?thesis
    by (simp add: Event_validate_def stamp_def node_event_def no_event_def)
qed

lemma books_disable:
  assumes "books C 0 db" "nodes_ok (v_nodes db)" "n \<in> set (v_nodes db)" "nr_agent n = i" "nr_enabled n"
  shows "books C 1 (db\<lparr>v_nodes := disable_node i (v_nodes db)\<rparr>)"
  using assms enabled_disable [of "v_nodes db" n i] by (simp add: books_def expected_reserved_def enabled_nodes_def nodes_ok_def)

lemma find_Some_mem: "find P xs = Some x \<Longrightarrow> x \<in> set xs \<and> P x"
  by (induction xs) (auto split: if_splits)

lemma disableTx_sound:
  assumes "disableTx C i actor source clk db = Inr db'" "server_inv C db" "source_ok source"
  shows "server_inv C db' \<and> (\<exists>L. db' = db\<lparr>v_nodes := disable_node i (v_nodes db), v_tasks := cancel_rows i (v_tasks db), v_audit := L\<rparr>)"
proof -
  have inv: "books C 0 db" "tables_ok C db" using assms(2) by (simp_all add: server_inv_def)
  then have ok: "nodes_ok (v_nodes db)" "queue_ok (v_nodes db) (v_tasks db)" "rows_ok C (v_tasks db)"
    by (simp_all add: tables_ok_def)
  from assms(1) obtain n where n: "find (\<lambda>r. nr_agent r = i) (v_nodes db) = Some n"
    by (auto simp: disableTx_def split: if_splits option.splits)
  then have nn: "n \<in> set (v_nodes db)" "nr_agent n = i" by (simp_all add: find_Some_mem [OF n, simplified])
  show ?thesis
  proof (cases "nr_enabled n")
    case False
    with assms(1) n have ap: "server_append C (clk 0) (node_event ''node_disable_unchanged'' i '''' actor source) 0 db = Inr db'"
      by (simp add: disableTx_def split: if_splits)
    from ap obtain L where "db' = db\<lparr>v_audit := L\<rparr>" unfolding server_append_eq_Inr by blast
    then have "db' = db\<lparr>v_nodes := disable_node i (v_nodes db), v_tasks := cancel_rows i (v_tasks db), v_audit := L\<rparr>"
      using disable_node_idle [OF ok(1) nn False] no_pending_of [OF ok(2,1) nn False] by (simp add: cancel_rows_def)
    moreover have "server_inv C db'"
      using record_inv [OF ap _ refl inv(1)] inv assms(3) by (simp add: server_inv_def)
    ultimately show ?thesis by blast
  next
    case True
    let ?db = "db\<lparr>v_nodes := disable_node i (v_nodes db)\<rparr>"
    from True assms(1) n obtain db1 where db1: "cancelNodeTasks C i clk ?db = Inr db1"
      "server_append C (clk 0) (node_event ''node_disabled'' i '''' actor source) (- 1) db1 = Inr db'"
      by (auto simp: disableTx_def disable_node_def result_simps split: if_splits)
    have "rows_ok C (v_tasks ?db)" using ok(3) by simp
    from cancelNodeTasks_sound [OF db1(1) this books_disable [OF inv(1) ok(1) nn True]]
    obtain L where r: "rows_ok C (v_tasks db1)" "books C 1 db1"
      "db1 = ?db\<lparr>v_tasks := cancel_rows i (v_tasks ?db), v_audit := L\<rparr>" by blast
    then have r3: "db1 = db\<lparr>v_nodes := disable_node i (v_nodes db), v_tasks := cancel_rows i (v_tasks db), v_audit := L\<rparr>" by simp
    from db1(2) obtain L' where L': "db' = db1\<lparr>v_audit := L'\<rparr>" unfolding server_append_eq_Inr by blast
    have "books C 0 db'" using r(2) assms(3) by (intro server_append_books [OF db1(2)]) (simp_all add: books_def)
    moreover have "queue_ok (disable_node i (v_nodes db)) (cancel_rows i (v_tasks db))"
      using ok(2) by (rule cancel_queue_ok)
    moreover have "tables_ok C (?db\<lparr>v_tasks := cancel_rows i (v_tasks db)\<rparr>)" if "queue_ok (disable_node i (v_nodes db)) (cancel_rows i (v_tasks db))"
      using inv(2) r(1) nodes_ok_disable [OF ok(1)] that by (simp add: tables_ok_def r3)
    ultimately have "server_inv C db'" by (simp add: server_inv_def L' r3)
    moreover have "db' = db\<lparr>v_nodes := disable_node i (v_nodes db), v_tasks := cancel_rows i (v_tasks db), v_audit := L'\<rparr>"
      by (simp add: L' r3)
    ultimately show ?thesis by blast
  qed
qed

lemma disableTx_total:
  assumes "sha256_spec C" "\<forall>k. 0 < wrap64 (clk k)" "server_inv C db" "source_ok source" "length source \<le> 256"
    "audit_identifier actor 64" "n \<in> set (v_nodes db)" "nr_agent n = i" "nr_enabled n"
  shows "\<exists>db'. disableTx C i actor source clk db = Inr db'"
proof -
  have inv: "books C 0 db" "nodes_ok (v_nodes db)" "rows_ok C (v_tasks db)" using assms(3) by (simp_all add: server_inv_def tables_ok_def)
  have hx: "Hex i 32" using inv(2) assms(7,8) by (auto simp: nodes_ok_def)
  from assms(7,8) obtain m where m: "find (\<lambda>r. nr_agent r = i) (v_nodes db) = Some m"
    by (cases "find (\<lambda>r. nr_agent r = i) (v_nodes db)") (auto simp: find_None_iff)
  with find_Some_mem have "m \<in> set (v_nodes db)" "nr_agent m = i" by fast+
  with assms(7-9) inv(2) unique_row [of nr_agent "v_nodes db" m n] have en: "nr_enabled m" by (simp add: nodes_ok_def)
  let ?db = "db\<lparr>v_nodes := disable_node i (v_nodes db)\<rparr>"
  have b: "books C 1 ?db" using books_disable [OF inv(1,2) assms(7-9)] .
  from cancelNodeTasks_total [OF assms(1,2) _ b] inv(3) obtain db1 where db1: "cancelNodeTasks C i clk ?db = Inr db1" by auto
  from cancelNodeTasks_sound [OF db1 _ b] inv(3) have b1: "books C 1 db1" by auto
  have "\<exists>db'. server_append C (clk 0) (node_event ''node_disabled'' i '''' actor source) (- 1) db1 = Inr db'"
  proof (rule server_append_total [OF assms(1) b1 refl])
    show "Event_validate (stamp (clk 0) (node_event ''node_disabled'' i '''' actor source))"
      using assms hx by (intro node_event_valid) (simp_all add: audit_identifier_def alnum_def char_in_def code_def)
  qed (use expected_nonneg [of db1] in \<open>simp_all add: node_event_def no_event_def decision_kind_def\<close>)
  then show ?thesis using hx m en db1 by (simp add: disableTx_def disable_node_def)
qed

subsection \<open>Verification conditions\<close>

text \<open>\<open>post Q r\<close>: if \<open>r\<close> is a result, \<open>Q\<close> holds of it. The rules \<open>post_intros\<close> take a transaction apart.\<close>

named_theorems post_intros "decomposition of transactions"

definition post :: "('a \<Rightarrow> bool) \<Rightarrow> 'a result \<Rightarrow> bool" where
  "post Q r \<longleftrightarrow> (\<forall>a. r = Inr a \<longrightarrow> Q a)"

lemma postD: "post Q r \<Longrightarrow> r = Inr a \<Longrightarrow> Q a"
  by (simp add: post_def)

lemma post_Inl [post_intros]: "post Q (Inl e)"
  by (simp add: post_def)

lemma post_Inr [post_intros]: "Q a \<Longrightarrow> post Q (Inr a)"
  by (simp add: post_def)

lemma post_andThen: "(\<And>a. r = Inr a \<Longrightarrow> post Q (f a)) \<Longrightarrow> post Q (andThen r f)"
  by (auto simp: post_def result_simps)

lemma post_if [post_intros]: "(b \<Longrightarrow> post Q x) \<Longrightarrow> (\<not> b \<Longrightarrow> post Q y) \<Longrightarrow> post Q (if b then x else y)"
  by simp

lemma post_option [post_intros]:
  "(o1 = None \<Longrightarrow> post Q x) \<Longrightarrow> (\<And>a. o1 = Some a \<Longrightarrow> post Q (f a)) \<Longrightarrow> post Q (case o1 of None \<Rightarrow> x | Some a \<Rightarrow> f a)"
  by (cases o1) simp_all

lemma post_sum [post_intros]:
  "(\<And>e. r = Inl e \<Longrightarrow> post Q (f e)) \<Longrightarrow> (\<And>a. r = Inr a \<Longrightarrow> post Q (g a)) \<Longrightarrow> post Q (case r of Inl e \<Rightarrow> f e | Inr a \<Rightarrow> g a)"
  by (cases r) simp_all

lemma post_prod [post_intros]: "(\<And>a b. p = (a, b) \<Longrightarrow> post Q (f a b)) \<Longrightarrow> post Q (case p of (a, b) \<Rightarrow> f a b)"
  by (cases p) simp

lemma post_Let [post_intros]: "(\<And>x. x = a \<Longrightarrow> post Q (f x)) \<Longrightarrow> post Q (Let a f)"
  by simp

definition holds :: "crypto \<Rightarrow> 'a \<times> server_db \<Rightarrow> bool" where
  "holds C p \<longleftrightarrow> server_inv C (snd p)"

lemma holds_pair [simp]: "holds C (a, db) = server_inv C db"
  by (simp add: holds_def)

lemma holds_pairI [post_intros]: "server_inv C db \<Longrightarrow> holds C (a, db)"
  by simp

lemma run_tx_inv:
  assumes "server_inv C db" "post (holds C) (body db)"
  shows "server_inv C (snd (run_tx body db))"
proof (rule run_tx_invariant [where I = "server_inv C"])
  fix r t assume "body db = Inr (r, t)"
  with assms(2) show "server_inv C t" by (auto dest: postD)
qed (rule assms)

subsection \<open>Operations that leave the reservations alone\<close>

lemma record_server_inv:
  assumes "server_append C rd e d db1 = Inr db2" "server_inv C db" "plain_event e" "v_audit db1 = v_audit db"
    and "expected_reserved db1 = expected_reserved db + d" "tables_ok C db1"
  shows "server_inv C db2"
  using record_inv [OF assms(1,3,4) _ assms(5,6), of 0] assms(2) by (simp add: server_inv_def)

lemma read_server_inv:
  assumes "server_append C rd e 0 db = Inr db2" "server_inv C db" "plain_event e"
  shows "server_inv C db2"
  using record_server_inv [OF assms(1,2,3)] assms(2) by (simp add: server_inv_def)

lemma post_record:
  assumes "server_inv C db" "plain_event e" "v_audit db1 = v_audit db"
    and "expected_reserved db1 = expected_reserved db + d" "tables_ok C db1" "\<And>db2. server_inv C db2 \<Longrightarrow> post Q (f db2)"
  shows "post Q (andThen (server_append C rd e d db1) f)"
  using record_server_inv [OF _ assms(1-5)] assms(6) by (intro post_andThen) blast

lemma post_read:
  assumes "server_inv C db" "plain_event e" "\<And>db2. server_inv C db2 \<Longrightarrow> post Q (f db2)"
  shows "post Q (andThen (server_append C rd e 0 db) f)"
  using read_server_inv [OF _ assms(1,2)] assms(3) by (intro post_andThen) blast

lemma expected_frame [simp]:
  "expected_reserved (db\<lparr>v_tokens := a\<rparr>) = expected_reserved db" "expected_reserved (db\<lparr>v_key_digest := b\<rparr>) = expected_reserved db"
  "expected_reserved (db\<lparr>v_trust := c\<rparr>) = expected_reserved db" "expected_reserved (db\<lparr>v_paused := d\<rparr>) = expected_reserved db"
  "expected_reserved (db\<lparr>v_creds := e\<rparr>) = expected_reserved db" "expected_reserved (db\<lparr>v_renewals := f\<rparr>) = expected_reserved db"
  "expected_reserved (db\<lparr>v_users := g\<rparr>) = expected_reserved db" "expected_reserved (db\<lparr>v_limits := h\<rparr>) = expected_reserved db"
  "expected_reserved (db\<lparr>v_admin_clock := i\<rparr>) = expected_reserved db"
  by (simp_all add: expected_reserved_def enabled_nodes_def)

lemma tokens_ok_issue:
  assumes "tokens_ok ks" "\<not> length (filter P ks) \<ge> MaxNodes" "\<not> list_ex (\<lambda>k. tk_hash k = tk_hash x) (filter P ks)"
  shows "tokens_ok (filter P ks @ [x])"
  using assms by (auto simp: tokens_ok_def distinct_map_filterI list_ex_iff)

lemma issueTokenTx_inv:
  assumes "server_inv C db" "source_ok source"
  shows "post (holds C) (issueTokenTx C ttl actor source b1 b2 clk db)"
proof -
  have ok: "tables_ok C db" "tokens_ok (v_tokens db)" using assms(1) by (simp_all add: server_inv_def tables_ok_def)
  show ?thesis
    unfolding issueTokenTx_def Let_def
    by (intro post_intros post_record [OF assms(1)])
      (simp_all add: assms, use ok in \<open>simp add: tables_ok_def tokens_ok_issue\<close>)
qed

lemma IssueToken_inv:
  assumes "server_inv C db"
  shows "server_inv C (snd (IssueToken C ttl b1 b2 clk db))"
  unfolding IssueToken_def using postD [OF issueTokenTx_inv [OF assms source_local]]
  by (intro run_tx_inv assms post_andThen post_intros) fastforce

lemma Credentials_inv:
  assumes "server_inv C db"
  shows "server_inv C (snd (Credentials C node rd db))"
  unfolding Credentials_def
  by (simp add: assms, intro impI run_tx_inv assms post_read post_intros) simp_all

lemma settings_ok [simp]:
  "tables_ok C (db\<lparr>v_key_digest := x\<rparr>) = tables_ok C db" "tables_ok C (db\<lparr>v_paused := b\<rparr>) = tables_ok C db"
  "tables_ok C (db\<lparr>v_trust := y\<rparr>) = tables_ok C db"
  by (simp_all add: tables_ok_def)

lemma inv_tables: "server_inv C db \<Longrightarrow> tables_ok C db"
  by (simp add: server_inv_def)

lemma PauseDispatch_inv:
  assumes "server_inv C db"
  shows "server_inv C (snd (PauseDispatch C paused clk db))"
  unfolding PauseDispatch_def
  by (intro run_tx_inv assms post_andThen [of "dispatchSettings C db"] post_intros post_record [OF assms]
      post_andThen [of "case x of None \<Rightarrow> Inr () | Some s \<Rightarrow> y s" for x y])
    (simp_all add: assms inv_tables [OF assms])

end
