(* ===== verification/Server_Inv.thy ===== *)
theory Server_Inv
  imports Server_Laws
begin

section \<open>Every operation holds the invariant\<close>

text \<open>
  One lemma per operation of \<open>internal/state\<close>: it takes a store that satisfies \<open>server_inv\<close> to one that does. The theory
  \<open>Server_Run\<close> collects them for histories.
\<close>

subsection \<open>Settings and credentials\<close>

lemma creds_ok_map:
  assumes "creds_ok cs" "\<And>c. cr_cert (f c) = cr_cert c" "\<And>c. cr_agent (f c) = cr_agent c" "\<And>c. cr_generation (f c) = cr_generation c"
  shows "creds_ok (map f cs)"
  using assms by (simp add: creds_ok_def comp_def)

lemma RevokeCertificate_inv:
  assumes "server_inv C db"
  shows "server_inv C (snd (RevokeCertificate C node hash rd db))"
proof -
  have ok: "tables_ok C db" "creds_ok (v_creds db)" using assms by (simp_all add: server_inv_def tables_ok_def)
  have t: "tables_ok C (db\<lparr>v_creds := map (\<lambda>c. if P c then c\<lparr>cr_revoked := True\<rparr> else c) (v_creds db)\<rparr>)" for P
    using ok creds_ok_map [OF ok(2), of "\<lambda>c. if P c then c\<lparr>cr_revoked := True\<rparr> else c"] by (simp add: tables_ok_def)
  show ?thesis
    unfolding RevokeCertificate_def Let_def
    by (simp add: assms, intro impI run_tx_inv assms post_intros post_record [OF assms]) (simp_all add: t)
qed

lemma ConfigureSigner_inv:
  assumes "server_inv C db"
  shows "server_inv C (snd (ConfigureSigner C key rd db))"
  unfolding ConfigureSigner_def Let_def
  by (simp add: assms, intro impI run_tx_inv assms post_andThen [of "dispatchSettings C db"] post_intros post_record [OF assms])
    (simp_all add: assms inv_tables [OF assms])

lemma InstallSignerTrust_inv:
  assumes "server_inv C db"
  shows "server_inv C (snd (InstallSignerTrust C expected nx clk db))"
proof (cases "TrustSet_Canonical C nx")
  case (Inr data)
  show ?thesis
    unfolding InstallSignerTrust_def Let_def Inr sum.case
    by (intro run_tx_inv assms post_andThen [of "dispatchSettings C db"] post_andThen [of "CheckTransition C x y z" for x y z]
        post_andThen [of "case x of None \<Rightarrow> Inr None | Some s \<Rightarrow> y s" for x y] post_intros post_record [OF assms])
      (simp_all add: assms inv_tables [OF assms])
qed (simp add: InstallSignerTrust_def assms)

lemma SwitchSigner_inv:
  assumes "server_inv C db"
  shows "server_inv C (snd (SwitchSigner C i clk db))"
  unfolding SwitchSigner_def
  by (intro run_tx_inv assms post_andThen [of "dispatchSettings C db"] post_andThen [of "TrustSet_Key x y" for x y]
      post_intros post_record [OF assms])
    (simp_all add: assms inv_tables [OF assms])

lemma Signers_inv:
  assumes "server_inv C db"
  shows "server_inv C (snd (Signers C rd db))"
  unfolding Signers_def
  by (intro run_tx_inv assms post_andThen [of "dispatchSettings C db"] post_read post_intros) (simp_all add: assms)

subsection \<open>Reading\<close>

lemma snapshotsTx_inv:
  assumes "server_inv C db" "source_ok source"
  shows "post (holds C) (snapshotsTx C after i limit actor source rd db)"
  unfolding snapshotsTx_def by (intro post_read assms post_intros) (simp add: assms)

lemma tasksTx_inv:
  assumes "server_inv C db" "source_ok source"
  shows "post (holds C) (tasksTx C after limit i actor source rd db)"
  unfolding tasksTx_def by (intro post_andThen [of "map_res x y" for x y] post_read assms post_intros) (simp add: assms)

lemma post_holds: "post (holds C) r \<Longrightarrow> (\<And>a db. server_inv C db \<Longrightarrow> post Q (f (a, db))) \<Longrightarrow> post Q (andThen r f)"
  by (rule post_andThen) (auto dest: postD)

lemma Snapshots_inv:
  assumes "server_inv C db"
  shows "server_inv C (snd (Snapshots C rd db))"
  unfolding Snapshots_def by (intro run_tx_inv assms post_holds [OF snapshotsTx_inv] post_intros) simp_all

lemma Tasks_inv:
  assumes "server_inv C db"
  shows "server_inv C (snd (Tasks C after limit rd db))"
  unfolding Tasks_def
  by (simp add: assms, intro impI run_tx_inv assms post_holds [OF tasksTx_inv] post_intros) simp_all

lemma Append_inv:
  assumes "Append C rd e 0 (v_audit db) = Inr L" "server_inv C db" "plain_event e"
  shows "server_inv C (db\<lparr>v_audit := L\<rparr>)"
proof -
  have "server_append C rd e 0 db = Inr (db\<lparr>v_audit := L\<rparr>)" by (simp add: server_append_def assms(1))
  then show ?thesis using assms(2,3) by (rule read_server_inv)
qed

lemma ReadTx_inv:
  assumes "ReadTx C rd after limit actor source (v_audit db) = Inr (page, L)" "server_inv C db" "source_ok source"
  shows "server_inv C (db\<lparr>v_audit := L\<rparr>)"
proof -
  have "post (\<lambda>p. server_inv C (db\<lparr>v_audit := snd p\<rparr>)) (ReadTx C rd after limit actor source (v_audit db))"
    unfolding ReadTx_def
    by (intro post_andThen post_intros, simp, erule Append_inv [OF _ assms(2)])
      (simp add: plain_event_def no_event_def assms(3))
  from postD [OF this assms(1)] show ?thesis by simp
qed

lemma Store_Audit_inv:
  assumes "server_inv C db"
  shows "server_inv C (snd (Store_Audit C rd after limit db))"
  using ReadTx_inv [OF _ assms source_local, of rd after limit local_operator] assms
  by (auto simp: Store_Audit_def audit_Read_def split: sum.splits prod.splits)

subsection \<open>Enrollment and telemetry\<close>

text \<open>\<open>same_creds db db'\<close>: only the credential table changed, and its keys stay unique.\<close>

definition creds_step :: "server_db \<Rightarrow> server_db \<Rightarrow> bool" where
  "creds_step db db' \<longleftrightarrow> (\<exists>cs. db' = db\<lparr>v_creds := cs\<rparr> \<and> (creds_ok (v_creds db) \<longrightarrow> creds_ok cs))"

lemma creds_step_refl: "creds_step db db"
  unfolding creds_step_def by (rule exI [of _ "v_creds db"]) simp

lemma creds_step_trans: "creds_step db db1 \<Longrightarrow> creds_step db1 db2 \<Longrightarrow> creds_step db db2"
  unfolding creds_step_def by fastforce

lemma creds_stepD:
  assumes "creds_step db db'" "tables_ok C db"
  shows "tables_ok C db'" "v_audit db' = v_audit db" "expected_reserved db' = expected_reserved db"
  using assms by (auto simp: creds_step_def tables_ok_def)

lemma insert_cred_step: "post (creds_step db) (insert_cred r db)"
  unfolding insert_cred_def
  by (intro post_intros) (fastforce simp: creds_step_def creds_ok_def list_ex_iff)

lemma creds_step_map:
  assumes "\<And>c. cr_cert (f c) = cr_cert c" "\<And>c. cr_agent (f c) = cr_agent c" "\<And>c. cr_generation (f c) = cr_generation c"
  shows "creds_step db (db\<lparr>v_creds := map f (v_creds db)\<rparr>)"
  using creds_ok_map [OF _ assms] unfolding creds_step_def by blast

lemma credentialMetadata_step: "post (creds_step db) (credentialMetadata C X oc oi db)"
  unfolding credentialMetadata_def Let_def
  by (cases oc; cases oi; simp add: post_intros; intro conjI impI post_intros creds_step_map) auto

lemma post_creds:
  assumes "post (creds_step db) r" "\<And>db'. creds_step db db' \<Longrightarrow> post Q (f db')"
  shows "post Q (andThen r f)"
  using assms by (intro post_andThen) (auto dest: postD)

lemma tables_enroll:
  assumes "tables_ok C db" "Hex (nr_agent n) 32" "length (v_nodes db) < MaxNodes" "\<forall>m\<in>set (v_nodes db). nr_agent m \<noteq> nr_agent n"
  shows "tables_ok C (db\<lparr>v_tokens := map (\<lambda>k. if P k then k\<lparr>tk_consumed := True\<rparr> else k) (v_tokens db), v_nodes := v_nodes db @ [n]\<rparr>)"
proof -
  let ?ks = "map (\<lambda>k. if P k then k\<lparr>tk_consumed := True\<rparr> else k) (v_tokens db)"
  have "map tk_hash ?ks = map tk_hash (v_tokens db)" by simp
  then have "tokens_ok ?ks" using assms(1) by (simp add: tokens_ok_def tables_ok_def del: map_map)
  moreover have "nodes_ok (v_nodes db @ [n])" using assms by (auto simp: nodes_ok_def tables_ok_def)
  moreover have "queue_ok (v_nodes db @ [n]) (v_tasks db)" using assms(1) by (auto simp: queue_ok_def tables_ok_def)
  ultimately show ?thesis using assms(1) by (simp add: tables_ok_def)
qed

lemma post_insert_node:
  assumes "(\<forall>m\<in>set (v_nodes db). nr_agent m \<noteq> nr_agent n) \<Longrightarrow> post Q (f (db\<lparr>v_nodes := v_nodes db @ [n]\<rparr>))"
  shows "post Q (andThen (insert_node n db) f)"
  using assms by (auto simp: insert_node_def list_ex_iff intro: post_intros)

lemma certs_step:
  "post (creds_step db) (case certs of [leaf, issuer] \<Rightarrow> credentialMetadata C X leaf issuer db | _ \<Rightarrow> Inr db)"
  by (auto intro: credentialMetadata_step post_Inr creds_step_refl split: list.splits)

lemma RegisterFrom_inv:
  assumes "server_inv C db" "source_ok source"
  shows "server_inv C (snd (RegisterFrom C X token r source certs clk db))"
proof (cases "andThen (tokenHash C token) (\<lambda>hash.
        if \<not> Node_Validate \<lparr>n_AgentID = g_AgentID r, n_EnrollmentEpoch = g_EnrollmentEpoch r\<rparr>
           \<or> \<not> Hex (g_CertificateSHA256 r) 64 \<or> \<not> g_Enabled r then Inl (Err ''invalid registration'')
        else andThen (registration_certs C r certs) (\<lambda>_. Inr hash))")
  case (Inl e)
  then show ?thesis by (simp add: RegisterFrom_def assms(1))
next
  case (Inr hash)
  then have hx: "Hex (g_AgentID r) 32" by (auto simp: result_simps Node_Validate_def split: if_splits)
  let ?n = "\<lparr>nr_agent = g_AgentID r, nr_epoch = g_EnrollmentEpoch r,
                nr_cert = g_CertificateSHA256 r, nr_enabled = True, nr_enrolled = unix_sec (clk 1), nr_received = 0,
                nr_heartbeat = None, nr_policy = '''', nr_task_state = ''''\<rparr>"
  have fin: "post (holds C) (andThen (server_append C rd e 1 db4) (\<lambda>db5. Inr (Inr (), db5)))"
    if "creds_step (db\<lparr>v_tokens := map (\<lambda>k. if P k then k\<lparr>tk_consumed := True\<rparr> else k) (v_tokens db), v_nodes := v_nodes db @ [?n]\<rparr>) db4"
      "length (v_nodes db) < MaxNodes" "\<forall>m\<in>set (v_nodes db). nr_agent m \<noteq> nr_agent ?n" "plain_event e" for db4 e rd P
  proof -
    note t = creds_stepD [OF that(1) tables_enroll [OF inv_tables [OF assms(1)] _ that(2,3)], simplified, OF hx]
    have "expected_reserved db4 = expected_reserved db + 1" using t(3) by (simp add: expected_reserved_def enabled_nodes_def)
    then show ?thesis
      by (intro post_record [OF assms(1) that(4)] post_intros) (simp_all add: t)
  qed
  show ?thesis
    unfolding RegisterFrom_def Inr sum.case Let_def
    by (intro run_tx_inv assms(1) post_if post_Inl post_insert_node post_creds [OF insert_cred_step]
        post_creds [OF certs_step] fin, rule creds_step_trans) (simp_all add: assms)
qed

lemma tables_touch:
  assumes "tables_ok C db" "\<And>n. nr_agent (f n) = nr_agent n" "\<And>n. nr_enabled (f n) = nr_enabled n"
  shows "tables_ok C (db\<lparr>v_nodes := map f (v_nodes db)\<rparr>)" "expected_reserved (db\<lparr>v_nodes := map f (v_nodes db)\<rparr>) = expected_reserved db"
proof -
  have "nodes_ok (map f (v_nodes db)) = nodes_ok (v_nodes db)" by (rule nodes_ok_cong) (simp add: assms)
  moreover have "queue_ok (map f (v_nodes db)) (v_tasks db) = queue_ok (v_nodes db) (v_tasks db)"
    using assms(2,3) by (simp add: queue_ok_def)
  ultimately show "tables_ok C (db\<lparr>v_nodes := map f (v_nodes db)\<rparr>)" using assms(1) by (simp add: tables_ok_def)
  have "map nr_enabled (map f (v_nodes db)) = map nr_enabled (v_nodes db)" by (simp add: assms)
  then have "length (filter nr_enabled (map f (v_nodes db))) = length (filter nr_enabled (v_nodes db))"
    by (metis (no_types) comp_def filter_map length_map map_map assms(3) filter_cong)
  then show "expected_reserved (db\<lparr>v_nodes := map f (v_nodes db)\<rparr>) = expected_reserved db"
    by (simp add: expected_reserved_def enabled_nodes_def)
qed

lemma SaveHeartbeat_inv:
  assumes "server_inv C db"
  shows "server_inv C (snd (SaveHeartbeat C oc h data clk db))"
proof -
  have t: "server_inv C (db\<lparr>v_nodes := map (\<lambda>r. if P r then r\<lparr>nr_heartbeat := a, nr_received := b, nr_policy := c, nr_task_state := d\<rparr>
      else r) (v_nodes db)\<rparr>)" for P a b c d
    using assms tables_touch [of C db "\<lambda>r. if P r then r\<lparr>nr_heartbeat := a, nr_received := b, nr_policy := c, nr_task_state := d\<rparr> else r"]
    by (simp add: server_inv_def books_def)
  show ?thesis
    unfolding SaveHeartbeat_def
    by (cases "Authorize C oc (clk 0) db")
      (simp_all add: assms, intro impI run_tx_inv assms post_andThen post_intros t)
qed

lemma post_insert_renewal:
  assumes "(\<forall>x\<in>set (v_renewals db). (rn_agent x, rn_id x) \<noteq> (rn_agent w, rn_id w)) \<Longrightarrow> post Q (f (db\<lparr>v_renewals := v_renewals db @ [w]\<rparr>))"
  shows "post Q (andThen (insert_renewal w db) f)"
  using assms by (auto simp: insert_renewal_def list_ex_iff intro: post_intros)

lemma renewal_record:
  assumes "server_inv C db" "creds_step db db1" "\<forall>x\<in>set (v_renewals db1). (rn_agent x, rn_id x) \<noteq> (rn_agent w, rn_id w)"
    "plain_event e" "\<And>db2. server_inv C db2 \<Longrightarrow> post Q (f db2)"
  shows "post Q (andThen (server_append C rd e 0 (db1\<lparr>v_renewals := v_renewals db1 @ [w]\<rparr>)) f)"
proof -
  note t = creds_stepD [OF assms(2) inv_tables [OF assms(1)]]
  have "tables_ok C (db1\<lparr>v_renewals := v_renewals db1 @ [w]\<rparr>)" using t(1) assms(3) by (auto simp: tables_ok_def)
  then show ?thesis using assms(4,5) t by (intro post_record [OF assms(1)]) simp_all
qed

lemma renew_issue_inv:
  assumes "server_inv C db" "source_ok source"
  shows "post (holds C) (renew_issue C X n old oldIssuer i q source clk db)"
proof -
  have ret: "creds_step db (d\<lparr>v_creds := map (\<lambda>c. if P c then c\<lparr>cr_retire_at := x\<rparr> else c) (v_creds d)\<rparr>)"
    if "creds_step db d" for d P x
    by (rule creds_step_trans [OF that creds_step_map]) auto
  show ?thesis
    unfolding renew_issue_def Let_def
    by (intro post_andThen [of "renewal_allowed x y z w" for x y z w] post_creds [OF credentialMetadata_step]
        post_andThen [of "pk_Issue X q n"] post_prod post_if post_Inl post_creds [OF insert_cred_step]
        post_andThen [of "DecodeRenewalResponse x" for x] post_insert_renewal
        post_andThen [of "authorizeCertificate C x y z" for x y z] post_Inr holds_pairI
        renewal_record [OF assms(1) ret])
      (erule creds_step_trans [OF creds_step_trans], assumption+, simp_all add: assms)
qed

lemma RenewCertificate_inv:
  assumes "server_inv C db" "source_ok source"
  shows "server_inv C (snd (RenewCertificate C X oc oldIssuer i oq source clk db))"
  unfolding RenewCertificate_def
  by (cases oq) (simp_all add: assms, intro impI run_tx_inv assms post_andThen [of "authorizeCertificate C x y z" for x y z]
      post_andThen [of "renewal_saved C X n' i' o' c' w' t' d'" for n' i' o' c' w' t' d'] post_intros renew_issue_inv)

subsection \<open>Tasks\<close>

lemma set_task_ok:
  assumes ok: "tables_ok C db" and x: "x \<in> set (v_tasks db)" "tr_request x = q"
    and f: "tr_request (f x) = q" "tr_agent (f x) = tr_agent x" "trow_ok C (f x)" "pending (f x) \<Longrightarrow> pending x"
  shows "tables_ok C (set_task q f db)" "expected_reserved (set_task q f db) = expected_reserved db - task_weight x + task_weight (f x)"
    "v_audit (set_task q f db) = v_audit db"
proof -
  let ?h = "\<lambda>r. if tr_request r = q then f r else r"
  have rows: "rows_ok C (v_tasks db)" "queue_ok (v_nodes db) (v_tasks db)" using ok by (simp_all add: tables_ok_def)
  then have d: "distinct (map tr_request (v_tasks db))" by (simp add: rows_ok_def)
  have only: "r = x" if "r \<in> set (v_tasks db)" "tr_request r = q" for r using unique_row [OF d that(1) x(1)] that x by simp
  have m: "map tr_request (map ?h (v_tasks db)) = map tr_request (v_tasks db)" using only f(1) by auto
  have "\<forall>r\<in>set (map ?h (v_tasks db)). trow_ok C r" using rows(1) only f(3) unfolding set_map ball_simps rows_ok_def by auto
  with m d have "rows_ok C (map ?h (v_tasks db))" by (simp add: rows_ok_def del: map_map)
  moreover have "queue_ok (v_nodes db) (map ?h (v_tasks db))" using rows(2) only f by (intro queue_ok_map) auto
  ultimately show "tables_ok C (set_task q f db)" using ok by (simp add: tables_ok_def set_task_def)
  show "expected_reserved (set_task q f db) = expected_reserved db - task_weight x + task_weight (f x)"
    using sum_update_key [OF d x(1), of task_weight f] x(2)
    by (simp add: expected_reserved_def enabled_nodes_def set_task_def)
qed (simp add: set_task_def)

lemma expireTasks_inv:
  assumes "server_inv C db"
  shows "post (\<lambda>db'. server_inv C db' \<and> v_nodes db' = v_nodes db) (expireTasks C i now clk db)"
proof -
  have inv: "books C 0 db" "tables_ok C db" "rows_ok C (v_tasks db)" "queue_ok (v_nodes db) (v_tasks db)"
    using assms by (simp_all add: server_inv_def tables_ok_def)
  have "server_inv C db' \<and> v_nodes db' = v_nodes db" if "expireTasks C i now clk db = Inr db'" for db'
  proof -
    from expireTasks_sound [OF that inv(3,1)] obtain L where s: "rows_ok C (v_tasks db')" "books C 0 db'"
      "db' = db\<lparr>v_tasks := expire_rows i now (v_tasks db), v_audit := L\<rparr>" by blast
    have "queue_ok (v_nodes db) (expire_rows i now (v_tasks db))"
      unfolding expire_rows_def using inv(4) by (rule queue_ok_close) simp
    with s(1) inv(2) have "tables_ok C db'" by (simp add: s(3) tables_ok_def)
    with s(2) show ?thesis by (simp add: server_inv_def s(3))
  qed
  then show ?thesis by (simp add: post_def)
qed

lemma post_expire:
  assumes "server_inv C db" "\<And>db'. server_inv C db' \<Longrightarrow> v_nodes db' = v_nodes db \<Longrightarrow> post Q (f db')"
  shows "post Q (andThen (expireTasks C i now clk db) f)"
  using postD [OF expireTasks_inv [OF assms(1)]] assms(2) by (intro post_andThen) blast

lemma post_insert_task:
  assumes "\<forall>x\<in>set (v_tasks db). tr_request x \<noteq> tr_request r \<Longrightarrow> post Q (f (db\<lparr>v_tasks := v_tasks db @ [r]\<rparr>))"
  shows "post Q (andThen (insert_task r db) f)"
  using assms by (auto simp: insert_task_def list_ex_iff intro: post_intros)

lemma row_task_new:
  assumes "Task_Validate t" "int64 (t_ExpiresAt t)" "MarshalTask t = Inr data"
  shows "DecodeTask data = Inr (stored_task t)"
proof -
  have "0 < t_CreatedAt t" "t_CreatedAt t < t_ExpiresAt t" using assms(1) by (auto simp: Task_Validate_def)
  then have "int64 (t_CreatedAt t)" using assms(2) by (simp add: int64_def)
  from MarshalTask_stored [OF assms(1) this assms(2)] assms(3) show ?thesis by auto
qed

lemma enqueue_store_inv:
  assumes inv: "server_inv C db" and src: "source_ok source" and e: "int64 (t_ExpiresAt t)"
    and n: "n \<in> set (v_nodes db)" "nr_agent n = t_AgentID t" "nr_enabled n"
    and room: "length (v_tasks db) < MaxStoredTasks" "length (filter (pending_of (t_AgentID t)) (v_tasks db)) < 10"
  shows "post (holds C) (enqueue_store C t keyDigest trust source clk db)"
proof -
  have new: "tables_ok C (db\<lparr>v_tasks := v_tasks db @ [r]\<rparr>)" "expected_reserved (db\<lparr>v_tasks := v_tasks db @ [r]\<rparr>) = expected_reserved db + 2"
    if r: "r = \<lparr>tr_sequence = s, tr_request = t_RequestID t, tr_agent = t_AgentID t,
            tr_epoch = t_EnrollmentEpoch t, tr_payload = data, tr_envelope = None, tr_state = ''queued'',
            tr_expires = t_ExpiresAt t, tr_result = None, tr_result_digest = '''', tr_code = ''''\<rparr>"
      and v: "Task_Validate t" "MarshalTask t = Inr data" and q: "\<forall>x\<in>set (v_tasks db). tr_request x \<noteq> t_RequestID t" for r s data
  proof -
    have "trow_ok C r" using row_task_new [OF v(1) e v(2)] by (simp add: trow_ok_def row_task_def r)
    then have "rows_ok C (v_tasks db @ [r])" using inv q by (auto simp: rows_ok_def server_inv_def tables_ok_def r)
    moreover have "queue_ok (v_nodes db) (v_tasks db @ [r])"
      using inv room n by (auto simp: queue_ok_def server_inv_def tables_ok_def r pending_of_def pending_def)
    ultimately show "tables_ok C (db\<lparr>v_tasks := v_tasks db @ [r]\<rparr>)" using inv by (simp add: server_inv_def tables_ok_def)
    show "expected_reserved (db\<lparr>v_tasks := v_tasks db @ [r]\<rparr>) = expected_reserved db + 2"
      by (simp add: expected_reserved_def enabled_nodes_def task_weight_def r)
  qed
  show ?thesis
    unfolding enqueue_store_def
    by (intro post_if post_Inl post_andThen [of "case trust of None \<Rightarrow> Inr () | Some s \<Rightarrow> y s" for y] post_andThen [of "MarshalTask t"]
        post_insert_task post_record [OF inv] post_Inr holds_pairI)
      (simp_all add: new [OF refl] src)
qed

lemma enqueueTx_inv:
  assumes "server_inv C db" "source_ok source"
  shows "post (holds C) (enqueueTx C i kind actor source ttl params rnd clk db)"
proof -
  have st: "post (holds C) (enqueue_store C (new_task request i (nr_epoch r) now ttl kind ps actor (nr_policy r)) kd trust source clk db1)"
    if "find (\<lambda>r. nr_agent r = i \<and> nr_enabled r) (v_nodes db) = Some r" "server_inv C db1" "v_nodes db1 = v_nodes db"
      "\<not> (length (v_tasks db1) \<ge> MaxStoredTasks \<or> length (filter (pending_of i) (v_tasks db1)) \<ge> 10)" for request r now ps kd trust db1
    using find_Some_mem [OF that(1)] that assms(2)
    by (intro enqueue_store_inv [where n = r]) (simp_all add: new_task_def)
  show ?thesis
    unfolding enqueueTx_def
    by (intro post_if post_Inl post_option post_sum post_prod post_expire [OF assms(1)] st) (simp_all add: post_intros)
qed

lemma Enqueue_inv:
  assumes "server_inv C db"
  shows "server_inv C (snd (Enqueue C i kind actor ttl params rnd clk db))"
  unfolding Enqueue_def by (intro run_tx_inv assms post_holds [OF enqueueTx_inv] post_intros) simp_all

lemma next_task_mem: "next_task n now rows = Some r \<Longrightarrow> r \<in> set rows \<and> pending_of (n_AgentID n) r \<and> tr_expires r > now"
  unfolding next_task_def by (drule find_Some_mem) simp

lemma row_ok_dispatch:
  "trow_ok C r \<Longrightarrow> tr_state r = ''queued'' \<Longrightarrow> trow_ok C (r\<lparr>tr_state := ''dispatched'', tr_envelope := Some e\<rparr>)"
  by (auto simp: trow_ok_def row_task_def pending_def split: option.splits)

lemma row_okD: "tables_ok C db \<Longrightarrow> r \<in> set (v_tasks db) \<Longrightarrow> trow_ok C r"
  by (simp add: tables_ok_def rows_ok_def)

lemma row_task_decode: "trow_ok C r \<Longrightarrow> DecodeTask (tr_payload r) = Inr t \<Longrightarrow> row_task r t"
  by (auto simp: trow_ok_def row_task_def)

lemma poll_row_inv:
  assumes inv: "server_inv C db" and r: "r \<in> set (v_tasks db)" "pending r" and src: "source_ok source"
  shows "post (holds C) (poll_row C n key trust source clk r db)"
proof -
  have d: "post (holds C) (andThen (server_append C (clk 4) ev (- 1)
      (set_task (t_RequestID t) (\<lambda>r. r\<lparr>tr_state := ''dispatched'', tr_envelope := Some e\<rparr>) db)) (\<lambda>db1. Inr (e, db1)))"
    if "DecodeTask (tr_payload r) = Inr t" "tr_state r = ''queued''" "plain_event ev" for t e ev
  proof -
    have ok: "trow_ok C r" using row_okD [OF inv_tables [OF inv] r(1)] .
    have q: "tr_request r = t_RequestID t" using row_task_decode [OF ok that(1)] by (simp add: row_task_def)
    note s = set_task_ok [OF inv_tables [OF inv] r(1) q, of "\<lambda>r. r\<lparr>tr_state := ''dispatched'', tr_envelope := Some e\<rparr>"]
    show ?thesis
      using row_ok_dispatch [OF ok that(2)] r(2) that(2,3) q
      by (intro post_record [OF inv] post_intros) (simp_all add: s task_weight_def)
  qed
  show ?thesis
    unfolding poll_row_def
    by (intro post_sum post_Inl post_if post_andThen [of "case trust of None \<Rightarrow> x | Some s \<Rightarrow> y s" for x y] d)
       (simp_all add: src Let_def, intro post_intros inv)
qed

lemma Poll_inv:
  assumes "server_inv C db" "source_ok source"
  shows "server_inv C (snd (Poll C oc policyDigest key source clk db))"
proof -
  have p: "post (holds C) (poll_row C n key trust source clk r db1)"
    if "server_inv C db1" "next_task n now (v_tasks db1) = Some r" for n trust r db1 now
    using next_task_mem [OF that(2)] that(1) assms(2) by (intro poll_row_inv) (auto simp: pending_of_def pending_def)
  show ?thesis
    unfolding Poll_def
    by (simp add: assms(1), intro impI run_tx_inv assms(1) post_andThen [of "authorizeCertificate C x y z" for x y z]
        post_expire [OF assms(1)] post_if post_sum post_Inl post_prod post_option post_holds [OF p] post_Inr holds_pairI)
      (simp_all add: assms(1))
qed

lemma DecodeResult_valid: "DecodeResult data = Inr r \<Longrightarrow> Result_Validate r"
proof -
  have "post Result_Validate (DecodeResult data)"
    unfolding DecodeResult_def by (intro post_andThen post_intros)
  then show "DecodeResult data = Inr r \<Longrightarrow> Result_Validate r" by (rule postD)
qed

lemma Result_final:
  assumes "Result_Validate r"
  shows "r_Status r \<noteq> ''queued'' \<and> r_Status r \<noteq> ''dispatched''"
  using assms by (auto simp: Result_Validate_def error_code_ok_def split: if_splits)

lemma row_ok_result:
  assumes "trow_ok C r" "DecodeTask (tr_payload r) = Inr t" "DecodeResult data = Inr v" "CheckAssignment v t"
    "length data \<le> MaxDispatchResultBytes" "r_Status v = Rejected \<or> r_Status v = Expired \<or> r_PolicyDigest v = t_PolicyDigest t"
  shows "trow_ok C (r\<lparr>tr_state := r_Status v, tr_result := Some data, tr_result_digest := Digest C data, tr_code := r_ErrorCode v\<rparr>)"
  using row_task_decode [OF assms(1,2)] assms(3-) Result_final [OF DecodeResult_valid [OF assms(3)]]
  by (auto simp: trow_ok_def row_task_def pending_def)

lemma SubmitResult_inv:
  assumes inv: "server_inv C db" and src: "source_ok source"
  shows "server_inv C (snd (SubmitResult C oc data source clk db))"
proof (cases "length data > MaxDispatchResultBytes \<or> \<not> is_ok (DecodeResult data)")
  case True
  then show ?thesis using inv by (auto simp: SubmitResult_def is_ok_iff split: sum.splits)
next
  case False
  then obtain v where v: "DecodeResult data = Inr v" "\<not> length data > MaxDispatchResultBytes" by (auto simp: is_ok_iff)
  have d: "post (holds C) (andThen (server_append C rd ev (- 1) (set_task (r_RequestID v)
      (\<lambda>x. x\<lparr>tr_state := r_Status v, tr_result := Some data, tr_result_digest := Digest C data, tr_code := r_ErrorCode v\<rparr>) db))
      (\<lambda>db1. Inr (Inr ack, db1)))"
    if f: "find (\<lambda>x. tr_request x = r_RequestID v \<and> P x) (v_tasks db) = Some row" and t: "DecodeTask (tr_payload row) = Inr t" "CheckAssignment v t"
      and "tr_state row = ''dispatched''" "plain_event ev"
        "\<not> (r_Status v \<noteq> Rejected \<and> r_Status v \<noteq> Expired \<and> r_PolicyDigest v \<noteq> t_PolicyDigest t)" for rd ev ack row t P
  proof -
    from find_Some_mem [OF f] have r: "row \<in> set (v_tasks db)" "tr_request row = r_RequestID v" by simp_all
    have ok: "trow_ok C row" using row_okD [OF inv_tables [OF inv] r(1)] .
    note s = set_task_ok [OF inv_tables [OF inv] r, of "\<lambda>x. x\<lparr>tr_state := r_Status v, tr_result := Some data,
        tr_result_digest := Digest C data, tr_code := r_ErrorCode v\<rparr>"]
    show ?thesis
      using row_ok_result [OF ok t(1) v(1) t(2)] v(2) that(6) r Result_final [OF DecodeResult_valid [OF v(1)]] that(4,5)
      by (intro post_record [OF inv] post_intros) (simp_all add: s task_weight_def pending_def)
  qed
  show ?thesis
    unfolding SubmitResult_def v(1) sum.case Let_def
    by (simp add: v(2) inv, intro run_tx_inv inv post_andThen [of "authorizeCertificate C x y z" for x y z] post_if post_sum post_Inl
        post_option post_Inr holds_pairI d)
      (simp_all add: src inv)
qed

lemma disableTx_inv:
  assumes "server_inv C db" "source_ok source"
  shows "post (server_inv C) (disableTx C i actor source clk db)"
  using disableTx_sound [OF _ assms] unfolding post_def by blast

lemma Disable_inv:
  assumes "server_inv C db"
  shows "server_inv C (snd (Disable C i clk db))"
  unfolding Disable_def
  by (intro run_tx_inv assms post_andThen post_intros, erule postD [OF disableTx_inv, rotated 2]) (simp_all add: assms)

lemma distinct_sort_key: "distinct (map f xs) \<Longrightarrow> distinct (map f (sort_key g xs))"
  by (metis distinct_map distinct_sort set_sort)

lemma CancelQueuedForSignerChange_inv:
  assumes inv: "server_inv C db"
  shows "server_inv C (snd (CancelQueuedForSignerChange C clk db))"
proof -
  have ok: "books C 0 db" "tables_ok C db" "rows_ok C (v_tasks db)" "queue_ok (v_nodes db) (v_tasks db)"
    using inv by (simp_all add: server_inv_def tables_ok_def)
  let ?rs = "take (MaxStoredTasks + 1) (sort_key tr_sequence (filter (\<lambda>r. tr_state r = ''queued'') (v_tasks db)))"
  have "distinct (map tr_request (sort_key tr_sequence (filter (\<lambda>r. tr_state r = ''queued'') (v_tasks db))))"
    using ok(3) by (intro distinct_sort_key distinct_map_filterI) (simp add: rows_ok_def)
  then have "distinct (map tr_request ?rs)" by (simp add: take_map [symmetric] distinct_take)
  moreover have "set ?rs \<subseteq> {r \<in> set (v_tasks db). tr_state r = ''queued''}"
    by (rule subset_trans [OF set_take_subset]) auto
  ultimately have rdy: "withdrawing.ready_rows C ?rs db" using ok(3) by (auto simp: withdrawing.ready_rows_def)
  have "server_inv C db'" if f: "fold_res (cancel_queued C clk) (enumerate 10 ?rs) db = Inr db'" for db'
  proof -
    from withdrawing.loop_sound [OF f rdy ok(1)] obtain L where s: "rows_ok C (v_tasks db')" "books C 0 db'"
      "db' = db\<lparr>v_tasks := close_rows (\<lambda>_. ''rejected'') signer_changed ?rs (v_tasks db), v_audit := L\<rparr>" by blast
    have "queue_ok (v_nodes db) (close_rows (\<lambda>_. ''rejected'') signer_changed ?rs (v_tasks db))"
      using ok(4) by (rule queue_ok_close) simp
    with s(1) ok(2) have "tables_ok C db'" by (simp add: s(3) tables_ok_def)
    with s(2) show ?thesis by (simp add: server_inv_def)
  qed
  then show ?thesis
    unfolding CancelQueuedForSignerChange_def Let_def
    by (intro run_tx_inv inv post_andThen post_prod post_if post_Inl post_Inr holds_pairI)
qed

subsection \<open>Sessions\<close>

lemma sessions_ok_filter: "sessions_ok us ss \<Longrightarrow> sessions_ok us (filter P ss)"
proof -
  assume s: "sessions_ok us ss"
  have "length (filter (\<lambda>s. se_user s = i) (filter P ss)) \<le> length (filter (\<lambda>s. se_user s = i) ss)" for i
    by (induction ss) auto
  with s show ?thesis by (auto simp: sessions_ok_def distinct_map_filterI intro: order_trans [OF length_filter_le] order_trans)
qed

lemma tables_sessions:
  "tables_ok C db \<Longrightarrow> sessions_ok (v_users db) ss \<Longrightarrow> tables_ok C (db\<lparr>v_sessions := ss\<rparr>)"
  by (simp add: tables_ok_def)

lemma length_remove_key:
  assumes "distinct (map f xs)" "x \<in> set xs"
  shows "int (length (filter (\<lambda>y. f y \<noteq> f x) xs)) = int (length xs) - 1"
  using assms
proof (induction xs)
  case (Cons a xs)
  show ?case
  proof (cases "a = x")
    case True
    with Cons.prems have "filter (\<lambda>y. f y \<noteq> f x) xs = xs" by (intro filter_True) (auto simp: image_iff)
    with True show ?thesis by simp
  next
    case False
    with Cons.prems have "f a \<noteq> f x" "x \<in> set xs" by (auto simp: image_iff)
    with Cons show ?thesis by simp
  qed
qed simp

definition drop_sessions :: "session_row list \<Rightarrow> session_row list \<Rightarrow> session_row list" where
  "drop_sessions xs ss = filter (\<lambda>s. se_id s \<notin> se_id ` set xs) ss"

lemma revokeSessionTx_sound:
  assumes r: "revokeSessionTx C (se_id x) actor source kind rd db = Inr db'" and inv: "server_inv C db" and src: "source_ok source"
    and x: "x \<in> set (v_sessions db)"
  shows "server_inv C db' \<and> (\<exists>L. db' = db\<lparr>v_sessions := drop_sessions [x] (v_sessions db), v_audit := L\<rparr>)"
proof -
  let ?db = "db\<lparr>v_sessions := drop_sessions [x] (v_sessions db)\<rparr>"
  from r have ap: "server_append C rd (admin_event kind actor source ''succeeded'' (se_id x)) (- 1) ?db = Inr db'"
    by (simp add: revokeSessionTx_def drop_sessions_def)
  have ok: "sessions_ok (v_users db) (v_sessions db)" using inv by (simp add: server_inv_def tables_ok_def)
  have "expected_reserved ?db = expected_reserved db + - 1"
    using length_remove_key [OF _ x, of se_id] ok
    by (simp add: expected_reserved_def enabled_nodes_def drop_sessions_def sessions_ok_def)
  moreover have "tables_ok C ?db"
    using inv ok by (intro tables_sessions) (simp_all add: inv_tables drop_sessions_def sessions_ok_filter)
  ultimately have "server_inv C db'" using inv src by (intro record_server_inv [OF ap inv]) simp_all
  moreover from ap obtain L where "db' = ?db\<lparr>v_audit := L\<rparr>" unfolding server_append_eq_Inr by blast
  ultimately show ?thesis by auto
qed

lemma admin_event_valid:
  assumes "0 < wrap64 rd" "source_ok source" "length source \<le> 256" "audit_identifier actor 64" "audit_identifier kind 40" "kind \<noteq> ''''"
    "audit_identifier status 32" "audit_identifier ec 64"
  shows "Event_validate (stamp rd (admin_event kind actor source status ec))"
  using assms source_ok_clean [OF assms(2,3)] by (simp add: Event_validate_def stamp_def admin_event_def no_event_def)

lemma Hex_identifier: "Hex s 32 \<Longrightarrow> audit_identifier s 64"
  using Hex_plain [of s 32] Hex_length [of s 32] by (auto simp: audit_identifier_def list_all_iff plain_char_def)

lemma revokeSessionTx_total:
  assumes "sha256_spec C" "0 < wrap64 rd" "server_inv C db" "source_ok source" "length source \<le> 256" "audit_identifier actor 64"
    "audit_identifier kind 40" "kind \<noteq> ''''" "\<not> decision_kind kind" "x \<in> set (v_sessions db)"
  shows "\<exists>db'. revokeSessionTx C (se_id x) actor source kind rd db = Inr db'"
  unfolding revokeSessionTx_def
proof (rule server_append_total [OF assms(1), of 0 db])
  have "Hex (se_id x) 32" using assms(3,10) by (auto simp: server_inv_def tables_ok_def sessions_ok_def)
  then show "Event_validate (stamp rd (admin_event kind actor source ''succeeded'' (se_id x)))"
    using assms Hex_identifier by (intro admin_event_valid) (simp_all add: audit_identifier_def alnum_def char_in_def code_def)
  have "0 < length (v_sessions db)" using assms(10) by (cases "v_sessions db") auto
  moreover have "int (length (v_sessions db)) \<le> expected_reserved db"
    using task_weight_pos(2) unfolding expected_reserved_def enabled_nodes_def
    by (auto intro!: sum_list_nonneg add_increasing add_increasing2)
  ultimately show "0 \<le> expected_reserved db + 0 + - 1" by linarith
qed (use assms in \<open>simp_all add: server_inv_def admin_event_def no_event_def\<close>)

text \<open>The loops that end sessions: all of them, one entry and one returned slot each.\<close>

lemma session_loop_sound:
  assumes "fold_res (\<lambda>(k, s). revokeSessionTx C (se_id s) (act s) source kind (clk k)) (enumerate n xs) db = Inr db'"
    "server_inv C db" "source_ok source" "distinct (map se_id xs)" "set xs \<subseteq> set (v_sessions db)"
  shows "server_inv C db' \<and> (\<exists>L. db' = db\<lparr>v_sessions := drop_sessions xs (v_sessions db), v_audit := L\<rparr>)"
  using assms(1,2,4,5)
proof (induction xs arbitrary: n db)
  case Nil
  have "db = db\<lparr>v_sessions := drop_sessions [] (v_sessions db), v_audit := v_audit db\<rparr>" by (simp add: drop_sessions_def)
  moreover have "db' = db" using Nil by simp
  ultimately show ?case using Nil(2) by blast
next
  case (Cons x xs)
  then obtain db1 where db1: "revokeSessionTx C (se_id x) (act x) source kind (clk n) db = Inr db1"
    "fold_res (\<lambda>(k, s). revokeSessionTx C (se_id s) (act s) source kind (clk k)) (enumerate (Suc n) xs) db1 = Inr db'"
    by (auto simp: result_simps)
  from revokeSessionTx_sound [OF db1(1) Cons.prems(2) assms(3)] Cons.prems(4) obtain L where
    s: "server_inv C db1" "db1 = db\<lparr>v_sessions := drop_sessions [x] (v_sessions db), v_audit := L\<rparr>" by auto
  have "set xs \<subseteq> set (v_sessions db1)" using Cons.prems(3,4) by (auto simp: s(2) drop_sessions_def image_iff)
  from Cons.IH [OF db1(2) s(1) _ this] Cons.prems(3) obtain L' where
    t: "server_inv C db'" "db' = db1\<lparr>v_sessions := drop_sessions xs (v_sessions db1), v_audit := L'\<rparr>" by auto
  have "drop_sessions xs (v_sessions db1) = drop_sessions (x # xs) (v_sessions db)"
    by (simp add: s(2) drop_sessions_def conj_commute)
  with t show ?case by (auto simp: s(2))
qed

lemma session_loop_total:
  assumes "sha256_spec C" "\<forall>k. 0 < wrap64 (clk k)" "server_inv C db" "source_ok source" "length source \<le> 256"
    "\<forall>s\<in>set xs. audit_identifier (act s) 64" "audit_identifier kind 40" "kind \<noteq> ''''" "\<not> decision_kind kind"
    "distinct (map se_id xs)" "set xs \<subseteq> set (v_sessions db)"
  shows "\<exists>db'. fold_res (\<lambda>(k, s). revokeSessionTx C (se_id s) (act s) source kind (clk k)) (enumerate n xs) db = Inr db'"
  using assms(3,6,10,11)
proof (induction xs arbitrary: n db)
  case (Cons x xs)
  then obtain db1 where db1: "revokeSessionTx C (se_id x) (act x) source kind (clk n) db = Inr db1"
    using revokeSessionTx_total [OF assms(1) _ Cons.prems(1) assms(4,5) _ assms(7-9), of "clk n" "act x" x] assms(2) by auto
  from revokeSessionTx_sound [OF db1(1) Cons.prems(1) assms(4)] Cons.prems(4) obtain L where
    s: "server_inv C db1" "db1 = db\<lparr>v_sessions := drop_sessions [x] (v_sessions db), v_audit := L\<rparr>" by auto
  have "set xs \<subseteq> set (v_sessions db1)" using Cons.prems(3,4) by (auto simp: s(2) drop_sessions_def image_iff)
  from Cons.IH [OF s(1) _ _ this, of "Suc n"] Cons.prems(2,3) db1 show ?case by auto
qed simp

lemma drop_filter: "distinct (map se_id ss) \<Longrightarrow> drop_sessions (filter P ss) ss = filter (\<lambda>s. \<not> P s) ss"
  unfolding drop_sessions_def by (rule filter_cong) (auto dest: unique_row)

lemma inv_sessions:
  assumes "server_inv C db"
  shows "distinct (map se_id (v_sessions db))" "sessions_ok (v_users db) (v_sessions db)" "users_ok (v_users db)"
  using assms by (simp_all add: server_inv_def tables_ok_def sessions_ok_def)

lemma expireSessionsTx_sound:
  assumes "expireSessionsTx C now clk db = Inr db'" "server_inv C db"
  shows "server_inv C db' \<and> (\<exists>L. db' = db\<lparr>v_sessions := filter (\<lambda>s. \<not> session_over now s) (v_sessions db), v_audit := L\<rparr>)"
  using session_loop_sound [OF assms(1) [unfolded expireSessionsTx_def] assms(2)] inv_sessions(1) [OF assms(2)]
  by (auto simp: drop_filter distinct_map_filterI)

lemma expireSessionsTx_total:
  assumes "sha256_spec C" "\<forall>k. 0 < wrap64 (clk k)" "server_inv C db"
  shows "\<exists>db'. expireSessionsTx C now clk db = Inr db'"
  unfolding expireSessionsTx_def
proof (rule session_loop_total [OF assms])
  have "Hex (se_user s) 32" if "s \<in> set (v_sessions db)" for s
    using inv_sessions [OF assms(3)] that by (fastforce simp: sessions_ok_def users_ok_def)
  then show "\<forall>s\<in>set (filter (session_over now) (v_sessions db)). audit_identifier (se_user s) 64" by (simp add: Hex_identifier)
qed (use inv_sessions(1) [OF assms(3)] in \<open>auto simp: distinct_map_filterI audit_identifier_def alnum_def char_in_def code_def decision_kind_def\<close>)

lemma revokeUserSessionsTx_sound:
  assumes "revokeUserSessionsTx C user actor source clk db = Inr db'" "server_inv C db" "source_ok source"
  shows "server_inv C db' \<and> (\<exists>L. db' = db\<lparr>v_sessions := filter (\<lambda>s. se_user s \<noteq> user) (v_sessions db), v_audit := L\<rparr>)"
  using session_loop_sound [OF assms(1) [unfolded revokeUserSessionsTx_def] assms(2,3)] inv_sessions(1) [OF assms(2)]
  by (auto simp: drop_filter distinct_map_filterI)

lemma post_expireSessions:
  assumes "server_inv C db" "\<And>db'. server_inv C db' \<Longrightarrow> v_users db' = v_users db \<Longrightarrow> v_sessions db' = filter (\<lambda>s. \<not> session_over now s) (v_sessions db)
    \<Longrightarrow> post Q (f db')"
  shows "post Q (andThen (expireSessionsTx C now clk db) f)"
proof (rule post_andThen)
  fix db' assume "expireSessionsTx C now clk db = Inr db'"
  from expireSessionsTx_sound [OF this assms(1)] obtain L where "server_inv C db'"
    "db' = db\<lparr>v_sessions := filter (\<lambda>s. \<not> session_over now s) (v_sessions db), v_audit := L\<rparr>" by blast
  then show "post Q (f db')" by (intro assms(2)) simp_all
qed

lemma tables_admin [simp]:
  "tables_ok C (db\<lparr>v_admin_clock := a\<rparr>) = tables_ok C db" "tables_ok C (db\<lparr>v_limits := b\<rparr>) = tables_ok C db"
  by (simp_all add: tables_ok_def)

lemma inv_admin [simp]:
  "server_inv C (db\<lparr>v_admin_clock := a\<rparr>) = server_inv C db" "server_inv C (db\<lparr>v_limits := b\<rparr>) = server_inv C db"
  by (simp_all add: server_inv_def books_def)

lemma post_adminClock:
  assumes "post Q (f (db\<lparr>v_admin_clock := max (v_admin_clock db) now\<rparr>))"
  shows "post Q (andThen (adminClock now db) f)"
  using assms by (auto simp: adminClock_def intro: post_intros)

lemma post_admitLogin:
  assumes "\<And>allowed first rows. post Q (f (allowed, first, db\<lparr>v_limits := rows\<rparr>))"
  shows "post Q (andThen (admitLogin C name source now db) f)"
proof (rule post_andThen)
  fix r assume "admitLogin C name source now db = Inr r"
  then obtain allowed first rows where "r = (allowed, first, db\<lparr>v_limits := rows\<rparr>)"
    by (auto simp: admitLogin_def result_simps)
  with assms show "post Q (f r)" by simp
qed

lemma login_admit_inv:
  assumes "server_inv C db" "source_ok source"
  shows "server_inv C (snd (login_admit C name password source acquired clk db))"
  unfolding login_admit_def Let_def
  by (simp add: assms(1), intro impI run_tx_inv assms(1) post_adminClock post_admitLogin post_prod)
    (clarsimp, intro conjI impI post_read post_intros; simp add: assms)

lemma post_insert_session:
  assumes "\<forall>x\<in>set (v_sessions db). se_hash x \<noteq> se_hash s \<and> se_id x \<noteq> se_id s \<Longrightarrow> post Q (f (db\<lparr>v_sessions := v_sessions db @ [s]\<rparr>))"
  shows "post Q (andThen (insert_session s db) f)"
  using assms by (auto simp: insert_session_def list_ex_iff intro: post_intros)

lemma still_live_user:
  assumes "still_live l db"
  shows "\<exists>u\<in>set (v_users db). us_id u = ur_ID (lp_user l) \<and> us_enabled u \<and> us_generation u = lp_generation l
     \<and> us_hash u = lp_encoded l \<and> us_role u = ur_Role (lp_user l)"
proof -
  have "filter (\<lambda>u. us_id u = ur_ID (lp_user l) \<and> us_enabled u \<and> us_generation u = lp_generation l
     \<and> us_hash u = lp_encoded l \<and> us_role u = ur_Role (lp_user l)) (v_users db) \<noteq> []"
    using assms unfolding still_live_def by (metis list.size(3) zero_neq_one)
  then show ?thesis unfolding filter_empty_conv by blast
qed

lemma still_live_clock [simp]: "still_live l (db\<lparr>v_admin_clock := a\<rparr>) = still_live l db"
  by (simp add: still_live_def)

lemma sessions_ok_add:
  assumes "sessions_ok us ss" "\<forall>x\<in>set ss. se_hash x \<noteq> se_hash s \<and> se_id x \<noteq> se_id s" "Hex (se_id s) 32"
    "u \<in> set us" "us_id u = se_user s" "us_enabled u" "length ss < MaxSessions" "length (filter (\<lambda>x. se_user x = se_user s) ss) < 8"
  shows "sessions_ok us (ss @ [s])"
  using assms by (auto simp: sessions_ok_def)

lemma login_issue_inv:
  assumes inv: "server_inv C db" and src: "source_ok source" and b: "length b3 = 16"
  shows "server_inv C (snd (login_issue C l match cancelled source b1 b2 b3 clk db))"
proof -
  have new: "post (holds C) (andThen (server_append C rd e 1 (db2\<lparr>v_sessions := v_sessions db2 @ [s]\<rparr>)) (\<lambda>db4. Inr (r, db4)))"
    if "server_inv C db2" "\<forall>x\<in>set (v_sessions db2). se_hash x \<noteq> se_hash s \<and> se_id x \<noteq> se_id s" "se_id s = RandomID b3"
      "\<exists>u\<in>set (v_users db2). us_id u = se_user s \<and> us_enabled u"
      "\<not> (length (v_sessions db2) \<ge> MaxSessions \<or> length (filter (\<lambda>x. se_user x = se_user s) (v_sessions db2)) \<ge> 8)" "plain_event e"
    for db2 s e rd r
  proof -
    from that RandomID_Hex [OF b] inv_sessions(2) [OF that(1)] have "sessions_ok (v_users db2) (v_sessions db2 @ [s])"
      by (auto intro: sessions_ok_add)
    then have "tables_ok C (db2\<lparr>v_sessions := v_sessions db2 @ [s]\<rparr>)" using inv_tables [OF that(1)] by (rule tables_sessions [rotated])
    then show ?thesis using that(6)
      by (intro post_record [OF that(1)] post_intros) (simp_all add: expected_reserved_def enabled_nodes_def)
  qed
  show ?thesis
  proof (cases match)
    case (Inr ok)
    show ?thesis
      unfolding login_issue_def Inr sum.case Let_def
      by (simp add: inv, intro impI run_tx_inv inv post_adminClock post_if post_Inl post_expireSessions post_insert_session new post_read post_Inr holds_pairI)
        (simp_all add: src inv, use still_live_user [of l db] in blast)
  qed (simp add: login_issue_def inv)
qed

subsection \<open>Accounts\<close>

lemma CreateUser_inv:
  assumes inv: "server_inv C db" and b: "length rnd = 16"
  shows "server_inv C (snd (CreateUser C K name role password acquired salt rnd rd db))"
proof -
  have new: "post (holds C) (andThen (insert_user u db) (\<lambda>db1. andThen (server_append C rd e 0 db1) (\<lambda>db2. Inr (r, db2))))"
    if u: "us_id u = RandomID rnd" "Role (us_role u)" "Username (us_name u)" "length (v_users db) < MaxUsers" "plain_event e" for u e r
  proof -
    have "tables_ok C (db\<lparr>v_users := v_users db @ [u]\<rparr>)" if "\<not> list_ex (\<lambda>x. us_id x = us_id u \<or> us_name x = us_name u) (v_users db)"
      using inv_tables [OF inv] that u RandomID_Hex [OF b]
      by (auto simp: tables_ok_def users_ok_def sessions_ok_def list_ex_iff)
    then show ?thesis
      using u(5) by (auto simp: insert_user_def intro!: post_intros post_record [OF inv])
  qed
  show ?thesis
    unfolding CreateUser_def
    by (simp add: inv split: sum.split, intro impI allI run_tx_inv inv post_if post_Inl)
      (simp add: Let_def, intro new; simp)
qed

lemma Users_inv:
  assumes "server_inv C db"
  shows "server_inv C (snd (Users C rd db))"
  unfolding Users_def by (intro run_tx_inv assms post_read post_intros) (simp_all add: assms)

lemma users_ok_map:
  assumes "users_ok us" "\<And>u. us_id (f u) = us_id u" "\<And>u. us_name (f u) = us_name u" "\<And>u. u \<in> set us \<Longrightarrow> Role (us_role (f u))"
  shows "users_ok (map f us)"
  using assms by (simp add: users_ok_def comp_def)

lemma change_account_sel [simp]:
  "us_id (change_account a v u) = us_id u" "us_name (change_account a v u) = us_name u"
  by (simp_all add: change_account_def Let_def)

lemma change_account_role:
  "change_value K action value0 acquired salt = Inr val \<Longrightarrow> Role (us_role u) \<Longrightarrow> Role (us_role (change_account action val u))"
  by (auto simp: change_account_def change_value_def Let_def split: if_splits)

lemma length_filter_split: "int (length (filter P xs)) = int (length xs) - int (length (filter (\<lambda>x. \<not> P x) xs))"
  using sum_length_filter_compl [of P xs] by linarith

lemma ChangeUser_inv:
  assumes inv: "server_inv C db"
  shows "server_inv C (snd (ChangeUser C K name action value0 acquired salt rd db))"
proof (cases "Username name \<and> is_ok (change_value K action value0 acquired salt)")
  case False
  then show ?thesis using inv by (auto simp: ChangeUser_def is_ok_iff split: sum.splits)
next
  case True
  then obtain val where v: "change_value K action value0 acquired salt = Inr val" "Username name" by (auto simp: is_ok_iff)
  have ok: "tables_ok C (db\<lparr>v_sessions := filter (\<lambda>s. se_user s \<noteq> i) (v_sessions db),
      v_users := map (\<lambda>x. if us_id x = i then change_account action val x else x) (v_users db)\<rparr>)" for i
  proof -
    let ?f = "\<lambda>x. if us_id x = i then change_account action val x else x"
    have u: "users_ok (map ?f (v_users db))"
      using inv_sessions(3) [OF inv] change_account_role [OF v(1)] by (intro users_ok_map) (auto simp: users_ok_def)
    have "sessions_ok (v_users db) (filter (\<lambda>s. se_user s \<noteq> i) (v_sessions db))"
      using inv_sessions(2) [OF inv] by (rule sessions_ok_filter)
    then have "sessions_ok (map ?f (v_users db)) (filter (\<lambda>s. se_user s \<noteq> i) (v_sessions db))"
      by (fastforce simp: sessions_ok_def)
    with u inv_tables [OF inv] show ?thesis by (simp add: tables_ok_def)
  qed
  have ex: "expected_reserved (db\<lparr>v_sessions := filter (\<lambda>s. se_user s \<noteq> i) (v_sessions db)\<rparr>)
      = expected_reserved db - int (length (filter (\<lambda>s. se_user s = i) (v_sessions db)))" for i
    using length_filter_split [of "\<lambda>s. se_user s \<noteq> i" "v_sessions db"] by (simp add: expected_reserved_def enabled_nodes_def)
  show ?thesis
    unfolding ChangeUser_def v(1) sum.case Let_def
    by (simp only: v(2) not_True_eq_False if_False, intro run_tx_inv inv post_option post_Inl post_if post_record [OF inv] post_Inr holds_pairI)
      (simp_all add: ok ex)
qed

lemma sessions_ok_users:
  assumes "sessions_ok us ss" "\<And>u. us_id (f u) = us_id u" "\<And>u. us_enabled (f u) = us_enabled u"
  shows "sessions_ok (map f us) ss"
  using assms by (simp add: sessions_ok_def)

lemma tables_bump:
  assumes "tables_ok C db"
  shows "tables_ok C (db\<lparr>v_sessions := [], v_users := map bump (v_users db)\<rparr>)"
    "tables_ok C (db\<lparr>v_users := map (\<lambda>u. if us_id u = i then bump u else u) (v_users db)\<rparr>)"
proof -
  have u: "users_ok (v_users db)" "sessions_ok (v_users db) (v_sessions db)" using assms by (simp_all add: tables_ok_def)
  then have "users_ok (map bump (v_users db))" by (intro users_ok_map) (auto simp: bump_def users_ok_def)
  then show "tables_ok C (db\<lparr>v_sessions := [], v_users := map bump (v_users db)\<rparr>)"
    using assms by (simp add: tables_ok_def sessions_ok_def)
  have "users_ok (map (\<lambda>u. if us_id u = i then bump u else u) (v_users db))"
    using u(1) by (intro users_ok_map) (auto simp: bump_def users_ok_def)
  moreover have "sessions_ok (map (\<lambda>u. if us_id u = i then bump u else u) (v_users db)) (v_sessions db)"
    using u(2) by (rule sessions_ok_users) (simp_all add: bump_def)
  ultimately show "tables_ok C (db\<lparr>v_users := map (\<lambda>u. if us_id u = i then bump u else u) (v_users db)\<rparr>)"
    using assms by (simp add: tables_ok_def)
qed

lemma expected_all_revoked:
  "expected_reserved (db\<lparr>v_sessions := []\<rparr>) = expected_reserved db - int (length (v_sessions db))"
  by (simp add: expected_reserved_def enabled_nodes_def)

lemma RevokeAllSessions_inv:
  assumes inv: "server_inv C db"
  shows "server_inv C (snd (RevokeAllSessions C rd db))"
  unfolding RevokeAllSessions_def
  by (intro run_tx_inv inv post_record [OF inv] post_intros)
    (simp_all add: tables_bump [OF inv_tables [OF inv]] expected_all_revoked)

lemma post_fold:
  assumes "\<And>x s. I s \<Longrightarrow> post I (f x s)" "I s"
  shows "post I (fold_res f xs s)"
  using assms(2)
proof (induction xs arbitrary: s)
  case (Cons x xs)
  show ?case unfolding fold_res.simps using postD [OF assms(1) [OF Cons.prems]] Cons.IH by (intro post_andThen) blast
qed (simp add: post_intros)

lemma tables_quarantine:
  assumes "tables_ok C db"
  shows "tables_ok C (db\<lparr>v_sessions := [], v_users := map bump (v_users db), v_tokens := map (\<lambda>k. k\<lparr>tk_consumed := True\<rparr>) (v_tokens db)\<rparr>)"
proof -
  have "tokens_ok (map (\<lambda>k. k\<lparr>tk_consumed := True\<rparr>) (v_tokens db))"
    using assms by (simp add: tables_ok_def tokens_ok_def comp_def)
  then show ?thesis using tables_bump(1) [OF assms] by (simp add: tables_ok_def)
qed

lemma QuarantineRestore_inv:
  assumes inv: "server_inv C db"
  shows "server_inv C (snd (QuarantineRestore C ck db))"
proof -
  have f: "post (server_inv C) (fold_res (\<lambda>(j, i). disableTx C i local_operator ''local-restore'' (ck (j + 1))) xs db)" for xs
    by (rule post_fold) (auto intro: disableTx_inv inv)
  have g: "post (holds C) (andThen (server_append C rd (admin_event kind local_operator local status ec) (- int (length (v_sessions db1)))
         (db1\<lparr>v_sessions := [], v_users := map bump (v_users db1), v_tokens := map (\<lambda>k. k\<lparr>tk_consumed := True\<rparr>) (v_tokens db1)\<rparr>))
         (\<lambda>db2. Inr (r, db2)))" if "server_inv C db1" for db1 kind status ec r rd
    by (intro post_record [OF that] post_intros) (simp_all add: tables_quarantine [OF inv_tables [OF that]] expected_all_revoked)
  show ?thesis
    unfolding QuarantineRestore_def using postD [OF f]
    by (intro run_tx_inv inv post_andThen [of "fold_res x y z" for x y z] g)
qed

subsection \<open>Management\<close>

lemma authorizeAdminTx_sound:
  assumes "authorizeAdminTx C token now db = Inr current"
  obtains s u where "s \<in> set (v_sessions db)" "u \<in> set (v_users db)" "sessionHash C token = Inr (se_hash s)"
    "us_id u = se_user s" "us_enabled u" "se_expires s > now" "se_last_used s > now - SessionIdle" "se_created s \<le> now + 30"
    "Role (us_role u)" "current = \<lparr>sn_User = user_of u, sn_ID = se_id s, sn_Hash = se_hash s, sn_ExpiresAt = se_expires s\<rparr>"
proof -
  from assms obtain h where h: "sessionHash C token = Inr h" by (auto simp: authorizeAdminTx_def result_simps)
  let ?P = "\<lambda>(s, u). se_hash s = h \<and> us_id u = se_user s \<and> us_enabled u \<and> se_expires s > now
         \<and> se_last_used s > now - SessionIdle \<and> se_created s \<le> now + 30"
  from assms h obtain s u where f: "find ?P (List.product (v_sessions db) (v_users db)) = Some (s, u)" "Role (us_role u)"
    "current = \<lparr>sn_User = user_of u, sn_ID = se_id s, sn_Hash = h, sn_ExpiresAt = se_expires s\<rparr>"
    by (auto simp: authorizeAdminTx_def split: option.splits if_splits)
  from find_Some_mem [OF f(1)] f(2,3) h show thesis by (intro that [of s u]) auto
qed

lemma post_token_lookup:
  "server_inv C db \<Longrightarrow> post (holds C) (case find P (v_tokens db) of None \<Rightarrow> Inl e | Some k \<Rightarrow> Inr (f k, db))"
  by (intro post_intros)

lemma manage_operation_inv:
  assumes inv: "server_inv C db" and src: "source_ok source" and cur: "authorizeAdminTx C token now db = Inr current"
  shows "post (holds C) (manage_operation C current source r b1 b2 clk db)"
proof -
  from authorizeAdminTx_sound [OF cur] obtain s where s: "s \<in> set (v_sessions db)" "sn_ID current = se_id s"
    by (metis admin_session.select_convs(2))
  have lo: "post (server_inv C) (revokeSessionTx C (sn_ID current) a source k rd db)" for a k rd
    using revokeSessionTx_sound [OF _ inv src s(1)] unfolding s(2) post_def by blast
  have rv: "post (server_inv C) (revokeUserSessionsTx C i a source ck db)" for i a ck
    using revokeUserSessionsTx_sound [OF _ inv src] unfolding post_def by blast
  have bump: "server_inv C (d\<lparr>v_users := map (\<lambda>u. if us_id u = i then bump u else u) (v_users d)\<rparr>)" if "server_inv C d" for d i
    using tables_bump(2) [OF inv_tables [OF that]] that by (simp add: server_inv_def books_def)
  have one: "post (holds C) (andThen x f)" if "post (server_inv C) x" "\<And>d. server_inv C d \<Longrightarrow> post (holds C) (f d)" for x :: "server_db result" and f
    using postD [OF that(1)] that(2) by (intro post_andThen) blast
  have rd: "post (holds C) (andThen (ReadTx C t a l u source (v_audit db)) (\<lambda>(page, L). Inr (RAudit page, db\<lparr>v_audit := L\<rparr>)))" for t a l u
    using ReadTx_inv [OF _ inv src] by (intro post_andThen post_prod post_intros) simp
  show ?thesis
    unfolding manage_operation_def Let_def
    by (intro post_if post_read [OF inv] one [OF lo] one [OF rv] one [OF disableTx_inv] post_holds [OF snapshotsTx_inv]
        post_holds [OF tasksTx_inv] rd post_holds [OF enqueueTx_inv] post_holds [OF issueTokenTx_inv] post_Inr holds_pairI)
      (simp_all add: inv src bump post_intros post_token_lookup split: list.split)
qed

lemma sessions_ok_touch:
  assumes "sessions_ok us ss" "\<And>s. se_id (f s) = se_id s" "\<And>s. se_hash (f s) = se_hash s" "\<And>s. se_user (f s) = se_user s"
  shows "sessions_ok us (map f ss)"
  using assms by (simp add: sessions_ok_def comp_def filter_map)

lemma touch_inv:
  assumes "server_inv C db"
  shows "server_inv C (db\<lparr>v_sessions := map (\<lambda>s. if P s then s\<lparr>se_last_used := g s\<rparr> else s) (v_sessions db)\<rparr>)"
proof -
  let ?f = "\<lambda>s. if P s then s\<lparr>se_last_used := g s\<rparr> else s"
  have "sessions_ok (v_users db) (map ?f (v_sessions db))"
    using inv_sessions(2) [OF assms] by (rule sessions_ok_touch) simp_all
  then have "tables_ok C (db\<lparr>v_sessions := map ?f (v_sessions db)\<rparr>)" using inv_tables [OF assms] by (rule tables_sessions [rotated])
  then show ?thesis using assms by (simp add: server_inv_def books_def expected_reserved_def enabled_nodes_def)
qed

lemma Manage_inv:
  assumes inv: "server_inv C db" and src: "source_ok source"
  shows "server_inv C (snd (Manage C token source r b1 b2 b3 b4 clk db))"
proof -
  have "server_inv C db3" if "manage_operation C cur source r b3 b4 ck db2 = Inr (res, db3)" "authorizeAdminTx C token now db2 = Inr cur"
    "server_inv C db2" for cur ck db2 db3 res now
    using postD [OF manage_operation_inv [OF that(3) src that(2)] that(1)] by simp
  then show ?thesis
    unfolding Manage_def Let_def
    by (simp add: inv, intro impI run_tx_inv inv post_adminClock post_expireSessions post_sum post_if post_Inl post_Inr holds_pairI
        post_read post_prod touch_inv)
      (simp_all add: inv src)
qed

end
