(* ===== verification/Server_Run.thy ===== *)
theory Server_Run
  imports Server_Inv
begin

section \<open>Histories of the server\<close>

text \<open>
  Every call that the HTTP handlers, the management entry and the local commands make on the store, as one datatype.
  The two transactions of \<open>Login\<close> are two operations, so that a history can place other calls between them.
  \<open>server_apply\<close> runs one operation; a crash between two transactions leaves the database of the first.
\<close>

datatype (plugins only:) server_op =
    DoIssueToken int bytes bytes sreadings
  | DoRegister string Registration string "certificate option list" sreadings
  | DoHeartbeat "certificate option" Heartbeat bytes sreadings
  | DoRenew "certificate option" "certificate option" string "csr option" string sreadings
  | DoCredentials string instant
  | DoRevokeCertificate string string instant
  | DoConfigureSigner bytes instant
  | DoPause bool sreadings
  | DoInstallTrust string TrustSet sreadings
  | DoSwitchSigner string sreadings
  | DoCancelQueued sreadings
  | DoSigners instant
  | DoEnqueue string TaskType string int "bytes list" bytes sreadings
  | DoPoll "certificate option" string bytes string sreadings
  | DoSubmit "certificate option" bytes string sreadings
  | DoDisable string sreadings
  | DoSnapshots instant
  | DoTasks int int instant
  | DoAudit instant int int
  | DoLoginAdmit string string string bool sreadings
  | DoLoginIssue login_pending "bool result" bool string bytes bytes bytes sreadings
  | DoCreateUser string string string bool bytes bytes instant
  | DoChangeUser string string string bool bytes instant
  | DoUsers instant
  | DoRevokeAll instant
  | DoQuarantine "nat \<Rightarrow> sreadings"
  | DoManage string string ManagementRequest bytes bytes bytes bytes sreadings
  | DoReopen sreadings

primrec server_apply :: "crypto \<Rightarrow> pki \<Rightarrow> kdf \<Rightarrow> server_op \<Rightarrow> server_db \<Rightarrow> server_db" where
  "server_apply C X K (DoIssueToken ttl b1 b2 clk) db = snd (IssueToken C ttl b1 b2 clk db)"
| "server_apply C X K (DoRegister token r source certs clk) db = snd (RegisterFrom C X token r source certs clk db)"
| "server_apply C X K (DoHeartbeat oc h data clk) db = snd (SaveHeartbeat C oc h data clk db)"
| "server_apply C X K (DoRenew oc oi i q source clk) db = snd (RenewCertificate C X oc oi i q source clk db)"
| "server_apply C X K (DoCredentials node rd) db = snd (Credentials C node rd db)"
| "server_apply C X K (DoRevokeCertificate node hash rd) db = snd (RevokeCertificate C node hash rd db)"
| "server_apply C X K (DoConfigureSigner key rd) db = snd (ConfigureSigner C key rd db)"
| "server_apply C X K (DoPause p clk) db = snd (PauseDispatch C p clk db)"
| "server_apply C X K (DoInstallTrust ex nx clk) db = snd (InstallSignerTrust C ex nx clk db)"
| "server_apply C X K (DoSwitchSigner i clk) db = snd (SwitchSigner C i clk db)"
| "server_apply C X K (DoCancelQueued clk) db = snd (CancelQueuedForSignerChange C clk db)"
| "server_apply C X K (DoSigners rd) db = snd (Signers C rd db)"
| "server_apply C X K (DoEnqueue i kind actor ttl params rnd clk) db = snd (Enqueue C i kind actor ttl params rnd clk db)"
| "server_apply C X K (DoPoll oc pd key source clk) db = snd (Poll C oc pd key source clk db)"
| "server_apply C X K (DoSubmit oc data source clk) db = snd (SubmitResult C oc data source clk db)"
| "server_apply C X K (DoDisable i clk) db = snd (Disable C i clk db)"
| "server_apply C X K (DoSnapshots rd) db = snd (Snapshots C rd db)"
| "server_apply C X K (DoTasks after limit rd) db = snd (Tasks C after limit rd db)"
| "server_apply C X K (DoAudit rd after limit) db = snd (Store_Audit C rd after limit db)"
| "server_apply C X K (DoLoginAdmit name pw source acq clk) db = snd (login_admit C name pw source acq clk db)"
| "server_apply C X K (DoLoginIssue l m canc source b1 b2 b3 clk) db = snd (login_issue C l m canc source b1 b2 b3 clk db)"
| "server_apply C X K (DoCreateUser name role pw acq salt rnd rd) db = snd (CreateUser C K name role pw acq salt rnd rd db)"
| "server_apply C X K (DoChangeUser name action v acq salt rd) db = snd (ChangeUser C K name action v acq salt rd db)"
| "server_apply C X K (DoUsers rd) db = snd (Users C rd db)"
| "server_apply C X K (DoRevokeAll rd) db = snd (RevokeAllSessions C rd db)"
| "server_apply C X K (DoQuarantine ck) db = snd (QuarantineRestore C ck db)"
| "server_apply C X K (DoManage token source r b1 b2 b3 b4 clk) db = snd (Manage C token source r b1 b2 b3 b4 clk db)"
| "server_apply C X K (DoReopen clk) db = snd (migrate C clk db)"

text \<open>What the callers guarantee: the source is a peer address, and a random identity is made of 16 bytes.\<close>

primrec op_ok :: "server_op \<Rightarrow> bool" where
  "op_ok (DoIssueToken ttl b1 b2 clk) \<longleftrightarrow> True"
| "op_ok (DoRegister token r source certs clk) \<longleftrightarrow> source_ok source"
| "op_ok (DoHeartbeat oc h data clk) \<longleftrightarrow> True"
| "op_ok (DoRenew oc oi i q source clk) \<longleftrightarrow> source_ok source"
| "op_ok (DoCredentials node rd) \<longleftrightarrow> True"
| "op_ok (DoRevokeCertificate node hash rd) \<longleftrightarrow> True"
| "op_ok (DoConfigureSigner key rd) \<longleftrightarrow> True"
| "op_ok (DoPause p clk) \<longleftrightarrow> True"
| "op_ok (DoInstallTrust ex nx clk) \<longleftrightarrow> True"
| "op_ok (DoSwitchSigner i clk) \<longleftrightarrow> True"
| "op_ok (DoCancelQueued clk) \<longleftrightarrow> True"
| "op_ok (DoSigners rd) \<longleftrightarrow> True"
| "op_ok (DoEnqueue i kind actor ttl params rnd clk) \<longleftrightarrow> True"
| "op_ok (DoPoll oc pd key source clk) \<longleftrightarrow> source_ok source"
| "op_ok (DoSubmit oc data source clk) \<longleftrightarrow> source_ok source"
| "op_ok (DoDisable i clk) \<longleftrightarrow> True"
| "op_ok (DoSnapshots rd) \<longleftrightarrow> True"
| "op_ok (DoTasks after limit rd) \<longleftrightarrow> True"
| "op_ok (DoAudit rd after limit) \<longleftrightarrow> True"
| "op_ok (DoLoginAdmit name pw source acq clk) \<longleftrightarrow> source_ok source"
| "op_ok (DoLoginIssue l m canc source b1 b2 b3 clk) \<longleftrightarrow> source_ok source \<and> length b3 = 16"
| "op_ok (DoCreateUser name role pw acq salt rnd rd) \<longleftrightarrow> length rnd = 16"
| "op_ok (DoChangeUser name action v acq salt rd) \<longleftrightarrow> True"
| "op_ok (DoUsers rd) \<longleftrightarrow> True"
| "op_ok (DoRevokeAll rd) \<longleftrightarrow> True"
| "op_ok (DoQuarantine ck) \<longleftrightarrow> True"
| "op_ok (DoManage token source r b1 b2 b3 b4 clk) \<longleftrightarrow> source_ok source"
| "op_ok (DoReopen clk) \<longleftrightarrow> True"

definition server_run :: "crypto \<Rightarrow> pki \<Rightarrow> kdf \<Rightarrow> server_op list \<Rightarrow> server_db \<Rightarrow> server_db" where
  "server_run C X K ops db = fold (server_apply C X K) ops db"

subsection \<open>Opening the store\<close>

lemma migrate_current:
  assumes "server_inv C db"
  shows "migrate C clk db = (Inr (), db)"
proof -
  have "v_version db = 5" "books C 0 db" using assms by (simp_all add: server_inv_def tables_ok_def)
  then show ?thesis by (simp add: migrate_def run_tx_def books_def log_ok_def)
qed

text \<open>The invariant of every history.\<close>

lemmas op_invariants = IssueToken_inv RegisterFrom_inv SaveHeartbeat_inv RenewCertificate_inv Credentials_inv RevokeCertificate_inv
  ConfigureSigner_inv PauseDispatch_inv InstallSignerTrust_inv SwitchSigner_inv CancelQueuedForSignerChange_inv Signers_inv
  Enqueue_inv Poll_inv SubmitResult_inv Disable_inv Snapshots_inv Tasks_inv Store_Audit_inv login_admit_inv login_issue_inv
  CreateUser_inv ChangeUser_inv Users_inv RevokeAllSessions_inv QuarantineRestore_inv Manage_inv

lemma server_apply_inv:
  assumes "server_inv C db" "op_ok op"
  shows "server_inv C (server_apply C X K op db)"
  using assms by (cases op) (simp_all add: op_invariants migrate_current)

lemma server_run_inv:
  assumes "server_inv C db" "list_all op_ok ops"
  shows "server_inv C (server_run C X K ops db)"
  using assms unfolding server_run_def by (induction ops arbitrary: db) (simp_all add: server_apply_inv)

lemma append_room:
  assumes "sha256_spec C" "log_ok C L" "al_reserved L = 0" "al_sequence L < 10" "Event_validate (stamp rd e)" "\<not> decision_kind (e_Kind e)" "plain_event e"
  shows "\<exists>L'. Append C rd e 0 L = Inr L' \<and> log_ok C L' \<and> al_reserved L' = 0 \<and> al_sequence L' = al_sequence L + 1"
proof -
  have "append_ready C rd e L" using assms log_ok_hash by (simp add: append_ready_def)
  then obtain L' where L': "Append C rd e 0 L = Inr L'" using Append_total [of C rd e L 0] assms(3,4) by (auto simp: Capacity_def)
  have "event_fits rd e" using assms(5,7) by (intro event_fitsI) (simp_all add: plain_event_def int64_def)
  with L' Append_log_ok [OF assms(2) L'] Append_eq_Inr [OF L'] assms(3) show ?thesis by auto
qed

text \<open>A fresh file becomes a store that satisfies the invariant.\<close>

lemma migrate_fresh:
  assumes C: "sha256_spec C" and v: "v_version db = 0" and clk: "\<forall>k. 0 < wrap64 (clk k)"
  shows "\<exists>L. log_ok C L \<and> migrate C clk db = (Inr (), db\<lparr>v_version := 5, v_tokens := [], v_nodes := [], v_tasks := [], v_key_digest := '''',
    v_trust := None, v_paused := False, v_creds := [], v_renewals := [], v_users := [], v_sessions := [], v_limits := [],
    v_admin_clock := 0, v_audit := L\<rparr>) \<and> al_reserved L = 0"
proof -
  let ?e = "\<lambda>kind ec. admin_event kind local_operator local ''succeeded'' ec"
  have val: "Event_validate (stamp (clk k) (?e kind ec))" if "audit_identifier kind 40" "kind \<noteq> ''''" "audit_identifier ec 64" for k kind ec
    using clk that by (intro admin_event_valid) (simp_all add: audit_identifier_def alnum_def char_in_def code_def)
  have w: "audit_identifier ''state_initialized'' 40" "audit_identifier ''state_migrated'' 40" "audit_identifier ''credentials_migrated'' 40"
    "audit_identifier ''signer_schema_migrated'' 40" "audit_identifier ''server_schema_2'' 64" "audit_identifier ''server_schema_3'' 64"
    "audit_identifier ''server_schema_4'' 64" "audit_identifier ''server_schema_5'' 64"
    by (simp_all add: audit_identifier_def alnum_def char_in_def code_def)
  have dk: "\<not> decision_kind (e_Kind (?e kind ec))" if "\<not> decision_kind kind" for kind ec using that by (simp add: admin_event_def no_event_def)
  obtain L1 where L1: "Append C (clk 0) (?e ''state_initialized'' ''server_schema_2'') 0 audit_Initialize = Inr L1" "log_ok C L1"
    "al_reserved L1 = 0" "al_sequence L1 = 1"
    using append_room [OF C log_ok_Initialize _ _ val dk, of "''state_initialized''" "''server_schema_2''" 0] w
    by (auto simp: audit_Initialize_def decision_kind_def)
  obtain L2 where L2: "Append C (clk 1) (?e ''state_migrated'' ''server_schema_3'') 0 L1 = Inr L2" "log_ok C L2"
    "al_reserved L2 = 0" "al_sequence L2 = 2"
    using append_room [OF C L1(2,3) _ val dk, of "''state_migrated''" "''server_schema_3''" 1] w L1(4) by (auto simp: decision_kind_def)
  obtain L3 where L3: "Append C (clk 2) (?e ''credentials_migrated'' ''server_schema_4'') 0 L2 = Inr L3" "log_ok C L3"
    "al_reserved L3 = 0" "al_sequence L3 = 3"
    using append_room [OF C L2(2,3) _ val dk, of "''credentials_migrated''" "''server_schema_4''" 2] w L2(4) by (auto simp: decision_kind_def)
  obtain L4 where L4: "Append C (clk 3) (?e ''signer_schema_migrated'' ''server_schema_5'') 0 L3 = Inr L4" "log_ok C L4"
    "al_reserved L4 = 0" "al_sequence L4 = 4"
    using append_room [OF C L3(2,3) _ val dk, of "''signer_schema_migrated''" "''server_schema_5''" 3] w L3(4) by (auto simp: decision_kind_def)
  have ver: "audit_Verify C L4" using L4(2) by (simp add: log_ok_def)
  show ?thesis
    by (rule exI [of _ L4])
      (use L4(2,3) ver in \<open>simp add: migrate_def run_tx_def v migrateTasks_def migrateAdmins_def migrateCertificates_def migrateSigners_def
        server_append_def L1(1) L2(1) [simplified] L3(1) [simplified] L4(1) [simplified] enabled_nodes_def Let_def expected_reserved_def\<close>)
qed

lemma fresh_inv:
  assumes "log_ok C L" "al_reserved L = 0"
  shows "server_inv C (db\<lparr>v_version := 5, v_tokens := [], v_nodes := [], v_tasks := [], v_key_digest := '''',
    v_trust := None, v_paused := False, v_creds := [], v_renewals := [], v_users := [], v_sessions := [], v_limits := [],
    v_admin_clock := 0, v_audit := L\<rparr>)"
  using assms by (simp add: server_inv_def books_def tables_ok_def expected_reserved_def enabled_nodes_def nodes_ok_def rows_ok_def
      queue_ok_def users_ok_def sessions_ok_def creds_ok_def tokens_ok_def)

end
