(* ===== verification/Server_History.thy ===== *)
theory Server_History
  imports Server_Run
begin

section \<open>What a history of the server can never undo\<close>

text \<open>
  \<open>grows db db'\<close>: tasks keep their identity and payload, only move forward, keep their envelope, and never change once
  they are finished; a disabled node stays disabled; a revoked credential stays revoked; an account holds its name, its
  generation never falls and a change of the account raises it.
\<close>

definition task_le :: "task_row \<Rightarrow> task_row \<Rightarrow> bool" where
  "task_le r r' \<longleftrightarrow> tr_sequence r' = tr_sequence r \<and> tr_request r' = tr_request r \<and> tr_agent r' = tr_agent r \<and> tr_epoch r' = tr_epoch r
     \<and> tr_payload r' = tr_payload r \<and> tr_expires r' = tr_expires r
     \<and> (tr_envelope r \<noteq> None \<longrightarrow> tr_envelope r' = tr_envelope r) \<and> (tr_state r = ''dispatched'' \<longrightarrow> tr_state r' \<noteq> ''queued'')
     \<and> (\<not> pending r \<longrightarrow> r' = r)"

definition node_le :: "node_row \<Rightarrow> node_row \<Rightarrow> bool" where
  "node_le n n' \<longleftrightarrow> nr_agent n' = nr_agent n \<and> nr_epoch n' = nr_epoch n \<and> nr_cert n' = nr_cert n \<and> (\<not> nr_enabled n \<longrightarrow> \<not> nr_enabled n')"

definition cred_le :: "cred_row \<Rightarrow> cred_row \<Rightarrow> bool" where
  "cred_le c c' \<longleftrightarrow> cr_cert c' = cr_cert c \<and> cr_agent c' = cr_agent c \<and> cr_epoch c' = cr_epoch c \<and> cr_generation c' = cr_generation c
     \<and> (cr_revoked c \<longrightarrow> cr_revoked c')"

definition user_le :: "user_row \<Rightarrow> user_row \<Rightarrow> bool" where
  "user_le u u' \<longleftrightarrow> us_id u' = us_id u \<and> us_name u' = us_name u \<and> us_generation u \<le> us_generation u'
     \<and> (us_generation u' = us_generation u \<longrightarrow> u' = u) \<and> (\<not> us_enabled u \<longrightarrow> \<not> us_enabled u')"

definition le_all :: "('a \<Rightarrow> 'a \<Rightarrow> bool) \<Rightarrow> 'a list \<Rightarrow> 'a list \<Rightarrow> bool" where
  "le_all R xs ys \<longleftrightarrow> (\<forall>x\<in>set xs. \<exists>y\<in>set ys. R x y)"

definition grows :: "server_db \<Rightarrow> server_db \<Rightarrow> bool" where
  "grows db db' \<longleftrightarrow> le_all task_le (v_tasks db) (v_tasks db') \<and> le_all node_le (v_nodes db) (v_nodes db')
     \<and> le_all cred_le (v_creds db) (v_creds db') \<and> le_all user_le (v_users db) (v_users db')
     \<and> le_all (=) (v_renewals db) (v_renewals db')"

lemma task_le_refl [simp]: "task_le r r" and node_le_refl [simp]: "node_le n n" and cred_le_refl [simp]: "cred_le c c"
  and user_le_refl [simp]: "user_le u u"
  by (simp_all add: task_le_def node_le_def cred_le_def user_le_def)

lemma task_le_trans: "task_le r s \<Longrightarrow> task_le s t \<Longrightarrow> task_le r t"
  by (auto simp: task_le_def pending_def)

lemma node_le_trans: "node_le r s \<Longrightarrow> node_le s t \<Longrightarrow> node_le r t"
  by (auto simp: node_le_def)

lemma cred_le_trans: "cred_le r s \<Longrightarrow> cred_le s t \<Longrightarrow> cred_le r t"
  by (auto simp: cred_le_def)

lemma user_le_trans: "user_le r s \<Longrightarrow> user_le s t \<Longrightarrow> user_le r t"
  by (auto simp: user_le_def)

lemma le_all_refl [simp]: "(\<And>x. R x x) \<Longrightarrow> le_all R xs xs"
  by (auto simp: le_all_def)

lemma le_all_trans: "(\<And>x y z. R x y \<Longrightarrow> R y z \<Longrightarrow> R x z) \<Longrightarrow> le_all R xs ys \<Longrightarrow> le_all R ys zs \<Longrightarrow> le_all R xs zs"
  unfolding le_all_def by meson

lemma le_all_map: "(\<And>x. x \<in> set xs \<Longrightarrow> R x (f x)) \<Longrightarrow> le_all R xs (map f xs)"
  by (auto simp: le_all_def)

lemma le_all_append: "(\<And>x. R x x) \<Longrightarrow> le_all R xs (xs @ ys)"
  by (auto simp: le_all_def)

lemma grows_refl [simp]: "grows db db"
  by (simp add: grows_def)

lemma grows_trans: "grows a b \<Longrightarrow> grows b c \<Longrightarrow> grows a c"
proof -
  assume g: "grows a b" "grows b c"
  have "le_all (=) (v_renewals a) (v_renewals c)" using g by (auto simp: grows_def le_all_def)
  with g show ?thesis
    unfolding grows_def using le_all_trans [of task_le] le_all_trans [of node_le] le_all_trans [of cred_le] le_all_trans [of user_le]
      task_le_trans node_le_trans cred_le_trans user_le_trans by meson
qed

lemma grows_frame [simp]:
  "grows db (d\<lparr>v_audit := a1\<rparr>) = grows db d" "grows db (d\<lparr>v_tokens := a2\<rparr>) = grows db d" "grows db (d\<lparr>v_sessions := a3\<rparr>) = grows db d"
  "grows db (d\<lparr>v_limits := a4\<rparr>) = grows db d" "grows db (d\<lparr>v_admin_clock := a5\<rparr>) = grows db d" "grows db (d\<lparr>v_key_digest := a6\<rparr>) = grows db d"
  "grows db (d\<lparr>v_trust := a7\<rparr>) = grows db d" "grows db (d\<lparr>v_paused := a8\<rparr>) = grows db d"
  by (simp_all add: grows_def)

lemma grows_nodes: "le_all node_le (v_nodes d) ns \<Longrightarrow> grows d (d\<lparr>v_nodes := ns\<rparr>)"
  and grows_tasks: "le_all task_le (v_tasks d) rs \<Longrightarrow> grows d (d\<lparr>v_tasks := rs\<rparr>)"
  and grows_creds: "le_all cred_le (v_creds d) cs \<Longrightarrow> grows d (d\<lparr>v_creds := cs\<rparr>)"
  and grows_users: "le_all user_le (v_users d) us \<Longrightarrow> grows d (d\<lparr>v_users := us\<rparr>)"
  by (simp_all add: grows_def)

lemma grows_renewals: "grows db d \<Longrightarrow> grows db (d\<lparr>v_renewals := v_renewals d @ [w]\<rparr>)"
  by (auto simp: grows_def le_all_def)

subsection \<open>Rules\<close>

definition grew :: "server_db \<Rightarrow> 'a \<times> server_db \<Rightarrow> bool" where
  "grew db p \<longleftrightarrow> grows db (snd p)"

lemma grew_pair [simp]: "grew db (a, d) = grows db d"
  by (simp add: grew_def)

lemma grewI: "grows db d \<Longrightarrow> grew db (a, d)"
  by simp

lemma run_tx_grows: "post (grew db) (body db) \<Longrightarrow> grows db (snd (run_tx body db))"
  by (cases body db rule: run_tx_cases) (auto dest: postD)

lemma gpost_append:
  assumes "grows db d" "\<And>L. grows db (d\<lparr>v_audit := L\<rparr>) \<Longrightarrow> post Q (f (d\<lparr>v_audit := L\<rparr>))"
  shows "post Q (andThen (server_append C rd e k d) f)"
  using assms by (intro post_andThen) (auto simp: server_append_eq_Inr)

lemma gpost_step:
  assumes "post (grows d) r" "grows db d" "\<And>d'. grows db d' \<Longrightarrow> post Q (f d')"
  shows "post Q (andThen r f)"
  using assms(2,3) postD [OF assms(1)] grows_trans [of db d] by (intro post_andThen) blast

lemma gpost_pair:
  assumes "post (grew d) r" "grows db d" "\<And>a d'. grows db d' \<Longrightarrow> post Q (f (a, d'))"
  shows "post Q (andThen r f)"
  using assms(2,3) postD [OF assms(1)] grows_trans [of db d] by (intro post_andThen) fastforce

subsection \<open>Every operation\<close>

lemma queued_ready:
  assumes "rows_ok C (v_tasks db)"
  shows "withdrawing.ready_rows C (take n (sort_key tr_sequence (filter (\<lambda>r. tr_state r = ''queued'') (v_tasks db)))) db"
proof -
  let ?q = "sort_key tr_sequence (filter (\<lambda>r. tr_state r = ''queued'') (v_tasks db))"
  have "distinct (map tr_request ?q)" using assms by (intro distinct_sort_key distinct_map_filterI) (simp add: rows_ok_def)
  then have "distinct (map tr_request (take n ?q))" by (simp add: take_map [symmetric] distinct_take)
  moreover have "set (take n ?q) \<subseteq> {r \<in> set (v_tasks db). tr_state r = ''queued''}"
    by (rule subset_trans [OF set_take_subset]) auto
  ultimately show ?thesis using assms by (auto simp: withdrawing.ready_rows_def)
qed

lemma issueTokenTx_grows: "post (grew db) (issueTokenTx C ttl actor source b1 b2 clk db)"
  unfolding issueTokenTx_def Let_def by (intro post_intros gpost_append [where db = db] grewI) simp_all

lemma insert_cred_grows: "post (grows db) (insert_cred r db)"
  unfolding insert_cred_def by (intro post_intros grows_creds le_all_append) simp

lemma credentialMetadata_grows: "post (grows db) (credentialMetadata C X oc oi db)"
  unfolding credentialMetadata_def Let_def
  by (cases oc; cases oi; simp add: post_intros; intro conjI impI post_intros grows_creds le_all_map) (simp add: cred_le_def)

lemma certs_grows: "post (grows db) (case certs of [leaf, issuer] \<Rightarrow> credentialMetadata C X leaf issuer db | _ \<Rightarrow> Inr db)"
  by (auto intro: credentialMetadata_grows post_Inr split: list.splits)

lemma RegisterFrom_grows: "grows db (snd (RegisterFrom C X token r source certs clk db))"
proof -
  have n: "grows db (db\<lparr>v_tokens := ks, v_nodes := v_nodes db @ [n]\<rparr>)" for ks n
    using le_all_append [of node_le "v_nodes db"] by (simp add: grows_def)
  show ?thesis
    unfolding RegisterFrom_def Let_def
    by (simp split: sum.split, intro allI impI run_tx_grows post_if post_Inl post_insert_node gpost_step [where db = db, OF insert_cred_grows]
        gpost_step [where db = db, OF certs_grows] gpost_append [where db = db] post_Inr grewI) (simp_all add: n)
qed

lemma SaveHeartbeat_grows: "grows db (snd (SaveHeartbeat C oc h data clk db))"
  unfolding SaveHeartbeat_def
  by (cases "Authorize C oc (clk 0) db")
    (simp_all, intro impI run_tx_grows post_andThen post_intros grewI grows_nodes le_all_map, simp add: node_le_def)

lemma renew_issue_grows: "post (grew db) (renew_issue C X n old oldIssuer i q source clk db)"
proof -
  have ret: "grows db (d\<lparr>v_creds := map (\<lambda>c. if P c then c\<lparr>cr_retire_at := x\<rparr> else c) (v_creds d)\<rparr>)" if "grows db d" for d P x
    by (rule grows_trans [OF that grows_creds], rule le_all_map) (simp add: cred_le_def)
  show ?thesis
    unfolding renew_issue_def Let_def
    by (intro post_andThen [of "renewal_allowed x y z w" for x y z w] gpost_step [where db = db, OF credentialMetadata_grows]
        post_andThen [of "pk_Issue X q n"] post_prod post_if post_Inl gpost_step [where db = db, OF insert_cred_grows]
        post_andThen [of "DecodeRenewalResponse x" for x] post_insert_renewal
        post_andThen [of "authorizeCertificate C x y z" for x y z] post_Inr grewI gpost_append [where db = db] grows_renewals ret)
      (simp_all add: ret)
qed

lemma RenewCertificate_grows: "grows db (snd (RenewCertificate C X oc oldIssuer i oq source clk db))"
  unfolding RenewCertificate_def
  by (cases oq) (simp_all, intro impI run_tx_grows post_andThen [of "authorizeCertificate C x y z" for x y z]
      post_andThen [of "renewal_saved C X n' i' o' c' w' t' d'" for n' i' o' c' w' t' d'] post_intros renew_issue_grows, simp)

lemma RevokeCertificate_grows: "grows db (snd (RevokeCertificate C node hash rd db))"
  unfolding RevokeCertificate_def Let_def
  by (simp, intro impI run_tx_grows post_intros gpost_append [where db = db] grewI, rule grows_creds, rule le_all_map) (simp_all add: cred_le_def)

lemma settings_grow:
  "grows db (snd (IssueToken C ttl b1 b2 clk db))" "grows db (snd (Credentials C node rd db))" "grows db (snd (ConfigureSigner C key rd db))"
  "grows db (snd (PauseDispatch C paused clk db))" "grows db (snd (Signers C rd db))" "grows db (snd (SwitchSigner C i clk db))"
proof -
  show "grows db (snd (IssueToken C ttl b1 b2 clk db))"
    unfolding IssueToken_def by (intro run_tx_grows gpost_pair [where db = db, OF issueTokenTx_grows] post_intros grewI) simp_all
  show "grows db (snd (Credentials C node rd db))"
    unfolding Credentials_def by (simp, intro impI run_tx_grows gpost_append [where db = db] post_intros grewI) simp_all
  show "grows db (snd (ConfigureSigner C key rd db))"
    unfolding ConfigureSigner_def Let_def
    by (simp, intro impI run_tx_grows post_andThen [of "dispatchSettings C db"] post_intros gpost_append [where db = db] grewI) simp_all
  show "grows db (snd (PauseDispatch C paused clk db))"
    unfolding PauseDispatch_def
    by (intro run_tx_grows post_andThen [of "dispatchSettings C db"] post_intros gpost_append [where db = db]
        post_andThen [of "case x of None \<Rightarrow> Inr () | Some s \<Rightarrow> y s" for x y] grewI) simp_all
  show "grows db (snd (Signers C rd db))"
    unfolding Signers_def by (intro run_tx_grows post_andThen [of "dispatchSettings C db"] gpost_append [where db = db] post_intros grewI) simp_all
  show "grows db (snd (SwitchSigner C i clk db))"
    unfolding SwitchSigner_def
    by (intro run_tx_grows post_andThen [of "dispatchSettings C db"] post_andThen [of "TrustSet_Key x y" for x y]
        post_intros gpost_append [where db = db] grewI) simp_all
qed

lemma InstallSignerTrust_grows: "grows db (snd (InstallSignerTrust C expected nx clk db))"
proof (cases "TrustSet_Canonical C nx")
  case (Inr data)
  show ?thesis
    unfolding InstallSignerTrust_def Let_def Inr sum.case
    by (intro run_tx_grows post_andThen [of "dispatchSettings C db"] post_andThen [of "CheckTransition C x y z" for x y z]
        post_andThen [of "case x of None \<Rightarrow> Inr None | Some s \<Rightarrow> y s" for x y] post_intros gpost_append [where db = db] grewI) simp_all
qed (simp add: InstallSignerTrust_def)

lemma close_rows_le:
  assumes "distinct (map tr_request rows)" "set rs \<subseteq> set rows" "\<forall>r\<in>set rs. pending r" "\<And>r. st r \<noteq> ''queued''"
  shows "le_all task_le rows (close_rows st ec rs rows)"
  unfolding close_rows_def
proof (rule le_all_map)
  fix r assume r: "r \<in> set rows"
  have "pending r" if "tr_request r \<in> tr_request ` set rs" using that assms(2,3) r unique_row [OF assms(1) r] by blast
  then show "task_le r (if tr_request r \<in> tr_request ` set rs then close_row st ec r else r)"
    using assms(4) by (auto simp: task_le_def)
qed

lemma inv_distinct: "server_inv C db \<Longrightarrow> distinct (map tr_request (v_tasks db))"
  by (simp add: server_inv_def tables_ok_def rows_ok_def)

lemma expireTasks_grows:
  assumes "server_inv C db"
  shows "post (\<lambda>d. grows db d \<and> server_inv C d) (expireTasks C i now clk db)"
proof -
  have inv: "books C 0 db" "rows_ok C (v_tasks db)" using assms by (simp_all add: server_inv_def tables_ok_def)
  have "grows db d" if "expireTasks C i now clk db = Inr d" for d
  proof -
    from expireTasks_sound [OF that inv(2,1)] obtain L where d: "d = db\<lparr>v_tasks := expire_rows i now (v_tasks db), v_audit := L\<rparr>" by blast
    have "le_all task_le (v_tasks db) (expire_rows i now (v_tasks db))"
      unfolding expire_rows_def using inv_distinct [OF assms] by (rule close_rows_le) (auto simp: lapsed_def pending_def)
    then show ?thesis unfolding d by (simp add: grows_tasks)
  qed
  then show ?thesis using postD [OF expireTasks_inv [OF assms]] by (auto simp: post_def)
qed

lemma gpost_expire:
  assumes "server_inv C db" "\<And>d. grows db d \<Longrightarrow> server_inv C d \<Longrightarrow> post Q (f d)"
  shows "post Q (andThen (expireTasks C i now clk db) f)"
  using postD [OF expireTasks_grows [OF assms(1)]] assms(2) by (intro post_andThen) blast

lemma set_task_grows:
  assumes "distinct (map tr_request (v_tasks d))" "x \<in> set (v_tasks d)" "tr_request x = q" "task_le x (f x)"
  shows "grows d (set_task q f d)"
  unfolding set_task_def
proof (rule grows_tasks, rule le_all_map)
  fix r assume "r \<in> set (v_tasks d)"
  with assms unique_row [OF assms(1), of r x] show "task_le r (if tr_request r = q then f r else r)" by auto
qed

lemma enqueue_store_grows: "post (grew db) (enqueue_store C t keyDigest trust source clk db)"
proof -
  have "grows db (db\<lparr>v_tasks := v_tasks db @ [r]\<rparr>)" for r by (intro grows_tasks le_all_append) simp
  then show ?thesis
    unfolding enqueue_store_def
    by (intro post_if post_Inl post_andThen [of "case trust of None \<Rightarrow> Inr () | Some s \<Rightarrow> y s" for y] post_andThen [of "MarshalTask t"]
        post_insert_task gpost_append [where db = db] post_Inr grewI) simp_all
qed

lemma grew_trans: "grows a b \<Longrightarrow> post (grew b) r \<Longrightarrow> post (grew a) r"
  by (auto simp: post_def grew_def intro: grows_trans)

lemma enqueueTx_grows:
  assumes "server_inv C db"
  shows "post (grew db) (enqueueTx C i kind actor source ttl params rnd clk db)"
  unfolding enqueueTx_def
  by (intro post_if post_Inl post_option post_sum post_prod gpost_expire [OF assms] grew_trans [OF _ enqueue_store_grows]) (simp_all add: post_intros)

lemma poll_row_grows:
  assumes inv: "server_inv C db" and r: "r \<in> set (v_tasks db)" "pending r"
  shows "post (grew db) (poll_row C n key trust source clk r db)"
proof -
  have d: "grows db (set_task (t_RequestID t) (\<lambda>r. r\<lparr>tr_state := ''dispatched'', tr_envelope := Some e\<rparr>) db)"
    if "DecodeTask (tr_payload r) = Inr t" "tr_state r = ''queued''" for t e
  proof (rule set_task_grows [OF inv_distinct [OF inv] r(1)])
    have ok: "trow_ok C r" using row_okD [OF inv_tables [OF inv] r(1)] .
    then show "tr_request r = t_RequestID t" using row_task_decode [OF ok that(1)] by (simp add: row_task_def)
    show "task_le r (r\<lparr>tr_state := ''dispatched'', tr_envelope := Some e\<rparr>)" using ok that(2) r(2) by (auto simp: task_le_def trow_ok_def)
  qed
  show ?thesis
    unfolding poll_row_def
    by (intro post_sum post_Inl post_if post_andThen [of "case trust of None \<Rightarrow> x | Some s \<Rightarrow> y s" for x y]
        gpost_append [where db = db] post_Inr grewI)
      (simp_all add: d Let_def, intro post_intros grewI, simp)
qed

lemma Poll_grows:
  assumes "server_inv C db"
  shows "grows db (snd (Poll C oc policyDigest key source clk db))"
proof -
  have p: "post (grew db1) (poll_row C n key trust source clk r db1)"
    if "server_inv C db1" "next_task n now (v_tasks db1) = Some r" for n trust r db1 now
    using next_task_mem [OF that(2)] that(1) by (intro poll_row_grows) (auto simp: pending_of_def pending_def)
  show ?thesis
    unfolding Poll_def
    by (simp, intro impI run_tx_grows post_andThen [of "authorizeCertificate C x y z" for x y z]
        gpost_expire [OF assms] post_if post_sum post_Inl post_prod post_option gpost_pair [where db = db, OF p] post_Inr grewI)
      (simp_all add: assms)
qed

lemma SubmitResult_grows:
  assumes inv: "server_inv C db"
  shows "grows db (snd (SubmitResult C oc data source clk db))"
proof (cases "length data > MaxDispatchResultBytes \<or> \<not> is_ok (DecodeResult data)")
  case True
  then show ?thesis by (auto simp: SubmitResult_def is_ok_iff split: sum.splits)
next
  case False
  then obtain v where v: "DecodeResult data = Inr v" "\<not> length data > MaxDispatchResultBytes" by (auto simp: is_ok_iff)
  have d: "grows db (set_task (r_RequestID v)
      (\<lambda>x. x\<lparr>tr_state := r_Status v, tr_result := Some data, tr_result_digest := Digest C data, tr_code := r_ErrorCode v\<rparr>) db)"
    if "find (\<lambda>x. tr_request x = r_RequestID v \<and> P x) (v_tasks db) = Some row" "tr_state row = ''dispatched''" for row P
  proof (rule set_task_grows [OF inv_distinct [OF inv]])
    show "row \<in> set (v_tasks db)" "tr_request row = r_RequestID v" using find_Some_mem [OF that(1)] by simp_all
    show "task_le row (row\<lparr>tr_state := r_Status v, tr_result := Some data, tr_result_digest := Digest C data, tr_code := r_ErrorCode v\<rparr>)"
      using Result_final [OF DecodeResult_valid [OF v(1)]] that(2) by (simp add: task_le_def pending_def)
  qed
  show ?thesis
    unfolding SubmitResult_def v(1) sum.case Let_def
    by (simp add: v(2), intro run_tx_grows post_andThen [of "authorizeCertificate C x y z" for x y z] post_if post_sum post_Inl
        post_option post_Inr grewI gpost_append [where db = db])
      (simp_all add: d)
qed

lemma disableTx_grows:
  assumes "server_inv C db" "source_ok source"
  shows "post (\<lambda>d. grows db d \<and> server_inv C d) (disableTx C i actor source clk db)"
proof -
  have "grows db d \<and> server_inv C d" if "disableTx C i actor source clk db = Inr d" for d
  proof -
    from disableTx_sound [OF that assms] obtain L where d: "server_inv C d"
      "d = db\<lparr>v_nodes := disable_node i (v_nodes db), v_tasks := cancel_rows i (v_tasks db), v_audit := L\<rparr>" by blast
    have "le_all task_le (v_tasks db) (cancel_rows i (v_tasks db))"
      unfolding cancel_rows_def using inv_distinct [OF assms(1)]
      by (rule close_rows_le) (auto simp: pending_of_def pending_def cancel_status_def)
    moreover have "le_all node_le (v_nodes db) (disable_node i (v_nodes db))"
      unfolding disable_node_def by (rule le_all_map) (simp add: node_le_def)
    ultimately have "grows db d" unfolding d(2) by (simp add: grows_def)
    with d(1) show ?thesis by simp
  qed
  then show ?thesis by (simp add: post_def)
qed

lemma Disable_grows:
  assumes "server_inv C db"
  shows "grows db (snd (Disable C i clk db))"
  unfolding Disable_def using postD [OF disableTx_grows [OF assms source_local]]
  by (intro run_tx_grows post_andThen post_intros grewI) blast

lemma CancelQueuedForSignerChange_grows:
  assumes inv: "server_inv C db"
  shows "grows db (snd (CancelQueuedForSignerChange C clk db))"
proof -
  have ok: "books C 0 db" "rows_ok C (v_tasks db)" using inv by (simp_all add: server_inv_def tables_ok_def)
  let ?rs = "take (MaxStoredTasks + 1) (sort_key tr_sequence (filter (\<lambda>r. tr_state r = ''queued'') (v_tasks db)))"
  have rdy: "withdrawing.ready_rows C ?rs db" using ok(2) by (rule queued_ready)
  have sub: "set ?rs \<subseteq> set (v_tasks db)" "\<forall>r\<in>set ?rs. tr_state r = ''queued''"
    using rdy unfolding withdrawing.ready_rows_def by blast+
  have le: "le_all task_le (v_tasks db) (close_rows (\<lambda>_. ''rejected'') signer_changed ?rs (v_tasks db))"
  proof (rule close_rows_le [OF inv_distinct [OF inv] sub(1)])
    show "\<forall>r\<in>set ?rs. pending r" using sub(2) unfolding pending_def by blast
  qed simp
  have "grows db d" if f: "fold_res (cancel_queued C clk) (enumerate 10 ?rs) db = Inr d" for d
  proof -
    from withdrawing.loop_sound [OF f rdy ok(1)] obtain L where
      d: "d = db\<lparr>v_tasks := close_rows (\<lambda>_. ''rejected'') signer_changed ?rs (v_tasks db), v_audit := L\<rparr>" by blast
    show ?thesis unfolding d grows_frame(1) using le by (rule grows_tasks)
  qed
  then show ?thesis
    unfolding CancelQueuedForSignerChange_def Let_def
    by (intro run_tx_grows post_andThen post_prod post_if post_Inl post_Inr grewI)
qed

lemma reading_grows:
  "post (grew db) (snapshotsTx C after i limit actor source rd db)" "post (grew db) (tasksTx C after' limit i actor source rd db)"
  unfolding snapshotsTx_def tasksTx_def
  by (intro gpost_append [where db = db] post_andThen [of "map_res x y" for x y] post_intros grewI, simp, simp)+

lemma read_ops_grow:
  "grows db (snd (Snapshots C rd db))" "grows db (snd (Tasks C after limit rd db))" "grows db (snd (Store_Audit C rd after limit db))"
  "grows db (snd (Users C rd db))" "grows db (snd (Enqueue C i kind actor ttl params rnd clk db))" if "server_inv C db"
proof -
  show "grows db (snd (Snapshots C rd db))"
    unfolding Snapshots_def by (intro run_tx_grows gpost_pair [where db = db, OF reading_grows(1)] post_intros grewI) simp_all
  show "grows db (snd (Tasks C after limit rd db))"
    unfolding Tasks_def by (simp, intro impI run_tx_grows gpost_pair [where db = db, OF reading_grows(2)] post_intros grewI) simp_all
  show "grows db (snd (Store_Audit C rd after limit db))" by (simp add: Store_Audit_def split: prod.splits)
  show "grows db (snd (Users C rd db))"
    unfolding Users_def by (intro run_tx_grows gpost_append [where db = db] post_intros grewI) simp_all
  show "grows db (snd (Enqueue C i kind actor ttl params rnd clk db))"
    unfolding Enqueue_def by (intro run_tx_grows gpost_pair [where db = db, OF enqueueTx_grows [OF that]] post_intros grewI) simp_all
qed

subsection \<open>Accounts\<close>

lemma session_steps_grow:
  "post (grows db) (revokeSessionTx C i actor source kind rd db)"
  by (auto simp: post_def revokeSessionTx_def server_append_eq_Inr)

lemma fold_grows:
  assumes "\<And>x d. post (grows d) (f x d)"
  shows "post (grows db) (fold_res f xs db)"
proof (rule post_fold [where I = "grows db"])
  show "post (grows db) (f x s)" if "grows db s" for x s
    using postD [OF assms [of s x]] grows_trans [OF that] by (auto simp: post_def)
qed simp

lemma session_loops_grow:
  "post (grows db) (expireSessionsTx C now clk db)" "post (grows db) (revokeUserSessionsTx C user actor source clk db)"
  unfolding expireSessionsTx_def revokeUserSessionsTx_def
  by (intro fold_grows, simp add: split_beta session_steps_grow)+

lemma login_admit_grows: "grows db (snd (login_admit C name password source acquired clk db))"
  unfolding login_admit_def Let_def
  by (simp, intro impI run_tx_grows post_adminClock post_admitLogin post_prod)
    (clarsimp, intro conjI impI gpost_append [where db = db] post_intros grewI; simp)

lemma login_issue_grows: "grows db (snd (login_issue C l match cancelled source b1 b2 b3 clk db))"
proof (cases match)
  case (Inr ok)
  show ?thesis
    unfolding login_issue_def Inr sum.case Let_def
    by (simp, intro impI run_tx_grows post_adminClock post_if post_Inl gpost_step [where db = db, OF session_loops_grow(1)]
        post_insert_session gpost_append [where db = db] post_Inr grewI)
      simp_all
qed (simp add: login_issue_def)

lemma CreateUser_grows: "grows db (snd (CreateUser C K name role password acquired salt rnd rd db))"
proof -
  have "grows db (db\<lparr>v_users := v_users db @ [u]\<rparr>)" for u by (intro grows_users le_all_append) simp
  then have "post (grew db) (andThen (insert_user u db) (\<lambda>db1. andThen (server_append C rd e 0 db1) (\<lambda>db2. Inr (r, db2))))" for u e r
    unfolding insert_user_def by (auto intro!: post_intros gpost_append [where db = db])
  then show ?thesis
    unfolding CreateUser_def
    by (simp split: sum.split) (intro impI allI run_tx_grows post_if post_Inl, simp add: Let_def)
qed

lemma user_le_bump: "user_le u (bump u)"
  by (simp add: user_le_def bump_def)

lemma user_le_change: "user_le u (change_account action v u)"
  by (auto simp: user_le_def change_account_def Let_def)

lemma bump_grows:
  "grows d (d\<lparr>v_users := map bump (v_users d)\<rparr>)" "grows d (d\<lparr>v_users := map (\<lambda>u. if P u then bump u else u) (v_users d)\<rparr>)"
  by (intro grows_users le_all_map; simp add: user_le_bump)+

lemma ChangeUser_grows: "grows db (snd (ChangeUser C K name action v acquired salt rd db))"
proof -
  have c: "grows db (db\<lparr>v_sessions := ss, v_users := map (\<lambda>x. if P x then change_account action w x else x) (v_users db)\<rparr>)" for ss P w
    using le_all_map [of "v_users db" user_le "\<lambda>x. if P x then change_account action w x else x"]
    by (simp add: grows_def user_le_change)
  have cs: "grows db (snd (case r of Inl e \<Rightarrow> (Inl e, db) | Inr w \<Rightarrow> run_tx (f w) db))" if "\<And>w. post (grew db) (f w db)" for r :: "string result" and f
    by (cases r; simp add: run_tx_grows that)
  show ?thesis
    unfolding ChangeUser_def Let_def
    by (cases "Username name"; simp only: not_True_eq_False not_False_eq_True if_True if_False snd_conv grows_refl)
      (intro cs post_option post_Inl post_if gpost_append [where db = db] post_Inr grewI, simp_all add: c)
qed

lemma RevokeAllSessions_grows: "grows db (snd (RevokeAllSessions C rd db))"
proof -
  have "grows db (db\<lparr>v_sessions := [], v_users := map bump (v_users db)\<rparr>)" using bump_grows(1) [of db] by (simp add: grows_def)
  then show ?thesis unfolding RevokeAllSessions_def by (intro run_tx_grows gpost_append [where db = db] post_intros grewI) simp_all
qed

lemma QuarantineRestore_grows:
  assumes inv: "server_inv C db"
  shows "grows db (snd (QuarantineRestore C ck db))"
proof -
  have f: "post (\<lambda>d. grows db d \<and> server_inv C d) (fold_res (\<lambda>(j, i). disableTx C i local_operator ''local-restore'' (ck (j + 1))) xs db)" for xs
  proof (rule post_fold [where I = "\<lambda>d. grows db d \<and> server_inv C d"])
    fix x :: "nat \<times> string" and s :: server_db assume s: "grows db s \<and> server_inv C s"
    obtain j i where x: "x = (j, i)" by force
    show "post (\<lambda>d. grows db d \<and> server_inv C d) ((\<lambda>(j, i). disableTx C i local_operator ''local-restore'' (ck (j + 1))) x s)"
      using postD [OF disableTx_grows [of C s "''local-restore''"]] s grows_trans unfolding x post_def by simp blast
  qed (simp add: inv)
  have g: "grows db (d\<lparr>v_sessions := [], v_users := map bump (v_users d)\<rparr>)" if "grows db d" for d
    using grows_trans [OF that bump_grows(1)] by (simp add: grows_def)
  show ?thesis
    unfolding QuarantineRestore_def using postD [OF f]
    by (intro run_tx_grows post_andThen [of "fold_res x y z" for x y z] gpost_append [where db = db] post_Inr grewI)
      (simp_all add: g)
qed

lemma manage_operation_grows:
  assumes inv: "server_inv C db" and src: "source_ok source"
  shows "post (grew db) (manage_operation C current source r b1 b2 clk db)"
proof -
  have ds: "post (grows db) (disableTx C i a source ck db)" for i a ck
    using disableTx_grows [OF inv src, of i a ck] by (auto simp: post_def)
  have bump: "grows db (d\<lparr>v_users := map (\<lambda>u. if us_id u = i then bump u else u) (v_users d)\<rparr>)" if "grows db d" for d i
    using grows_trans [OF that bump_grows(2)] .
  have rd: "post (grew db) (andThen (ReadTx C t a l u source (v_audit db)) (\<lambda>(page, L). Inr (RAudit page, db\<lparr>v_audit := L\<rparr>)))" for t a l u
    by (intro post_andThen post_prod post_intros) simp
  show ?thesis
    unfolding manage_operation_def Let_def
    by (intro post_if gpost_append [where db = db] gpost_step [where db = db, OF session_steps_grow] gpost_step [where db = db, OF session_loops_grow(2)]
        gpost_step [where db = db, OF ds] gpost_pair [where db = db, OF reading_grows(1)] gpost_pair [where db = db, OF reading_grows(2)] rd
        gpost_pair [where db = db, OF enqueueTx_grows [OF inv]] gpost_pair [where db = db, OF issueTokenTx_grows] post_Inr grewI)
      (simp_all add: bump post_intros split: list.split option.split)
qed

lemma Manage_grows:
  assumes inv: "server_inv C db" and src: "source_ok source"
  shows "grows db (snd (Manage C token source r b1 b2 b3 b4 clk db))"
proof -
  have op: "grows db db3" if "manage_operation C cur source r b3 b4 ck db2 = Inr (res, db3)" "server_inv C db2" "grows db db2"
    for cur ck db2 db3 res
    using postD [OF manage_operation_grows [OF that(2) src] that(1)] grows_trans [OF that(3)] by simp
  have ex: "post Q (andThen (expireSessionsTx C now ck d) f)" if "server_inv C d" "grows db d"
    "\<And>d'. server_inv C d' \<Longrightarrow> grows db d' \<Longrightarrow> post Q (f d')" for Q :: "'b \<Rightarrow> bool" and f now ck d
  proof (rule post_andThen)
    fix d' assume e: "expireSessionsTx C now ck d = Inr d'"
    then have "server_inv C d'" using expireSessionsTx_sound [OF e that(1)] by blast
    moreover have "grows db d'" using postD [OF session_loops_grow(1) e] grows_trans that(2) by blast
    ultimately show "post Q (f d')" by (rule that(3))
  qed
  show ?thesis
    unfolding Manage_def Let_def
    by (simp, intro impI run_tx_grows post_adminClock ex post_sum post_if post_Inl post_Inr grewI
        gpost_append [where db = db] post_prod)
      (simp_all add: inv op)
qed

lemmas op_growth = settings_grow RegisterFrom_grows SaveHeartbeat_grows RenewCertificate_grows RevokeCertificate_grows
  InstallSignerTrust_grows CancelQueuedForSignerChange_grows Poll_grows SubmitResult_grows Disable_grows read_ops_grow
  login_admit_grows login_issue_grows CreateUser_grows ChangeUser_grows RevokeAllSessions_grows QuarantineRestore_grows Manage_grows

lemma server_apply_grows:
  assumes "server_inv C db" "op_ok op"
  shows "grows db (server_apply C X K op db)"
  using assms by (cases op) (simp_all add: op_growth migrate_current)

lemma server_run_grows:
  assumes "server_inv C db" "list_all op_ok ops"
  shows "grows db (server_run C X K ops db)"
  using assms unfolding server_run_def
proof (induction ops arbitrary: db)
  case (Cons op ops)
  then show ?case
    using grows_trans [OF server_apply_grows [of C db op X K]] server_apply_inv [of C db op X K] by simp
qed simp

end
