(* ===== verification/Server_Results.thy ===== *)
theory Server_Results
  imports Server_History
begin

section \<open>How the server takes a result\<close>

text \<open>
  What \<open>SubmitResult\<close> does with the result of a task that was handed out: it is stored and acknowledged the first time, and
  acknowledged again, unchanged, each time the same bytes come back.
\<close>

lemma find_key:
  assumes "distinct (map f xs)" "x \<in> set xs" "P x"
  shows "find (\<lambda>y. f y = f x \<and> P y) xs = Some x"
  using assms
proof (induction xs)
  case (Cons a xs)
  show ?case
  proof (cases "a = x")
    case False
    with Cons.prems have "f a \<noteq> f x" "x \<in> set xs" by (auto simp: image_iff)
    with Cons show ?thesis by simp
  qed (simp add: Cons.prems)
qed simp

lemma SubmitResult_accepts:
  assumes C: "sha256_spec C" and inv: "server_inv C db" and src: "source_ok source" "length source \<le> 256" and clk: "0 < wrap64 (clk 1)"
    and auth: "authorizeCertificate C oc (clk 0) db = Inr n" and dec: "DecodeResult data = Inr v" "length data \<le> MaxDispatchResultBytes"
    and row: "row \<in> set (v_tasks db)" "tr_state row = ''dispatched''" "row_task row t" "CheckAssignment v t"
    and own: "tr_agent row = n_AgentID n" "tr_epoch row = n_EnrollmentEpoch n"
    and pol: "r_Status v = Rejected \<or> r_Status v = Expired \<or> r_PolicyDigest v = t_PolicyDigest t"
  shows "\<exists>db'. SubmitResult C oc data source clk db = (Inr \<lparr>ra_Version = 1, ra_AgentID = n_AgentID n, ra_Epoch = n_EnrollmentEpoch n,
      ra_RequestID = tr_request row, ra_ResultDigest = Digest C data\<rparr>, db')
    \<and> v_tasks db' = map (\<lambda>r. if tr_request r = tr_request row then r\<lparr>tr_state := r_Status v, tr_result := Some data,
        tr_result_digest := Digest C data, tr_code := r_ErrorCode v\<rparr> else r) (v_tasks db)"
proof -
  have ok: "trow_ok C row" using row_okD [OF inv_tables [OF inv] row(1)] .
  then have dg: "tr_result_digest row = ''''" using row(2) by (auto simp: trow_ok_def pending_def split: option.splits)
  have ids: "r_RequestID v = tr_request row" "r_AgentID v = n_AgentID n" "r_Epoch v = n_EnrollmentEpoch n"
    using row(3,4) own by (auto simp: CheckAssignment_def row_task_def)
  have f: "find (\<lambda>x. tr_request x = r_RequestID v \<and> tr_agent x = n_AgentID n \<and> tr_epoch x = n_EnrollmentEpoch n) (v_tasks db) = Some row"
    using find_key [OF inv_distinct [OF inv] row(1)] own ids(1) by simp
  let ?ev = "(TaskEvent ''result_received'' t source (r_Status v) (r_ErrorCode v) (Digest C (tr_payload row)))
     \<lparr>e_PolicyDigest := r_PolicyDigest v, e_ResultDigest := Digest C data\<rparr>"
  let ?db = "set_task (r_RequestID v) (\<lambda>x. x\<lparr>tr_state := r_Status v, tr_result := Some data,
      tr_result_digest := Digest C data, tr_code := r_ErrorCode v\<rparr>) db"
  have rv: "Result_Validate v" using DecodeResult_valid [OF dec(1)] .
  have ev: "Event_validate (stamp (clk 1) ?ev)"
    using row_task_valid [OF row(3)] src clk Hex_Digest [OF C] Result_codes [OF rv] rv
    by (intro TaskEvent_valid) (simp_all add: Result_Validate_def audit_identifier_def alnum_def char_in_def code_def)
  have "\<exists>db'. server_append C (clk 1) ?ev (- 1) ?db = Inr db'"
  proof (rule server_append_total [OF C, of 0 db])
    show "books C 0 db" using inv by (simp add: server_inv_def)
    show "0 \<le> expected_reserved db + 0 + - 1" using weight_le_expected [OF row(1)] row(2) by (simp add: task_weight_def)
    show "Event_validate (stamp (clk 1) ?ev)" by (rule ev)
  qed (simp_all add: set_task_def TaskEvent_def no_event_def decision_kind_def)
  then obtain db' where db': "server_append C (clk 1) ?ev (- 1) ?db = Inr db'" by blast
  have "SubmitResult C oc data source clk db = (Inr \<lparr>ra_Version = 1, ra_AgentID = n_AgentID n, ra_Epoch = n_EnrollmentEpoch n,
      ra_RequestID = tr_request row, ra_ResultDigest = Digest C data\<rparr>, db')"
    using dec ids f row dg pol db' unfolding row_task_def
    by (auto simp: SubmitResult_def run_tx_def auth Let_def)
  moreover have "v_tasks db' = v_tasks ?db" using db' by (auto simp: server_append_eq_Inr)
  ultimately show ?thesis by (simp add: set_task_def ids)
qed

lemma SubmitResult_repeats:
  assumes C: "sha256_spec C" and inv: "server_inv C db" and row: "row \<in> set (v_tasks db)" "tr_result row = Some stored"
    and dec: "DecodeResult data = Inr v" "r_RequestID v = tr_request row"
  shows "snd (SubmitResult C oc data source clk db) = db
    \<and> (\<forall>ack. fst (SubmitResult C oc data source clk db) = Inr ack \<longrightarrow> ra_ResultDigest ack = Digest C stored)
    \<and> (data = stored \<longrightarrow> authorizeCertificate C oc (clk 0) db = Inr \<lparr>n_AgentID = tr_agent row, n_EnrollmentEpoch = tr_epoch row\<rparr>
         \<longrightarrow> is_ok (fst (SubmitResult C oc data source clk db)))"
proof -
  have ok: "trow_ok C row" using row_okD [OF inv_tables [OF inv] row(1)] .
  then obtain t w where t: "row_task row t" "tr_result_digest row = Digest C stored" "DecodeResult stored = Inr w" "CheckAssignment w t"
    "length stored \<le> MaxDispatchResultBytes" "r_Status w = Rejected \<or> r_Status w = Expired \<or> r_PolicyDigest w = t_PolicyDigest t"
    using row(2) by (auto simp: trow_ok_def)
  have dt: "DecodeTask (tr_payload row) = Inr t" using t(1) by (simp add: row_task_def)
  have ne: "tr_result_digest row \<noteq> ''''" using Hex_nonempty [OF Hex_Digest [OF C, of stored]] t(2) by simp
  define res where "res = (\<lambda>n :: Node. find (\<lambda>x. tr_request x = r_RequestID v \<and> tr_agent x = n_AgentID n \<and> tr_epoch x = n_EnrollmentEpoch n) (v_tasks db))"
  have f: "res n = None \<or> res n = Some row" for n
  proof (cases "res n")
    case (Some x)
    with find_Some_mem [of _ "v_tasks db" x] have "x \<in> set (v_tasks db)" "tr_request x = tr_request row" by (auto simp: res_def dec(2))
    with unique_row [OF inv_distinct [OF inv] _ row(1)] Some show ?thesis by blast
  qed simp
  have main: "snd (SubmitResult C oc data source clk db) = db
    \<and> (\<forall>ack. fst (SubmitResult C oc data source clk db) = Inr ack \<longrightarrow> ra_ResultDigest ack = Digest C stored)"
  proof (cases "authorizeCertificate C oc (clk 0) db")
    case (Inl e)
    then show ?thesis by (simp add: SubmitResult_def dec(1) run_tx_def)
  next
    case (Inr n)
    show ?thesis
      using f [of n] t(2) ne unfolding res_def
      by (elim disjE) (simp_all add: SubmitResult_def dec(1) run_tx_def Inr Let_def dt)
  qed
  have "is_ok (fst (SubmitResult C oc stored source clk db))"
    if a: "authorizeCertificate C oc (clk 0) db = Inr \<lparr>n_AgentID = tr_agent row, n_EnrollmentEpoch = tr_epoch row\<rparr>" "data = stored"
  proof -
    have w: "v = w" using dec(1) t(3) a(2) by simp
    have "find (\<lambda>x. tr_request x = r_RequestID v \<and> tr_agent x = tr_agent row \<and> tr_epoch x = tr_epoch row) (v_tasks db) = Some row"
      using find_key [OF inv_distinct [OF inv] row(1), of "\<lambda>x. tr_agent x = tr_agent row \<and> tr_epoch x = tr_epoch row"] dec(2) by simp
    moreover have "r_AgentID v = tr_agent row" "r_Epoch v = tr_epoch row" using t(1,4) w by (auto simp: CheckAssignment_def row_task_def)
    ultimately show ?thesis
      using t w ne dt by (auto simp: SubmitResult_def run_tx_def a(1) Let_def)
  qed
  with main show ?thesis by blast
qed

lemma SubmitResult_ack:
  assumes "SubmitResult C oc data source clk db = (Inr a, db')" "DecodeResult data = Inr v" "authorizeCertificate C oc (clk 0) db = Inr n"
  shows "a = \<lparr>ra_Version = 1, ra_AgentID = n_AgentID n, ra_Epoch = n_EnrollmentEpoch n, ra_RequestID = r_RequestID v, ra_ResultDigest = Digest C data\<rparr>"
  using assms
  by (auto simp: SubmitResult_def run_tx_eq_Inr andThen_eq_Inr Let_def split: if_splits sum.splits option.splits)

lemma SubmitResult_takes:
  assumes C: "sha256_spec C" and inv: "server_inv C db" and src: "source_ok source" "length source \<le> 256" and clk: "0 < wrap64 (clk 1)"
    and auth: "authorizeCertificate C oc (clk 0) db = Inr n" and dec: "DecodeResult data = Inr v" "length data \<le> MaxDispatchResultBytes"
    and row: "row \<in> set (v_tasks db)" "tr_state row = ''dispatched'' \<or> tr_result row = Some data" "row_task row t" "CheckAssignment v t"
    and own: "tr_agent row = n_AgentID n" "tr_epoch row = n_EnrollmentEpoch n"
    and pol: "r_Status v = Rejected \<or> r_Status v = Expired \<or> r_PolicyDigest v = t_PolicyDigest t"
  shows "\<exists>db'. SubmitResult C oc data source clk db = (Inr \<lparr>ra_Version = 1, ra_AgentID = n_AgentID n, ra_Epoch = n_EnrollmentEpoch n,
      ra_RequestID = r_RequestID v, ra_ResultDigest = Digest C data\<rparr>, db')"
  using row(2)
proof
  assume "tr_state row = ''dispatched''"
  from SubmitResult_accepts [where clk = clk, OF C inv src clk auth dec row(1) this row(3,4) own pol] row(3,4) show ?thesis
    by (auto simp: CheckAssignment_def row_task_def)
next
  assume r: "tr_result row = Some data"
  have ids: "r_RequestID v = tr_request row" "n = \<lparr>n_AgentID = tr_agent row, n_EnrollmentEpoch = tr_epoch row\<rparr>"
    using row(3,4) own by (auto simp: CheckAssignment_def row_task_def)
  have "is_ok (fst (SubmitResult C oc data source clk db))"
    using SubmitResult_repeats [OF C inv row(1) r dec(1) ids(1)] auth ids(2) by blast
  then obtain a db' where s: "SubmitResult C oc data source clk db = (Inr a, db')" by (cases "SubmitResult C oc data source clk db") (auto simp: is_ok_iff)
  with SubmitResult_ack [OF s dec(1) auth] show ?thesis by simp
qed

end
