(* ===== verification/Example_Server.thy ===== *)
theory Example_Server
  imports Example_Run Server_Results
begin

section \<open>A concrete server\<close>

text \<open>
  A store with one enabled node and its credential, a queued and a dispatched task, one administrator with a live
  session and one unused enrollment token, on the data of \<open>Example_Run\<close>.
\<close>

definition demo_start :: Event where
  "demo_start = admin_event ''state_initialized'' local_operator local ''succeeded'' ''''"

definition demo_log :: "int \<Rightarrow> audit_log" where
  "demo_log k = projr (Append demo_crypto (demo_clk 0) demo_start k audit_Initialize)"

lemma demo_log:
  assumes "0 \<le> k" "k < 1000"
  shows "log_ok demo_crypto (demo_log k)" "al_reserved (demo_log k) = k" "al_sequence (demo_log k) = 1"
proof -
  have v: "Event_validate (stamp (demo_clk 0) demo_start)"
    unfolding demo_start_def by (rule admin_event_valid) (simp_all add: audit_identifier_def alnum_def char_in_def code_def)
  have p: "plain_event demo_start" by (simp add: demo_start_def)
  have "append_ready demo_crypto (demo_clk 0) demo_start audit_Initialize"
    using v log_ok_Initialize log_ok_hash [OF demo_sha256 log_ok_Initialize]
    by (simp add: append_ready_def demo_start_def admin_event_def no_event_def decision_kind_def)
  then obtain L where L: "Append demo_crypto (demo_clk 0) demo_start k audit_Initialize = Inr L"
    using Append_total [of demo_crypto "demo_clk 0" demo_start audit_Initialize k] assms by (auto simp: audit_Initialize_def Capacity_def)
  have f: "event_fits (demo_clk 0) demo_start" using v p by (intro event_fitsI) (simp_all add: plain_event_def int64_def)
  have d: "demo_log k = L" by (simp add: demo_log_def L)
  show "log_ok demo_crypto (demo_log k)" unfolding d by (rule Append_log_ok [OF log_ok_Initialize L f])
  show "al_reserved (demo_log k) = k" "al_sequence (demo_log k) = 1" using Append_eq_Inr [OF L] by (simp_all add: d audit_Initialize_def)
qed

abbreviation zeros :: string where "zeros \<equiv> replicate 64 (CHR ''0'')"

definition demo_cert :: certificate where
  "demo_cert = \<lparr>c_Raw = ''leaf'', c_IsCA = False,
     c_URIs = [\<lparr>u_Path = ''/'' @ n_AgentID demo_node @ ''/epochs/'' @ n_EnrollmentEpoch demo_node,
               u_String = ''argus://nodes/'' @ n_AgentID demo_node @ ''/epochs/'' @ n_EnrollmentEpoch demo_node\<rparr>],
     c_ExtKeyUsage = [ExtKeyUsageClientAuth], c_UnknownExtKeyUsage = [], c_NotBefore = 0, c_NotAfter = seconds 100000,
     c_SerialNumber = ''1'', c_SubjectPublicKeyInfo = ''key''\<rparr>"

lemma demo_FromCertificate: "FromCertificate (Some demo_cert) = Inr demo_node"
  by code_simp

lemma demo_Fingerprint [simp]: "Fingerprint demo_crypto cert = zeros"
  by (simp add: Fingerprint_Digest)

text \<open>A second request, already delivered.\<close>

definition demo_task2 :: Task where
  "demo_task2 = demo_task\<lparr>t_RequestID := replicate 32 (CHR ''d'')\<rparr>"

definition demo_payload2 :: bytes where "demo_payload2 = projr (MarshalTask demo_task2)"
definition demo_envelope2 :: bytes where "demo_envelope2 = projr (Sign demo_crypto demo_payload2 demo_private)"

lemma demo_marshal2: "MarshalTask demo_task2 = Inr demo_payload2" "DecodeTask demo_payload2 = Inr demo_task2"
proof -
  have "Task_Validate demo_task2" by code_simp
  then have "\<exists>payload. MarshalTask demo_task2 = Inr payload \<and> DecodeTask payload = Inr demo_task2"
    by (rule DecodeTask_MarshalTask) (simp_all add: demo_task2_def demo_task_def int64_def canonical_params_def)
  then show "MarshalTask demo_task2 = Inr demo_payload2" "DecodeTask demo_payload2 = Inr demo_task2"
    by (auto simp: demo_payload2_def)
qed

definition demo_row :: task_row where
  "demo_row = \<lparr>tr_sequence = 2, tr_request = t_RequestID demo_task, tr_agent = n_AgentID demo_node, tr_epoch = n_EnrollmentEpoch demo_node,
     tr_payload = demo_payload, tr_envelope = None, tr_state = ''queued'', tr_expires = 1060, tr_result = None, tr_result_digest = '''', tr_code = ''''\<rparr>"

definition demo_row2 :: task_row where
  "demo_row2 = \<lparr>tr_sequence = 1, tr_request = t_RequestID demo_task2, tr_agent = n_AgentID demo_node, tr_epoch = n_EnrollmentEpoch demo_node,
     tr_payload = demo_payload2, tr_envelope = Some demo_envelope2, tr_state = ''dispatched'', tr_expires = 1060, tr_result = None,
     tr_result_digest = '''', tr_code = ''''\<rparr>"

definition demo_node_row :: node_row where
  "demo_node_row = \<lparr>nr_agent = n_AgentID demo_node, nr_epoch = n_EnrollmentEpoch demo_node, nr_cert = zeros, nr_enabled = True,
     nr_enrolled = 900, nr_received = seconds 1005, nr_heartbeat = None, nr_policy = zeros, nr_task_state = ''ready''\<rparr>"

definition demo_user :: user_row where
  "demo_user = \<lparr>us_id = replicate 32 (CHR ''e''), us_name = ''root'', us_role = Admin, us_enabled = True, us_hash = Dummy, us_generation = 1\<rparr>"

definition demo_session :: session_row where
  "demo_session = \<lparr>se_hash = zeros, se_id = replicate 32 (CHR ''f''), se_user = us_id demo_user, se_created = 1000, se_last_used = 1000,
     se_expires = 29800\<rparr>"

definition demo_server :: server_db where
  "demo_server = \<lparr>v_version = 5, v_quick_check = ''ok'', v_tokens = [\<lparr>tk_hash = zeros, tk_expires = 1500, tk_consumed = False\<rparr>],
     v_nodes = [demo_node_row], v_tasks = [demo_row2, demo_row], v_key_digest = zeros, v_trust = None, v_paused = False,
     v_creds = [new_credential zeros (n_AgentID demo_node) (n_EnrollmentEpoch demo_node) 1 900], v_renewals = [],
     v_users = [demo_user], v_sessions = [demo_session], v_limits = [], v_admin_clock = 1000, v_audit = demo_log 5\<rparr>"

lemma demo_rows:
  "row_task demo_row demo_task" "row_task demo_row2 demo_task2" "trow_ok C demo_row" "trow_ok C demo_row2"
proof -
  show a: "row_task demo_row demo_task" "row_task demo_row2 demo_task2"
    by (simp_all add: row_task_def demo_row_def demo_row2_def demo_marshal(2) demo_marshal2(2) demo_task2_def demo_task_def)
  show "trow_ok C demo_row" using a(1) unfolding trow_ok_def by (intro exI [of _ demo_task]) (simp add: demo_row_def)
  show "trow_ok C demo_row2" using a(2) unfolding trow_ok_def by (intro exI [of _ demo_task2]) (simp add: demo_row2_def)
qed

lemma demo_server_inv: "server_inv demo_crypto demo_server"
proof -
  have h: "Hex (n_AgentID demo_node) 32" "Hex (replicate 32 (CHR ''e'')) 32" "Hex (replicate 32 (CHR ''f'')) 32" "Username ''root''" by code_simp+
  have d: "tr_request demo_row2 \<noteq> tr_request demo_row" by (simp add: demo_row_def demo_row2_def demo_task2_def demo_task_def)
  have "rows_ok demo_crypto (v_tasks demo_server)" using demo_rows d by (simp add: rows_ok_def demo_server_def)
  moreover have "queue_ok (v_nodes demo_server) (v_tasks demo_server)"
    by (simp add: queue_ok_def demo_server_def demo_row_def demo_row2_def demo_node_row_def pending_def pending_of_def MaxStoredTasks_def)
  moreover have "nodes_ok (v_nodes demo_server)" using h by (simp add: nodes_ok_def demo_server_def demo_node_row_def MaxNodes_def)
  moreover have "users_ok (v_users demo_server)" using h by (simp add: users_ok_def demo_server_def demo_user_def MaxUsers_def Role_def)
  moreover have "sessions_ok (v_users demo_server) (v_sessions demo_server)"
    using h by (simp add: sessions_ok_def demo_server_def demo_session_def demo_user_def MaxSessions_def)
  moreover have "creds_ok (v_creds demo_server)" by (simp add: creds_ok_def demo_server_def new_credential_def)
  moreover have "tokens_ok (v_tokens demo_server)" by (simp add: tokens_ok_def demo_server_def MaxNodes_def)
  moreover have "expected_reserved demo_server = 5"
    by (simp add: expected_reserved_def enabled_nodes_def demo_server_def task_weight_def demo_row_def demo_row2_def demo_node_row_def)
  moreover have "v_audit demo_server = demo_log 5" "v_renewals demo_server = []" "v_version demo_server = 5" by (simp_all add: demo_server_def)
  ultimately show ?thesis using demo_log [of 5] by (simp add: server_inv_def books_def tables_ok_def)
qed

lemma demo_authorize: "authorizeCertificate demo_crypto (Some demo_cert) (demo_clk k) demo_server = Inr demo_node"
proof -
  have "\<not> demo_clk k < c_NotBefore demo_cert" "demo_clk k < c_NotAfter demo_cert" by (simp_all add: demo_clk_def demo_cert_def seconds_def)
  then show ?thesis
    by (simp add: authorizeCertificate_def demo_FromCertificate demo_server_def demo_node_row_def credential_live_def new_credential_def)
qed

end
