(* ===== verification/Trust_Codec.thy ===== *)
theory Trust_Codec
  imports Signing
begin

section \<open>Reading arrays, and the stored form of trust sets\<close>

text \<open>
  Printed arrays are read back element by element; with this the canonical bytes of a valid trust set decode to it (with
  its keys and retirements in canonical order), so that what \<open>InstallSignerTrust\<close> stored can always be read again.
\<close>

subsection \<open>Arrays\<close>

type_synonym element = "string \<times> json"

definition read_element :: "element \<Rightarrow> bool" where
  "read_element e \<longleftrightarrow> reads (fst e) (snd e) \<and> safe (fst e) \<and> hd (fst e) \<noteq> CHR '']''"

definition array_text :: "element list \<Rightarrow> string" where
  "array_text es = json_array (map fst es)"

definition array_values :: "element list \<Rightarrow> jval list" where
  "array_values es = map (\<lambda>e. JV (fst e) (snd e)) es"

lemma parse_elems_join:
  assumes "es \<noteq> []" "list_all read_element es" "2 * length (join '','' (map fst es)) + 2 \<le> n"
  shows "parse_elems n (join '','' (map fst es) @ CHR '']'' # r) = Some (array_values es, r)"
  using assms
proof (induction es arbitrary: n)
  case (Cons e es)
  then obtain k where n: "n = Suc k" by (cases n) auto
  have rd: "reads (fst e) (snd e)" using Cons.prems(2) by (simp add: read_element_def)
  show ?case
  proof (cases es)
    case Nil
    have "parse_value k (fst e @ CHR '']'' # r) = Some (JV (fst e) (snd e), CHR '']'' # r)"
      using rd Cons.prems(3) n Nil unfolding reads_def by (simp add: delim_def)
    with Nil n show ?thesis by (simp add: is_ws_def code_def array_values_def)
  next
    case (Cons e' es')
    let ?rest = "CHR '','' # join '','' (map fst es) @ CHR '']'' # r"
    have "parse_value k (fst e @ ?rest) = Some (JV (fst e) (snd e), ?rest)"
      using rd Cons.prems(3) n unfolding reads_def by (simp add: delim_def Cons)
    moreover have "parse_elems k (join '','' (map fst es) @ CHR '']'' # r) = Some (array_values es, r)"
      using Cons.IH [of k] Cons.prems n by (simp add: Cons)
    ultimately show ?thesis using n by (simp add: is_ws_def code_def array_values_def Cons)
  qed
qed simp

lemma reads_array:
  assumes "list_all read_element es"
  shows "reads (array_text es) (JArr (array_values es))"
proof -
  have "parse_value n (array_text es @ r) = Some (JV (array_text es) (JArr (array_values es)), r)"
    if le: "2 * length (array_text es) + 1 \<le> n" for n r
  proof -
    from le obtain k where n: "n = Suc k" by (cases n) auto
    show ?thesis
    proof (cases es)
      case Nil
      then show ?thesis by (simp add: n array_text_def json_array_def array_values_def is_ws_def code_def with_raw_def)
    next
      case (Cons e es')
      let ?j = "join '','' (map fst es)"
      have e: "fst e \<noteq> []" "\<not> is_ws (hd (fst e))" "hd (fst e) \<noteq> CHR '']''"
        using assms by (simp_all add: Cons read_element_def reads_def)
      then obtain c j where j: "?j = c # j" "\<not> is_ws c" "c \<noteq> CHR '']''"
        by (cases "fst e"; cases es') (simp_all add: Cons)
      have "parse_elems k (?j @ CHR '']'' # r) = Some (array_values es, r)"
        using le n Cons assms by (intro parse_elems_join) (simp_all add: array_text_def json_array_def)
      then show ?thesis
        using with_raw_Some [of "array_text es" r "JArr (array_values es)"] j(2,3)
        by (simp add: n array_text_def json_array_def j(1) is_ws_def code_def del: parse_elems.simps)
    qed
  qed
  then show ?thesis by (simp add: reads_def array_text_def json_array_def is_ws_def code_def del: parse_value.simps)
qed

lemma safe_array:
  assumes "list_all read_element es"
  shows "safe (array_text es)"
proof -
  have s: "safe '',''" "safe ''[''" "safe '']''" by (rule safe_ascii, simp add: code_def)+
  have "safe (join '','' (map fst es))" using assms
  proof (induction es)
    case (Cons a es)
    then have "safe (fst a @ '','' @ join '','' (map fst es))" by (intro safe_append s) (simp_all add: read_element_def)
    with Cons.prems show ?case by (cases es) (simp_all add: read_element_def)
  qed simp
  then have "safe (''['' @ join '','' (map fst es) @ '']'')" by (intro safe_append s)
  then show ?thesis by (simp add: array_text_def json_array_def)
qed

lemma length_array_text: "length (array_text es) = sum_list (map (\<lambda>e. length (fst e)) es) + (length es - 1) + 2"
  by (simp add: array_text_def json_array_def length_join comp_def)

lemma get_arrays [simp]:
  "get_arr (object_members (raw_member k t (JArr vs) # ms)) k' = (if k' = k then Inr vs else get_arr (object_members ms) k')"
  "k' \<noteq> key_of m \<Longrightarrow> get_arr (object_members (m # ms)) k' = get_arr (object_members ms) k'"
  by (auto simp: get_arr_def object_members_def raw_member_def)

lemma map_res_inverse: "(\<And>x. x \<in> set xs \<Longrightarrow> f (h x) = Inr x) \<Longrightarrow> map_res f (map h xs) = Inr xs"
  by (induction xs) auto

definition str_element :: "string \<Rightarrow> element" where "str_element s = (json_string s, JStr s)"

lemma read_str_element: "utf8_Valid s \<Longrightarrow> read_element (str_element s)"
  by (simp add: read_element_def str_element_def reads_string safe_json_string) (simp add: json_string_def)

lemma strings_of_elements:
  "map_res (\<lambda>v. case v of JV _ (JStr s) \<Rightarrow> Inr s | _ \<Rightarrow> Inl type_error) (array_values (map str_element ss)) = Inr ss"
  by (induction ss) (simp_all add: array_values_def str_element_def)

subsection \<open>Trust sets\<close>

definition key_members :: "TrustKey \<Rightarrow> member list" where
  "key_members k = [str_member ''key_id'' (k_ID k), str_member ''public_key_b64'' (k_Public k), int_member ''not_before'' (k_NotBefore k),
     int_member ''not_after'' (k_NotAfter k), bool_member ''allow_legacy'' (k_Legacy k)]"

definition key_element :: "TrustKey \<Rightarrow> element" where
  "key_element k = (object_text (key_members k), JObj (object_members (key_members k)))"

lemma marshal_key: "marshal_TrustKey k = object_text (key_members k)"
  by (simp add: marshal_TrustKey_def object_text_def key_members_def)

lemma key_names: "list_all plain [''key_id'', ''public_key_b64'', ''not_before'', ''not_after'', ''allow_legacy'']"
  by (simp add: plain_char_def alnum_def char_in_def code_def)

text \<open>What a valid set says of a key's texts.\<close>

definition key_printable :: "TrustKey \<Rightarrow> bool" where
  "key_printable k \<longleftrightarrow> plain (k_ID k) \<and> length (k_ID k) = 64 \<and> plain (k_Public k) \<and> length (k_Public k) \<le> 43
     \<and> int64 (k_NotBefore k) \<and> int64 (k_NotAfter k)"

lemma TrustKey_ok_printable:
  assumes "sha256_spec C" "TrustKey_ok C k" "int64 (k_NotBefore k)" "int64 (k_NotAfter k)"
  shows "key_printable k"
proof -
  from assms(2) obtain b where b: "signing_decode (k_Public k) PublicKeySize = Inr b" "KeyID C b = k_ID k"
    by (auto simp: TrustKey_ok_def TrustKey_PublicKey_def is_ok_iff split: sum.splits if_splits)
  from b(1) have p: "k_Public k = b64_EncodeToString b" "length b \<le> 32" by (auto simp: signing_decode_eq_Inr PublicKeySize_def)
  have "length (k_Public k) \<le> 43" using b64_EncodedLen_mono [OF p(2)] by (simp add: p(1) b64_EncodedLen_def)
  moreover have "Hex (k_ID k) 64" using Hex_Digest [OF assms(1), of b] b(2) by (simp add: KeyID_def Digest_def)
  ultimately show ?thesis using p(1) b64_plain assms(3,4) by (auto simp: key_printable_def dest: Hex_plain Hex_length)
qed

lemma read_key_members: "key_printable k \<Longrightarrow> list_all read_member (key_members k)"
  using key_names by (simp add: key_members_def key_printable_def read_members plain_valid)

lemma read_key_element: "key_printable k \<Longrightarrow> read_element (key_element k)"
  using reads_object [OF read_key_members] safe_object [OF read_key_members]
  by (simp add: read_element_def key_element_def) (simp add: object_text_alt)

lemma length_key_element: "key_printable k \<Longrightarrow> length (fst (key_element k)) \<le> 300"
  using key_names length_show_int [of "k_NotBefore k"] length_show_int [of "k_NotAfter k"]
  by (simp add: key_element_def key_members_def key_printable_def length_object_text length_json_string_plain json_bool_def)

lemma decode_key_element:
  assumes "key_printable k"
  shows "decode_TrustKey (fst (key_element k)) = Inr k"
proof -
  have "strict_decode (object_text (key_members k)) 1024 [''key_id'', ''public_key_b64'', ''not_before'', ''not_after'', ''allow_legacy'']
    = Inr (object_members (key_members k))"
    using read_key_members [OF assms] length_key_element [OF assms]
    by (intro strict_decode_object) (simp_all add: key_members_def key_element_def)
  moreover have "\<lparr>k_ID = k_ID k, k_Public = k_Public k, k_NotBefore = k_NotBefore k, k_NotAfter = k_NotAfter k, k_Legacy = k_Legacy k\<rparr> = k" by simp
  ultimately show ?thesis using assms by (simp add: decode_TrustKey_def key_element_def key_members_def key_printable_def)
qed

definition canonical_trust :: "TrustSet \<Rightarrow> TrustSet" where
  "canonical_trust s = s\<lparr>s_Keys := sort_key k_ID (s_Keys s), s_Retired := Some (sort (elems (s_Retired s)))\<rparr>"

definition trust_members :: "TrustSet \<Rightarrow> member list" where
  "trust_members s = [int_member ''version'' (s_Version s), str_member ''trust_set_id'' (s_ID s), int_member ''generation'' (s_Generation s),
     raw_member ''keys'' (array_text (map key_element (s_Keys s))) (JArr (array_values (map key_element (s_Keys s)))),
     raw_member ''retired_key_ids'' (array_text (map str_element (elems (s_Retired s)))) (JArr (array_values (map str_element (elems (s_Retired s)))))]"

lemma Canonical_members:
  "TrustSet_Validate C s \<Longrightarrow> TrustSet_Canonical C s = Inr (object_text (trust_members (canonical_trust s)))"
  by (simp add: TrustSet_Canonical_def object_text_def trust_members_def array_text_def canonical_trust_def comp_def str_element_def
      key_element_def marshal_key [abs_def])

lemma overlap_ok_perm: "mset ks = mset ks' \<Longrightarrow> overlap_ok ks \<Longrightarrow> overlap_ok ks'"
proof -
  assume m: "mset ks = mset ks'" and o: "overlap_ok ks"
  have "length ks = length ks'" using m by (rule mset_eq_length)
  then show ?thesis
  proof (cases "length ks' = 2")
    case True
    then obtain a b c d where ab: "ks = [a, b]" "ks' = [c, d]"
      using \<open>length ks = length ks'\<close> by (auto simp: numeral_2_eq_2 length_Suc_conv)
    with m have "a = c \<and> b = d \<or> a = d \<and> b = c" by (auto simp: add_eq_conv_ex)
    with ab o show ?thesis by (auto simp: overlap_ok_def max.commute min.commute)
  next
    case False
    then show ?thesis by (auto simp: overlap_ok_def split: list.splits)
  qed
qed

lemma list_all_sort: "list_all P (sort_key f xs) = list_all P xs"
  by (simp only: list_all_iff set_sort)

lemma canonical_trust_valid:
  assumes "TrustSet_Validate C s"
  shows "TrustSet_Validate C (canonical_trust s)"
proof -
  have d: "distinct (map k_ID (sort_key k_ID (s_Keys s)))"
    using TrustSet_Validate_ids(2) [OF assms] by (subst mset_eq_imp_distinct_iff [of _ "map k_ID (s_Keys s)"]) simp_all
  have f: "length (filter k_Legacy (sort_key k_ID (s_Keys s))) = length (filter k_Legacy (s_Keys s))"
    by (simp add: filter_sort)
  have "mset (s_Keys s) = mset (sort_key k_ID (s_Keys s))" "overlap_ok (s_Keys s)" using assms by (simp_all add: TrustSet_Validate_def)
  then have "overlap_ok (sort_key k_ID (s_Keys s))" by (rule overlap_ok_perm)
  moreover have "seen_loop id (\<lambda>i. Hex i 64) {} (sort (elems (s_Retired s)))"
    using assms unfolding TrustSet_Validate_def seen_loop_iff by (simp add: list_all_sort)
  moreover have "seen_loop k_ID (TrustKey_ok C) (set (elems (s_Retired s))) (sort_key k_ID (s_Keys s))"
    using assms d unfolding TrustSet_Validate_def seen_loop_iff by (simp add: list_all_sort)
  ultimately show ?thesis using assms f by (simp add: TrustSet_Validate_def canonical_trust_def)
qed

definition trust_int64 :: "TrustSet \<Rightarrow> bool" where
  "trust_int64 s \<longleftrightarrow> (\<forall>k\<in>set (s_Keys s). int64 (k_NotBefore k) \<and> int64 (k_NotAfter k))"

lemma trust_texts:
  assumes "sha256_spec C" "TrustSet_Validate C s" "trust_int64 s"
  shows "list_all read_member (trust_members s)" "length (object_text (trust_members s)) \<le> MaxTrustBytes"
    "\<And>k. k \<in> set (s_Keys s) \<Longrightarrow> key_printable k" "list_all plain (elems (s_Retired s))"
proof -
  show k: "key_printable k" if "k \<in> set (s_Keys s)" for k
    using that assms by (intro TrustKey_ok_printable [OF assms(1)]) (auto simp: TrustSet_Validate_def seen_loop_iff list_all_iff trust_int64_def)
  have h: "Hex i 64" if "i \<in> set (elems (s_Retired s))" for i
    using that assms(2) by (auto simp: TrustSet_Validate_def seen_loop_iff list_all_iff)
  then show p: "list_all plain (elems (s_Retired s))" unfolding list_all_iff [of "list_all plain_char"] by (blast intro: Hex_plain)
  have i: "plain (s_ID s)" "length (s_ID s) = 32" using assms(2) by (auto simp: TrustSet_Validate_def dest: Hex_plain Hex_length)
  have n: "list_all plain [''version'', ''trust_set_id'', ''generation'', ''keys'', ''retired_key_ids'']"
    by (simp add: plain_char_def alnum_def char_in_def code_def)
  have ke: "list_all read_element (map key_element (s_Keys s))" using k read_key_element by (auto simp: list_all_iff)
  have re: "list_all read_element (map str_element (elems (s_Retired s)))"
    using p read_str_element plain_valid by (auto simp: list_all_iff)
  show "list_all read_member (trust_members s)"
    using n i ke re by (simp add: trust_members_def read_members plain_valid reads_array safe_array)
  have "sum_list (map (\<lambda>e. length (fst e)) (map key_element (s_Keys s))) \<le> 300 * length (s_Keys s)"
    using k length_key_element sum_list_mono [of "s_Keys s" "\<lambda>k. length (fst (key_element k))" "\<lambda>_. 300"] by (simp add: comp_def sum_list_triv mult.commute)
  moreover have "sum_list (map (\<lambda>e. length (fst e)) (map str_element (elems (s_Retired s)))) \<le> 66 * length (elems (s_Retired s))"
  proof -
    have "length (fst (str_element r)) \<le> 66" if "r \<in> set (elems (s_Retired s))" for r
      using Hex_length [OF h [OF that]] length_json_string_plain [OF Hex_plain [OF h [OF that]]] by (simp add: str_element_def)
    then show ?thesis
      using sum_list_mono [of "elems (s_Retired s)" "\<lambda>r. length (fst (str_element r))" "\<lambda>_. 66"] by (simp add: comp_def sum_list_triv mult.commute)
  qed  moreover have "length (s_Keys s) \<le> 2" "length (elems (s_Retired s)) \<le> 64" using assms(2) by (simp_all add: TrustSet_Validate_def MaxRetiredKeys_def)
  moreover have "int64 (s_Version s)" "int64 (s_Generation s)" using assms(2) by (simp_all add: TrustSet_Validate_def MaxRetiredKeys_def int64_def)
  ultimately show "length (object_text (trust_members s)) \<le> MaxTrustBytes"
    using n i length_show_int [of "s_Version s"] length_show_int [of "s_Generation s"]
    by (simp add: length_object_text trust_members_def length_array_text length_json_string_plain MaxTrustBytes_def)
qed

lemma strict_elements:
  "strict_node (Suc d) (JArr (array_values (map key_element ks)))" if "d < 5" for ks
  using that by (simp add: array_values_def key_element_def object_members_def key_members_def member_defs MaxDepth_def list_all_iff)

lemma strict_strings: "d < 6 \<Longrightarrow> strict_node (Suc d) (JArr (array_values (map str_element ss)))"
  by (simp add: array_values_def str_element_def MaxDepth_def list_all_iff)

lemma DecodeTrust_members:
  assumes "sha256_spec C" "TrustSet_Validate C s" "trust_int64 s"
  shows "DecodeTrust C (object_text (trust_members s)) = Inr s"
proof -
  note t = trust_texts [OF assms]
  have "strict_decode (object_text (trust_members s)) MaxTrustBytes [''version'', ''trust_set_id'', ''generation'', ''keys'', ''retired_key_ids'']
    = Inr (object_members (trust_members s))"
    using t(1,2) strict_elements [of 0 "s_Keys s"] strict_strings [of 0 "elems (s_Retired s)"]
    by (intro strict_decode_object) (simp_all add: trust_members_def MaxTrustBytes_def del: strict_node.simps(6))
  moreover have "map_res (\<lambda>b. decode_TrustKey (raw_of b)) (array_values (map key_element (s_Keys s))) = Inr (s_Keys s)"
    unfolding array_values_def map_map using t(3) decode_key_element by (intro map_res_inverse) simp
  moreover have "int64 (s_Version s)" "int64 (s_Generation s)" using assms(2) by (simp_all add: TrustSet_Validate_def MaxRetiredKeys_def int64_def)
  moreover have "\<lparr>s_Version = s_Version s, s_ID = s_ID s, s_Generation = s_Generation s, s_Keys = s_Keys s, s_Retired = Some (elems (s_Retired s))\<rparr> = s"
    using assms(2) by (cases s) (auto simp: TrustSet_Validate_def)
  ultimately show ?thesis using assms(2)
    by (simp add: DecodeTrust_def trust_members_def get_strs_def strings_of_elements)
qed

lemma DecodeTrust_Canonical:
  assumes "sha256_spec C" "TrustSet_Validate C s" "trust_int64 s"
  shows "\<exists>data. TrustSet_Canonical C s = Inr data \<and> DecodeTrust C data = Inr (canonical_trust s)
    \<and> TrustSet_Canonical C (canonical_trust s) = Inr data \<and> length data \<le> MaxTrustBytes"
proof -
  have v: "TrustSet_Validate C (canonical_trust s)" by (rule canonical_trust_valid [OF assms(2)])
  have i: "trust_int64 (canonical_trust s)" using assms(3) by (simp add: trust_int64_def canonical_trust_def)
  have "canonical_trust (canonical_trust s) = canonical_trust s" by (simp add: canonical_trust_def sort_key_sorted)
  then show ?thesis
    using Canonical_members [OF assms(2)] Canonical_members [OF v] DecodeTrust_members [OF assms(1) v i] trust_texts(2) [OF assms(1) v i] by simp
qed

lemma SignTrusted_accepted:
  assumes "ed25519_spec C" "sha256_spec C" and s: "SignTrusted C payload key trust now = Inr data"
  shows "(\<exists>t. VerifyTrusted C data trust now = Inr (t, payload, KeyID C (ed_Public C key)) \<and> DecodeTask payload = Inr t)
     \<or> (\<exists>u v. collision C u v)"
proof -
  from s have v: "TrustSet_Validate C trust"
    and c: "\<exists>t. CheckTask trust t (KeyID C (ed_Public C key)) now = Inr ()"
    by (auto simp: SignTrusted_def result_simps Let_def split: if_splits)
  from c obtain k where k: "TrustSet_Key trust (KeyID C (ed_Public C key)) = Inr k" by (auto simp: CheckTask_def result_simps)
  then have m: "k \<in> set (s_Keys trust)" "k_ID k = KeyID C (ed_Public C key)" using TrustSet_Key_sound by auto
  then have "is_ok (TrustKey_PublicKey C k)" using v by (auto simp: TrustSet_Validate_def seen_loop_iff list_all_iff TrustKey_ok_def)
  then obtain pub where p: "TrustKey_PublicKey C k = Inr pub" by (auto simp: is_ok_iff)
  then have "KeyID C pub = KeyID C (ed_Public C key)" using m(2) by (auto simp: TrustKey_PublicKey_def split: sum.splits if_splits)
  then have "pub = ed_Public C key \<or> collision C pub (ed_Public C key)"
    unfolding KeyID_def collision_def by (auto dest: hex_EncodeToString_inj)
  then show ?thesis using VerifyTrusted_SignTrusted [OF assms k] p by blast
qed

end
