(* ===== verification/Wire_Properties.thy ===== *)
theory Wire_Properties
  imports Example_Server Trust_Codec
begin

section \<open>Properties of the formats: JSON, tasks, envelopes, trust, audit, policy\<close>

text \<open>
  What the two programs rely on when they exchange and keep bytes. Each property with a hypothesis is followed by a
  closed instance.
\<close>

subsection \<open>JSON\<close>



subsection \<open>Tasks and results\<close>

text \<open>C20: whatever valid task an operator submits, \<open>json.Marshal\<close> succeeds on it and the stored bytes decode to the same
  task with compacted parameters, that selects the same resource and is valid again; no bytes but a valid task's decode.\<close>

theorem task_roundtrip:
  assumes "Task_Validate t" "int64 (t_CreatedAt t)" "int64 (t_ExpiresAt t)"
  shows "\<exists>payload. MarshalTask t = Inr payload \<and> DecodeTask payload = Inr (t\<lparr>t_Params := compact False (t_Params t)\<rparr>)
    \<and> Task_Resource (t\<lparr>t_Params := compact False (t_Params t)\<rparr>) = Task_Resource t
    \<and> Task_Validate (t\<lparr>t_Params := compact False (t_Params t)\<rparr>)"
  using MarshalTask_stored [OF assms] stored_params [OF assms(1)] unfolding stored_task_def by metis

theorem task_roundtrip_witness:
  "\<exists>payload. MarshalTask demo_task = Inr payload \<and> is_ok (DecodeTask payload)"
proof -
  have "int64 (t_CreatedAt demo_task)" "int64 (t_ExpiresAt demo_task)" by (simp_all add: demo_task_def int64_def)
  from task_roundtrip [OF demo_task_valid this] show ?thesis by auto
qed

text \<open>The time checks of a task never overflow: the lifetime is positive and at most five minutes, and every
  subtraction that \<open>Validate\<close> and \<open>CheckTarget\<close> compute stays within 64 bits, so that a task can be current at no more
  than 330 consecutive seconds.\<close>

lemma task_window:
  assumes "CheckTarget t node digest now" "int64 (t_CreatedAt t)" "int64 (t_ExpiresAt t)"
  shows "t_CreatedAt t - 30 \<le> unix_sec now \<and> unix_sec now < t_ExpiresAt t \<and> t_ExpiresAt t \<le> t_CreatedAt t + 300
    \<and> wrap64 (t_ExpiresAt t - t_CreatedAt t) = t_ExpiresAt t - t_CreatedAt t \<and> wrap64 (t_CreatedAt t - 30) = t_CreatedAt t - 30
    \<and> (\<forall>later. CheckTarget t node digest later \<longrightarrow> unix_sec later < unix_sec now + 330)"
proof -
  have v: "Task_Validate t" using assms(1) by (simp add: CheckTarget_def)
  note w = Task_window [OF v assms(2,3)]
  have a: "t_CreatedAt t - 30 \<le> unix_sec n" "unix_sec n < t_ExpiresAt t" if "CheckTarget t node digest n" for n
    using that by (simp_all add: CheckTarget_def MaxClockSkew_def)
  have "wrap64 (t_ExpiresAt t - t_CreatedAt t) = t_ExpiresAt t - t_CreatedAt t" "wrap64 (t_CreatedAt t - 30) = t_CreatedAt t - 30"
    using w(4,5) by (simp_all add: MaxClockSkew_def)
  moreover have "t_ExpiresAt t \<le> t_CreatedAt t + 300" using w(3) by (simp add: MaxLifetime_def)
  ultimately show ?thesis using a assms(1) by fastforce
qed

lemma task_window_witness: "unix_sec (demo_clk 0) < 1060"
proof -
  have "CheckTarget demo_task demo_node zeros (demo_clk 0)" unfolding demo_clk_def by code_simp
  from task_window [OF this] show ?thesis by (simp add: demo_task_def int64_def)
qed

subsection \<open>Envelopes and trust\<close>

text \<open>C21: what the server signs, the probe's verifier accepts and reads back byte for byte: under the pinned public key for
  the first format, and under the trust set that was signed against for the second.\<close>

theorem envelope_roundtrip:
  assumes "ed25519_spec C" "sha256_spec C"
  shows "(Sign C payload key = Inr data \<longrightarrow> (\<exists>t. VerifyPayload C data (ed_Public C key) = Inr (t, payload) \<and> DecodeTask payload = Inr t))
    \<and> (SignTrusted C payload key trust now = Inr data
       \<longrightarrow> (\<exists>t. VerifyTrusted C data trust now = Inr (t, payload, KeyID C (ed_Public C key)) \<and> DecodeTask payload = Inr t)
           \<or> (\<exists>u v. collision C u v))"
proof (intro conjI impI)
  assume "Sign C payload key = Inr data"
  then show "\<exists>t. VerifyPayload C data (ed_Public C key) = Inr (t, payload) \<and> DecodeTask payload = Inr t"
    by (rule VerifyPayload_Sign [OF assms(1)])
next
  assume "SignTrusted C payload key trust now = Inr data"
  then show "(\<exists>t. VerifyTrusted C data trust now = Inr (t, payload, KeyID C (ed_Public C key)) \<and> DecodeTask payload = Inr t)
     \<or> (\<exists>u v. collision C u v)" by (rule SignTrusted_accepted [OF assms])
qed

theorem envelope_roundtrip_witness:
  "\<exists>t. VerifyPayload demo_crypto demo_envelope (ed_Public demo_crypto demo_private) = Inr (t, demo_payload)"
  using envelope_roundtrip [OF demo_ed25519 demo_sha256, of demo_payload demo_private demo_envelope] demo_sign by blast

text \<open>C22: an envelope that \<open>VerifyTrusted\<close> accepts carries a strictly decoded task inside the window of a key of the trust
  set, and a signature of that key over exactly this payload: in the second format bound to the trust set and the key, in
  the first only for the one key that is marked legacy. No two of these messages share a signed text.\<close>

theorem verified_envelope:
  assumes "VerifyTrusted C data trust now = Inr (t, payload, i)"
  shows "DecodeTask payload = Inr t
    \<and> (\<exists>k pub sig. k \<in> set (s_Keys trust) \<and> k_ID k = i \<and> TrustKey_PublicKey C k = Inr pub
         \<and> k_NotBefore k \<le> unix_sec now \<and> unix_sec now < k_NotAfter k \<and> k_NotBefore k \<le> t_CreatedAt t \<and> t_ExpiresAt t \<le> k_NotAfter k
         \<and> (ed_Verify C pub (messageV2 (s_ID trust) i payload) sig \<or> k_Legacy k \<and> ed_Verify C pub (message payload) sig))
    \<and> (\<forall>trust' i' p q. message p \<noteq> messageV2 trust' i' q \<and> (message p = message q \<longrightarrow> p = q))
    \<and> (\<forall>trust' i' q. messageV2 (s_ID trust) i payload = messageV2 trust' i' q
         \<longrightarrow> length trust' = length (s_ID trust) \<longrightarrow> length i' = length i \<longrightarrow> trust' = s_ID trust \<and> i' = i \<and> q = payload)"
proof -
  note s = VerifyTrusted_sound [OF assms]
  from s(3) obtain k pub sig where k: "k \<in> set (s_Keys trust)" "k_ID k = i" "TrustKey_PublicKey C k = Inr pub"
    "ed_Verify C pub (messageV2 (s_ID trust) i payload) sig \<or> k_Legacy k \<and> ed_Verify C pub (message payload) sig"
    by (auto simp: trusted_signature_def)
  from CheckTask_sound [OF s(2)] obtain k' where k': "k' \<in> set (s_Keys trust)" "k_ID k' = i" "k_NotBefore k' \<le> unix_sec now"
    "unix_sec now < k_NotAfter k'" "k_NotBefore k' \<le> t_CreatedAt t" "t_ExpiresAt t \<le> k_NotAfter k'" by metis
  have "k' = k" using unique_row [OF TrustSet_Validate_ids(2) [OF s(4)] k'(1) k(1)] k(2) k'(2) by simp
  with k' have w: "k_NotBefore k \<le> unix_sec now \<and> unix_sec now < k_NotAfter k \<and> k_NotBefore k \<le> t_CreatedAt t \<and> t_ExpiresAt t \<le> k_NotAfter k" by simp
  have m: "\<forall>trust' i' p q. message p \<noteq> messageV2 trust' i' q \<and> (message p = message q \<longrightarrow> p = q)"
    by (simp add: message_domains message_inj)
  have "\<forall>trust' i' q. messageV2 (s_ID trust) i payload = messageV2 trust' i' q
         \<longrightarrow> length trust' = length (s_ID trust) \<longrightarrow> length i' = length i \<longrightarrow> trust' = s_ID trust \<and> i' = i \<and> q = payload"
    using messageV2_inj by metis
  with k w m s(1) show ?thesis by blast
qed

definition demo_trust :: TrustSet where
  "demo_trust = \<lparr>s_Version = 1, s_ID = replicate 32 (CHR ''d''), s_Generation = 1,
     s_Keys = [NewTrustKey demo_crypto demo_public 500 5000 True], s_Retired = Some []\<rparr>"

lemma demo_KeyID [simp]: "KeyID demo_crypto m = zeros"
  using demo_Digest [of m] by (simp add: KeyID_def Digest_def)

lemma demo_trust_key: "TrustKey_PublicKey demo_crypto (NewTrustKey demo_crypto demo_public a b l) = Inr demo_public"
proof -
  have "signing_decode (b64_EncodeToString demo_public) PublicKeySize = Inr demo_public"
    by (simp add: signing_decode_eq_Inr demo_public_def PublicKeySize_def)
  then show ?thesis by (simp add: TrustKey_PublicKey_def NewTrustKey_def demo_public_def PublicKeySize_def)
qed

lemma demo_trust: "TrustSet_Validate demo_crypto demo_trust"
proof -
  have h: "Hex (replicate 32 (CHR ''d'')) 32" by code_simp
  have "TrustKey_ok demo_crypto (NewTrustKey demo_crypto demo_public 500 5000 True)"
    unfolding TrustKey_ok_def demo_trust_key by (simp add: NewTrustKey_def)
  with h show ?thesis by (simp add: TrustSet_Validate_def demo_trust_def seen_loop_iff overlap_ok_def MaxRetiredKeys_def)
qed

lemma demo_trusted_envelope:
  "\<exists>e. SignTrusted demo_crypto demo_payload demo_private demo_trust (demo_clk 0) = Inr e"
proof -
  have "CheckTask demo_trust demo_task zeros (demo_clk 0) = Inr ()"
    by (simp add: CheckTask_def TrustSet_Key_def demo_trust_def NewTrustKey_def demo_task_def)
  then show ?thesis
    by (simp add: SignTrusted_def demo_trust demo_marshal(2) demo_private_def PrivateKeySize_def Let_def)
qed

theorem verified_envelope_witness:
  "\<exists>e i k. VerifyTrusted demo_crypto e demo_trust (demo_clk 0) = Inr (demo_task, demo_payload, i) \<and> k \<in> set (s_Keys demo_trust)
     \<and> k_NotBefore k \<le> 1010"
proof -
  obtain e where e: "SignTrusted demo_crypto demo_payload demo_private demo_trust (demo_clk 0) = Inr e" using demo_trusted_envelope by blast
  have pub: "ed_Public demo_crypto demo_private = demo_public" by (simp add: demo_crypto_def demo_public_def)
  have k: "TrustSet_Key demo_trust (KeyID demo_crypto (ed_Public demo_crypto demo_private)) = Inr (hd (s_Keys demo_trust))"
    "TrustKey_PublicKey demo_crypto (hd (s_Keys demo_trust)) = Inr (ed_Public demo_crypto demo_private)"
    by (simp_all add: TrustSet_Key_def demo_trust_def demo_trust_key pub) (simp add: NewTrustKey_def)  obtain t where v: "VerifyTrusted demo_crypto e demo_trust (demo_clk 0) = Inr (t, demo_payload, KeyID demo_crypto (ed_Public demo_crypto demo_private))"
    using VerifyTrusted_SignTrusted [OF demo_ed25519 demo_sha256 e k] by blast
  from verified_envelope [OF v] have "t = demo_task" by (simp add: demo_marshal(2))
  moreover from verified_envelope [OF v] obtain k where "k \<in> set (s_Keys demo_trust)" "k_NotBefore k \<le> 1010" by auto
  ultimately show ?thesis using v by blast
qed

text \<open>C23: along any chain of accepted trust changes a retired key is never trusted again - no envelope is accepted under
  it, not even one from before -, a key's authority is never extended (same public key and start, an end that only moves
  forward in strictness), no key becomes legacy later, the generation counts the changes, and there are at most 128.\<close>

theorem trust_monotone:
  assumes "trust_chain C s t n"
  shows "(\<forall>i\<in>retired_ids s. i \<notin> key_ids t \<and> VerifyTrusted C data t now \<noteq> Inr (task, payload, i))
    \<and> (\<forall>old\<in>set (s_Keys s). \<forall>k\<in>set (s_Keys t). k_ID k = k_ID old \<longrightarrow> k_Public k = k_Public old \<and> k_NotBefore k = k_NotBefore old
         \<and> k_NotAfter k \<le> k_NotAfter old \<and> k_Legacy k = k_Legacy old)
    \<and> (\<forall>k\<in>set (s_Keys t). k_Legacy k \<longrightarrow> k_ID k \<in> key_ids s)
    \<and> s_ID t = s_ID s \<and> s_Generation t = s_Generation s + int n \<and> n \<le> 128"
proof -
  have "VerifyTrusted C data t now \<noteq> Inr (task, payload, i)" if "i \<notin> key_ids t" for i
    using that VerifyTrusted_sound(3) [of C data t now task payload i] by (auto simp: trusted_signature_def key_ids_def)
  then show ?thesis
    using trust_chain_no_revival [OF assms] trust_chain_narrowed [OF assms] trust_chain_legacy [OF assms] trust_chain_ids [OF assms]
      trust_chain_bound [OF assms] by (auto simp: narrowed_def MaxRetiredKeys_def)
qed

text \<open>A stand-in for SHA-256 under which different keys have different identifiers, and a trust set of two keys.\<close>

definition pad_crypto :: crypto where
  "pad_crypto = demo_crypto\<lparr>Sum256 := (\<lambda>m. take 32 (m @ replicate 32 (CHR 0x00)))\<rparr>"

definition demo_key2 :: bytes where "demo_key2 = replicate 32 (CHR 0x04)"

definition demo_overlap :: TrustSet where
  "demo_overlap = demo_trust\<lparr>s_Keys := [NewTrustKey pad_crypto demo_public 500 5000 True, NewTrustKey pad_crypto demo_key2 1000 90000 False]\<rparr>"

lemma pad_trust_key:
  assumes "length key = 32"
  shows "TrustKey_PublicKey pad_crypto (NewTrustKey pad_crypto key a b l) = Inr key"
proof -
  have "signing_decode (b64_EncodeToString key) PublicKeySize = Inr key" using assms by (simp add: signing_decode_eq_Inr PublicKeySize_def)
  then show ?thesis using assms by (simp add: TrustKey_PublicKey_def NewTrustKey_def PublicKeySize_def)
qed

lemma demo_overlap: "TrustSet_Validate pad_crypto demo_overlap"
proof -
  have h: "Hex (replicate 32 (CHR ''d'')) 32" "KeyID pad_crypto demo_public \<noteq> KeyID pad_crypto demo_key2" by code_simp+
  have "TrustKey_ok pad_crypto (NewTrustKey pad_crypto key a b l)" if "length key = 32" "0 < a" "a < b" for key a b l
    using pad_trust_key [OF that(1), of a b l] that(2,3) by (simp add: TrustKey_ok_def) (simp add: NewTrustKey_def)
  then have "TrustKey_ok pad_crypto (NewTrustKey pad_crypto demo_public 500 5000 True)"
    "TrustKey_ok pad_crypto (NewTrustKey pad_crypto demo_key2 1000 90000 False)" by (simp_all add: demo_public_def demo_key2_def)
  moreover have "overlap_ok (s_Keys demo_overlap)" by (simp add: overlap_ok_def demo_overlap_def NewTrustKey_def MaxSignerOverlap_def int64_def)
  ultimately show ?thesis
    using h by (simp add: TrustSet_Validate_def demo_overlap_def demo_trust_def seen_loop_iff MaxRetiredKeys_def) (simp add: NewTrustKey_def)
qed

text \<open>One of two overlapping keys can always be retired while the record of retirements has room: afterwards exactly
  that key is gone from the trust set and remembered as retired.\<close>

lemma retire_succeeds:
  assumes "TrustSet_Validate C s" "length (s_Keys s) = 2" "i \<in> key_ids s" "Hex i 64"
    and "length (elems (s_Retired s)) < 64" "s_Generation s \<le> 128"
  shows "\<exists>t. Retire C s i = Inr t \<and> TrustSet_Validate C t \<and> key_ids t = key_ids s - {i} \<and> retired_ids t = insert i (retired_ids s)
    \<and> s_Generation t = s_Generation s + 1 \<and> CheckTransition C (Some s) l t = Inr ()"
proof -
  obtain t where t: "Retire C s i = Inr t" "key_ids t = key_ids s - {i}" "retired_ids t = insert i (retired_ids s)"
    using Retire_succeeds [OF assms(1-3)] assms(4-6) by (auto simp: MaxRetiredKeys_def)
  then have c: "CheckTransition C (Some s) '''' t = Inr ()" by (auto simp: Retire_def Let_def result_simps)
  have "CheckTransition C (Some s) l t = CheckTransition C (Some s) '''' t" unfolding CheckTransition_def option.case ..
  then have "CheckTransition C (Some s) l t = Inr ()" using c by (rule trans)
  with t CheckTransition_spec(2,4) [OF c] show ?thesis by blast
qed

lemma demo_overlap_keys:
  "KeyID pad_crypto demo_public \<in> key_ids demo_overlap" "Hex (KeyID pad_crypto demo_public) 64" "length (s_Keys demo_overlap) = 2"
  "length (elems (s_Retired demo_overlap)) < 64" "s_Generation demo_overlap \<le> 128"
proof -
  show "Hex (KeyID pad_crypto demo_public) 64" by code_simp
qed (simp_all add: demo_overlap_def key_ids_def NewTrustKey_def demo_trust_def)

lemma retire_succeeds_witness: "is_ok (Retire pad_crypto demo_overlap (KeyID pad_crypto demo_public))"
  using retire_succeeds [OF demo_overlap demo_overlap_keys(3,1,2,4,5), of "[]"] by auto

lemma demo_chain:
  "\<exists>t. trust_chain pad_crypto demo_overlap t 1 \<and> KeyID pad_crypto demo_public \<in> retired_ids t"
proof -
  obtain t where t: "Retire pad_crypto demo_overlap (KeyID pad_crypto demo_public) = Inr t"
    "retired_ids t = insert (KeyID pad_crypto demo_public) (retired_ids demo_overlap)"
    using Retire_succeeds [OF demo_overlap demo_overlap_keys(3,1)] demo_overlap_keys by (auto simp: MaxRetiredKeys_def)
  then have "CheckTransition pad_crypto (Some demo_overlap) [] t = Inr ()" by (auto simp: Retire_def Let_def result_simps)
  with chain_step [OF chain_refl [OF demo_overlap]] t(2) show ?thesis by auto
qed

theorem trust_monotone_witness:
  "\<exists>t. trust_chain pad_crypto demo_overlap t 1 \<and> s_Generation t = 2 \<and> KeyID pad_crypto demo_public \<in> retired_ids t"
proof -
  obtain t where t: "trust_chain pad_crypto demo_overlap t 1" "KeyID pad_crypto demo_public \<in> retired_ids t" using demo_chain by blast
  from trust_monotone [OF t(1)] have "s_Generation t = s_Generation demo_overlap + 1" by simp
  then show ?thesis using t by (auto simp: demo_overlap_def demo_trust_def)
qed

subsection \<open>The audit log\<close>

text \<open>C24: the log is tamper evident: two logs that both pass \<open>Verify\<close> with the same head - sequence number and hash - hold
  the same rows, or the change exhibits a SHA-256 collision; and every row of such a log is the encoding of a valid event.\<close>

theorem audit_tamper_evident:
  assumes "sha256_spec C" "audit_Verify C L" "audit_Verify C M" "al_sequence M = al_sequence L" "al_hash M = al_hash L"
  shows "take (nat Capacity + 1) (ordered_rows M) = take (nat Capacity + 1) (ordered_rows L) \<or> (\<exists>u v. collision C u v)"
proof -
  have "verify_rows C 0 genesis (take (nat Capacity + 1) (ordered_rows L)) = Inr (al_sequence L, al_hash L)"
    "verify_rows C 0 genesis (take (nat Capacity + 1) (ordered_rows M)) = Inr (al_sequence L, al_hash L)"
    using assms by (auto simp: audit_Verify_def split: sum.splits)
  from verify_rows_unique [OF assms(1) _ this] show ?thesis by (auto simp: genesis_def)
qed

lemma demo_log_hash: "0 \<le> k \<Longrightarrow> k < 1000 \<Longrightarrow> al_hash (demo_log k) = zeros"
proof -
  assume k: "0 \<le> k" "k < 1000"
  note r = log_ok_rows [OF demo_log(1) [OF k]]
  from r(2) demo_log(3) [OF k] obtain x where x: "al_events (demo_log k) = [x]" by (auto simp: length_Suc_conv)
  from r(1) show ?thesis unfolding x by (auto simp: chain_def result_simps split: if_splits)
qed

theorem audit_tamper_evident_witness:
  "take (nat Capacity + 1) (ordered_rows (demo_log 2)) = take (nat Capacity + 1) (ordered_rows (demo_log 1)) \<or> (\<exists>u v. collision demo_crypto u v)"
proof (rule audit_tamper_evident [OF demo_sha256])
  show "audit_Verify demo_crypto (demo_log 2)" "audit_Verify demo_crypto (demo_log 1)"
    using demo_log(1) [of 1] demo_log(1) [of 2] by (simp_all add: log_ok_def)
  show "al_sequence (demo_log 2) = al_sequence (demo_log 1)" using demo_log(3) [of 1] demo_log(3) [of 2] by simp
  show "al_hash (demo_log 2) = al_hash (demo_log 1)" by (simp add: demo_log_hash)
qed

text \<open>C25: on a sound log \<open>Append\<close> of a valid event succeeds exactly while the slots it reserves fit: then the log has one
  more row, chained to the old head, that decodes to the event, and passes \<open>Verify\<close>; when they do not fit the answer is
  \<open>ErrAuditCapacity\<close>; and consuming a reserved slot always fits.\<close>

theorem append_exact:
  assumes C: "sha256_spec C" and ok: "log_ok C L" and e: "Event_validate (stamp now e)" "source_ok (e_Source e)" "int64 (e_At e)"
    and new: "decision_kind (e_Kind e) \<Longrightarrow> (e_AgentID e, e_RequestID e) \<notin> set (decisions (al_events L))"
    and d: "0 \<le> al_reserved L + d"
  shows "(al_sequence L + 1 + (al_reserved L + d) \<le> Capacity \<longrightarrow> (\<exists>L' row. Append C now e d L = Inr L'
        \<and> al_events L' = al_events L @ [row] \<and> ae_previous row = al_hash L \<and> al_hash L' = chain C (al_hash L) (ae_event row)
        \<and> decode_event (ae_event row) = Inr (stamp now e) \<and> al_reserved L' = al_reserved L + d \<and> audit_Verify C L' \<and> log_ok C L'))
    \<and> (al_sequence L + 1 + (al_reserved L + d) > Capacity \<longrightarrow> Append C now e d L = Inl ErrAuditCapacity)
    \<and> (d < 0 \<longrightarrow> al_sequence L + 1 + (al_reserved L + d) \<le> Capacity)"
proof (intro conjI impI)
  have hx: "Hex (al_hash L) 64" by (rule log_ok_hash [OF C ok])
  then have rd: "append_ready C now e L" using ok e(1) new by (simp add: append_ready_def)
  have fits: "event_fits now e" using e by (intro event_fitsI)
  show "\<exists>L' row. Append C now e d L = Inr L'
        \<and> al_events L' = al_events L @ [row] \<and> ae_previous row = al_hash L \<and> al_hash L' = chain C (al_hash L) (ae_event row)
        \<and> decode_event (ae_event row) = Inr (stamp now e) \<and> al_reserved L' = al_reserved L + d \<and> audit_Verify C L' \<and> log_ok C L'"
    if room: "al_sequence L + 1 + (al_reserved L + d) \<le> Capacity"
  proof -
    obtain L' where L': "Append C now e d L = Inr L'" using Append_total [OF rd d room] by blast
    note a = Append_eq_Inr [OF L'] and ok' = Append_log_ok [OF ok L' fits]
    have "decode_event (MarshalEvent (stamp now e)) = Inr (stamp now e)"
      using fits e by (intro decode_MarshalEvent) (simp_all add: event_fits_def stamp_int64)
    then show ?thesis using L' a ok' by (auto simp: event_row_of_def log_ok_def)
  qed
  show "Append C now e d L = Inl ErrAuditCapacity" if "al_sequence L + 1 + (al_reserved L + d) > Capacity"
    using that e(1) d hx log_ok_rows(2) [OF ok] by (simp add: Append_def Let_def)
  show "al_sequence L + 1 + (al_reserved L + d) \<le> Capacity" if "d < 0" using that log_ok_rows(3) [OF ok] by simp
qed

theorem append_exact_witness:
  "\<exists>L'. Append demo_crypto (demo_clk 0) demo_start 3 (demo_log 2) = Inr L' \<and> audit_Verify demo_crypto L' \<and> al_reserved L' = 5"
proof -
  have v: "Event_validate (stamp (demo_clk 0) demo_start)"
    unfolding demo_start_def by (rule admin_event_valid) (simp_all add: audit_identifier_def alnum_def char_in_def code_def)
  have s: "e_Source demo_start = local" "e_At demo_start = 0" "\<not> decision_kind (e_Kind demo_start)"
    by (simp_all add: demo_start_def admin_event_def no_event_def decision_kind_def)
  have L: "log_ok demo_crypto (demo_log 2)" "al_reserved (demo_log 2) = 2" "al_sequence (demo_log 2) = 1" using demo_log [of 2] by simp_all
  from append_exact [OF demo_sha256 L(1) v, of 3] L(2,3) s show ?thesis by (auto simp: Capacity_def int64_def)
qed

subsection \<open>Policies\<close>

lemma find_key_set: "(find (\<lambda>v. f v = i) xs = None) = (i \<notin> f ` set xs)"
  by (auto simp: find_None_iff)

text \<open>C26: the digest by which a task names the policy does not depend on the order in which the administrator lists paths,
  interfaces, services, profiles or files: two valid policies that differ only in these orders have one digest and permit
  the same task types and the same resources.\<close>

theorem policy_order:
  assumes "Policy_Validate p" "Policy_Validate q" "reordered p q"
  shows "Policy_Digest C p = Policy_Digest C q \<and> (\<forall>k. Policy_Allows p k = Policy_Allows q k) \<and> (\<forall>t. AllowsResource p t = AllowsResource q t)"
proof -
  have c: "canonical_policy p = canonical_policy q" by (rule canonical_policy_reordered [OF assms(1,3)])
  from assms(3) have q: "q = p\<lparr>p_Telemetry := (p_Telemetry p)\<lparr>cf_DiskPaths := cf_DiskPaths (p_Telemetry q),
             cf_NetworkInterfaces := cf_NetworkInterfaces (p_Telemetry q)\<rparr>, p_SSHProfiles := p_SSHProfiles q, p_Services := p_Services q\<rparr>"
    by (simp add: reordered_def)
  have v: "p_Version q = p_Version p" by (subst q) simp
  then have "policy_domain q = policy_domain p" by (simp add: policy_domain_def)
  then have d: "Policy_Digest C p = Policy_Digest C q" using assms(1,2) c by (simp add: Policy_Digest_def)
  have a: "Policy_Allows p k = Policy_Allows q k" for k unfolding Policy_Allows_def by (subst (1 2 3 4 5 6 7) q) simp
  have m: "mset (elems (p_Services p)) = mset (elems (p_Services q))"
    "mset (map (\<lambda>r. (sp_ID r, mset (elems (sp_Files r)))) (elems (p_SSHProfiles p)))
      = mset (map (\<lambda>r. (sp_ID r, mset (elems (sp_Files r)))) (elems (p_SSHProfiles q)))"
    using assms(3) by (simp_all add: reordered_def)
  from arg_cong [OF m(2), of "image_mset fst"] have "mset (map sp_ID (elems (p_SSHProfiles p))) = mset (map sp_ID (elems (p_SSHProfiles q)))"
    by (simp add: image_mset.compositionality comp_def)
  then have "sp_ID ` set (elems (p_SSHProfiles p)) = sp_ID ` set (elems (p_SSHProfiles q))" by (metis list.set_map mset_eq_setD)
  moreover from m(1) have "sc_ID ` set (elems (p_Services p)) = sc_ID ` set (elems (p_Services q))" by (metis mset_eq_setD)
  ultimately have "AllowsResource p t = AllowsResource q t" for t
    by (simp add: AllowsResource_def Policy_SSHProfile_def Policy_Service_def find_key_set split: sum.split)
  with d a show ?thesis by blast
qed

definition demo_services :: "Service list \<Rightarrow> Policy" where
  "demo_services ss = demo_policy\<lparr>p_Version := 2, p_AllowServiceStatus := True, p_SSHProfiles := Some [], p_Services := Some ss\<rparr>"

theorem policy_order_witness:
  "Policy_Digest pad_crypto (demo_services [\<lparr>sc_ID = ''a'', sc_Unit = ''sshd.service''\<rparr>, \<lparr>sc_ID = ''b'', sc_Unit = ''cron.service''\<rparr>])
   = Policy_Digest pad_crypto (demo_services [\<lparr>sc_ID = ''b'', sc_Unit = ''cron.service''\<rparr>, \<lparr>sc_ID = ''a'', sc_Unit = ''sshd.service''\<rparr>])"
  (is "Policy_Digest _ ?p = Policy_Digest _ ?q")
proof -
  have "Policy_Validate ?p" "Policy_Validate ?q" by code_simp+
  moreover have "reordered ?p ?q" by (simp add: reordered_def demo_services_def)
  ultimately show ?thesis using policy_order by blast
qed

text \<open>A policy file that decodes is a valid policy, inside all its numeric limits; a version 1 policy permits neither
  inspections nor service queries; and a paused one permits nothing.\<close>

lemma policy_decoded:
  assumes "Policy_Decode data = Inr p"
  shows "Policy_Validate p \<and> length data \<le> 32768 \<and> 1 \<le> p_Burst p \<and> p_Burst p \<le> p_MaxPerMinute p \<and> p_MaxPerMinute p \<le> 30
    \<and> 1 \<le> p_TimeoutSeconds p \<and> p_TimeoutSeconds p \<le> 30 \<and> 1024 \<le> p_MaxResultBytes p \<and> p_MaxResultBytes p \<le> p_PendingBytes p
    \<and> p_PendingBytes p \<le> 33554432 \<and> p_MaxResultBytes p \<le> 16384 \<and> (p_Version p = 1 \<or> p_Version p = 2)
    \<and> (p_Version p = 1 \<longrightarrow> \<not> Policy_Allows p SSHAudit \<and> \<not> Policy_Allows p ServiceStatus \<and> p_Services p = None \<and> p_SSHProfiles p = None)
    \<and> (p_Paused p \<longrightarrow> (\<forall>k. \<not> Policy_Allows p k)) \<and> (\<forall>k. Policy_Allows p k \<longrightarrow> KnownTask k)
    \<and> length (elems (p_Services p)) \<le> 16 \<and> length (elems (p_SSHProfiles p)) \<le> 4"
proof -
  note v = Policy_Decode_valid [OF assms]
  have "length data \<le> 32768" using assms by (simp add: Policy_Decode_def split: if_splits)
  moreover have "p_Version p = 1 \<or> p_Version p = 2" using v by (auto simp: Policy_Validate_def)
  moreover from this have "length (elems (p_Services p)) \<le> 16 \<and> length (elems (p_SSHProfiles p)) \<le> 4"
    using v by (auto simp: Policy_Validate_def MaxServices_def MaxProfiles_def)
  moreover have "p_Version p = 1 \<longrightarrow> p_Services p = None \<and> p_SSHProfiles p = None" using v by (auto simp: Policy_Validate_def)
  ultimately show ?thesis using v Policy_limits [OF v] Policy_Validate_v1 [OF v] by (auto simp: Policy_Allows_def KnownTask_def)
qed

definition demo_config_members :: "member list" where
  "demo_config_members = [int_member ''interval_seconds'' 10, int_member ''sample_milliseconds'' 100, raw_member ''disk_paths'' ''[]'' (JArr []),
     raw_member ''network_interfaces'' ''[]'' (JArr [])]"

definition demo_policy_members :: "member list" where
  "demo_policy_members = [int_member ''version'' 1, bool_member ''paused'' False, bool_member ''allow_system_info'' True,
     bool_member ''allow_system_metrics'' False, int_member ''poll_seconds'' 5, int_member ''timeout_seconds'' 5,
     int_member ''max_per_minute'' 3, int_member ''burst'' 1, int_member ''max_result_bytes'' 4096, int_member ''pending_bytes'' 8192,
     raw_member ''telemetry'' (object_text demo_config_members) (JObj (object_members demo_config_members))]"

lemma demo_policy_decode:
  "Policy_Decode (object_text demo_policy_members) = Inr demo_policy"
proof -
  have r: "reads ''[]'' (JArr [])" "safe ''[]''"
    using reads_array [of "[]"] safe_array [of "[]"] by (simp_all add: array_text_def json_array_def array_values_def)
  have k: "list_all plain (map key_of demo_config_members)" "list_all plain (map key_of demo_policy_members)" 
    by (simp_all add: demo_config_members_def demo_policy_members_def plain_char_def alnum_def char_in_def code_def)
  have i: "int64 10" "int64 100" "int64 1" "int64 5" "int64 3" "int64 4096" "int64 8192" by (simp_all add: int64_def)
  have c: "list_all read_member demo_config_members" using k(1) r by (simp add: demo_config_members_def read_members)
  have p: "list_all read_member demo_policy_members"
    using k(2) reads_object [OF c] safe_object [OF c] by (simp add: demo_policy_members_def read_members)
  have lc: "length (object_text demo_config_members) \<le> 200"
    using k(1) length_show_int [OF i(1)] length_show_int [OF i(2)]
    by (simp add: length_object_text demo_config_members_def length_json_string_plain)
  have lp: "length (object_text demo_policy_members) \<le> 1000"
    using k(2) lc i [THEN length_show_int]
    by (simp add: length_object_text demo_policy_members_def length_json_string_plain json_bool_def)
  have sc: "strict_decode (object_text demo_config_members) 4096 [''interval_seconds'', ''sample_milliseconds'', ''disk_paths'', ''network_interfaces'']
    = Inr (object_members demo_config_members)"
    using c lc by (intro strict_decode_object) (simp_all add: demo_config_members_def MaxDepth_def)
  have dc: "DecodeConfig (object_text demo_config_members) = Inr (p_Telemetry demo_policy)"
    using sc i by (simp add: DecodeConfig_def demo_config_members_def get_strs_def Config_Validate_def demo_policy_def)
  have sp: "strict_decode (object_text demo_policy_members) 32768 [''version'', ''paused'', ''allow_system_info'', ''allow_system_metrics'', ''poll_seconds'',
            ''timeout_seconds'', ''max_per_minute'', ''burst'', ''max_result_bytes'', ''pending_bytes'', ''telemetry'']
    = Inr (object_members demo_policy_members)"
    using p lp by (intro strict_decode_object) (simp_all add: demo_policy_members_def MaxDepth_def demo_config_members_def object_members_def)
  have hv: "header_version (object_text demo_policy_members) = Inr 1"
    using json_parse_reads [OF reads_object [OF p]] ParseInt_show_int [OF i(3)]
    by (simp add: header_version_def demo_policy_members_def get_int_def map_of_members int_member_def)
  have "Policy_Validate demo_policy" by (rule demo_policy_valid)
  with sp hv dc lp i show ?thesis
    by (simp add: Policy_Decode_def demo_policy_members_def) (simp add: demo_policy_def)
qed

lemma policy_decoded_example: "Policy_Validate demo_policy \<and> \<not> Policy_Allows demo_policy SSHAudit"
  using policy_decoded [OF demo_policy_decode] by (simp add: demo_policy_def)

subsection \<open>Identities and passwords\<close>

text \<open>A client certificate stands for at most one node, and exactly for the one that its only URI spells canonically:
  a leaf with client authentication as its only usage is read as the node written into it, and whatever is read from a
  certificate is a valid node whose canonical URI the certificate carries.\<close>

lemma certificate_identity:
  "(Node_Validate n \<longrightarrow> \<not> c_IsCA cert \<longrightarrow> c_ExtKeyUsage cert = [ExtKeyUsageClientAuth] \<longrightarrow> c_UnknownExtKeyUsage cert = []
      \<longrightarrow> c_URIs cert = [\<lparr>u_Path = ''/'' @ n_AgentID n @ ''/epochs/'' @ n_EnrollmentEpoch n,
            u_String = ''argus://nodes/'' @ n_AgentID n @ ''/epochs/'' @ n_EnrollmentEpoch n\<rparr>]
      \<longrightarrow> FromCertificate (Some cert) = Inr n)
   \<and> (FromCertificate (Some cert) = Inr m \<longrightarrow> Node_Validate m \<and> \<not> c_IsCA cert \<and> c_ExtKeyUsage cert = [ExtKeyUsageClientAuth]
      \<and> (\<exists>u. c_URIs cert = [u] \<and> Node_URI m = Inr (u_String u)))"
proof (intro conjI impI)
  have sp: "split_on c (a @ c # b) = a # split_on c b" if "c \<notin> set a" for a b c
    using that by (induction a) auto
  have sp0: "split_on c a = [a]" if "c \<notin> set a" for a c using that by (induction a) auto
  have h: "CHR ''/'' \<notin> set s" if "Hex s k" for s k using that by (auto simp: Hex_def list_all_iff is_hex_char_def char_in_def code_def)
  show "FromCertificate (Some cert) = Inr n"
    if v: "Node_Validate n" and c: "\<not> c_IsCA cert" "c_ExtKeyUsage cert = [ExtKeyUsageClientAuth]" "c_UnknownExtKeyUsage cert = []"
      "c_URIs cert = [\<lparr>u_Path = ''/'' @ n_AgentID n @ ''/epochs/'' @ n_EnrollmentEpoch n,
            u_String = ''argus://nodes/'' @ n_AgentID n @ ''/epochs/'' @ n_EnrollmentEpoch n\<rparr>]"
  proof -
    have x: "CHR ''/'' \<notin> set (n_AgentID n)" "CHR ''/'' \<notin> set (n_EnrollmentEpoch n)" using v h by (auto simp: Node_Validate_def)
    have "split_on (CHR ''/'') (''/'' @ n_AgentID n @ ''/epochs/'' @ n_EnrollmentEpoch n) = ['''', n_AgentID n, ''epochs'', n_EnrollmentEpoch n]"
      using sp [OF x(1), of "''epochs/'' @ n_EnrollmentEpoch n"] sp [of "CHR ''/''" "''epochs''" "n_EnrollmentEpoch n"] sp0 [OF x(2)] by simp
    moreover have "\<lparr>n_AgentID = n_AgentID n, n_EnrollmentEpoch = n_EnrollmentEpoch n\<rparr> = n" by simp
    ultimately show ?thesis using v c by (simp add: FromCertificate_def Let_def Node_URI_def Node_Validate_def)
  qed
  assume f: "FromCertificate (Some cert) = Inr m"
  show v: "Node_Validate m" by (rule FromCertificate_valid [OF f])
  show "\<not> c_IsCA cert" "c_ExtKeyUsage cert = [ExtKeyUsageClientAuth]"
    using f by (auto simp: FromCertificate_def length_Suc_conv split: if_splits)
  show "\<exists>u. c_URIs cert = [u] \<and> Node_URI m = Inr (u_String u)" using FromCertificate_uri [OF f] v by (auto simp: Node_URI_def)
qed

lemma certificate_identity_witness: "FromCertificate (Some demo_cert) = Inr demo_node \<and> Node_Validate demo_node"
proof -
  have u: "c_URIs demo_cert = [\<lparr>u_Path = ''/'' @ n_AgentID demo_node @ ''/epochs/'' @ n_EnrollmentEpoch demo_node,
      u_String = ''argus://nodes/'' @ n_AgentID demo_node @ ''/epochs/'' @ n_EnrollmentEpoch demo_node\<rparr>]"
    and c: "\<not> c_IsCA demo_cert" "c_ExtKeyUsage demo_cert = [ExtKeyUsageClientAuth]" "c_UnknownExtKeyUsage demo_cert = []"
    by (simp_all only: demo_cert_def certificate.simps simp_thms)
  have f: "FromCertificate (Some demo_cert) = Inr demo_node"
    using certificate_identity [of demo_node demo_cert, THEN conjunct1] demo_node_valid c u by blast
  with certificate_identity [of demo_node demo_cert demo_node, THEN conjunct2] show ?thesis by blast
qed

lemma Parse_encode_hash:
  assumes "length salt = 16" "length tag = 32"
  shows "Parse (encode_hash salt tag) = Inr (salt, tag)"
proof -
  have n: "CHR ''$'' \<notin> set (RawStd_EncodeToString b)" for b
    using b64_plain [of b]
    by (auto simp: RawStd_EncodeToString_def url_to_std_def list_all_iff plain_char_def alnum_def char_in_def code_def split: if_splits)
  have sp0: "split_on c a = [a]" if "c \<notin> set a" for a c using that by (induction a) auto
  have sp: "split_on c (a @ c # b) = [a, b]" if "c \<notin> set a" "c \<notin> set b" for a b c
    using that(1) sp0 [OF that(2)] by (induction a) auto
  have "length (encode_hash salt tag) \<le> 128"
    using assms by (simp add: encode_hash_def hash_prefix_def RawStd_EncodeToString_def b64_EncodedLen_def)
  moreover have "trim_prefix (encode_hash salt tag) hash_prefix = RawStd_EncodeToString salt @ CHR ''$'' # RawStd_EncodeToString tag"
    by (simp add: encode_hash_def trim_prefix_def)
  moreover have "has_prefix (encode_hash salt tag) hash_prefix" by (simp add: encode_hash_def)
  ultimately show ?thesis using sp [OF n n, of salt tag] assms by (simp add: Parse_def b64_text_roundtrip)
qed

text \<open>A password is stored only in salted, hashed form and only if it is long enough; the stored form is verified by
  exactly the inputs with the same derived key; and the dummy form for unknown accounts is a well-formed one, so that a
  login to an unknown name does the same work.\<close>

lemma password_roundtrip:
  assumes "length salt = 16" "\<And>p s. length (K p s) = 32"
  shows "(NewPassword p \<longrightarrow> (\<exists>h. Hash K salt p = Inr h \<and> (\<forall>q. Verify K q h = Inr (K q salt = K p salt)))) \<and> (\<not> NewPassword p \<longrightarrow> \<not> is_ok (Hash K salt p))
    \<and> Verify K q Dummy = Inr (K q (replicate 16 (CHR 0x00)) = replicate 32 (CHR 0x00))"
proof -
  have "Verify K q (encode_hash salt (K p salt)) = Inr (K q salt = K p salt)" for q
    by (simp add: Verify_def Parse_encode_hash assms)
  then show ?thesis by (simp add: Hash_def Verify_def Dummy_def Parse_encode_hash)
qed

lemma password_roundtrip_example:
  "\<exists>h. Hash (\<lambda>p s. replicate 32 (hd p)) (replicate 16 (CHR ''s'')) ''correct horse battery'' = Inr h
     \<and> Verify (\<lambda>p s. replicate 32 (hd p)) ''dog'' h = Inr False \<and> Verify (\<lambda>p s. replicate 32 (hd p)) ''correct horse battery'' h = Inr True"
proof -
  have n: "NewPassword ''correct horse battery''" by code_simp
  define K :: kdf where "K = (\<lambda>p s. replicate 32 (hd p))"
  have l: "length (K p s) = 32" for p s by (simp add: K_def)
  have s: "length (replicate 16 (CHR ''s'')) = 16" by simp
  from password_roundtrip [of "replicate 16 (CHR ''s'')" K "''correct horse battery''", OF s l] n obtain h
    where h: "Hash K (replicate 16 (CHR ''s'')) ''correct horse battery'' = Inr h"
      "\<And>q. Verify K q h = Inr (K q (replicate 16 (CHR ''s'')) = K ''correct horse battery'' (replicate 16 (CHR ''s'')))" by blast
  have "Verify K ''dog'' h = Inr False" "Verify K ''correct horse battery'' h = Inr True" by (simp_all add: h(2)) (simp add: K_def)
  with h(1) show ?thesis unfolding K_def by blast
qed

subsection \<open>Stored trust\<close>

text \<open>The canonical bytes of a valid trust set fit the size limit and decode to the set they were printed from, with keys
  and retirements in canonical order, whose canonical bytes are the same: what the server stores it can always read back, and
  the digest of a trust set does not depend on the order in which it lists its keys.\<close>

lemma trust_stored:
  assumes "sha256_spec C" "TrustSet_Validate C s" "\<forall>k\<in>set (s_Keys s). int64 (k_NotBefore k) \<and> int64 (k_NotAfter k)"
  shows "\<exists>data. TrustSet_Canonical C s = Inr data \<and> length data \<le> MaxTrustBytes
    \<and> DecodeTrust C data = Inr (s\<lparr>s_Keys := sort_key k_ID (s_Keys s), s_Retired := Some (sort (elems (s_Retired s)))\<rparr>)
    \<and> TrustSet_Canonical C (s\<lparr>s_Keys := sort_key k_ID (s_Keys s), s_Retired := Some (sort (elems (s_Retired s)))\<rparr>) = Inr data
    \<and> (\<forall>ks. mset ks = mset (s_Keys s) \<longrightarrow> TrustSet_Canonical C (s\<lparr>s_Keys := ks\<rparr>) = Inr data)"
proof -
  obtain data where d: "TrustSet_Canonical C s = Inr data" "DecodeTrust C data = Inr (canonical_trust s)"
    "TrustSet_Canonical C (canonical_trust s) = Inr data" "length data \<le> MaxTrustBytes"
    using DecodeTrust_Canonical [OF assms(1,2)] assms(3) by (auto simp: trust_int64_def)
  have "TrustSet_Canonical C (s\<lparr>s_Keys := ks\<rparr>) = Inr data" if m: "mset ks = mset (s_Keys s)" for ks
  proof -
    have dk: "distinct (map k_ID ks)" using m TrustSet_Validate_ids(2) [OF assms(2)] by (metis mset_eq_imp_distinct_iff mset_map)
    have sk: "sort_key k_ID ks = sort_key k_ID (s_Keys s)" by (rule sort_key_unique [OF m dk])
    have "TrustSet_Validate C (s\<lparr>s_Keys := ks\<rparr>)"
    proof -
      have "length ks = length (s_Keys s)" "set ks = set (s_Keys s)" using m by (auto dest: mset_eq_length mset_eq_setD)
      moreover have "length (filter k_Legacy ks) = length (filter k_Legacy (s_Keys s))" using m by (metis mset_filter size_mset)
      moreover have "overlap_ok ks" using overlap_ok_perm [OF m [symmetric]] assms(2) by (simp add: TrustSet_Validate_def)
      moreover have "seen_loop k_ID (TrustKey_ok C) (set (elems (s_Retired s))) ks"
        using assms(2) dk \<open>set ks = set (s_Keys s)\<close> unfolding TrustSet_Validate_def seen_loop_iff list_all_iff by simp
      ultimately show ?thesis using assms(2) by (simp add: TrustSet_Validate_def)
    qed
    then have "TrustSet_Canonical C (s\<lparr>s_Keys := ks\<rparr>) = TrustSet_Canonical C s"
      using assms(2) sk by (simp add: TrustSet_Canonical_def)
    then show ?thesis using d(1) by simp
  qed
  then show ?thesis using d unfolding canonical_trust_def by blast
qed

lemma trust_stored_witness:
  "\<exists>data. TrustSet_Canonical pad_crypto demo_overlap = Inr data \<and> is_ok (DecodeTrust pad_crypto data)"
proof -
  have "sha256_spec pad_crypto" by (auto simp: sha256_spec_def pad_crypto_def min_def)
  moreover have "\<forall>k\<in>set (s_Keys demo_overlap). int64 (k_NotBefore k) \<and> int64 (k_NotAfter k)"
    by (simp add: demo_overlap_def NewTrustKey_def int64_def)
  ultimately show ?thesis using trust_stored [OF _ demo_overlap] by auto
qed

end
