(* ===== verification/Result_Codec.thy ===== *)
theory Result_Codec
  imports Audit_Log
begin

section \<open>Printing and reading refusals\<close>

text \<open>
  The result of a task that was not carried out has the data object \<open>{}\<close>. Such a result is printed by \<open>MarshalResult\<close> and
  read back unchanged by \<open>DecodeResult\<close>.
\<close>

definition result_members :: "Result \<Rightarrow> json \<Rightarrow> member list" where
  "result_members r v =
     [str_member ''request_id'' (r_RequestID r), str_member ''agent_id'' (r_AgentID r), str_member ''epoch'' (r_Epoch r),
      str_member ''task_type'' (r_Type r), int_member ''started_at'' (r_StartedAt r), int_member ''finished_at'' (r_FinishedAt r),
      str_member ''status'' (r_Status r), raw_member ''data'' (r_Data r) v, str_member ''error_code'' (r_ErrorCode r),
      bool_member ''truncated'' (r_Truncated r), str_member ''policy_digest'' (r_PolicyDigest r)]"

lemma result_keys: "map key_of (result_members r v) = result_fields" "distinct result_fields" "list_all plain result_fields"
  by (simp_all add: result_members_def result_fields_def plain_char_def alnum_def char_in_def code_def)

lemma Result_Validate_texts:
  assumes "Result_Validate r"
  shows "plain (r_RequestID r)" "plain (r_AgentID r)" "plain (r_Epoch r)" "plain (r_Type r)" "plain (r_Status r)" "plain (r_ErrorCode r)"
    "plain (r_PolicyDigest r)" "length (r_RequestID r) = 32" "length (r_AgentID r) = 32" "length (r_Epoch r) = 32"
    "length (r_Type r) \<le> 14" "length (r_Status r) \<le> 32" "length (r_ErrorCode r) \<le> 64" "length (r_PolicyDigest r) = 64"
proof -
  have h: "Hex (r_RequestID r) 32" "Hex (r_AgentID r) 32" "Hex (r_Epoch r) 32" "Hex (r_PolicyDigest r) 64" "KnownTask (r_Type r)"
    using assms by (simp_all add: Result_Validate_def)
  note c = Result_codes [OF assms]
  from h show "plain (r_RequestID r)" "plain (r_AgentID r)" "plain (r_Epoch r)" "plain (r_PolicyDigest r)" by (auto intro: Hex_plain)
  from c show "plain (r_Status r)" "plain (r_ErrorCode r)" by (auto intro: audit_identifier_plain)
  from c show "length (r_Status r) \<le> 32" "length (r_ErrorCode r) \<le> 64" by (simp_all add: audit_identifier_def)
  from h show "length (r_RequestID r) = 32" "length (r_AgentID r) = 32" "length (r_Epoch r) = 32" "length (r_PolicyDigest r) = 64"
    by (auto dest: Hex_length)
  from h(5) show "plain (r_Type r)" "length (r_Type r) \<le> 14"
    by (auto simp: KnownTask_def plain_char_def alnum_def char_in_def code_def)
qed

lemma DecodeResult_refusal:
  assumes v: "Result_Validate r" and c: "int64 (r_StartedAt r)" "int64 (r_FinishedAt r)" and d: "r_Data r = ''{}''"
  shows "MarshalResult r = Inr (object_text (result_members r (JObj [])))"
    "DecodeResult (object_text (result_members r (JObj []))) = Inr r"
    "length (object_text (result_members r (JObj []))) \<le> 1024"
proof -
  let ?ms = "result_members r (JObj [])"
  note pl = Result_Validate_texts [OF v]
  note k = result_keys(3) [unfolded result_fields_def, simplified]
  have tr: "r_Truncated r = False" using v by (simp add: Result_Validate_def)
  show "MarshalResult r = Inr (object_text ?ms)"
    using json_parse_reads [OF reads_empty_object(1)]
    by (simp add: MarshalResult_def marshal_raw_def d object_text_def result_members_def compact_step compact_Nil is_ws_def code_def)
  have rm: "list_all read_member ?ms"
    using k pl d reads_empty_object by (simp add: result_members_def read_members plain_valid)
  show len: "length (object_text ?ms) \<le> 1024"
    using pl k d length_show_int [OF c(1)] length_show_int [OF c(2)] tr
    by (simp add: length_object_text result_members_def length_json_string_plain json_bool_def)
  have "list_all (\<lambda>m. strict_node 1 (json_of m)) ?ms" by (simp add: result_members_def MaxDepth_def)
  with rm len have "strict_decode (object_text ?ms) MaxResultBytes result_fields = Inr (object_members ?ms)"
    using result_keys(1,2) by (intro strict_decode_object) (simp_all add: MaxResultBytes_def)
  moreover have eq: "\<lparr>r_RequestID = r_RequestID r, r_AgentID = r_AgentID r, r_Epoch = r_Epoch r, r_Type = r_Type r, r_StartedAt = r_StartedAt r,
      r_FinishedAt = r_FinishedAt r, r_Status = r_Status r, r_Data = r_Data r, r_ErrorCode = r_ErrorCode r, r_Truncated = r_Truncated r,
      r_PolicyDigest = r_PolicyDigest r\<rparr> = r" by simp
  ultimately show "DecodeResult (object_text ?ms) = Inr r"
    using c by (simp add: DecodeResult_def result_members_def Let_def) (simp only: eq v)
qed

end
