(* ===== verification/Server_Properties.thy ===== *)
theory Server_Properties
  imports Example_Server Result_Codec
begin

section \<open>Properties of the server's store\<close>

text \<open>
  The promises of \<open>internal/state\<close> over every history of its database (\<open>server_run\<close>): the audit books always
  balance, tasks only move forward, revocation is final, results are taken once, and administration is authorised.
  Each property with a hypothesis is followed by a closed instance on the data of \<open>Example_Server\<close>.
\<close>

subsection \<open>Histories\<close>



definition demo_pki :: pki where
  "demo_pki = \<lparr>pk_CheckSignatureFrom = (\<lambda>_ _. True), pk_Parse = (\<lambda>_. Some demo_cert), pk_Issue = (\<lambda>_ _. Inl (Err ''no issuer'')), pk_Issuer = Some demo_cert\<rparr>"

definition demo_kdf :: kdf where "demo_kdf p s = replicate 32 (CHR 0x00)"


lemma filter_key:
  assumes "distinct (map f xs)" "x \<in> set xs"
  shows "filter (\<lambda>y. f y = f x) xs = [x]"
  using assms
proof (induction xs)
  case (Cons a xs)
  show ?case
  proof (cases "a = x")
    case True
    with Cons.prems have "filter (\<lambda>y. f y = f x) xs = []" by (auto simp: filter_empty_conv image_iff)
    with True show ?thesis by simp
  next
    case False
    with Cons.prems have "f a \<noteq> f x" "x \<in> set xs" by (auto simp: image_iff)
    with Cons show ?thesis by simp
  qed
qed simp

text \<open>C14: a stored task is never lost and never rewritten: after any history exactly one row carries its request, with the
  same payload bytes, addressee and deadline; an envelope that was signed stays the envelope, so that every redelivery is
  byte-identical; a delivered task never goes back to the queue; and a finished row never changes again.\<close>

theorem task_history:
  assumes "server_inv C db" "list_all op_ok ops" "r \<in> set (v_tasks db)" and db': "db' = server_run C X K ops db"
  shows "\<exists>r'. filter (\<lambda>q. tr_request q = tr_request r) (v_tasks db') = [r'] \<and> tr_payload r' = tr_payload r \<and> tr_agent r' = tr_agent r
    \<and> tr_epoch r' = tr_epoch r \<and> tr_expires r' = tr_expires r \<and> (\<forall>e. tr_envelope r = Some e \<longrightarrow> tr_envelope r' = Some e)
    \<and> (tr_state r = ''dispatched'' \<longrightarrow> tr_state r' \<noteq> ''queued'') \<and> (tr_state r \<noteq> ''queued'' \<and> tr_state r \<noteq> ''dispatched'' \<longrightarrow> r' = r)"
proof -
  have g: "grows db db'" and inv: "server_inv C db'" using server_run_grows [OF assms(1,2)] server_run_inv [OF assms(1,2)] db' by simp_all
  from g assms(3) obtain r' where r': "r' \<in> set (v_tasks db')" "task_le r r'" by (auto simp: grows_def le_all_def)
  have d: "distinct (map tr_request (v_tasks db'))" using inv_distinct [OF inv] .
  have "filter (\<lambda>q. tr_request q = tr_request r) (v_tasks db') = [r']"
    using filter_key [OF d r'(1)] r'(2) by (simp add: task_le_def)
  then show ?thesis using r'(2) by (intro exI [of _ r']) (auto simp: task_le_def pending_def)
qed

theorem task_history_witness:
  "\<exists>r'. filter (\<lambda>q. tr_request q = tr_request demo_row2) (v_tasks (server_run demo_crypto demo_pki demo_kdf [DoDisable (n_AgentID demo_node) demo_clk] demo_server)) = [r']
     \<and> tr_envelope r' = Some demo_envelope2"
  using task_history [OF demo_server_inv, of "[DoDisable (n_AgentID demo_node) demo_clk]" demo_row2 _ demo_pki demo_kdf, OF _ _ refl]
  by (auto simp: demo_server_def demo_row2_def)

text \<open>C15: disabling an enabled node always succeeds, also when the audit log is full: afterwards the node is disabled, every
  queued task of it is rejected and every delivered one indeterminate, nothing of it is pending, and nothing else in the
  nodes or tasks has changed.\<close>

theorem disable_succeeds:
  assumes "sha256_spec C" "\<forall>k. 0 < wrap64 (clk k)" "server_inv C db" "n \<in> set (v_nodes db)" "nr_enabled n"
  shows "\<exists>db'. Disable C (nr_agent n) clk db = (Inr (), db')
    \<and> v_nodes db' = map (\<lambda>m. if nr_agent m = nr_agent n then m\<lparr>nr_enabled := False\<rparr> else m) (v_nodes db)
    \<and> v_tasks db' = map (\<lambda>r. if pending_of (nr_agent n) r then r\<lparr>tr_state := (if tr_state r = ''queued'' then ''rejected'' else ''indeterminate''),
        tr_code := ''node_disabled''\<rparr> else r) (v_tasks db)"
proof -
  have i: "audit_identifier local_operator 64" by (simp add: audit_identifier_def alnum_def char_in_def code_def)
  from disableTx_total [OF assms(1-3) source_local _ i assms(4) refl assms(5)] obtain db'
    where t: "disableTx C (nr_agent n) local_operator local clk db = Inr db'" by auto
  from disableTx_sound [OF t assms(3) source_local] obtain L where
    d: "db' = db\<lparr>v_nodes := disable_node (nr_agent n) (v_nodes db), v_tasks := cancel_rows (nr_agent n) (v_tasks db), v_audit := L\<rparr>" by blast
  have "cancel_rows (nr_agent n) (v_tasks db) = map (\<lambda>r. if pending_of (nr_agent n) r then close_row cancel_status ''node_disabled'' r else r) (v_tasks db)"
    unfolding cancel_rows_def close_rows_def using inv_distinct [OF assms(3)]
    by (intro map_cong refl) (auto dest: unique_row)
  then show ?thesis
    using t by (simp add: Disable_def run_tx_def d disable_node_def close_row_def cancel_status_def)
qed

theorem disable_succeeds_witness:
  "\<exists>db'. Disable demo_crypto (n_AgentID demo_node) demo_clk demo_server = (Inr (), db') \<and> list_all (\<lambda>r. \<not> pending r) (v_tasks db')"
  using disable_succeeds [OF demo_sha256 _ demo_server_inv, of demo_clk demo_node_row]
  by (auto simp: demo_server_def demo_node_row_def pending_of_def demo_row_def demo_row2_def pending_def)

subsection \<open>Revocation\<close>

text \<open>C16: revocation is final. A node that is disabled, or a credential that is revoked, never authenticates again, whatever
  happens afterwards: no certificate of that node, respectively not that certificate, passes \<open>authorizeCertificate\<close>.\<close>

theorem revocation_final:
  assumes "server_inv C db" "list_all op_ok ops" and db': "db' = server_run C X K ops db"
    and cert: "FromCertificate (Some cert) = Inr m"
    and gone: "(\<exists>n\<in>set (v_nodes db). nr_agent n = n_AgentID m \<and> \<not> nr_enabled n) \<or> (\<exists>c\<in>set (v_creds db). cr_cert c = Fingerprint C cert \<and> cr_revoked c)"
  shows "\<exists>e. authorizeCertificate C (Some cert) now db' = Inl e"
proof -
  have g: "grows db db'" and inv: "server_inv C db'" using server_run_grows [OF assms(1,2)] server_run_inv [OF assms(1,2)] db' by simp_all
  have ok: "distinct (map nr_agent (v_nodes db'))" "distinct (map cr_cert (v_creds db'))"
    using inv by (simp_all add: server_inv_def tables_ok_def nodes_ok_def creds_ok_def)
  have bad: "\<not> (nr_agent r = n_AgentID m \<and> nr_enabled r \<and> c \<in> set (v_creds db') \<and> cr_cert c = Fingerprint C cert \<and> \<not> cr_revoked c)"
    if r: "r \<in> set (v_nodes db')" for r c
    using gone
  proof
    assume "\<exists>n\<in>set (v_nodes db). nr_agent n = n_AgentID m \<and> \<not> nr_enabled n"
    then obtain n' where "n' \<in> set (v_nodes db')" "nr_agent n' = n_AgentID m" "\<not> nr_enabled n'"
      using g by (fastforce simp: grows_def le_all_def node_le_def)
    with unique_row [OF ok(1) r, of n'] show ?thesis by auto
  next
    assume "\<exists>c\<in>set (v_creds db). cr_cert c = Fingerprint C cert \<and> cr_revoked c"
    then obtain c' where "c' \<in> set (v_creds db')" "cr_cert c' = Fingerprint C cert" "cr_revoked c'"
      using g by (fastforce simp: grows_def le_all_def cred_le_def)
    with unique_row [OF ok(2), of c c'] show ?thesis by auto
  qed
  then have "\<not> list_ex (\<lambda>r. nr_agent r = n_AgentID m \<and> nr_epoch r = n_EnrollmentEpoch m \<and> nr_enabled r
        \<and> list_ex (\<lambda>c. cr_agent c = nr_agent r \<and> cr_epoch c = nr_epoch r \<and> cr_cert c = Fingerprint C cert
             \<and> credential_live (unix_sec now) c) (v_creds db')) (v_nodes db')"
    by (auto simp: list_ex_iff credential_live_def)
  then show ?thesis by (simp add: authorizeCertificate_def cert)
qed

definition demo_closed :: server_db where
  "demo_closed = snd (Disable demo_crypto (n_AgentID demo_node) demo_clk demo_server)"

lemma demo_closed_inv: "server_inv demo_crypto demo_closed"
  unfolding demo_closed_def by (rule Disable_inv [OF demo_server_inv])

lemma demo_closed_node: "\<exists>n\<in>set (v_nodes demo_closed). nr_agent n = n_AgentID demo_node \<and> \<not> nr_enabled n"
proof -
  have n: "demo_node_row \<in> set (v_nodes demo_server)" "nr_enabled demo_node_row" "nr_agent demo_node_row = n_AgentID demo_node"
    by (simp_all add: demo_server_def demo_node_row_def)
  from disableTx_total [OF demo_sha256 _ demo_server_inv source_local _ _ n(1) refl n(2), of demo_clk local_operator] obtain d
    where t: "disableTx demo_crypto (n_AgentID demo_node) local_operator local demo_clk demo_server = Inr d"
    by (auto simp: audit_identifier_def alnum_def char_in_def code_def n(3))
  from disableTx_sound [OF t demo_server_inv source_local] have "v_nodes d = disable_node (n_AgentID demo_node) (v_nodes demo_server)" by auto
  moreover have "demo_closed = d" by (simp add: demo_closed_def Disable_def run_tx_def t)
  ultimately show ?thesis by (simp add: demo_server_def disable_node_def demo_node_row_def)
qed

theorem revocation_final_witness:
  "\<exists>e. authorizeCertificate demo_crypto (Some demo_cert) (demo_clk 0) (server_run demo_crypto demo_pki demo_kdf [DoUsers (demo_clk 0)] demo_closed) = Inl e"
  using revocation_final [OF demo_closed_inv _ refl demo_FromCertificate disjI1 [OF demo_closed_node], of "[DoUsers (demo_clk 0)]"]
  by simp

subsection \<open>Results\<close>

text \<open>C17: the result of a delivered task is always taken, also when the audit log is full: if the node authenticates, the bytes
  decode to a valid result for the task that was assigned to it, and it names the policy the task was made for (or is a
  refusal), \<open>SubmitResult\<close> stores exactly these bytes and acknowledges their digest.\<close>

theorem result_accepted:
  assumes C: "sha256_spec C" and inv: "server_inv C db" and src: "source_ok source" "length source \<le> 256" and clk: "0 < wrap64 (clk 1)"
    and auth: "authorizeCertificate C oc (clk 0) db = Inr n" and dec: "DecodeResult data = Inr v" "length data \<le> MaxDispatchResultBytes"
    and row: "row \<in> set (v_tasks db)" "tr_state row = ''dispatched''" "row_task row t" "CheckAssignment v t"
    and own: "tr_agent row = n_AgentID n" "tr_epoch row = n_EnrollmentEpoch n"
    and pol: "r_Status v = Rejected \<or> r_Status v = Expired \<or> r_PolicyDigest v = t_PolicyDigest t"
  shows "\<exists>db'. SubmitResult C oc data source clk db = (Inr \<lparr>ra_Version = 1, ra_AgentID = n_AgentID n, ra_Epoch = n_EnrollmentEpoch n,
      ra_RequestID = tr_request row, ra_ResultDigest = Digest C data\<rparr>, db')
    \<and> v_tasks db' = map (\<lambda>r. if tr_request r = tr_request row then r\<lparr>tr_state := r_Status v, tr_result := Some data,
        tr_result_digest := Digest C data, tr_code := r_ErrorCode v\<rparr> else r) (v_tasks db)"
  using assms by (rule SubmitResult_accepts)

definition demo_result :: Result where
  "demo_result = \<lparr>r_RequestID = t_RequestID demo_task2, r_AgentID = n_AgentID demo_node, r_Epoch = n_EnrollmentEpoch demo_node,
     r_Type = SystemInfo, r_StartedAt = 1008, r_FinishedAt = 1009, r_Status = Rejected, r_Data = ''{}'', r_ErrorCode = ''paused'',
     r_Truncated = False, r_PolicyDigest = zeros\<rparr>"

definition demo_result_bytes :: bytes where "demo_result_bytes = projr (MarshalResult demo_result)"

lemma demo_result: "DecodeResult demo_result_bytes = Inr demo_result" "length demo_result_bytes \<le> MaxDispatchResultBytes"
proof -
  have "Result_Validate demo_result" by code_simp
  from DecodeResult_refusal [OF this]
  show "DecodeResult demo_result_bytes = Inr demo_result" "length demo_result_bytes \<le> MaxDispatchResultBytes"
    by (simp_all add: demo_result_bytes_def demo_result_def int64_def MaxDispatchResultBytes_def)
qed

lemma demo_assignment: "CheckAssignment demo_result demo_task2"
  by (simp add: CheckAssignment_def demo_result_def demo_task2_def demo_task_def)

theorem result_accepted_witness:
  "\<exists>ack db'. SubmitResult demo_crypto (Some demo_cert) demo_result_bytes ''local'' demo_clk demo_server = (Inr ack, db')
     \<and> ra_ResultDigest ack = Digest demo_crypto demo_result_bytes"
proof -
  have m: "demo_row2 \<in> set (v_tasks demo_server)" by (simp add: demo_server_def)
  show ?thesis
    using result_accepted [where clk = demo_clk, OF demo_sha256 demo_server_inv source_local _ _ demo_authorize demo_result m _ demo_rows(2) demo_assignment]
    by (auto simp: demo_row2_def demo_result_def)
qed

text \<open>C18: a stored result is never replaced. Once a row holds a result, no submission for its request changes the store; an
  answer acknowledges the digest of the stored bytes; and the same bytes from the authenticated owner are acknowledged
  again, so that a probe whose acknowledgement was lost can always empty its outbox.\<close>

theorem result_immutable:
  assumes C: "sha256_spec C" and inv: "server_inv C db" and row: "row \<in> set (v_tasks db)" "tr_result row = Some stored"
    and dec: "DecodeResult data = Inr v" "r_RequestID v = tr_request row"
  shows "snd (SubmitResult C oc data source clk db) = db
    \<and> (\<forall>ack. fst (SubmitResult C oc data source clk db) = Inr ack \<longrightarrow> ra_ResultDigest ack = Digest C stored)
    \<and> (data = stored \<longrightarrow> authorizeCertificate C oc (clk 0) db = Inr \<lparr>n_AgentID = tr_agent row, n_EnrollmentEpoch = tr_epoch row\<rparr>
         \<longrightarrow> is_ok (fst (SubmitResult C oc data source clk db)))"
  using assms by (rule SubmitResult_repeats)

definition demo_row3 :: task_row where
  "demo_row3 = demo_row2\<lparr>tr_state := Rejected, tr_result := Some demo_result_bytes, tr_result_digest := zeros, tr_code := ''paused''\<rparr>"

definition demo_answered :: server_db where
  "demo_answered = demo_server\<lparr>v_tasks := [demo_row3, demo_row], v_audit := demo_log 4\<rparr>"

lemma demo_answered_inv: "server_inv demo_crypto demo_answered"
proof -
  have "trow_ok demo_crypto demo_row3"
    using demo_rows(2) demo_result demo_assignment unfolding trow_ok_def
    by (intro exI [of _ demo_task2]) (simp add: demo_row3_def row_task_def demo_row2_def demo_result_def pending_def)
  then have "rows_ok demo_crypto [demo_row3, demo_row]"
    using demo_rows by (simp add: rows_ok_def demo_row3_def demo_row2_def demo_row_def demo_task2_def demo_task_def)
  moreover have "queue_ok (v_nodes demo_server) [demo_row3, demo_row]"
    by (simp add: queue_ok_def demo_server_def demo_row_def demo_row3_def demo_row2_def demo_node_row_def pending_def pending_of_def MaxStoredTasks_def)
  moreover have "expected_reserved demo_answered = 4"
    by (simp add: expected_reserved_def enabled_nodes_def demo_answered_def demo_server_def task_weight_def demo_row_def demo_row3_def demo_node_row_def)
  ultimately show ?thesis
    using demo_server_inv demo_log [of 4] by (simp add: server_inv_def books_def tables_ok_def demo_answered_def)
qed

theorem result_immutable_witness:
  "snd (SubmitResult demo_crypto (Some demo_cert) demo_result_bytes ''local'' demo_clk demo_answered) = demo_answered"
proof -
  have m: "demo_row3 \<in> set (v_tasks demo_answered)" "tr_result demo_row3 = Some demo_result_bytes" "r_RequestID demo_result = tr_request demo_row3"
    by (simp_all add: demo_answered_def demo_row3_def demo_row2_def demo_result_def)
  show ?thesis using result_immutable [OF demo_sha256 demo_answered_inv m(1,2) demo_result(1) m(3)] by blast
qed

end
