(* ===== verification/Dispatch_Properties.thy ===== *)
theory Dispatch_Properties
  imports Server_Properties Wire_Properties
begin

section \<open>Properties of dispatch, enrollment and administration\<close>

text \<open>
  Who may change what in the server's store: the queue, deliveries, enrollment tokens, administrators' sessions. Each
  property with a hypothesis is followed by a closed instance on the data of \<open>Example_Server\<close>.
\<close>

subsection \<open>Delivery\<close>





lemma demo_append:
  assumes "Event_validate (stamp (demo_clk j) e)" "\<not> decision_kind (e_Kind e)" "v_audit db = demo_log 5" "- 5 \<le> d" "d < 1000"
  shows "\<exists>L. server_append demo_crypto (demo_clk j) e d db = Inr (db\<lparr>v_audit := L\<rparr>)"
proof -
  have L: "log_ok demo_crypto (demo_log 5)" "al_reserved (demo_log 5) = 5" "al_sequence (demo_log 5) = 1" using demo_log [of 5] by simp_all
  have "append_ready demo_crypto (demo_clk j) e (demo_log 5)"
    using L(1) log_ok_hash [OF demo_sha256 L(1)] assms(1,2) by (simp add: append_ready_def)
  from Append_total [OF this, of d] L(2,3) assms(3-5) show ?thesis by (auto simp: server_append_def Capacity_def)
qed

lemma demo_dispatch: "dispatchSettings demo_crypto demo_server = Inr (zeros, None, False)"
  by (simp add: dispatchSettings_def demo_server_def)


subsection \<open>The queue\<close>

text \<open>C28: what enters the queue was allowed in: \<open>Enqueue\<close> succeeds only for an enabled node that reported itself ready within
  the last five minutes, while dispatch is configured and not paused; the task is valid, addressed to the node's current
  enrollment and bound to the policy the node reported, lives as long as was asked (at most five minutes), and is stored as
  bytes that decode to it; and the node's queue and the table stay within their bounds.\<close>

theorem enqueue_guarded:
  assumes inv: "server_inv C db" and enq: "Enqueue C i kind actor ttl params rnd clk db = (Inr t, db')"
    and now: "int64 (unix_sec (clk 2) + 300)"
  shows "(\<exists>n\<in>set (v_nodes db). nr_agent n = i \<and> nr_enabled n \<and> nr_task_state n = ''ready'' \<and> wrap64 (clk 0 - seconds 300) \<le> nr_received n
      \<and> t_AgentID t = i \<and> t_EnrollmentEpoch t = nr_epoch n \<and> t_PolicyDigest t = nr_policy n)
    \<and> \<not> v_paused db \<and> v_key_digest db \<noteq> '''' \<and> Task_Validate t \<and> t_Type t = kind \<and> t_ActorID t = actor
    \<and> t_ExpiresAt t = t_CreatedAt t + ttl div seconds 1 \<and> t_CreatedAt t = unix_sec (clk 2) \<and> ttl div seconds 1 \<le> 300
    \<and> (\<exists>q\<in>set (v_tasks db'). tr_request q = t_RequestID t \<and> tr_state q = ''queued'' \<and> DecodeTask (tr_payload q) = Inr (stored_task t))
    \<and> length (filter (pending_of i) (v_tasks db')) \<le> 10 \<and> length (v_tasks db') \<le> MaxStoredTasks"
proof -
  from enq have e: "enqueueTx C i kind actor local ttl params rnd clk db = Inr (t, db')"
    unfolding Enqueue_def run_tx_eq_Inr by (auto simp: result_simps)
  then have ttl: "seconds 1 \<le> ttl" "ttl \<le> seconds MaxLifetime" by (auto simp: enqueueTx_def split: if_splits)
  from e obtain n where n: "find (\<lambda>r. nr_agent r = i \<and> nr_enabled r) (v_nodes db) = Some n" by (auto simp: enqueueTx_def split: if_splits option.splits)
  from e n have rd: "nr_task_state n = ''ready''" "wrap64 (clk 0 - seconds 300) \<le> nr_received n" by (auto simp: enqueueTx_def split: if_splits)
  from e n obtain kd trust paused where set: "dispatchSettings C db = Inr (kd, trust, paused)" "kd \<noteq> ''''" "\<not> paused"
    by (auto simp: enqueueTx_def split: if_splits sum.splits prod.splits)
  from e n set obtain db1 where x: "expireTasks C i (unix_sec (clk 1)) clk db = Inr db1"
    and st: "enqueue_store C (new_task (RandomID rnd) i (nr_epoch n) (unix_sec (clk 2)) ttl kind (case params of [] \<Rightarrow> None | ps # _ \<Rightarrow> Some ps) actor (nr_policy n))
       kd trust local clk db1 = Inr (t, db')"
    by (auto simp: enqueueTx_def result_simps split: if_splits)
  let ?t = "new_task (RandomID rnd) i (nr_epoch n) (unix_sec (clk 2)) ttl kind (case params of [] \<Rightarrow> None | ps # _ \<Rightarrow> Some ps) actor (nr_policy n)"
  from st have v: "Task_Validate t" "t = ?t" by (auto simp: enqueue_store_def result_simps split: if_splits)
  from st obtain data db2 where d: "MarshalTask t = Inr data"
    "insert_task \<lparr>tr_sequence = next_sequence (v_tasks db1), tr_request = t_RequestID t, tr_agent = t_AgentID t,
            tr_epoch = t_EnrollmentEpoch t, tr_payload = data, tr_envelope = None, tr_state = ''queued'',
            tr_expires = t_ExpiresAt t, tr_result = None, tr_result_digest = '''', tr_code = ''''\<rparr> db1 = Inr db2" "v_tasks db' = v_tasks db2"
    by (auto simp: enqueue_store_def result_simps server_append_eq_Inr split: if_splits)
  have s: "seconds k = k * 1000000000" for k by (simp add: seconds_def)
  have w: "0 \<le> ttl div seconds 1" "ttl div seconds 1 \<le> 300"
  proof -
    have "1000000000 \<le> ttl" "ttl \<le> 300000000000" using ttl by (simp_all add: s MaxLifetime_def)
    then show "0 \<le> ttl div seconds 1" "ttl div seconds 1 \<le> 300" unfolding s mult_1 by linarith+
  qed
  have c: "t_CreatedAt t = unix_sec (clk 2)" "t_ExpiresAt t = wrap64 (unix_sec (clk 2) + ttl div seconds 1)" by (simp_all add: v(2) new_task_def)
  have pos: "0 < t_CreatedAt t" using v(1) by (auto simp: Task_Validate_def)
  then have ie: "int64 (unix_sec (clk 2) + ttl div seconds 1)" "int64 (t_CreatedAt t)" using now w c(1) by (auto simp: int64_def)
  then have ex: "t_ExpiresAt t = t_CreatedAt t + ttl div seconds 1" using c by simp
  have dc: "DecodeTask data = Inr (stored_task t)" using MarshalTask_stored [OF v(1) ie(2)] d(1) ex ie(1) c(1) by auto
  have inv': "server_inv C db'" using Enqueue_inv [OF inv, of i kind actor ttl params rnd clk] enq by simp
  then have q: "length (filter (pending_of i) (v_tasks db')) \<le> 10" "length (v_tasks db') \<le> MaxStoredTasks"
    by (simp_all add: server_inv_def tables_ok_def queue_ok_def)
  have m: "\<exists>q\<in>set (v_tasks db'). tr_request q = t_RequestID t \<and> tr_state q = ''queued'' \<and> DecodeTask (tr_payload q) = Inr (stored_task t)"
    using d(2,3) dc by (auto simp: insert_task_def split: if_splits)
  have "\<not> v_paused db \<and> v_key_digest db \<noteq> ''''"
    using set by (auto simp: dispatchSettings_def result_simps split: option.splits sum.splits if_splits)
  moreover have "\<exists>n\<in>set (v_nodes db). nr_agent n = i \<and> nr_enabled n \<and> nr_task_state n = ''ready'' \<and> wrap64 (clk 0 - seconds 300) \<le> nr_received n
      \<and> t_AgentID t = i \<and> t_EnrollmentEpoch t = nr_epoch n \<and> t_PolicyDigest t = nr_policy n"
    using find_Some_mem [OF n] rd by (auto simp: v(2) new_task_def)
  moreover have "t_Type t = kind" "t_ActorID t = actor" by (simp_all add: v(2) new_task_def)
  ultimately show ?thesis using v(1) ex c(1) w(2) m q by blast
qed

definition demo_task4 :: Task where
  "demo_task4 = new_task (RandomID (replicate 16 (CHR 0x04))) (n_AgentID demo_node) (n_EnrollmentEpoch demo_node) 1010 (seconds 60) SystemInfo None ''ops'' zeros"

lemma demo_enqueue:
  "\<exists>db'. Enqueue demo_crypto (n_AgentID demo_node) SystemInfo ''ops'' (seconds 60) [] (replicate 16 (CHR 0x04)) demo_clk demo_server = (Inr demo_task4, db')"
proof -
  let ?t = demo_task4
  have v: "Task_Validate ?t" by code_simp
  have i: "int64 (t_CreatedAt ?t)" "int64 (t_ExpiresAt ?t)" by (simp_all add: demo_task4_def new_task_def) (simp add: int64_def)
  obtain data where m: "MarshalTask ?t = Inr data" using MarshalTask_stored [OF v i] by blast
  have hd: "hd (RandomID (replicate 16 (CHR 0x04))) = CHR ''0''" by code_simp
  have u: "t_RequestID ?t \<noteq> tr_request demo_row" "t_RequestID ?t \<noteq> tr_request demo_row2"
    by (rule notI, drule arg_cong [of _ _ hd], simp add: demo_task4_def new_task_def hd demo_row_def demo_row2_def demo_task_def demo_task2_def)+
  let ?r = "\<lparr>tr_sequence = next_sequence (v_tasks demo_server), tr_request = t_RequestID ?t, tr_agent = t_AgentID ?t,
            tr_epoch = t_EnrollmentEpoch ?t, tr_payload = data, tr_envelope = None, tr_state = ''queued'',
            tr_expires = t_ExpiresAt ?t, tr_result = None, tr_result_digest = '''', tr_code = ''''\<rparr>"
  let ?db = "demo_server\<lparr>v_tasks := v_tasks demo_server @ [?r]\<rparr>"
  have a: "t_AgentID ?t = n_AgentID demo_node" by (simp add: demo_task4_def new_task_def)
  have ins: "insert_task ?r demo_server = Inr ?db"
    using u by (simp add: insert_task_def a) (simp add: demo_server_def demo_node_row_def)
  let ?ev = "TaskEvent ''task_queued'' ?t local ''queued'' '''' (Digest demo_crypto data)"
  have ev: "Event_validate (stamp (demo_clk 4) ?ev)"
    using Hex_Digest [OF demo_sha256, of data]
    by (intro TaskEvent_valid_plain [OF v]) (simp_all add: audit_identifier_def alnum_def char_in_def code_def)
  have "\<exists>d. server_append demo_crypto (demo_clk 4) ?ev 2 ?db = Inr d"
    using demo_append [OF ev, of ?db 2] by (auto simp: TaskEvent_def no_event_def decision_kind_def demo_server_def)
  then obtain d where d: "server_append demo_crypto (demo_clk 4) ?ev 2 ?db = Inr d" by blast
  have st: "enqueue_store demo_crypto ?t zeros None local demo_clk demo_server = Inr (?t, d)"
    using d by (simp add: enqueue_store_def v m ins)
  have ex: "expireTasks demo_crypto (n_AgentID demo_node) 1010 demo_clk demo_server = Inr demo_server"
    by (simp add: expireTasks_def demo_server_def demo_row_def demo_row2_def)
  have h: "Hex zeros 64" "Hex (n_AgentID demo_node) 32" by code_simp+
  have "enqueueTx demo_crypto (n_AgentID demo_node) SystemInfo ''ops'' local (seconds 60) [] (replicate 16 (CHR 0x04)) demo_clk demo_server = Inr (?t, d)"
  proof -
    have f: "find (\<lambda>r. nr_agent r = n_AgentID demo_node \<and> nr_enabled r) (v_nodes demo_server) = Some demo_node_row"
      by (simp add: demo_server_def demo_node_row_def)
    have g: "Hex (nr_policy demo_node_row) 64" "nr_task_state demo_node_row = ''ready''" "\<not> nr_received demo_node_row < wrap64 (demo_clk 0 - seconds 300)"
      using h(1) by (simp_all add: demo_node_row_def demo_clk_def seconds_def int64_def)
    have nt: "new_task (RandomID (replicate 16 (CHR 0x04))) (n_AgentID demo_node) (nr_epoch demo_node_row) 1010 (seconds 60) SystemInfo None ''ops'' (nr_policy demo_node_row) = ?t"
      by (simp add: demo_task4_def demo_node_row_def)
    have b: "\<not> seconds 60 < seconds 1" "\<not> seconds MaxLifetime < seconds 60" by (simp_all add: seconds_def MaxLifetime_def)
    have c: "\<not> (MaxStoredTasks \<le> length (v_tasks demo_server) \<or> 10 \<le> length (filter (pending_of (n_AgentID demo_node)) (v_tasks demo_server)))"
      by (simp add: demo_server_def MaxStoredTasks_def)
    show ?thesis using b c by (simp add: enqueueTx_def h f g demo_dispatch ex nt st)
  qed
  then show ?thesis by (simp add: Enqueue_def run_tx_def)
qed

theorem enqueue_guarded_witness:
  "\<exists>db'. Enqueue demo_crypto (n_AgentID demo_node) SystemInfo ''ops'' (seconds 60) [] (replicate 16 (CHR 0x04)) demo_clk demo_server = (Inr demo_task4, db')
     \<and> t_ExpiresAt demo_task4 = 1070 \<and> length (filter (pending_of (n_AgentID demo_node)) (v_tasks db')) \<le> 10"
proof -
  obtain db' where e: "Enqueue demo_crypto (n_AgentID demo_node) SystemInfo ''ops'' (seconds 60) [] (replicate 16 (CHR 0x04)) demo_clk demo_server = (Inr demo_task4, db')"
    using demo_enqueue by blast
  have "int64 (unix_sec (demo_clk 2) + 300)" by (simp add: int64_def)
  from enqueue_guarded [OF demo_server_inv e this] show ?thesis using e by (auto simp: seconds_def)
qed

subsection \<open>Enrollment tokens\<close>








end
