(* ===== verification/Admin_Properties.thy ===== *)
theory Admin_Properties
  imports Dispatch_Properties
begin

section \<open>Properties of administration\<close>

text \<open>
  Who may change what through the management entry, when a login is answered with a session, and what a refused call leaves
  behind. Each property with its witness on the store of \<open>Example_Server\<close>.
\<close>

subsection \<open>Management\<close>

definition live_session :: "crypto \<Rightarrow> string \<Rightarrow> int \<Rightarrow> server_db \<Rightarrow> session_row \<Rightarrow> user_row \<Rightarrow> bool" where
  "live_session C token now db s u \<longleftrightarrow> s \<in> set (v_sessions db) \<and> u \<in> set (v_users db) \<and> sessionHash C token = Inr (se_hash s)
     \<and> us_id u = se_user s \<and> us_enabled u \<and> Role (us_role u) \<and> now < se_expires s \<and> now < se_last_used s + SessionIdle
     \<and> se_created s \<le> now + 30"

text \<open>All that the request \<open>r\<close> of the account \<open>actor\<close> may have changed between two states of the store, apart from sessions,
  the clock and the log.\<close>

definition management_effect :: "ManagementRequest \<Rightarrow> string \<Rightarrow> server_db \<Rightarrow> server_db \<Rightarrow> bool" where
  "management_effect r actor db db' \<longleftrightarrow>
     v_key_digest db' = v_key_digest db \<and> v_trust db' = v_trust db \<and> v_paused db' = v_paused db
     \<and> v_creds db' = v_creds db \<and> v_renewals db' = v_renewals db
     \<and> v_nodes db' = (if mr_Operation r = ''disable'' then disable_node (mr_AgentID r) (v_nodes db) else v_nodes db)
     \<and> v_users db' = (if mr_Operation r = ''revoke'' then map (\<lambda>u. if us_id u = actor then bump u else u) (v_users db) else v_users db)
     \<and> (v_tokens db' = v_tokens db \<or> mr_Operation r = ''token'')
     \<and> (v_tasks db' = v_tasks db \<or> mr_Operation r = ''submit'' \<or> mr_Operation r = ''disable'')"

definition unchanged :: "server_db \<Rightarrow> server_db \<Rightarrow> bool" where
  "unchanged db db' \<longleftrightarrow> v_key_digest db' = v_key_digest db \<and> v_trust db' = v_trust db \<and> v_paused db' = v_paused db
     \<and> v_creds db' = v_creds db \<and> v_renewals db' = v_renewals db \<and> v_nodes db' = v_nodes db \<and> v_users db' = v_users db
     \<and> v_tokens db' = v_tokens db \<and> v_tasks db' = v_tasks db"

lemma unchanged_simps [simp]:
  "unchanged db db" "unchanged db (d\<lparr>v_audit := L\<rparr>) = unchanged db d" "unchanged db (d\<lparr>v_sessions := ss\<rparr>) = unchanged db d"
  "unchanged db (d\<lparr>v_admin_clock := c\<rparr>) = unchanged db d" "unchanged db (d\<lparr>v_limits := ls\<rparr>) = unchanged db d"
  by (simp_all add: unchanged_def)

lemma enqueueTx_frame:
  assumes "server_inv C db"
  shows "post (\<lambda>(t, d). \<exists>rows L. d = db\<lparr>v_tasks := rows, v_audit := L\<rparr>) (enqueueTx C i kind actor source ttl params rnd clk db)"
proof -
  let ?F = "\<lambda>d. \<exists>rows L. d = db\<lparr>v_tasks := rows, v_audit := L\<rparr>"
  have inv: "rows_ok C (v_tasks db)" "books C 0 db" using assms by (simp_all add: server_inv_def tables_ok_def)
  have e: "?F d" if "expireTasks C i now ck db = Inr d" for now ck d using expireTasks_sound [OF that inv] by blast
  have s: "?F d'" if "enqueue_store C t k tr source ck d = Inr (t', d')" "?F d" for t k tr ck d t' d'
    using that by (auto simp: enqueue_store_def insert_task_def server_append_eq_Inr result_simps split: if_splits) (intro exI, rule refl)
  show ?thesis
    unfolding enqueueTx_def post_def
    by (simp add: result_simps split: option.splits sum.splits) (blast dest: e s)
qed

lemma issueTokenTx_frame: "post (\<lambda>(t, d). \<exists>ks L. d = db\<lparr>v_tokens := ks, v_audit := L\<rparr>) (issueTokenTx C ttl actor source b1 b2 clk db)"
  unfolding post_def by (auto simp: issueTokenTx_def result_simps Let_def server_append_eq_Inr split: if_splits)

lemma manage_operation_effect:
  assumes inv: "server_inv C db" and src: "source_ok source" and cur: "authorizeAdminTx C token now db = Inr current"
  shows "post (\<lambda>(x, d). management_effect r (ur_ID (sn_User current)) db d) (manage_operation C current source r b1 b2 clk db)"
proof -
  let ?Q = "\<lambda>(x :: manage_result, d). management_effect r (ur_ID (sn_User current)) db d"
  let ?op = "mr_Operation r"
  have idle: "management_effect r a db (db\<lparr>v_audit := L\<rparr>)" "management_effect r a db db" if "?op \<noteq> ''disable''" "?op \<noteq> ''revoke''" for a L
    using that by (simp_all add: management_effect_def)
  have ap: "management_effect r a db d" if "server_append C rd e 0 db = Inr d" "?op \<noteq> ''disable''" "?op \<noteq> ''revoke''" for a rd e d
    using that by (auto simp: server_append_eq_Inr idle)
  have lo: "management_effect r a db d" if "revokeSessionTx C i b source k rd db = Inr d" "?op = ''logout''" for a b i k rd d
    using that by (auto simp: revokeSessionTx_def server_append_eq_Inr management_effect_def)
  have rv: "management_effect r a db (d\<lparr>v_users := map (\<lambda>u. if us_id u = a then bump u else u) (v_users d)\<rparr>)"
    if "revokeUserSessionsTx C a a source ck db = Inr d" "?op = ''revoke''" for a ck d
    using revokeUserSessionsTx_sound [OF that(1) inv src] that(2) by (auto simp: management_effect_def)
  have en: "management_effect r a db d" if "enqueueTx C i k b source ttl ps rnd ck db = Inr (t, d)" "?op = ''submit''" for a i k b ttl ps rnd ck t d
    using postD [OF enqueueTx_frame [OF inv] that(1)] that(2) by (auto simp: management_effect_def)
  have tk: "management_effect r a db d" if "issueTokenTx C ttl b source c1 c2 ck db = Inr (t, d)" "?op = ''token''" for a ttl b c1 c2 ck t d
    using postD [OF issueTokenTx_frame that(1)] that(2) by (auto simp: management_effect_def)
  have di: "management_effect r a db d" if "disableTx C (mr_AgentID r) b source ck db = Inr d" "?op = ''disable''" for a b ck d
    using disableTx_sound [OF that(1) inv src] that(2) by (auto simp: management_effect_def)
  have rd: "\<exists>L. d = db\<lparr>v_audit := L\<rparr>" if "snapshotsTx C af i lim b source rd db = Inr (rows, d)" for af i lim b rd rows d
    using that by (auto simp: snapshotsTx_def result_simps server_append_eq_Inr)
  have rt: "\<exists>L. d = db\<lparr>v_audit := L\<rparr>" if "tasksTx C af lim i b source rd db = Inr (rows, d)" for af i lim b rd rows d
    using that by (auto simp: tasksTx_def result_simps server_append_eq_Inr)
  show ?thesis
    unfolding manage_operation_def Let_def
    by (intro post_if; (intro post_andThen post_prod)?)
      (auto simp: post_def result_simps idle ap dest!: rd rt intro: lo rv en tk di ap idle split: if_splits list.splits option.splits)
qed

lemma run_tx_post: "(\<And>e. Q (Inl e, s)) \<Longrightarrow> post Q (body s) \<Longrightarrow> Q (run_tx body s)"
  by (cases body s rule: run_tx_cases) (auto simp: post_def)

lemma expire_frame:
  assumes "server_inv C db" "adminClock now db = Inr d1" "expireSessionsTx C now ck d1 = Inr d"
  shows "server_inv C d" "unchanged db d" "set (v_sessions d) \<subseteq> set (v_sessions db)" "management_effect r a d e = management_effect r a db e"
proof -
  from assms(2) have d1: "d1 = db\<lparr>v_admin_clock := max (v_admin_clock db) now\<rparr>" by (auto simp: adminClock_def split: if_splits)
  with assms(1) have "server_inv C d1" by simp
  from expireSessionsTx_sound [OF assms(3) this] obtain L where
    d: "server_inv C d" "d = d1\<lparr>v_sessions := filter (\<lambda>s. \<not> session_over now s) (v_sessions d1), v_audit := L\<rparr>" by blast
  show "server_inv C d" by (rule d(1))
  show "unchanged db d" by (simp add: d(2) unchanged_def) (simp add: d1)
  show "set (v_sessions d) \<subseteq> set (v_sessions db)" by (simp add: d(2)) (auto simp: d1)
  show "management_effect r a d e = management_effect r a db e" by (simp add: d(2) management_effect_def) (simp add: d1)
qed

lemma manage_granted:
  assumes "authorizeAdminTx C token now d = Inr cur" "manage_operation C cur source r b3 b4 ck d = Inr (x, d3)"
    and "privileged (mr_Operation r) \<longrightarrow> ur_Role (sn_User cur) = Admin" "server_inv C d" "source_ok source"
  shows "\<exists>s u. live_session C token now d s u \<and> (privileged (mr_Operation r) \<longrightarrow> us_role u = Admin)
    \<and> management_effect r (us_id u) d (d3\<lparr>v_sessions := ss\<rparr>)"
proof -
  obtain s u where a: "s \<in> set (v_sessions d)" "u \<in> set (v_users d)" "sessionHash C token = Inr (se_hash s)"
    "us_id u = se_user s" "us_enabled u" "se_expires s > now" "se_last_used s > now - SessionIdle" "se_created s \<le> now + 30"
    "Role (us_role u)" "cur = \<lparr>sn_User = user_of u, sn_ID = se_id s, sn_Hash = se_hash s, sn_ExpiresAt = se_expires s\<rparr>"
    by (rule authorizeAdminTx_sound [OF assms(1)])
  have s: "live_session C token now d s u" "sn_User cur = user_of u" using a by (simp_all add: live_session_def)
  from postD [OF manage_operation_effect [OF assms(4,5,1)] assms(2)] s(2)
  have "management_effect r (us_id u) d d3" by (simp add: user_of_def)
  then have "management_effect r (us_id u) d (d3\<lparr>v_sessions := ss\<rparr>)" by (simp add: management_effect_def)
  moreover have "privileged (mr_Operation r) \<longrightarrow> us_role u = Admin" using assms(3) s(2) by (simp add: user_of_def)
  ultimately show ?thesis using s(1) by blast
qed

text \<open>The management entry does what a live session entitles to, and nothing else. A request succeeds only with the
  token of an unexpired, recently used session of an enabled account, and submitting, issuing tokens and disabling only for
  an Admin. Whatever succeeds changes only its own part of the store: disabling marks this one node and closes tasks, submitting
  changes the queue, issuing the tokens, revoking the own account's generation; reading changes nothing. No request touches
  roles, passwords, credentials or the signer. And a refused request changes nothing at all but sessions, clock and log.\<close>

lemma manage_authorised:
  assumes "server_inv C db" "source_ok source" "Manage C token source r b1 b2 b3 b4 clk db = (res, db')"
  shows "case res of
      Inl e \<Rightarrow> unchanged db db' \<and> set (v_sessions db') \<subseteq> set (v_sessions db)
    | Inr x \<Rightarrow> \<exists>s u. live_session C token (unix_sec (clk 0)) db s u \<and> (privileged (mr_Operation r) \<longrightarrow> us_role u = Admin)
        \<and> management_effect r (us_id u) db db'"
proof -
  let ?now = "unix_sec (clk 0)"
  define Q where "Q = (\<lambda>(res :: manage_result result, d). case res of
      Inl e \<Rightarrow> unchanged db d \<and> set (v_sessions d) \<subseteq> set (v_sessions db)
    | Inr x \<Rightarrow> \<exists>s u. live_session C token ?now db s u \<and> (privileged (mr_Operation r) \<longrightarrow> us_role u = Admin) \<and> management_effect r (us_id u) db d)"
  note frame = expire_frame [OF assms(1)]
  have e0: "Q (Inl e, db)" for e by (simp add: Q_def)
  have e1: "Q (Inl e, d)" if "adminClock ?now db = Inr d1" "expireSessionsTx C ?now ck d1 = Inr d" for ck d1 d e
    using frame [OF that] by (simp add: Q_def)
  have e2: "Q (Inl e, d2)" if "adminClock ?now db = Inr d1" "expireSessionsTx C ?now ck d1 = Inr d" "server_append C rd ev 0 d = Inr d2"
    for ck d1 d e rd ev d2
    using frame(2,3) [OF that(1,2)] that(3) by (auto simp: Q_def server_append_eq_Inr)
  have f: "Q (Inr x, d3\<lparr>v_sessions := ss\<rparr>)"
    if "adminClock ?now db = Inr d1" "expireSessionsTx C ?now ck d1 = Inr d" "authorizeAdminTx C token ?now d = Inr cur"
      "\<not> (privileged (mr_Operation r) \<and> ur_Role (sn_User cur) \<noteq> Admin)" "manage_operation C cur source r b3 b4 ck' d = Inr p" "p = (x, d3)"
    for ck d1 d cur ck' p x d3 ss
  proof -
    note fr = frame [OF that(1,2)]
    have live: "live_session C token ?now db s u" if "live_session C token ?now d s u" for s u
      using that fr(2,3) by (auto simp: live_session_def unchanged_def)
    from manage_granted [OF that(3) that(5) [unfolded that(6)] _ fr(1) assms(2), of ss] that(4)
    show ?thesis by (auto simp: Q_def fr(4) intro: live)
  qed
  have "Q (Manage C token source r b1 b2 b3 b4 clk db)"
  proof (cases "ManagementRequest_validate C b1 b2 r")
    case True
    show ?thesis
      unfolding Manage_def Let_def if_not_P [OF not_not [THEN iffD2, OF True]]
      by (rule run_tx_post, rule e0)
        (intro post_andThen [of "adminClock x d" for x d] post_andThen [of "expireSessionsTx C x ck d" for x ck d]
          post_andThen [of "server_append C rd e 0 d" for rd e d] post_sum post_prod post_if post_Inl post_Inr; (rule e1 e2 f; assumption))
  qed (simp add: Manage_def e0)
  then show ?thesis using assms(3) by (simp add: Q_def)
qed

definition demo_disable :: ManagementRequest where
  "demo_disable = \<lparr>mr_Operation = ''disable'', mr_AgentID = n_AgentID demo_node, mr_RequestID = '''', mr_AfterNode = '''', mr_After = 0,
     mr_Limit = 1, mr_Type = '''', mr_Params = '''', mr_TTLSeconds = 0\<rparr>"

lemma demo_manage: "\<exists>db'. Manage demo_crypto zeros ''local'' demo_disable b1 b2 b3 b4 demo_clk demo_server = (Inr ROk, db')"
proof -
  let ?db1 = "demo_server\<lparr>v_admin_clock := 1010\<rparr>"
  have u: "Hex (replicate 32 (CHR ''e'')) 32" by code_simp
  have h: "Hex zeros 64" "Hex (n_AgentID demo_node) 32" by code_simp+
  then have v: "ManagementRequest_validate demo_crypto b1 b2 demo_disable"
    by (auto simp: ManagementRequest_validate_def operation_ok_def demo_disable_def demo_node_def)
  have inv: "server_inv demo_crypto ?db1" using demo_server_inv by simp
  have clk: "(\<lambda>k. demo_clk (3 * k + j)) = demo_clk" for j by (simp add: demo_clk_def fun_eq_iff)
  have "demo_node_row \<in> set (v_nodes ?db1)" "nr_agent demo_node_row = n_AgentID demo_node" "nr_enabled demo_node_row"
    by (simp_all add: demo_server_def demo_node_row_def)
  moreover have "audit_identifier (us_id demo_user) 64" by code_simp
  ultimately obtain db2 where d: "disableTx demo_crypto (n_AgentID demo_node) (us_id demo_user) ''local'' demo_clk ?db1 = Inr db2"
    using disableTx_total [OF demo_sha256 _ inv, of demo_clk "''local''" "us_id demo_user" demo_node_row "n_AgentID demo_node"] by auto
  have c: "adminClock 1010 demo_server = Inr ?db1" by (simp add: adminClock_def demo_server_def)
  have e: "expireSessionsTx demo_crypto 1010 demo_clk ?db1 = Inr ?db1"
    by (simp add: expireSessionsTx_def demo_server_def session_over_def demo_session_def SessionIdle_def)
  have a: "\<exists>cur. authorizeAdminTx demo_crypto zeros 1010 ?db1 = Inr cur \<and> ur_Role (sn_User cur) = Admin \<and> ur_ID (sn_User cur) = us_id demo_user"
    using h u by (simp add: authorizeAdminTx_def sessionHash_def demo_server_def demo_session_def demo_user_def SessionIdle_def user_of_def Role_def)
  then obtain cur where cur: "authorizeAdminTx demo_crypto zeros 1010 ?db1 = Inr cur" "ur_Role (sn_User cur) = Admin"
    "ur_ID (sn_User cur) = us_id demo_user" by blast
  have "manage_operation demo_crypto cur ''local'' demo_disable b3 b4 demo_clk ?db1 = Inr (ROk, db2)"
    using d by (simp add: manage_operation_def cur(3) demo_disable_def)
  then show ?thesis using clk [of 1] clk [of 3] by (simp add: Manage_def v c e cur run_tx_def)
qed

lemma manage_authorised_example:
  "\<exists>s u db'. Manage demo_crypto zeros ''local'' demo_disable [] [] [] [] demo_clk demo_server = (Inr ROk, db')
     \<and> live_session demo_crypto zeros 1010 demo_server s u \<and> us_role u = Admin \<and> management_effect demo_disable (us_id u) demo_server db'"
proof -
  obtain db' where r: "Manage demo_crypto zeros ''local'' demo_disable [] [] [] [] demo_clk demo_server = (Inr ROk, db')"
    using demo_manage by blast
  from manage_authorised [OF demo_server_inv _ r] r show ?thesis by (auto simp: demo_disable_def privileged_def)
qed

subsection \<open>Refused calls\<close>

























subsection \<open>Logins\<close>

lemma login_admit_known:
  assumes "login_admit C name pw source acq clk db = (Inr l, db1)" "lp_known l"
  obtains u where "u \<in> set (v_users db)" "us_name u = name" "l = \<lparr>lp_user = user_of u, lp_known = True, lp_encoded = us_hash u, lp_generation = us_generation u\<rparr>"
proof -
  from assms(1) have l: "l = (case find (\<lambda>u. us_name u = name) (v_users db) of
      None \<Rightarrow> \<lparr>lp_user = \<lparr>ur_ID = '''', ur_Username = '''', ur_Role = '''', ur_Enabled = False\<rparr>, lp_known = False, lp_encoded = Dummy, lp_generation = 0\<rparr>
    | Some u \<Rightarrow> \<lparr>lp_user = user_of u, lp_known = True, lp_encoded = us_hash u, lp_generation = us_generation u\<rparr>)"
    by (auto simp: login_admit_def run_tx_eq_Inr result_simps Let_def adminClock_def admitLogin_def split: if_splits)
  with assms(2) obtain u where "find (\<lambda>u. us_name u = name) (v_users db) = Some u" by (auto split: option.splits)
  with find_Some_mem [OF this] l show thesis by (intro that [of u]) auto
qed

lemma login_issue_success:
  assumes "login_issue C l m canc source b1 b2 b3 clk db = (Inr reply, db')" "server_inv C db"
  shows "m = Inr True" "lp_known l" "still_live l db" "v_users db' = v_users db" "lo_User reply = lp_user l"
    "lo_Token reply = RandomID b1 @ RandomID b2" "lo_ExpiresAt reply = unix_sec (clk 0) + SessionLifetime"
    "\<lparr>se_hash = hash_or_empty (sessionHash C (lo_Token reply)), se_id = RandomID b3, se_user = ur_ID (lp_user l), se_created = unix_sec (clk 0),
       se_last_used = unix_sec (clk 0), se_expires = lo_ExpiresAt reply\<rparr> \<in> set (v_sessions db')"
  using assms
  by (auto simp: login_issue_def run_tx_eq_Inr result_simps Let_def adminClock_def insert_session_def server_append_eq_Inr
      dest!: expireSessionsTx_sound split: sum.splits if_splits)

text \<open>C33: a login is answered with a session only for the account that passed the check, in the state in which it was
  checked. Whatever the store did between the two halves of \<open>Login\<close> - a changed password, a new role, a disabled account, a
  revocation -, the answered token belongs to a stored session of eight hours for an account that has the given name, is
  enabled, whose stored password form the given password verifies, and whose row is the very one that the first half read.\<close>

theorem login_current:
  assumes "server_inv C db" "login_admit C name pw source acq clk db = (Inr l, db1)" "source_ok source" "list_all op_ok ops"
    and "login_issue C l (Verify K pw (lp_encoded l)) canc source b1 b2 b3 clk2 (server_run C X K ops db1) = (Inr reply, db3)"
    and "length b1 = 16" "length b2 = 16"
  shows "\<exists>u s. u \<in> set (v_users db) \<and> us_name u = name \<and> Verify K pw (us_hash u) = Inr True \<and> lo_User reply = user_of u
    \<and> live_session C (lo_Token reply) (unix_sec (clk2 0)) db3 s u
    \<and> se_expires s = unix_sec (clk2 0) + SessionLifetime \<and> lo_ExpiresAt reply = se_expires s"
proof -
  let ?db2 = "server_run C X K ops db1"
  have inv1: "server_inv C db1" using login_admit_inv [OF assms(1,3), of name pw acq clk] assms(2) by simp
  have inv2: "server_inv C ?db2" by (rule server_run_inv [OF inv1 assms(4)])
  have "grows db db1" using login_admit_grows [of db C name pw source acq clk] assms(2) by simp
  then have g: "grows db ?db2" using server_run_grows [OF inv1 assms(4)] by (rule grows_trans)
  note iss = login_issue_success [OF assms(5) inv2]
  obtain u where u: "u \<in> set (v_users db)" "us_name u = name"
    "l = \<lparr>lp_user = user_of u, lp_known = True, lp_encoded = us_hash u, lp_generation = us_generation u\<rparr>"
    by (rule login_admit_known [OF assms(2) iss(2)])
  from still_live_user [OF iss(3)] obtain y where y: "y \<in> set (v_users ?db2)" "us_id y = us_id u" "us_enabled y" "us_generation y = us_generation u"
    by (auto simp: u(3) user_of_def)
  from g u(1) obtain z where z: "z \<in> set (v_users ?db2)" "user_le u z" by (auto simp: grows_def le_all_def)
  have us: "users_ok (v_users ?db2)" using inv_sessions(3) [OF inv2] .
  have "z = y" using us z y(1,2) unique_row [of us_id "v_users ?db2" z y] by (simp add: users_ok_def user_le_def)
  with z(2) y(4) have "y = u" by (simp add: user_le_def)
  with y us have uu: "u \<in> set (v_users db3)" "us_enabled u" "Role (us_role u)" by (auto simp: iss(4) users_ok_def)
  have "Hex (lo_Token reply) 64"
    using RandomID_Hex [OF assms(6)] RandomID_Hex [OF assms(7)] by (simp add: iss(6) Hex_def)
  then show ?thesis
    using u iss(1,8) uu
    by (intro exI [of _ u] exI [of _ "\<lparr>se_hash = hash_or_empty (sessionHash C (lo_Token reply)), se_id = RandomID b3, se_user = ur_ID (lp_user l),
       se_created = unix_sec (clk2 0), se_last_used = unix_sec (clk2 0), se_expires = lo_ExpiresAt reply\<rparr>"])
      (auto simp: live_session_def iss(5,7) sessionHash_def hash_or_empty_def user_of_def SessionLifetime_def SessionIdle_def)
qed

definition demo_quiet :: server_db where
  "demo_quiet = demo_server\<lparr>v_sessions := [], v_audit := demo_log 4\<rparr>"

lemma demo_quiet_inv: "server_inv demo_crypto demo_quiet"
proof -
  have "tables_ok demo_crypto demo_server" "expected_reserved demo_server = 5" using demo_server_inv demo_log(2) [of 5]
    by (auto simp: server_inv_def books_def demo_server_def)
  then have "tables_ok demo_crypto demo_quiet" "expected_reserved demo_quiet = 4"
    by (simp_all add: demo_quiet_def tables_ok_def sessions_ok_def expected_reserved_def enabled_nodes_def demo_server_def)
  then show ?thesis using demo_log [of 4] by (simp add: server_inv_def books_def) (simp add: demo_quiet_def)
qed

lemma demo_room:
  assumes "log_ok demo_crypto (v_audit db)" "al_reserved (v_audit db) = k" "al_sequence (v_audit db) < 9" "0 \<le> k + d" "k + d < 1000"
    "Event_validate (stamp rd e)" "\<not> decision_kind (e_Kind e)" "plain_event e"
  shows "\<exists>L. server_append demo_crypto rd e d db = Inr (db\<lparr>v_audit := L\<rparr>) \<and> log_ok demo_crypto L \<and> al_reserved L = k + d
     \<and> al_sequence L = al_sequence (v_audit db) + 1"
proof -
  have "append_ready demo_crypto rd e (v_audit db)" using assms log_ok_hash [OF demo_sha256 assms(1)] by (simp add: append_ready_def)
  then obtain L where L: "Append demo_crypto rd e d (v_audit db) = Inr L"
    using Append_total [of demo_crypto rd e "v_audit db" d] assms(2-5) by (auto simp: Capacity_def)
  have "event_fits rd e" using assms(6,8) by (intro event_fitsI) (simp_all add: plain_event_def int64_def)
  with L Append_log_ok [OF assms(1) L] Append_eq_Inr [OF L] assms(2) show ?thesis by (auto simp: server_append_def)
qed

lemma demo_admin_event:
  "Event_validate (stamp (demo_clk j) (admin_event ''login_attempt'' '''' ''local'' ''accepted'' ''''))"
  "Event_validate (stamp (demo_clk j) (admin_event ''login_succeeded'' (us_id demo_user) ''local'' ''succeeded'' (RandomID (replicate 16 (CHR 0x03)))))"
proof -
  have pos: "0 < wrap64 (demo_clk j)" "source_ok ''local''" "audit_identifier (us_id demo_user) 64"
    "audit_identifier (RandomID (replicate 16 (CHR 0x03))) 64" by (simp, simp, code_simp, code_simp)
  show "Event_validate (stamp (demo_clk j) (admin_event ''login_attempt'' '''' ''local'' ''accepted'' ''''))"
    using pos by (intro admin_event_valid) (simp_all add: audit_identifier_def alnum_def char_in_def code_def)
  show "Event_validate (stamp (demo_clk j) (admin_event ''login_succeeded'' (us_id demo_user) ''local'' ''succeeded'' (RandomID (replicate 16 (CHR 0x03)))))"
    using pos by (intro admin_event_valid) (simp_all add: audit_identifier_def alnum_def char_in_def code_def)
qed

lemma demo_login:
  "\<exists>l db1 reply db3. login_admit demo_crypto ''root'' ''correct horse battery'' ''local'' True demo_clk demo_quiet = (Inr l, db1)
     \<and> login_issue demo_crypto l (Verify demo_kdf ''correct horse battery'' (lp_encoded l)) False ''local'' (replicate 16 (CHR 0x01))
         (replicate 16 (CHR 0x02)) (replicate 16 (CHR 0x03)) demo_clk (server_run demo_crypto demo_pki demo_kdf [] db1) = (Inr reply, db3)"
proof -
  let ?pw = "''correct horse battery''"
  let ?l = "\<lparr>lp_user = user_of demo_user, lp_known = True, lp_encoded = Dummy, lp_generation = 1\<rparr>"
  have "Username ''root''" "PasswordInput ?pw" by code_simp+
  moreover have "\<exists>rows. admitLogin demo_crypto ''root'' ''local'' 1010 (demo_quiet\<lparr>v_admin_clock := 1010\<rparr>)
      = Inr (True, False, demo_quiet\<lparr>v_admin_clock := 1010, v_limits := rows\<rparr>)"
    by (simp add: admitLogin_def login_buckets_def admit_bucket_def upsert_limit_def demo_quiet_def demo_server_def)
  then obtain rows where rows: "admitLogin demo_crypto ''root'' ''local'' 1010 (demo_quiet\<lparr>v_admin_clock := 1010\<rparr>)
      = Inr (True, False, demo_quiet\<lparr>v_admin_clock := 1010, v_limits := rows\<rparr>)" by blast
  let ?d = "demo_quiet\<lparr>v_admin_clock := 1010, v_limits := rows\<rparr>"
  obtain L where L: "server_append demo_crypto (demo_clk 1) (admin_event ''login_attempt'' '''' ''local'' ''accepted'' '''') 0 ?d = Inr (?d\<lparr>v_audit := L\<rparr>)"
    "log_ok demo_crypto L" "al_reserved L = 4" "al_sequence L = 2"
    using demo_room [of ?d 4 0, OF _ _ _ _ _ demo_admin_event(1)] demo_log [of 4]
    by (auto simp: demo_quiet_def admin_event_def no_event_def decision_kind_def plain_event_def)
  have "adminClock 1010 demo_quiet = Inr (demo_quiet\<lparr>v_admin_clock := 1010\<rparr>)" by (simp add: adminClock_def demo_quiet_def demo_server_def)
  moreover have "v_users demo_quiet = [demo_user]" by (simp add: demo_quiet_def demo_server_def)
  moreover have u: "us_name demo_user = ''root''" "us_hash demo_user = Dummy" "us_generation demo_user = 1" by (simp_all add: demo_user_def)
  ultimately have a: "login_admit demo_crypto ''root'' ?pw ''local'' True demo_clk demo_quiet = (Inr ?l, ?d\<lparr>v_audit := L\<rparr>)"
    using rows L(1) by (simp add: login_admit_def run_tx_def)
  let ?e = "?d\<lparr>v_audit := L\<rparr>"
  define t where "t = RandomID (replicate 16 (CHR 0x01)) @ RandomID (replicate 16 (CHR 0x02))"
  let ?s = "\<lparr>se_hash = hash_or_empty (sessionHash demo_crypto t), se_id = RandomID (replicate 16 (CHR 0x03)), se_user = us_id demo_user,
     se_created = 1010, se_last_used = 1010, se_expires = 1010 + SessionLifetime\<rparr>"
  let ?f = "?e\<lparr>v_sessions := [?s]\<rparr>"
  obtain L2 where L2: "server_append demo_crypto (demo_clk 3) (admin_event ''login_succeeded'' (us_id demo_user) ''local'' ''succeeded''
      (RandomID (replicate 16 (CHR 0x03)))) 1 ?f = Inr (?f\<lparr>v_audit := L2\<rparr>)"
    using demo_room [of ?f 4 1, OF _ _ _ _ _ demo_admin_event(2)] L(2-4)
    by (auto simp: admin_event_def no_event_def decision_kind_def plain_event_def)
  have "Verify demo_kdf ?pw Dummy = Inr True" by (simp add: Verify_def Dummy_def Parse_encode_hash demo_kdf_def)
  moreover have "adminClock 1010 ?e = Inr ?e" by (simp add: adminClock_def)
  moreover have "still_live ?l ?e" by (simp add: still_live_def demo_quiet_def demo_server_def demo_user_def user_of_def)
  moreover have "expireSessionsTx demo_crypto 1010 ck ?e = Inr ?e" for ck by (simp add: expireSessionsTx_def demo_quiet_def)
  moreover have "insert_session ?s ?e = Inr ?f" by (simp add: insert_session_def demo_quiet_def demo_server_def)
  moreover have "v_sessions ?e = []" "ur_Enabled (user_of demo_user)" "ur_ID (user_of demo_user) = us_id demo_user"
    by (simp_all add: demo_quiet_def user_of_def demo_user_def)
  ultimately have "\<exists>reply db3. login_issue demo_crypto ?l (Verify demo_kdf ?pw (lp_encoded ?l)) False ''local'' (replicate 16 (CHR 0x01))
         (replicate 16 (CHR 0x02)) (replicate 16 (CHR 0x03)) demo_clk (server_run demo_crypto demo_pki demo_kdf [] ?e) = (Inr reply, db3)"
    using L2 by (simp add: login_issue_def run_tx_def server_run_def MaxSessions_def t_def [symmetric] Let_def)
  with a show ?thesis by blast
qed

theorem login_current_witness:
  "\<exists>l db1 reply db3 u s. login_admit demo_crypto ''root'' ''correct horse battery'' ''local'' True demo_clk demo_quiet = (Inr l, db1)
     \<and> login_issue demo_crypto l (Verify demo_kdf ''correct horse battery'' (lp_encoded l)) False ''local'' (replicate 16 (CHR 0x01))
         (replicate 16 (CHR 0x02)) (replicate 16 (CHR 0x03)) demo_clk (server_run demo_crypto demo_pki demo_kdf [] db1) = (Inr reply, db3)
     \<and> u \<in> set (v_users demo_quiet) \<and> us_name u = ''root'' \<and> live_session demo_crypto (lo_Token reply) 1010 db3 s u"
proof -
  obtain l db1 reply db3 where l: "login_admit demo_crypto ''root'' ''correct horse battery'' ''local'' True demo_clk demo_quiet = (Inr l, db1)"
    "login_issue demo_crypto l (Verify demo_kdf ''correct horse battery'' (lp_encoded l)) False ''local'' (replicate 16 (CHR 0x01))
         (replicate 16 (CHR 0x02)) (replicate 16 (CHR 0x03)) demo_clk (server_run demo_crypto demo_pki demo_kdf [] db1) = (Inr reply, db3)"
    using demo_login by blast
  from login_current [OF demo_quiet_inv l(1) _ _ l(2)] obtain u s where "u \<in> set (v_users demo_quiet)" "us_name u = ''root''"
    "live_session demo_crypto (lo_Token reply) 1010 db3 s u" by auto
  with l show ?thesis by (intro exI conjI)
qed

end
