(* ===== verification/Http.thy ===== *)
theory Http
  imports Result_Codec
begin

section \<open>Requests, responses and the small messages\<close>

text \<open>
  What the program uses of \<open>net/http\<close>: a request as a handler sees it, with the header fields it looks at, and a response
  as a client sees it. \<open>hq_Media\<close> and \<open>hr_Media\<close> are what \<open>mime.ParseMediaType\<close> makes of the content type: the type and the
  number of its parameters, \<open>None\<close> when it does not parse; \<open>hq_Peer\<close> is \<open>audit.Peer\<close> of the remote address. The body
  of a response is what was written before the handler returned. Then the printers of the messages that only travel
  (\<open>protocol/dispatch.go\<close>, \<open>protocol/protocol.go\<close>), with their round trips, and the budget of a handler.
\<close>

record tls_state =
  tl_TLS13 :: bool
  tl_VerifiedChains :: "certificate list list"
  tl_PeerCertificates :: "certificate list"

record http_request =
  hq_Method :: string
  hq_Path :: string
  hq_RawPath :: string
  hq_RawQuery :: string
  hq_ForceQuery :: bool
  hq_RequestURI :: string
  hq_TLS :: "tls_state option"
  hq_Media :: "(string \<times> nat) option"
  hq_ContentEncoding :: string
  hq_ContentLength :: int
  hq_TransferEncoding :: nat
  hq_Authorization :: "string list"
  hq_Origin :: "string list"
  hq_Cookie :: "string list"
  hq_Body :: bytes
  hq_Peer :: string

record http_response =
  hr_Status :: int
  hr_Media :: "string option"
  hr_Allow :: string
  hr_RetryAfter :: string
  hr_Body :: bytes

abbreviation app_json :: string where "app_json \<equiv> ''application/json''"
abbreviation newline :: char where "newline \<equiv> CHR 0x0A"

definition header_get :: "string list \<Rightarrow> string" where
  "header_get vs = (case vs of [] \<Rightarrow> '''' | v # _ \<Rightarrow> v)"

definition respond :: "int \<Rightarrow> bytes \<Rightarrow> http_response" where
  "respond status body = \<lparr>hr_Status = status, hr_Media = Some app_json, hr_Allow = '''', hr_RetryAfter = '''', hr_Body = body\<rparr>"

text \<open>The handlers' \<open>fail\<close>: the status and \<open>{"code": ...}\<close>, which \<open>json.Encoder\<close> ends with a newline.\<close>

definition fail :: "int \<Rightarrow> string \<Rightarrow> http_response" where
  "fail status ec = respond status (json_object [(''code'', json_string ec)] @ [newline])"

text \<open>\<open>strictjson.Read\<close> of a body.\<close>

definition Read :: "bytes \<Rightarrow> nat \<Rightarrow> bytes result" where
  "Read body limit =
     (if limit = 0 then Inl (Err ''invalid size limit'')
      else if length body > limit then Inl (Err ''JSON exceeds size limit'')
      else Inr body)"

text \<open>The condition under which a handler reads a JSON body of at most \<open>limit\<close> bytes.\<close>

definition json_body_ok :: "nat \<Rightarrow> http_request \<Rightarrow> bool" where
  "json_body_ok limit r \<longleftrightarrow> (case hq_Media r of None \<Rightarrow> False | Some (media, _) \<Rightarrow> media = app_json)
     \<and> hq_ContentEncoding r = '''' \<and> 0 < hq_ContentLength r \<and> hq_ContentLength r \<le> int limit \<and> hq_TransferEncoding r = 0"

subsection \<open>Messages\<close>

definition MarshalPollRequest :: "PollRequest \<Rightarrow> bytes" where
  "MarshalPollRequest p = json_object [(''version'', show_int (pr_Version p)), (''policy_digest'', json_string (pr_PolicyDigest p))]"

definition MarshalResultAck :: "ResultAck \<Rightarrow> bytes" where
  "MarshalResultAck a = json_object
     [(''version'', show_int (ra_Version a)), (''agent_id'', json_string (ra_AgentID a)), (''epoch'', json_string (ra_Epoch a)),
      (''request_id'', json_string (ra_RequestID a)), (''result_digest'', json_string (ra_ResultDigest a))]"

definition MarshalConnectionInfo :: "ConnectionInfo \<Rightarrow> bytes" where
  "MarshalConnectionInfo i = json_object
     [(''version'', show_int (ci_Version i)), (''agent_id'', json_string (ci_AgentID i)),
      (''enrollment_epoch'', json_string (ci_EnrollmentEpoch i))]"

lemma newline_ws: "list_all is_ws [newline]"
  by (simp add: is_ws_def code_def)

lemma int64_1: "int64 1"
  by (simp add: int64_def)

lemma DecodePoll_Marshal:
  assumes "Hex d 64"
  shows "DecodePoll (MarshalPollRequest \<lparr>pr_Version = 1, pr_PolicyDigest = d\<rparr>) = Inr \<lparr>pr_Version = 1, pr_PolicyDigest = d\<rparr>"
    and "length (MarshalPollRequest \<lparr>pr_Version = 1, pr_PolicyDigest = d\<rparr>) \<le> 128"
proof -
  let ?ms = "[int_member ''version'' 1, str_member ''policy_digest'' d]"
  have k: "plain ''version''" "plain ''policy_digest''" "plain d" "length d = 64"
    using assms by (auto simp: plain_char_def alnum_def char_in_def code_def dest: Hex_plain Hex_length)
  have t: "MarshalPollRequest \<lparr>pr_Version = 1, pr_PolicyDigest = d\<rparr> = object_text ?ms"
    by (simp add: MarshalPollRequest_def object_text_def member_defs)
  show len: "length (MarshalPollRequest \<lparr>pr_Version = 1, pr_PolicyDigest = d\<rparr>) \<le> 128"
    using k length_show_int [OF int64_1] by (simp add: t length_object_text length_json_string_plain)
  have "strict_decode (object_text ?ms) 256 [''version'', ''policy_digest''] = Inr (object_members ?ms)"
    using k len by (intro strict_decode_object) (simp_all add: t read_members plain_valid)
  then show "DecodePoll (MarshalPollRequest \<lparr>pr_Version = 1, pr_PolicyDigest = d\<rparr>) = Inr \<lparr>pr_Version = 1, pr_PolicyDigest = d\<rparr>"
    using assms by (simp add: t DecodePoll_def int64_1 Version_def)
qed

lemma DecodeResultAck_Marshal:
  assumes "ra_Version a = 1" "Hex (ra_AgentID a) 32" "Hex (ra_Epoch a) 32" "Hex (ra_RequestID a) 32" "Hex (ra_ResultDigest a) 64"
  shows "DecodeResultAck (MarshalResultAck a @ [newline]) = Inr a" and "length (MarshalResultAck a @ [newline]) \<le> 512"
proof -
  let ?ms = "[int_member ''version'' (ra_Version a), str_member ''agent_id'' (ra_AgentID a), str_member ''epoch'' (ra_Epoch a),
    str_member ''request_id'' (ra_RequestID a), str_member ''result_digest'' (ra_ResultDigest a)]"
  have k: "plain ''version''" "plain ''agent_id''" "plain ''epoch''" "plain ''request_id''" "plain ''result_digest''"
    by (simp_all add: plain_char_def alnum_def char_in_def code_def)
  have p: "plain (ra_AgentID a)" "plain (ra_Epoch a)" "plain (ra_RequestID a)" "plain (ra_ResultDigest a)"
    "length (ra_AgentID a) = 32" "length (ra_Epoch a) = 32" "length (ra_RequestID a) = 32" "length (ra_ResultDigest a) = 64"
    using assms by (auto dest: Hex_plain Hex_length)
  have t: "MarshalResultAck a = object_text ?ms" by (simp add: MarshalResultAck_def object_text_def member_defs)
  show len: "length (MarshalResultAck a @ [newline]) \<le> 512"
    using k p length_show_int [OF int64_1] by (simp add: t length_object_text length_json_string_plain assms(1))
  have "strict_decode (object_text ?ms @ [newline]) 1024 [''version'', ''agent_id'', ''epoch'', ''request_id'', ''result_digest'']
      = Inr (object_members ?ms)"
    using k p len newline_ws by (intro strict_decode_object_ws) (simp_all add: t read_members plain_valid)
  moreover have eq: "\<lparr>ra_Version = 1, ra_AgentID = ra_AgentID a, ra_Epoch = ra_Epoch a, ra_RequestID = ra_RequestID a,
      ra_ResultDigest = ra_ResultDigest a\<rparr> = a" using assms(1) by (cases a) simp
  ultimately show "DecodeResultAck (MarshalResultAck a @ [newline]) = Inr a"
    using assms eq by (simp add: t DecodeResultAck_def int64_1 Version_def)
qed

lemma DecodeConnectionInfo_Marshal:
  assumes "Node_Validate \<lparr>n_AgentID = ci_AgentID i, n_EnrollmentEpoch = ci_EnrollmentEpoch i\<rparr>" "ci_Version i = 1"
  shows "DecodeConnectionInfo (MarshalConnectionInfo i @ [newline]) = Inr i"
    and "length (MarshalConnectionInfo i @ [newline]) \<le> 512"
proof -
  let ?ms = "[int_member ''version'' (ci_Version i), str_member ''agent_id'' (ci_AgentID i),
    str_member ''enrollment_epoch'' (ci_EnrollmentEpoch i)]"
  have h: "Hex (ci_AgentID i) 32" "Hex (ci_EnrollmentEpoch i) 32" using assms(1) by (simp_all add: Node_Validate_def)
  have k: "plain ''version''" "plain ''agent_id''" "plain ''enrollment_epoch''"
    by (simp_all add: plain_char_def alnum_def char_in_def code_def)
  have p: "plain (ci_AgentID i)" "plain (ci_EnrollmentEpoch i)" "length (ci_AgentID i) = 32" "length (ci_EnrollmentEpoch i) = 32"
    using h by (auto dest: Hex_plain Hex_length)
  have t: "MarshalConnectionInfo i = object_text ?ms" by (simp add: MarshalConnectionInfo_def object_text_def member_defs)
  show len: "length (MarshalConnectionInfo i @ [newline]) \<le> 512"
    using k p length_show_int [OF int64_1] by (simp add: t length_object_text length_json_string_plain assms(2))
  have "strict_decode (object_text ?ms @ [newline]) 4096 [''version'', ''agent_id'', ''enrollment_epoch''] = Inr (object_members ?ms)"
    using k p len newline_ws by (intro strict_decode_object_ws) (simp_all add: t read_members plain_valid)
  moreover have eq: "\<lparr>ci_Version = 1, ci_AgentID = ci_AgentID i, ci_EnrollmentEpoch = ci_EnrollmentEpoch i\<rparr> = i"
    using assms(2) by (cases i) simp
  ultimately show "DecodeConnectionInfo (MarshalConnectionInfo i @ [newline]) = Inr i"
    using assms eq by (simp add: t DecodeConnectionInfo_def int64_1 Version_def)
qed

subsection \<open>Request budgets\<close>

text \<open>The enrollment, renewal and management handlers admit so many requests per window; a window starts with the first request
  after the last one is over.\<close>

record budget =
  bg_window :: instant
  bg_count :: nat

definition take_budget :: "nat \<Rightarrow> instant \<Rightarrow> budget \<Rightarrow> bool \<times> budget" where
  "take_budget limit now b =
     (let b1 = (if now - bg_window b \<ge> seconds 60 then \<lparr>bg_window = now, bg_count = 0\<rparr> else b);
          allowed = bg_count b1 < limit
      in (allowed, if allowed then b1\<lparr>bg_count := bg_count b1 + 1\<rparr> else b1))"

end
