(* ===== verification/Server_Http.thy ===== *)
theory Server_Http
  imports Http Server_Run
begin

section \<open>The probe-facing handler of the server\<close>

text \<open>
  \<open>internal/server\<close> (\<open>server.go\<close>, \<open>tasks.go\<close>). A handler is a function from the request and the store to the response and
  the store; \<open>slot\<close> says whether one of its concurrency slots was free, \<open>clk\<close> are its clock readings. \<open>au\<close> is the registry
  (\<open>identity.Authorizer\<close>), \<open>None\<close> when there is none; \<open>sink\<close> is what is behind the handler: nothing, a telemetry store, or the
  task service with its signing key. The handler that renews credentials is an argument, with its own state.
\<close>

definition PollPath :: string where "PollPath = ''/api/v1/agent/tasks/poll''"
definition ResultsPath :: string where "ResultsPath = ''/api/v1/agent/results''"
definition IdentityPath :: string where "IdentityPath = ''/api/v1/agent/identity''"
definition HeartbeatPath :: string where "HeartbeatPath = ''/api/v1/agent/heartbeat''"
definition RenewalPath :: string where "RenewalPath = ''/api/v1/agent/certificate/renew''"

datatype sink = NoSink | TelemetrySink | TaskService bytes

subsection \<open>The task service\<close>

text \<open>One round of the loop in \<open>PollTask\<close>: the readings of \<open>Store.Poll\<close>, whether the poll's and the request's context were over
  after it, and what other requests do to the store until the timer fires. The list ends when the poll's context does.\<close>

record poll_try =
  pt_clk :: sreadings
  pt_poll_over :: bool
  pt_request_over :: bool
  pt_between :: "server_op list"

fun PollTask :: "crypto \<Rightarrow> pki \<Rightarrow> kdf \<Rightarrow> certificate option \<Rightarrow> string \<Rightarrow> bytes \<Rightarrow> string \<Rightarrow> bool \<Rightarrow> poll_try list \<Rightarrow> server_db
    \<Rightarrow> bytes result \<times> server_db" where
  "PollTask C X K oc digest key source over [] db = (if over then Inl (Err ''context canceled'') else Inr [], db)"
| "PollTask C X K oc digest key source over (a # as) db = (case Poll C oc digest key source (pt_clk a) db of
     (Inl e, db1) \<Rightarrow> (if pt_poll_over a \<and> \<not> pt_request_over a then Inr [] else Inl e, db1)
   | (Inr data, db1) \<Rightarrow>
       let bs = (case data of None \<Rightarrow> [] | Some b \<Rightarrow> b) in
       if bs \<noteq> [] then (Inr bs, db1)
       else PollTask C X K oc digest key source over as (server_run C X K (pt_between a) db1))"

text \<open>\<open>NewTaskService\<close>: the key must be the one the store is configured for.\<close>

definition NewTaskService :: "crypto \<Rightarrow> bytes \<Rightarrow> instant \<Rightarrow> server_db \<Rightarrow> sink result \<times> server_db" where
  "NewTaskService C key rd db = (case ConfigureSigner C key rd db of
     (Inl e, db1) \<Rightarrow> (Inl e, db1) | (Inr _, db1) \<Rightarrow> (Inr (TaskService key), db1))"

subsection \<open>Requests\<close>

record handling =
  hn_slot :: bool
  hn_clk :: sreadings
  hn_tries :: "poll_try list"
  hn_over :: bool

definition dispatch_request :: "crypto \<Rightarrow> pki \<Rightarrow> kdf \<Rightarrow> bytes \<Rightarrow> handling \<Rightarrow> certificate option \<Rightarrow> http_request \<Rightarrow> server_db
    \<Rightarrow> http_response \<times> server_db" where
  "dispatch_request C X K key hn peer r db =
     (if hq_Method r \<noteq> ''POST'' then ((fail 405 ''method_not_allowed'')\<lparr>hr_Allow := ''POST''\<rparr>, db)
      else let limit = (if hq_Path r = ResultsPath then MaxDispatchResultBytes else 256) in
        if \<not> json_body_ok limit r then (fail 400 ''invalid_request'', db)
        else (case Read (hq_Body r) limit of
          Inl _ \<Rightarrow> (fail 400 ''invalid_request'', db)
        | Inr data \<Rightarrow>
            if hq_Path r = PollPath then (case DecodePoll data of
                Inl _ \<Rightarrow> (fail 400 ''invalid_request'', db)
              | Inr q \<Rightarrow> (case PollTask C X K peer (pr_PolicyDigest q) key (hq_Peer r) (hn_over hn) (hn_tries hn) db of
                  (Inl _, db1) \<Rightarrow> (fail 503 ''dispatch_unavailable'', db1)
                | (Inr envelope, db1) \<Rightarrow> (if envelope = [] then respond 204 [] else respond 200 envelope, db1)))
            else (case SubmitResult C peer data (hq_Peer r) (\<lambda>k. hn_clk hn (k + 2)) db of
                (Inl _, db1) \<Rightarrow> (fail 409 ''result_rejected'', db1)
              | (Inr ack, db1) \<Rightarrow> (respond 200 (MarshalResultAck ack @ [newline]), db1))))"

text \<open>\<open>marshal\<close> is \<open>json.Marshal\<close> on a heartbeat, which the store applies to what it keeps; it prints floating point numbers.\<close>

definition heartbeat_request :: "crypto \<Rightarrow> (Heartbeat \<Rightarrow> bytes) \<Rightarrow> handling \<Rightarrow> Node \<Rightarrow> certificate option \<Rightarrow> http_request \<Rightarrow> server_db
    \<Rightarrow> http_response \<times> server_db" where
  "heartbeat_request C marshal hn node peer r db =
     (if hq_Method r \<noteq> ''POST'' then ((fail 405 ''method_not_allowed'')\<lparr>hr_Allow := ''POST''\<rparr>, db)
      else if \<not> json_body_ok MaxHeartbeatBytes r then (fail 400 ''invalid_request'', db)
      else case Read (hq_Body r) MaxHeartbeatBytes of
        Inl _ \<Rightarrow> (fail 400 ''invalid_request'', db)
      | Inr data \<Rightarrow> (case DecodeHeartbeat data of
          Inl _ \<Rightarrow> (fail 400 ''invalid_request'', db)
        | Inr h \<Rightarrow>
            if hb_AgentID h \<noteq> n_AgentID node \<or> hb_EnrollmentEpoch h \<noteq> n_EnrollmentEpoch node
               \<or> hb_SentAt h < unix_sec (hn_clk hn 0) - 300 \<or> hb_SentAt h > unix_sec (hn_clk hn 0) + 30
            then (fail 400 ''invalid_request'', db)
            else (case SaveHeartbeat C peer h (marshal h) (\<lambda>k. hn_clk hn (k + 2)) db of
                (Inl e, db1) \<Rightarrow> (if e = ErrRateLimited then fail 429 ''rate_limited'' else fail 503 ''unavailable'', db1)
              | (Inr _, db1) \<Rightarrow> (respond 200 (MarshalConnectionInfo \<lparr>ci_Version = Version, ci_AgentID = n_AgentID node,
                    ci_EnrollmentEpoch = n_EnrollmentEpoch node\<rparr> @ [newline]), db1))))"

definition identity_request :: "Node \<Rightarrow> http_request \<Rightarrow> http_response" where
  "identity_request node r =
     (if hq_Path r \<noteq> IdentityPath then fail 404 ''not_found''
      else if hq_Method r \<noteq> ''GET'' then (fail 405 ''method_not_allowed'')\<lparr>hr_Allow := ''GET''\<rparr>
      else if hq_RawQuery r \<noteq> '''' \<or> hq_ForceQuery r \<or> hq_ContentLength r \<noteq> 0 \<or> hq_TransferEncoding r \<noteq> 0
      then fail 400 ''invalid_request''
      else respond 200 (MarshalConnectionInfo \<lparr>ci_Version = Version, ci_AgentID = n_AgentID node,
        ci_EnrollmentEpoch = n_EnrollmentEpoch node\<rparr> @ [newline]))"

text \<open>The connection: a verified chain, still within its validity, and a certificate the registry authorises now.\<close>

definition peer_node :: "(certificate option \<Rightarrow> instant \<Rightarrow> server_db \<Rightarrow> Node result) option \<Rightarrow> sreadings \<Rightarrow> http_request \<Rightarrow> server_db
    \<Rightarrow> (Node \<times> certificate) option" where
  "peer_node au clk r db = (case (au, hq_TLS r) of
     (Some authorize, Some conn) \<Rightarrow> (case (tl_VerifiedChains conn, tl_PeerCertificates conn) of
         (chn # _, cert # _) \<Rightarrow>
           if list_ex (\<lambda>c. clk 0 < c_NotBefore c \<or> \<not> clk 0 < c_NotAfter c) chn then None
           else (case authorize (Some cert) (clk 1) db of Inl _ \<Rightarrow> None | Inr node \<Rightarrow> Some (node, cert))
       | _ \<Rightarrow> None)
   | _ \<Rightarrow> None)"

definition HandlerWithRenewal :: "crypto \<Rightarrow> pki \<Rightarrow> kdf \<Rightarrow> (Heartbeat \<Rightarrow> bytes) \<Rightarrow> (certificate option \<Rightarrow> instant \<Rightarrow> server_db \<Rightarrow> Node result) option
    \<Rightarrow> sink \<Rightarrow> (http_request \<Rightarrow> server_db \<times> budget \<Rightarrow> http_response \<times> server_db \<times> budget) option
    \<Rightarrow> handling \<Rightarrow> http_request \<Rightarrow> server_db \<times> budget \<Rightarrow> http_response \<times> server_db \<times> budget" where
  "HandlerWithRenewal C X K marshal au sink renewal hn r = (\<lambda>(db, bg).
     if \<not> hn_slot hn then (fail 429 ''rate_limited'', db, bg)
     else case peer_node au (hn_clk hn) r db of
       None \<Rightarrow> (fail 401 ''unauthorized'', db, bg)
     | Some (node, cert) \<Rightarrow>
         let plain = (\<lambda>(resp, db1). (resp, db1, bg)) in
         if hq_RawPath r \<noteq> '''' \<or> hq_RawQuery r \<noteq> '''' \<or> hq_ForceQuery r then (fail 400 ''invalid_request'', db, bg)
         else (case (if hq_Path r = RenewalPath then renewal else None) of
             Some h \<Rightarrow> h r (db, bg)
           | None \<Rightarrow> plain (case sink of
                 TaskService key \<Rightarrow>
                   if hq_Path r = PollPath \<or> hq_Path r = ResultsPath then dispatch_request C X K key hn (Some cert) r db
                   else if hq_Path r = HeartbeatPath then heartbeat_request C marshal hn node (Some cert) r db
                   else (identity_request node r, db)
               | TelemetrySink \<Rightarrow>
                   if hq_Path r = HeartbeatPath then heartbeat_request C marshal hn node (Some cert) r db
                   else (identity_request node r, db)
               | NoSink \<Rightarrow> (identity_request node r, db))))"

end
