(* ===== verification/Issuer.thy ===== *)
theory Issuer
  imports Server_Http
begin

section \<open>Certificate issuance and the enrollment handlers\<close>

text \<open>
  \<open>internal/enrollment\<close> (\<open>issuer.go\<close>, \<open>handler.go\<close>, \<open>renewal.go\<close>). Parsing a certificate request and creating a
  certificate are \<open>crypto/x509\<close>, the argument \<open>x509\<close>; what the program checks of a parsed request and what it asks to be
  signed is written out.
\<close>

record parsed_csr =
  pc_csr :: csr
  pc_SignatureOK :: bool
  pc_Version :: int
  pc_TBSAttributes :: nat
  pc_TBSRest :: nat
  pc_RawSubject :: bytes
  pc_Ed25519 :: bool
  pc_SubjectNames :: nat
  pc_Extensions :: nat
  pc_Attributes :: nat
  pc_Names :: nat

text \<open>The fields of the certificate template that \<open>Issue\<close> sets; the serial number is written in decimal.\<close>

record cert_template =
  ct_SerialNumber :: nat
  ct_NotBefore :: instant
  ct_NotAfter :: instant
  ct_ExtKeyUsage :: "ExtKeyUsage list"
  ct_URI :: string

record x509 =
  x5_ParseCSR :: "bytes \<Rightarrow> parsed_csr option"
  x5_TBS :: "bytes \<Rightarrow> bool"
  x5_CreateCertificate :: "cert_template \<Rightarrow> certificate \<Rightarrow> bytes \<Rightarrow> bytes \<Rightarrow> certificate result"
  x5_PEM :: "bytes \<Rightarrow> bytes"

record issuer =
  is_cert :: certificate
  is_key :: bytes
  is_pem :: bytes
  is_lifetime :: int
  is_validUntil :: "instant option"

definition SetLifetime :: "int \<Rightarrow> issuer \<Rightarrow> issuer result" where
  "SetLifetime lifetime iss =
     (if lifetime < seconds 3600 \<or> lifetime > seconds (30 * 24 * 3600) \<or> lifetime mod seconds 1 \<noteq> 0
      then Inl (Err ''certificate lifetime must be 1 hour through 30 days in whole seconds'')
      else Inr (iss\<lparr>is_lifetime := lifetime\<rparr>))"

text \<open>\<open>x5_TBS\<close>: the signed part reads as the four-field sequence \<open>info\<close>.\<close>

definition ParseCSR :: "x509 \<Rightarrow> bytes \<Rightarrow> csr result" where
  "ParseCSR Y der =
     (if length der = 0 \<or> length der > 2048 then Inl (Err ''invalid CSR size'')
      else case x5_ParseCSR Y der of
        None \<Rightarrow> Inl (Err ''invalid CSR'')
      | Some p \<Rightarrow>
          if \<not> pc_SignatureOK p then Inl (Err ''invalid CSR proof of possession'')
          else if \<not> x5_TBS Y der \<or> pc_TBSRest p \<noteq> 0 \<or> pc_Version p \<noteq> 0 \<or> pc_TBSAttributes p \<noteq> 0
             \<or> pc_RawSubject p \<noteq> [CHR 0x30, CHR 0x00] then Inl (Err ''CSR subject and attributes must be empty'')
          else if \<not> pc_Ed25519 p \<or> pc_SubjectNames p \<noteq> 0 \<or> pc_Extensions p \<noteq> 0 \<or> pc_Attributes p \<noteq> 0 \<or> pc_Names p \<noteq> 0
          then Inl (Err ''CSR must contain only an Ed25519 public key'')
          else Inr (pc_csr p))"

text \<open>The template of a leaf: now minus a minute, within the issuer's own validity, for the configured lifetime.\<close>

definition leaf_template :: "issuer \<Rightarrow> string \<Rightarrow> nat \<Rightarrow> instant \<Rightarrow> cert_template result" where
  "leaf_template iss uri serial now =
     (let until = (case is_validUntil iss of None \<Rightarrow> c_NotAfter (is_cert iss) | Some u \<Rightarrow> u) in
      if now < c_NotBefore (is_cert iss) \<or> \<not> now + seconds 60 < until
      then Inl (Err ''issuing CA is outside its usable validity window'')
      else let lifetime = (if is_lifetime iss = 0 then seconds (12 * 3600) else is_lifetime iss) in
        Inr \<lparr>ct_SerialNumber = serial + 1, ct_NotBefore = max (now - seconds 60) (c_NotBefore (is_cert iss)),
          ct_NotAfter = min (now + lifetime) until, ct_ExtKeyUsage = [ExtKeyUsageClientAuth], ct_URI = uri\<rparr>)"

definition Issue :: "x509 \<Rightarrow> issuer \<Rightarrow> csr option \<Rightarrow> Node \<Rightarrow> instant \<Rightarrow> nat \<Rightarrow> (bytes \<times> certificate) result" where
  "Issue Y iss oq n now serial = (case oq of
     None \<Rightarrow> Inl (Err ''CSR is required'')
   | Some q \<Rightarrow> andThen (ParseCSR Y (q_Raw q)) (\<lambda>checked. andThen (Node_URI n) (\<lambda>u.
       andThen (leaf_template iss u serial now) (\<lambda>t.
       andThen (x5_CreateCertificate Y t (is_cert iss) (q_SubjectPublicKeyInfo checked) (is_key iss)) (\<lambda>cert.
         Inr (x5_PEM Y (c_Raw cert) @ is_pem iss, cert))))))"

definition CheckTransport :: "issuer \<Rightarrow> certificate option \<Rightarrow> unit result" where
  "CheckTransport iss oc = (case oc of
     None \<Rightarrow> Inl (Err ''transport and certificate-issuance keys must be distinct'')
   | Some cert \<Rightarrow> if c_SubjectPublicKeyInfo (is_cert iss) = c_SubjectPublicKeyInfo cert
       then Inl (Err ''transport and certificate-issuance keys must be distinct'') else Inr ())"

subsection \<open>Enrollment\<close>

definition MarshalEnrollmentResponse :: "EnrollmentResponse \<Rightarrow> bytes" where
  "MarshalEnrollmentResponse e = json_object
     [(''version'', show_int (es_Version e)), (''agent_id'', json_string (es_AgentID e)),
      (''enrollment_epoch'', json_string (es_EnrollmentEpoch e)), (''certificate_pem'', json_string (es_CertificatePEM e))]"

definition EnrollPath :: string where "EnrollPath = ''/api/v1/enroll''"

text \<open>What one request brings along: a free slot, the clock, the bytes of the new node's identity and the serial number.\<close>

record enrolling =
  eg_slot :: bool
  eg_clk :: sreadings
  eg_agent :: bytes
  eg_epoch :: bytes
  eg_serial :: nat

text \<open>The handler behind its checks: decode, parse, issue, and only then spend the token.\<close>

definition enroll :: "crypto \<Rightarrow> pki \<Rightarrow> x509 \<Rightarrow> issuer \<Rightarrow> enrolling \<Rightarrow> http_request \<Rightarrow> server_db \<Rightarrow> http_response \<times> server_db" where
  "enroll C X Y iss eg r db =
     (case andThen (Read (hq_Body r) MaxEnrollmentBytes) DecodeEnrollmentRequest of
        Inl _ \<Rightarrow> (fail 400 ''invalid_request'', db)
      | Inr (q, der) \<Rightarrow> (case ParseCSR Y der of
          Inl _ \<Rightarrow> (fail 400 ''invalid_request'', db)
        | Inr csr \<Rightarrow>
            let node = \<lparr>n_AgentID = RandomID (eg_agent eg), n_EnrollmentEpoch = RandomID (eg_epoch eg)\<rparr> in
            (case Issue Y iss (Some csr) node (eg_clk eg 1) (eg_serial eg) of
              Inl _ \<Rightarrow> (fail 503 ''unavailable'', db)
            | Inr (chn, cert) \<Rightarrow>
                (case RegisterFrom C X (eq_Token q) \<lparr>g_AgentID = n_AgentID node, g_EnrollmentEpoch = n_EnrollmentEpoch node,
                      g_CertificateSHA256 = Fingerprint C cert, g_Enabled = True\<rparr> (hq_Peer r) [Some cert, Some (is_cert iss)]
                      (\<lambda>k. eg_clk eg (k + 2)) db of
                  (Inl _, db1) \<Rightarrow> (fail 403 ''enrollment_rejected'', db1)
                | (Inr _, db1) \<Rightarrow> (respond 201 (MarshalEnrollmentResponse \<lparr>es_Version = Version, es_AgentID = n_AgentID node,
                      es_EnrollmentEpoch = n_EnrollmentEpoch node, es_CertificatePEM = chn\<rparr> @ [newline]), db1)))))"

definition EnrollmentHandler :: "crypto \<Rightarrow> pki \<Rightarrow> x509 \<Rightarrow> issuer option \<Rightarrow> enrolling \<Rightarrow> http_request \<Rightarrow> server_db \<times> budget
    \<Rightarrow> http_response \<times> server_db \<times> budget" where
  "EnrollmentHandler C X Y mounted eg r = (\<lambda>(db, bg). case mounted of
     None \<Rightarrow> (fail 503 ''unavailable'', db, bg)
   | Some iss \<Rightarrow>
       if (case hq_TLS r of None \<Rightarrow> True | Some conn \<Rightarrow> \<not> tl_TLS13 conn) then (fail 401 ''unauthorized'', db, bg)
       else if hq_Path r \<noteq> EnrollPath \<or> hq_RawPath r \<noteq> '''' then (fail 404 ''not_found'', db, bg)
       else if hq_Method r \<noteq> ''POST'' then ((fail 405 ''method_not_allowed'')\<lparr>hr_Allow := ''POST''\<rparr>, db, bg)
       else let (allowed, bg1) = take_budget 30 (eg_clk eg 0) bg in
         if \<not> allowed \<or> \<not> eg_slot eg then (fail 429 ''rate_limited'', db, bg1)
         else if \<not> json_body_ok MaxEnrollmentBytes r \<or> hq_RawQuery r \<noteq> '''' \<or> hq_ForceQuery r then (fail 400 ''invalid_request'', db, bg1)
         else let (resp, db1) = enroll C X Y iss eg r db in (resp, db1, bg1))"

subsection \<open>Renewal\<close>

definition issuer_pki :: "pki \<Rightarrow> x509 \<Rightarrow> issuer \<Rightarrow> instant \<Rightarrow> nat \<Rightarrow> pki" where
  "issuer_pki X Y iss now serial =
     X\<lparr>pk_Issue := (\<lambda>q n. Issue Y iss (Some q) n now serial), pk_Issuer := Some (is_cert iss)\<rparr>"

definition renew :: "crypto \<Rightarrow> pki \<Rightarrow> x509 \<Rightarrow> issuer \<Rightarrow> enrolling \<Rightarrow> certificate \<Rightarrow> certificate \<Rightarrow> http_request \<Rightarrow> server_db
    \<Rightarrow> http_response \<times> server_db" where
  "renew C X Y iss eg old oldIssuer r db =
     (case andThen (Read (hq_Body r) MaxRenewalBytes) DecodeRenewalRequest of
        Inl _ \<Rightarrow> (fail 400 ''invalid_request'', db)
      | Inr (q, der) \<Rightarrow> (case ParseCSR Y der of
          Inl _ \<Rightarrow> (fail 400 ''invalid_request'', db)
        | Inr csr \<Rightarrow> (case RenewCertificate C (issuer_pki X Y iss (eg_clk eg 2) (eg_serial eg)) (Some old) (Some oldIssuer)
              (rq_RenewalID q) (Some csr) (hq_Peer r) (\<lambda>k. eg_clk eg (k + 3)) db of
            (Inl _, db1) \<Rightarrow> (fail 409 ''renewal_rejected'', db1)
          | (Inr response, db1) \<Rightarrow> (respond 200 response, db1))))"

definition RenewalHandler :: "crypto \<Rightarrow> pki \<Rightarrow> x509 \<Rightarrow> issuer option \<Rightarrow> enrolling \<Rightarrow> http_request \<Rightarrow> server_db \<times> budget
    \<Rightarrow> http_response \<times> server_db \<times> budget" where
  "RenewalHandler C X Y mounted eg r = (\<lambda>(db, bg). case mounted of
     None \<Rightarrow> (fail 503 ''unavailable'', db, bg)
   | Some iss \<Rightarrow> (case hq_TLS r of
       None \<Rightarrow> (fail 401 ''unauthorized'', db, bg)
     | Some conn \<Rightarrow> (case (tl_VerifiedChains conn, tl_PeerCertificates conn) of
         ((leaf # oldIssuer # others) # _, old # _) \<Rightarrow>
           if list_ex (\<lambda>c. eg_clk eg 0 < c_NotBefore c \<or> \<not> eg_clk eg 0 < c_NotAfter c) (leaf # oldIssuer # others)
           then (fail 401 ''unauthorized'', db, bg)
           else if \<not> is_ok (Authorize C (Some old) (eg_clk eg 1) db) then (fail 401 ''unauthorized'', db, bg)
           else if hq_Path r \<noteq> RenewalPath \<or> hq_RawPath r \<noteq> '''' then (fail 404 ''not_found'', db, bg)
           else if hq_Method r \<noteq> ''POST'' then ((fail 405 ''method_not_allowed'')\<lparr>hr_Allow := ''POST''\<rparr>, db, bg)
           else if \<not> json_body_ok MaxRenewalBytes r \<or> header_get (hq_Origin r) \<noteq> '''' \<or> header_get (hq_Cookie r) \<noteq> ''''
             \<or> hq_RawQuery r \<noteq> '''' \<or> hq_ForceQuery r then (fail 400 ''invalid_request'', db, bg)
           else let (allowed, bg1) = take_budget 30 (eg_clk eg 0) bg in
             if \<not> allowed \<or> \<not> eg_slot eg then (fail 429 ''rate_limited'', db, bg1)
             else let (resp, db1) = renew C X Y iss eg old oldIssuer r db in (resp, db1, bg1)
       | _ \<Rightarrow> (fail 401 ''unauthorized'', db, bg))))"

end
