(* ===== verification/Agent.thy ===== *)
theory Agent
  imports Server_Http Probe
begin

section \<open>The probe's client and its cycle\<close>

text \<open>
  \<open>internal/agent\<close> (\<open>client.go\<close>, \<open>tasks.go\<close>, \<open>runner.go\<close>). The network is an argument: a function from the request and the
  state \<open>'w\<close> of the rest of the world to the response, or an error, and the new state. A request is built with what the
  client sets; the connection it travels on is the network's. Parsing a URL is \<open>net/url\<close>; \<open>parsed_url\<close> is its result.
\<close>

type_synonym 'w network = "http_request \<Rightarrow> 'w \<Rightarrow> http_response result \<times> 'w"

record parsed_url =
  pu_Scheme :: string
  pu_Host :: string
  pu_Hostname :: string
  pu_User :: bool
  pu_Opaque :: string
  pu_Path :: string
  pu_RawPath :: string
  pu_RawQuery :: string
  pu_ForceQuery :: bool
  pu_Fragment :: string

definition ServerURL :: "parsed_url option \<Rightarrow> parsed_url result" where
  "ServerURL ou = (case ou of
     None \<Rightarrow> Inl (Err ''server must be an HTTPS origin without credentials, path, query, or fragment'')
   | Some u \<Rightarrow>
       if pu_Scheme u \<noteq> ''https'' \<or> pu_Hostname u = '''' \<or> pu_User u \<or> pu_Opaque u \<noteq> '''' \<or> (pu_Path u \<noteq> '''' \<and> pu_Path u \<noteq> ''/'')
          \<or> pu_RawPath u \<noteq> '''' \<or> pu_RawQuery u \<noteq> '''' \<or> pu_ForceQuery u \<or> pu_Fragment u \<noteq> ''''
       then Inl (Err ''server must be an HTTPS origin without credentials, path, query, or fragment'')
       else Inr (u\<lparr>pu_Path := ''''\<rparr>))"

record tls_config =
  tc_InsecureSkipVerify :: bool
  tc_MinVersion :: nat
  tc_RootCAs :: bool
  tc_Certificates :: "certificate list"
  tc_ServerName :: string

definition VersionTLS13 :: nat where "VersionTLS13 = 0x0304"

record client =
  cl_origin :: string
  cl_node :: Node
  cl_credential :: certificate

definition NewClient :: "parsed_url option \<Rightarrow> tls_config option \<Rightarrow> Node \<Rightarrow> client result" where
  "NewClient raw oconfig node = andThen (ServerURL raw) (\<lambda>u. case oconfig of
     None \<Rightarrow> Inl (Err ''verified TLS configuration and matching identity are required'')
   | Some config \<Rightarrow>
       if \<not> Node_Validate node \<or> tc_InsecureSkipVerify config \<or> tc_MinVersion config < VersionTLS13 \<or> \<not> tc_RootCAs config
          \<or> length (tc_Certificates config) \<noteq> 1 \<or> tc_ServerName config \<noteq> pu_Hostname u
       then Inl (Err ''verified TLS configuration and matching identity are required'')
       else let cert = hd (tc_Certificates config) in
         if FromCertificate (Some cert) \<noteq> Inr node then Inl (Err ''TLS certificate identity mismatch'')
         else Inr \<lparr>cl_origin = pu_Scheme u @ ''://'' @ pu_Host u, cl_node = node, cl_credential = cert\<rparr>)"

subsection \<open>Requests\<close>

definition new_request :: "string \<Rightarrow> string \<Rightarrow> (string \<times> nat) option \<Rightarrow> bytes \<Rightarrow> http_request" where
  "new_request http_method path media body = \<lparr>hq_Method = http_method, hq_Path = path, hq_RawPath = '''', hq_RawQuery = '''', hq_ForceQuery = False,
     hq_RequestURI = path, hq_TLS = None, hq_Media = media, hq_ContentEncoding = '''', hq_ContentLength = int (length body),
     hq_TransferEncoding = 0, hq_Authorization = [], hq_Origin = [], hq_Cookie = [], hq_Body = body, hq_Peer = ''''\<rparr>"

definition post_request :: "string \<Rightarrow> bytes \<Rightarrow> http_request" where
  "post_request path data = new_request ''POST'' path (Some (app_json, 0)) data"

definition json_response :: "nat \<Rightarrow> string \<Rightarrow> string \<Rightarrow> http_response \<Rightarrow> bytes result" where
  "json_response limit rejected expected resp =
     (if hr_Status resp \<noteq> 200 then Inl (Err rejected)
      else if hr_Media resp \<noteq> Some app_json then Inl (Err expected)
      else Read (hr_Body resp) limit)"

definition identityResponse :: "'w network \<Rightarrow> client \<Rightarrow> http_request \<Rightarrow> 'w \<Rightarrow> ConnectionInfo result \<times> 'w" where
  "identityResponse net c req w = (case net req w of
     (Inl e, w1) \<Rightarrow> (Inl e, w1)
   | (Inr resp, w1) \<Rightarrow>
       (andThen (json_response 4096 ''server rejected probe request'' ''expected JSON response'' resp) (\<lambda>data.
        andThen (DecodeConnectionInfo data) (\<lambda>info.
          if ci_AgentID info \<noteq> n_AgentID (cl_node c) \<or> ci_EnrollmentEpoch info \<noteq> n_EnrollmentEpoch (cl_node c)
          then Inl (Err ''server returned a different node identity'') else Inr info)), w1))"

definition Connect :: "'w network \<Rightarrow> client \<Rightarrow> 'w \<Rightarrow> ConnectionInfo result \<times> 'w" where
  "Connect net c = identityResponse net c (new_request ''GET'' IdentityPath None [])"

definition Client_Heartbeat :: "'w network \<Rightarrow> (Heartbeat \<Rightarrow> bytes result) \<Rightarrow> client \<Rightarrow> Heartbeat \<Rightarrow> 'w \<Rightarrow> unit result \<times> 'w" where
  "Client_Heartbeat net marshal c h w =
     (if \<not> Heartbeat_Validate h then (Inl (Err ''invalid heartbeat''), w)
      else if hb_AgentID h \<noteq> n_AgentID (cl_node c) \<or> hb_EnrollmentEpoch h \<noteq> n_EnrollmentEpoch (cl_node c)
      then (Inl (Err ''local heartbeat identity mismatch''), w)
      else case marshal h of
        Inl e \<Rightarrow> (Inl e, w)
      | Inr data \<Rightarrow>
          if length data > MaxHeartbeatBytes then (Inl (Err ''heartbeat exceeds size limit''), w)
          else (case identityResponse net c (post_request HeartbeatPath data) w of
              (Inl e, w1) \<Rightarrow> (Inl e, w1) | (Inr _, w1) \<Rightarrow> (Inr (), w1)))"

text \<open>\<open>Client.Poll\<close>; no task is the empty envelope.\<close>

definition Client_Poll :: "'w network \<Rightarrow> string \<Rightarrow> 'w \<Rightarrow> bytes result \<times> 'w" where
  "Client_Poll net digest w =
     (let data = MarshalPollRequest \<lparr>pr_Version = 1, pr_PolicyDigest = digest\<rparr> in
      case DecodePoll data of
        Inl e \<Rightarrow> (Inl e, w)
      | Inr _ \<Rightarrow> (case net (post_request PollPath data) w of
          (Inl e, w1) \<Rightarrow> (Inl e, w1)
        | (Inr resp, w1) \<Rightarrow>
            (if hr_Status resp = 204 then Inr []
             else json_response MaxEnvelopeBytes ''server rejected task poll'' ''expected JSON task envelope'' resp, w1)))"

definition Client_SubmitResult :: "crypto \<Rightarrow> 'w network \<Rightarrow> client \<Rightarrow> bytes \<Rightarrow> 'w \<Rightarrow> ResultAck result \<times> 'w" where
  "Client_SubmitResult C net c data w = (case DecodeResult data of
     Inl e \<Rightarrow> (Inl e, w)
   | Inr r \<Rightarrow>
       if r_AgentID r \<noteq> n_AgentID (cl_node c) \<or> r_Epoch r \<noteq> n_EnrollmentEpoch (cl_node c) \<or> length data > MaxDispatchResultBytes
       then (Inl (Err ''local result target or size mismatch''), w)
       else (case net (post_request ResultsPath data) w of
           (Inl e, w1) \<Rightarrow> (Inl e, w1)
         | (Inr resp, w1) \<Rightarrow>
             (andThen (json_response 1024 ''server rejected task result'' ''expected JSON result acknowledgment'' resp) (\<lambda>dataAck.
              andThen (DecodeResultAck dataAck) (\<lambda>a.
                if ra_AgentID a \<noteq> r_AgentID r \<or> ra_Epoch a \<noteq> r_Epoch r \<or> ra_RequestID a \<noteq> r_RequestID r \<or> ra_ResultDigest a \<noteq> Digest C data
                then Inl (Err ''result acknowledgment mismatch'') else Inr a)), w1)))"

text \<open>Submit, and take the result out of the outbox when it was acknowledged.\<close>

definition deliver :: "crypto \<Rightarrow> 'w network \<Rightarrow> client \<Rightarrow> State \<Rightarrow> bytes \<Rightarrow> 'w \<times> probe_db \<Rightarrow> unit result \<times> 'w \<times> probe_db" where
  "deliver C net c st data = (\<lambda>(w, db). case Client_SubmitResult C net c data w of
     (Inl e, w1) \<Rightarrow> (Inl e, w1, db)
   | (Inr ack, w1) \<Rightarrow> let (res, db1) = Acknowledge st (ra_RequestID ack) (ra_ResultDigest ack) db in (res, w1, db1))"

definition flush :: "crypto \<Rightarrow> 'w network \<Rightarrow> client \<Rightarrow> State \<Rightarrow> 'w \<times> probe_db \<Rightarrow> unit result \<times> 'w \<times> probe_db" where
  "flush C net c st = (\<lambda>(w, db). case Pending C db of
     Inl e \<Rightarrow> (Inl e, w, db)
   | Inr od \<Rightarrow> (case od of
       None \<Rightarrow> (Inr (), w, db)
     | Some data \<Rightarrow> if data = [] then (Inr (), w, db) else deliver C net c st data (w, db)))"

subsection \<open>Delays\<close>

fun retry_loop :: "nat \<Rightarrow> int \<Rightarrow> int" where
  "retry_loop 0 d = d"
| "retry_loop (Suc n) d = (if d < seconds 300 then retry_loop n (d * 2) else d)"

definition retryDelay :: "nat \<Rightarrow> int" where
  "retryDelay failures = (let d = retry_loop (failures - 1) (seconds 5) in if d > seconds 300 then seconds 300 else d)"

text \<open>\<open>n\<close> is the random number below \<open>d / 5 + 1\<close>, \<open>None\<close> when none could be had.\<close>

definition jitter :: "int option \<Rightarrow> int \<Rightarrow> int" where
  "jitter n d = (case n of None \<Rightarrow> d | Some k \<Rightarrow>
     let d1 = d - d div 10 + k in if d1 > seconds 300 then seconds 300 else d1)"

subsection \<open>The task cycle\<close>

text \<open>What one pass through the loop of \<open>RunTasks\<close> reads from outside: the policy file, the clocks, the sampled telemetry, the
  environment of a task's execution, randomness, and whether the context was cancelled.\<close>

record pass =
  ps_policy :: "Policy result"
  ps_now :: instant
  ps_clk :: readings
  ps_before :: instant
  ps_after :: instant
  ps_sample :: "Heartbeat result"
  ps_env :: env
  ps_task_clk :: readings
  ps_beat_rand :: "int option"
  ps_rand :: "int option"
  ps_cancelled :: bool
  ps_wait_cancelled :: bool

record agent_state =
  ag_next :: instant
  ag_failures :: nat

datatype verdict = Stop "error list" | Again int

text \<open>The first half of a pass: is the state ready for a task?\<close>

definition readiness :: "crypto \<Rightarrow> State option \<Rightarrow> Policy \<Rightarrow> pass \<Rightarrow> probe_db \<Rightarrow> string \<times> error option \<times> probe_db" where
  "readiness C os p a db = (case os of
     None \<Rightarrow> (''blocked'', Some (Err ''task state is unavailable''), db)
   | Some st \<Rightarrow> (case Ready C st p (ps_now a) (ps_clk a) db of
       (Inl e, db1) \<Rightarrow> (''blocked'', Some e, db1)
     | (Inr _, db1) \<Rightarrow> (if p_Paused p then ''paused'' else ''ready'', None, db1)))"

definition beat :: "'w network \<Rightarrow> (Heartbeat \<Rightarrow> bytes result) \<Rightarrow> client \<Rightarrow> Policy \<Rightarrow> string \<Rightarrow> string \<Rightarrow> pass \<Rightarrow> agent_state \<Rightarrow> 'w
    \<Rightarrow> error option \<times> agent_state \<times> 'w" where
  "beat net marshal c p digest mode a ag w =
     (if ps_before a < ag_next ag then (None, ag, w)
      else case ps_sample a of
        Inl e \<Rightarrow> (Some e, ag, w)
      | Inr h \<Rightarrow> (case Client_Heartbeat net marshal c (h\<lparr>hb_Version := TaskHeartbeatVersion, hb_PolicyDigest := digest, hb_TaskState := mode\<rparr>) w of
          (Inl e, w1) \<Rightarrow> (Some e, ag, w1)
        | (Inr _, w1) \<Rightarrow>
            (None, ag\<lparr>ag_next := ps_after a + jitter (ps_beat_rand a) (seconds (cf_IntervalSeconds (p_Telemetry p)))\<rparr>, w1)))"

text \<open>The second half: fetch a task, run it, submit its result. The first error is the network's, the second the task's.\<close>

definition fetch :: "crypto \<Rightarrow> 'w network \<Rightarrow> client \<Rightarrow> State \<Rightarrow> string \<Rightarrow> pass \<Rightarrow> 'w \<times> probe_db
    \<Rightarrow> error option \<times> error option \<times> 'w \<times> probe_db" where
  "fetch C net c st digest a = (\<lambda>(w, db). case Client_Poll net digest w of
     (Inl e, w1) \<Rightarrow> (Some e, None, w1, db)
   | (Inr envelope, w1) \<Rightarrow>
       if envelope = [] then (None, None, w1, db)
       else (case Process C st (cl_origin c) (ps_env a) (ps_task_clk a) envelope db of
           (Inl e, db1) \<Rightarrow> (None, Some e, w1, db1)
         | (Inr res, db1) \<Rightarrow>
             (case res of None \<Rightarrow> (None, None, w1, db1)
              | Some data \<Rightarrow> if data = [] then (None, None, w1, db1)
                  else (case deliver C net c st data (w1, db1) of
                      (Inl e, w2, db2) \<Rightarrow> (Some e, None, w2, db2) | (Inr _, w2, db2) \<Rightarrow> (None, None, w2, db2)))))"

definition join_errors :: "error option \<Rightarrow> error option \<Rightarrow> error list" where
  "join_errors e f = (case e of None \<Rightarrow> [] | Some x \<Rightarrow> [x]) @ (case f of None \<Rightarrow> [] | Some x \<Rightarrow> [x])"

definition run_pass :: "crypto \<Rightarrow> 'w network \<Rightarrow> (Heartbeat \<Rightarrow> bytes result) \<Rightarrow> client \<Rightarrow> State option \<Rightarrow> bool \<Rightarrow> pass
    \<Rightarrow> agent_state \<times> 'w \<times> probe_db \<Rightarrow> verdict \<times> agent_state \<times> 'w \<times> probe_db" where
  "run_pass C net marshal c os once a = (\<lambda>(ag, w, db). case ps_policy a of
     Inl e \<Rightarrow> (Stop [e], ag, w, db)
   | Inr p \<Rightarrow> (case Policy_Digest C p of
       Inl e \<Rightarrow> (Stop [e], ag, w, db)
     | Inr digest \<Rightarrow>
         let (mode, cycleErr, db1) = readiness C os p a db;
             (beatErr, ag1, w1) = beat net marshal c p digest mode a ag w;
             (netErr, w2, db2) = (case os of
                 None \<Rightarrow> (beatErr, w1, db1)
               | Some st \<Rightarrow> (case flush C net c st (w1, db1) of
                   (Inl e, w2, db2) \<Rightarrow> (Some e, w2, db2) | (Inr _, w2, db2) \<Rightarrow> (beatErr, w2, db2)));
             (netErr', cycleErr', w3, db3) = (case os of
                 Some st \<Rightarrow> if netErr = None \<and> mode = ''ready'' then fetch C net c st digest a (w2, db2) else (netErr, cycleErr, w2, db2)
               | None \<Rightarrow> (netErr, cycleErr, w2, db2))
         in if ps_cancelled a then (Stop [Err ''context canceled''], ag1, w3, db3)
            else if once then (Stop (join_errors netErr' cycleErr'), ag1, w3, db3)
            else if netErr' \<noteq> None then
              (let n = min 16 (ag_failures ag1 + 1) in (Again (jitter (ps_rand a) (retryDelay n)), ag1\<lparr>ag_failures := n\<rparr>, w3, db3))
            else (Again (jitter (ps_rand a) (seconds (p_PollSeconds p))), ag1\<lparr>ag_failures := 0\<rparr>, w3, db3)))"

text \<open>The loop, for as many passes as the process lives; the context may also end while it waits.\<close>

fun RunTasks :: "crypto \<Rightarrow> 'w network \<Rightarrow> (Heartbeat \<Rightarrow> bytes result) \<Rightarrow> client \<Rightarrow> State option \<Rightarrow> bool \<Rightarrow> pass list
    \<Rightarrow> agent_state \<times> 'w \<times> probe_db \<Rightarrow> verdict option \<times> agent_state \<times> 'w \<times> probe_db" where
  "RunTasks C net marshal c os once [] s = (None, s)"
| "RunTasks C net marshal c os once (a # as) s = (case run_pass C net marshal c os once a s of
     (Stop e, s1) \<Rightarrow> (Some (Stop e), s1)
   | (Again d, s1) \<Rightarrow>
       if ps_wait_cancelled a then (Some (Stop [Err ''context canceled'']), s1)
       else RunTasks C net marshal c os once as s1)"

text \<open>\<open>Run\<close>, which only reports telemetry: one iteration, and the loop.\<close>

record sample =
  sm_heartbeat :: "Heartbeat result"
  sm_cancelled :: bool
  sm_rand :: "int option"
  sm_wait_cancelled :: bool

definition report_pass :: "'w network \<Rightarrow> (Heartbeat \<Rightarrow> bytes result) \<Rightarrow> client \<Rightarrow> Config \<Rightarrow> bool \<Rightarrow> sample \<Rightarrow> nat \<times> 'w \<Rightarrow> verdict \<times> nat \<times> 'w" where
  "report_pass net marshal c config once a = (\<lambda>(failures, w).
     let (res, w1) = (case sm_heartbeat a of Inl e \<Rightarrow> (Inl e, w) | Inr h \<Rightarrow> Client_Heartbeat net marshal c h w) in
     if sm_cancelled a then (Stop [Err ''context canceled''], failures, w1)
     else if once then (Stop (case res of Inl e \<Rightarrow> [e] | Inr _ \<Rightarrow> []), failures, w1)
     else (case res of
         Inl _ \<Rightarrow> let n = min 16 (failures + 1) in (Again (jitter (sm_rand a) (retryDelay n)), n, w1)
       | Inr _ \<Rightarrow> (Again (jitter (sm_rand a) (seconds (cf_IntervalSeconds config))), 0, w1)))"

fun report_loop :: "'w network \<Rightarrow> (Heartbeat \<Rightarrow> bytes result) \<Rightarrow> client \<Rightarrow> Config \<Rightarrow> bool \<Rightarrow> sample list \<Rightarrow> nat \<times> 'w
    \<Rightarrow> verdict option \<times> nat \<times> 'w" where
  "report_loop net marshal c config once [] s = (None, s)"
| "report_loop net marshal c config once (a # as) s = (case report_pass net marshal c config once a s of
     (Stop e, s1) \<Rightarrow> (Some (Stop e), s1)
   | (Again d, s1) \<Rightarrow>
       if sm_wait_cancelled a then (Some (Stop [Err ''context canceled'']), s1)
       else report_loop net marshal c config once as s1)"

definition Run :: "'w network \<Rightarrow> (Heartbeat \<Rightarrow> bytes result) \<Rightarrow> client \<Rightarrow> Config \<Rightarrow> bool \<Rightarrow> sample list \<Rightarrow> 'w \<Rightarrow> verdict option \<times> nat \<times> 'w" where
  "Run net marshal c config once as w =
     (if \<not> Config_Validate config then (Some (Stop [Err ''invalid collector configuration'']), 0, w)
      else report_loop net marshal c config once as (0, w))"

end
