(* ===== verification/System.thy ===== *)
theory System
  imports Issuer Agent Probe_Engine Server_Results
begin

section \<open>Probe and server together\<close>

text \<open>
  The probe's cycle over an authenticated connection to the server's handler. \<open>authenticated_network\<close> is what the client relies
  on: an acknowledgement that arrives was sent for a result that is stored, and what is stored stays so. \<open>wire\<close> is a network
  made of the server's own handler, in which requests and responses get lost and other requests come in between.
\<close>

subsection \<open>Nothing is delivered without an acknowledgement\<close>

text \<open>\<open>settled db db'\<close>: every delivered outcome of \<open>db'\<close> was a delivered one of \<open>db\<close>.\<close>

definition settled :: "probe_db \<Rightarrow> probe_db \<Rightarrow> bool" where
  "settled db db' \<longleftrightarrow> (\<forall>y\<in>set (d_execs db'). x_delivered y \<longrightarrow>
     (\<exists>x\<in>set (d_execs db). x_delivered x \<and> exec_key x = exec_key y \<and> x_result_digest x = x_result_digest y))"

lemma settled_refl [simp]: "settled db db"
  by (auto simp: settled_def)

lemma settled_trans: "settled a b \<Longrightarrow> settled b c \<Longrightarrow> settled a c"
  unfolding settled_def by metis

lemma settled_execs: "d_execs db' = d_execs db \<Longrightarrow> settled db db'"
  by (auto simp: settled_def)

lemma settled_prune: "d_execs db' = filter P (d_execs db) \<Longrightarrow> settled db db'"
  by (auto simp: settled_def)

lemma Ready_settled: "Ready C st p now clk db = (r, db') \<Longrightarrow> settled db db'"
  by (auto simp: Ready_def run_tx_def result_simps split: if_splits option.splits sum.splits
      dest!: probe_clock_spec(1) probe_policy_spec(1) probe_capacity_spec(1) intro: settled_execs settled_prune)

lemma rejectInvalid_settled: "rejectInvalid C st digest source rd db = (r, db') \<Longrightarrow> settled db db'"
  by (auto simp: rejectInvalid_def run_tx_def result_simps split: sum.splits dest!: probe_append_frame(1) intro: settled_execs)

lemma prepare_settled:
  assumes "prepare C st t payload p source now clk keyID db = (r, db')"
  shows "settled db db'"
  using assms
proof (cases rule: prepare_cases)
  case (known digest db1 x)
  have "d_execs db' = d_execs db1"
    using known(7) by (auto simp: replay_def result_simps split: if_splits option.splits sum.splits dest: probe_append_frame(1))
  then show ?thesis using probe_clock_spec(1) [OF known(4)] by (intro settled_execs) simp
next
  case (fresh digest db1 db2 db3)
  have d3: "d_execs db3 = filter (\<lambda>x. \<not> prunable now x) (d_execs db)"
    using probe_clock_spec(1) [OF fresh(4)] probe_policy_spec(1) [OF fresh(7)] probe_capacity_spec(1) [OF fresh(8)] by simp
  from fresh(9) obtain s res where "d_execs db' = d_execs db3 @ [new_row C t payload digest now s res]" by (rule decide_spec)
  then show ?thesis by (auto simp: settled_def d3 new_row_def)
qed (auto dest: probe_clock_spec(1) intro: settled_execs)

lemma finish_settled:
  assumes "finish C t res source rd db = (r, db')" "probe_inv C db"
  shows "settled db db'"
proof -
  have f: "settled db d" if "finishTx C t res source k rd db = Inr d" for k d
    using that
  proof (rule finishTx_spec)
    fix data and x :: exec_row
    assume "probe_append C rd ((TaskEvent k t source (r_Status res) (r_ErrorCode res) (x_payload_digest x))
       \<lparr>e_PolicyDigest := r_PolicyDigest res, e_ResultDigest := Digest C data\<rparr>) (- 1)
       (db\<lparr>d_execs := map (\<lambda>y. if has_key (t_EnrollmentEpoch t) (t_RequestID t) y \<and> x_state y = Running
           then y\<lparr>x_state := r_Status res, x_result := Some data, x_result_digest := Digest C data\<rparr> else y) (d_execs db)\<rparr>) = Inr d"
    from probe_append_frame(1) [OF this] have "d_execs d = map (\<lambda>y. if has_key (t_EnrollmentEpoch t) (t_RequestID t) y \<and> x_state y = Running
           then y\<lparr>x_state := r_Status res, x_result := Some data, x_result_digest := Digest C data\<rparr> else y) (d_execs db)" by simp
    moreover have "\<not> x_delivered y" if "y \<in> set (d_execs db)" "x_state y = Running" for y
      using assms(2) that by (auto simp: probe_inv_def rows_inv_def list_all_iff row_ok_def)
    ultimately show "settled db d" by (auto simp: settled_def)
  qed
  show ?thesis using assms(1) f by (auto simp: finish_def run_tx_def result_simps split: sum.splits)
qed

lemma Process_settled:
  assumes "Process C st source en clk envelope db = (r, db')" "probe_inv C db" "sha256_spec C" "source_ok source"
  shows "settled db db' \<and> probe_inv C db'"
proof
  from Process_steps [OF assms(1)] obtain runs where "probe_trace C (\<lambda>s. s = source) db runs db'" by blast
  then show "probe_inv C db'" by (rule probe_trace_inv [OF _ assms(2,3)]) (use assms(4) in simp)
  have run: "settled db d2" if "prepare C st t payload p source now ck ks db = (Inr d, d1)" "finish C t res source rd d1 = (x, d2)"
    "DecodeTask payload = Inr t" for t payload p now ck ks d d1 res rd x d2
    using prepare_settled [OF that(1)] finish_settled [OF that(2) prepare_inv [OF that(1) assms(2-4) that(3)]] by (rule settled_trans)
  show "settled db db'"
    using assms(1) unfolding Process_def
    by (auto split: if_splits sum.splits prod.splits dest: rejectInvalid_settled prepare_settled run authenticate_sound(1))
qed

lemma Acknowledge_delivers:
  assumes "Acknowledge st request digest db = (r, db')" "y \<in> set (d_execs db')" "x_delivered y"
  shows "(\<exists>x\<in>set (d_execs db). x_delivered x \<and> exec_key x = exec_key y \<and> x_result_digest x = x_result_digest y)
     \<or> (x_epoch y = n_EnrollmentEpoch (st_node st) \<and> x_request y = request \<and> x_result_digest y = digest)"
  using assms by (auto simp: Acknowledge_def Let_def exec_key_def split: if_splits)

subsection \<open>What the client relies on\<close>

locale authenticated_network =
  fixes net :: "'w network" and sound :: "'w \<Rightarrow> bool" and stored :: "'w \<Rightarrow> string \<Rightarrow> string \<Rightarrow> string \<Rightarrow> bool"
  assumes net_sound: "sound w \<Longrightarrow> sound (snd (net req w))"
    and net_keeps: "sound w \<Longrightarrow> stored w e q d \<Longrightarrow> stored (snd (net req w)) e q d"
    and net_ack: "sound w \<Longrightarrow> net (post_request ResultsPath data) w = (Inr resp, w') \<Longrightarrow> hr_Status resp = 200
      \<Longrightarrow> DecodeResultAck (hr_Body resp) = Inr a \<Longrightarrow> stored w' (ra_Epoch a) (ra_RequestID a) (ra_ResultDigest a)"
begin

text \<open>Every delivered outcome of the probe is stored at the other end.\<close>

definition backed :: "'w \<Rightarrow> probe_db \<Rightarrow> bool" where
  "backed w db \<longleftrightarrow> (\<forall>x\<in>set (d_execs db). x_delivered x \<longrightarrow> stored w (x_epoch x) (x_request x) (x_result_digest x))"

definition safe_state :: "crypto \<Rightarrow> 'w \<times> probe_db \<Rightarrow> bool" where
  "safe_state C s \<longleftrightarrow> sound (fst s) \<and> probe_inv C (snd s) \<and> backed (fst s) (snd s)"

lemma backed_net: "sound w \<Longrightarrow> backed w db \<Longrightarrow> net req w = (r, w') \<Longrightarrow> sound w' \<and> backed w' db"
  using net_sound [of w req] net_keeps [of w _ _ _ req] by (auto simp: backed_def)

lemma backed_settled: "backed w db \<Longrightarrow> settled db db' \<Longrightarrow> backed w db'"
  unfolding backed_def settled_def exec_key_def by (metis Pair_inject)

lemma Heartbeat_safe:
  assumes "Client_Heartbeat net marshal c h w = (r, w')" "sound w" "backed w db"
  shows "sound w' \<and> backed w' db"
  using assms backed_net [OF assms(2,3)]
  by (auto simp: Client_Heartbeat_def identityResponse_def split: if_splits sum.splits prod.splits)

lemma Poll_safe:
  assumes "Client_Poll net digest w = (r, w')" "sound w" "backed w db"
  shows "sound w' \<and> backed w' db"
  using assms backed_net [OF assms(2,3)]
  by (auto simp: Client_Poll_def Let_def split: if_splits sum.splits prod.splits)

lemma SubmitResult_safe:
  assumes "Client_SubmitResult C net c data w = (r, w')" "sound w" "backed w db"
  shows "sound w' \<and> backed w' db \<and> (\<forall>a. r = Inr a \<longrightarrow> stored w' (ra_Epoch a) (ra_RequestID a) (ra_ResultDigest a)
    \<and> ra_Epoch a = n_EnrollmentEpoch (cl_node c))"
proof (cases "\<exists>resp. fst (net (post_request ResultsPath data) w) = Inr resp \<and> snd (net (post_request ResultsPath data) w) = w'
    \<and> (\<forall>a. r = Inr a \<longrightarrow> hr_Status resp = 200 \<and> DecodeResultAck (hr_Body resp) = Inr a \<and> ra_Epoch a = n_EnrollmentEpoch (cl_node c))")
  case True
  then obtain resp where n: "net (post_request ResultsPath data) w = (Inr resp, w')"
    and a: "\<And>a. r = Inr a \<Longrightarrow> hr_Status resp = 200 \<and> DecodeResultAck (hr_Body resp) = Inr a \<and> ra_Epoch a = n_EnrollmentEpoch (cl_node c)"
    by (metis prod.collapse)
  show ?thesis using backed_net [OF assms(2,3) n] net_ack [OF assms(2) n] a by blast
next
  case False
  then have "(\<forall>a. r \<noteq> Inr a) \<and> (w' = w \<or> (\<exists>x. net (post_request ResultsPath data) w = (x, w')))"
    using assms(1)
    by (auto simp: Client_SubmitResult_def json_response_def Read_def result_simps split: if_splits sum.splits prod.splits)
  then show ?thesis using assms(2,3) backed_net [OF assms(2,3)] by blast
qed

lemma SubmitResult_stores:
  assumes "Client_SubmitResult C net c data w = (Inr a, w')" "sound w"
  shows "stored w' (ra_Epoch a) (ra_RequestID a) (ra_ResultDigest a)"
proof -
  have "backed w (undefined\<lparr>d_execs := []\<rparr>)" by (simp add: backed_def)
  from SubmitResult_safe [OF assms this] show ?thesis by blast
qed

lemma deliver_safe:
  assumes "deliver C net c st data (w, db) = (r, w', db')" "safe_state C (w, db)" "st_node st = cl_node c"
  shows "safe_state C (w', db')"
proof -
  from assms(2) have s: "sound w" "probe_inv C db" "backed w db" by (simp_all add: safe_state_def)
  obtain res w1 where sub: "Client_SubmitResult C net c data w = (res, w1)" by fastforce
  note b = SubmitResult_safe [OF sub s(1,3)]
  show ?thesis
  proof (cases res)
    case (Inl e)
    with assms(1) sub b s(2) show ?thesis by (simp add: deliver_def safe_state_def)
  next
    case (Inr a)
    with assms(1) sub have w: "w' = w1" and ack: "Acknowledge st (ra_RequestID a) (ra_ResultDigest a) db = (r, db')"
      by (auto simp: deliver_def Let_def split: prod.splits)
    have "stored w' (x_epoch y) (x_request y) (x_result_digest y)" if "y \<in> set (d_execs db')" "x_delivered y" for y
      using Acknowledge_delivers [OF ack that] b Inr assms(3) unfolding w backed_def exec_key_def by fastforce
    with b Acknowledge_inv [OF ack s(2)] show ?thesis by (simp add: w safe_state_def backed_def)
  qed
qed

lemma flush_safe:
  assumes "flush C net c st (w, db) = (r, w', db')" "safe_state C (w, db)" "st_node st = cl_node c"
  shows "safe_state C (w', db')"
  using assms deliver_safe [OF _ assms(2,3)] by (auto simp: flush_def split: sum.splits option.splits if_splits)

lemma fetch_safe:
  assumes "fetch C net c st digest a (w, db) = (e, f, w', db')" "safe_state C (w, db)" "st_node st = cl_node c"
    and "sha256_spec C" "source_ok (cl_origin c)"
  shows "safe_state C (w', db')"
proof -
  from assms(2) have s: "sound w" "probe_inv C db" "backed w db" by (simp_all add: safe_state_def)
  obtain res w1 where poll: "Client_Poll net digest w = (res, w1)" by fastforce
  have w1: "sound w1" "backed w1 db" using Poll_safe [OF poll s(1,3)] by simp_all
  have same: "safe_state C (w1, db)" using w1 s(2) by (simp add: safe_state_def)
  have run: "safe_state C (w1, db1)" if "Process C st (cl_origin c) (ps_env a) (ps_task_clk a) envelope db = (x, db1)" for envelope x db1
    using Process_settled [OF that s(2) assms(4,5)] w1 backed_settled by (auto simp: safe_state_def)
  show ?thesis
  proof (cases res)
    case (Inl z)
    with assms(1) poll same show ?thesis by (simp add: fetch_def)
  next
    case (Inr envelope)
    obtain x db1 where p: "Process C st (cl_origin c) (ps_env a) (ps_task_clk a) envelope db = (x, db1)" by fastforce
    from run [OF p] same show ?thesis
      using assms(1) deliver_safe [OF _ run [OF p] assms(3)] unfolding fetch_def
      by (auto simp: poll Inr p split: sum.splits prod.splits option.splits if_splits)
  qed
qed

lemma readiness_safe:
  assumes "readiness C os p a db = (mode, e, db')" "safe_state C (w, db)" "sha256_spec C"
  shows "safe_state C (w, db')"
  using assms(1,2) Ready_settled Ready_inv backed_settled
  by (fastforce simp: readiness_def safe_state_def split: option.splits sum.splits prod.splits)

lemma beat_safe:
  assumes "beat net marshal c p digest mode a ag w = (e, ag', w')" "safe_state C (w, db)"
  shows "safe_state C (w', db)"
  using assms Heartbeat_safe by (fastforce simp: beat_def safe_state_def split: if_splits sum.splits prod.splits)

lemma run_pass_safe:
  assumes "run_pass C net marshal c os once a (ag, w, db) = (v, ag', w', db')" "safe_state C (w, db)"
    and "sha256_spec C" "source_ok (cl_origin c)" "\<And>st. os = Some st \<Longrightarrow> st_node st = cl_node c"
  shows "safe_state C (w', db')"
proof (cases "\<exists>p digest. ps_policy a = Inr p \<and> Policy_Digest C p = Inr digest")
  case False
  with assms(1,2) show ?thesis by (auto simp: run_pass_def split: sum.splits)
next
  case True
  then obtain p digest where p: "ps_policy a = Inr p" "Policy_Digest C p = Inr digest" by blast
  obtain mode e1 db1 where r: "readiness C os p a db = (mode, e1, db1)" by (metis prod_cases3)
  obtain e2 ag1 w1 where b: "beat net marshal c p digest mode a ag w = (e2, ag1, w1)" by (metis prod_cases3)
  have s1: "safe_state C (w1, db1)" using beat_safe [OF b readiness_safe [OF r assms(2,3)]] .
  show ?thesis
  proof (cases os)
    case None
    with assms(1) s1 show ?thesis by (auto simp: run_pass_def p r [unfolded None] b Let_def split: if_splits)
  next
    case (Some st)
    obtain f w2 db2 where f: "flush C net c st (w1, db1) = (f, w2, db2)" by (metis prod_cases3)
    obtain n k w3 db3 where g: "fetch C net c st digest a (w2, db2) = (n, k, w3, db3)" by (metis prod_cases3 surj_pair)
    have s2: "safe_state C (w2, db2)" by (rule flush_safe [OF f s1 assms(5) [OF Some]])
    have s3: "safe_state C (w3, db3)" by (rule fetch_safe [OF g s2 assms(5) [OF Some] assms(3,4)])
    show ?thesis using assms(1) s2 s3 by (auto simp: run_pass_def p r [unfolded Some] b f g Some Let_def split: if_splits sum.splits)
  qed
qed

lemma RunTasks_safe:
  assumes "RunTasks C net marshal c os once as s = (v, s')" "safe_state C (snd s)"
    and "sha256_spec C" "source_ok (cl_origin c)" "\<And>st. os = Some st \<Longrightarrow> st_node st = cl_node c"
  shows "safe_state C (snd s')"
  using assms(1,2)
proof (induction as arbitrary: s)
  case (Cons a as)
  obtain ag w db where s: "s = (ag, w, db)" by (metis prod_cases3)
  obtain v1 ag1 w1 db1 where r: "run_pass C net marshal c os once a (ag, w, db) = (v1, ag1, w1, db1)" by (metis prod_cases3 surj_pair)
  have "safe_state C (w1, db1)" using run_pass_safe [OF r _ assms(3-5)] Cons.prems(2) by (simp add: s)
  with Cons show ?case by (auto simp: s r split: verdict.splits if_splits)
qed simp

end

end
