(* ===== verification/Network.thy ===== *)
theory Network
  imports System
begin

section \<open>The network between a probe and the server\<close>

text \<open>
  \<open>wire\<close> connects the probe's client to the server's own handler. Every request meets one \<open>hop\<close>: what others do to the store
  before it arrives and after it was answered, whether the request or the response is lost, and what the handler reads from
  outside. When the hops are used up the network is down.
\<close>

subsection \<open>The handler and the invariant\<close>

text \<open>\<open>evolves\<close>: from a good store to a good store in which nothing final was undone.\<close>

definition evolves :: "crypto \<Rightarrow> server_db \<Rightarrow> server_db \<Rightarrow> bool" where
  "evolves C db db' \<longleftrightarrow> server_inv C db \<longrightarrow> server_inv C db' \<and> grows db db'"

lemma evolves_refl [simp]: "evolves C db db"
  by (simp add: evolves_def)

lemma evolves_trans: "evolves C a b \<Longrightarrow> evolves C b c \<Longrightarrow> evolves C a c"
  by (auto simp: evolves_def intro: grows_trans)

lemma server_run_evolves: "list_all op_ok ops \<Longrightarrow> evolves C db (server_run C X K ops db)"
  by (simp add: evolves_def server_run_inv server_run_grows)

lemma store_evolves:
  "source_ok source \<Longrightarrow> evolves C db (snd (Poll C oc digest key source clk db))"
  "source_ok source \<Longrightarrow> evolves C db (snd (SubmitResult C oc data source clk db))"
  "evolves C db (snd (SaveHeartbeat C oc h bs clk db))"
  "source_ok source \<Longrightarrow> evolves C db (snd (RenewCertificate C X oc oi i q source clk db))"
  "source_ok source \<Longrightarrow> evolves C db (snd (RegisterFrom C X token g source certs clk db))"
  by (simp_all add: evolves_def op_invariants op_growth)

lemma store_steps:
  "Poll C oc digest key source clk db = (x1, d) \<Longrightarrow> source_ok source \<Longrightarrow> evolves C db d"
  "SubmitResult C oc data source clk db = (x2, d) \<Longrightarrow> source_ok source \<Longrightarrow> evolves C db d"
  "SaveHeartbeat C oc h bs clk db = (x3, d) \<Longrightarrow> evolves C db d"
  "RenewCertificate C X oc oi i q source clk db = (x4, d) \<Longrightarrow> source_ok source \<Longrightarrow> evolves C db d"
  "RegisterFrom C X token g source certs clk db = (x5, d) \<Longrightarrow> source_ok source \<Longrightarrow> evolves C db d"
  using store_evolves by (metis snd_conv)+

lemma evolves_prod: "evolves C db (snd p) \<Longrightarrow> (\<And>r d. evolves C db d \<Longrightarrow> evolves C db (snd (f r d)))
    \<Longrightarrow> evolves C db (snd (case p of (r, d) \<Rightarrow> f r d))"
  by (cases p) simp

lemma evolves_case:
  "(\<And>e. evolves C db (snd (f e))) \<Longrightarrow> (\<And>a. evolves C db (snd (g a))) \<Longrightarrow> evolves C db (snd (case r of Inl e \<Rightarrow> f e | Inr a \<Rightarrow> g a))"
  "(b \<Longrightarrow> evolves C db (snd x)) \<Longrightarrow> (\<not> b \<Longrightarrow> evolves C db (snd y)) \<Longrightarrow> evolves C db (snd (if b then x else y))"
  "evolves C db d \<Longrightarrow> evolves C db (snd (v, d))"
  by (cases r) simp_all

lemma PollTask_evolves:
  assumes "source_ok source" "list_all (\<lambda>t. list_all op_ok (pt_between t)) ts"
  shows "evolves C db (snd (PollTask C X K oc digest key source over ts db))"
  using assms(2)
proof (induction ts arbitrary: db)
  case (Cons t ts)
  obtain r db1 where p: "Poll C oc digest key source (pt_clk t) db = (r, db1)" by fastforce
  have e: "evolves C db db1" using store_evolves(1) [OF assms(1), of C db oc digest key "pt_clk t"] p by simp
  have n: "evolves C db (snd (PollTask C X K oc digest key source over ts (server_run C X K (pt_between t) db1)))"
    using evolves_trans [OF evolves_trans [OF e server_run_evolves] Cons.IH] Cons.prems by simp
  show ?case using e n by (auto simp: p Let_def split: sum.split)
qed simp

definition handling_ok :: "handling \<Rightarrow> bool" where
  "handling_ok hn \<longleftrightarrow> list_all (\<lambda>t. list_all op_ok (pt_between t)) (hn_tries hn)"

lemma dispatch_evolves:
  assumes "source_ok (hq_Peer r)" "handling_ok hn"
  shows "evolves C db (snd (dispatch_request C X K key hn peer r db))"
  using PollTask_evolves [OF assms(1), of "hn_tries hn"] store_evolves(2) [OF assms(1)] assms(2)
  unfolding dispatch_request_def handling_ok_def Let_def by (intro evolves_case evolves_prod) simp_all

lemma heartbeat_evolves: "evolves C db (snd (heartbeat_request C marshal hn node peer r db))"
  unfolding heartbeat_request_def by (intro evolves_case evolves_prod store_evolves) simp_all

lemma renew_evolves: "source_ok (hq_Peer r) \<Longrightarrow> evolves C db (snd (renew C X Y iss eg old oldIssuer r db))"
  unfolding renew_def by (auto split: sum.split prod.split dest: store_steps)

lemma enroll_evolves: "source_ok (hq_Peer r) \<Longrightarrow> evolves C db (snd (enroll C X Y iss eg r db))"
  unfolding enroll_def by (auto simp: Let_def split: sum.split prod.split dest: store_steps)

text \<open>\<open>kept\<close>: the same for a handler that has a request budget beside the store.\<close>

definition kept :: "crypto \<Rightarrow> server_db \<Rightarrow> http_response \<times> server_db \<times> budget \<Rightarrow> bool" where
  "kept C db t \<longleftrightarrow> evolves C db (fst (snd t))"

lemma kept_intros:
  "evolves C db (snd p) \<Longrightarrow> kept C db (case p of (resp, db1) \<Rightarrow> (resp, db1, bg))"
  "kept C db (resp, db, bg)"
  "(b \<Longrightarrow> kept C db x) \<Longrightarrow> (\<not> b \<Longrightarrow> kept C db y) \<Longrightarrow> kept C db (if b then x else y)"
  "kept C db x \<Longrightarrow> (\<And>a. ov = Some a \<Longrightarrow> kept C db (g a)) \<Longrightarrow> kept C db (case ov of None \<Rightarrow> x | Some a \<Rightarrow> g a)"
  "kept C db x \<Longrightarrow> (\<And>v vs. kept C db (h v vs)) \<Longrightarrow> kept C db (case xs of [] \<Rightarrow> x | v # vs \<Rightarrow> h v vs)"
  "(\<And>u v. kept C db (k u v)) \<Longrightarrow> kept C db (case q of (u, v) \<Rightarrow> k u v)"
  by (auto simp: kept_def split: prod.split option.split list.split)

lemma RenewalHandler_kept:
  "source_ok (hq_Peer r) \<Longrightarrow> kept C (fst s) (RenewalHandler C X Y mounted eg r s)"
  unfolding RenewalHandler_def Let_def by (cases s) (simp only: prod.case fst_conv, intro kept_intros renew_evolves)

lemma EnrollmentHandler_kept:
  "source_ok (hq_Peer r) \<Longrightarrow> kept C (fst s) (EnrollmentHandler C X Y mounted eg r s)"
  unfolding EnrollmentHandler_def Let_def by (cases s) (simp only: prod.case fst_conv, intro kept_intros enroll_evolves)

lemma Handler_kept:
  assumes "source_ok (hq_Peer r)" "handling_ok hn" and h: "\<And>h. renewal = Some h \<Longrightarrow> kept C (fst s) (h r s)"
  shows "kept C (fst s) (HandlerWithRenewal C X K marshal au sink renewal hn r s)"
proof -
  obtain db bg where s: "s = (db, bg)" by fastforce

  have k: "(if hq_Path r = RenewalPath then renewal else None) = Some h' \<Longrightarrow> kept C db (h' r (db, bg))" for h'
    using h [unfolded s] by (simp split: if_splits)
  show ?thesis
    unfolding HandlerWithRenewal_def s Let_def prod.case fst_conv
  proof (intro kept_intros)
    fix a node cert h'
    assume "(if hq_Path r = RenewalPath then renewal else None) = Some h'"
    then show "kept C db (h' r (db, bg))" by (rule k)
  next
    fix node cert
    show "evolves C db (snd (case sink of
        NoSink \<Rightarrow> (identity_request node r, db)
      | TelemetrySink \<Rightarrow> if hq_Path r = HeartbeatPath then heartbeat_request C marshal hn node (Some cert) r db else (identity_request node r, db)
      | TaskService key \<Rightarrow>
          if hq_Path r = PollPath \<or> hq_Path r = ResultsPath then dispatch_request C X K key hn (Some cert) r db
          else if hq_Path r = HeartbeatPath then heartbeat_request C marshal hn node (Some cert) r db
          else (identity_request node r, db)))"
      using dispatch_evolves [OF assms(1,2)] heartbeat_evolves by (cases sink) simp_all
  qed
qed

subsection \<open>What an acknowledgement means\<close>

definition has_result :: "crypto \<Rightarrow> server_db \<Rightarrow> string \<Rightarrow> string \<Rightarrow> string \<Rightarrow> bool" where
  "has_result C db e q d \<longleftrightarrow> (\<exists>row\<in>set (v_tasks db). tr_request row = q \<and> tr_epoch row = e
     \<and> (\<exists>data. tr_result row = Some data \<and> Digest C data = d))"

lemma has_result_grows:
  assumes "has_result C db e q d" "server_inv C db" "grows db db'"
  shows "has_result C db' e q d"
proof -
  obtain row data where row: "row \<in> set (v_tasks db)" "tr_request row = q" "tr_epoch row = e" "tr_result row = Some data" "Digest C data = d"
    using assms(1) unfolding has_result_def by blast
  have "\<not> pending row" using row_okD [OF inv_tables [OF assms(2)] row(1)] row(4) by (auto simp: trow_ok_def)
  then have "row \<in> set (v_tasks db')" using assms(3) row(1) by (auto simp: grows_def le_all_def task_le_def)
  with row show ?thesis unfolding has_result_def by blast
qed

lemma SubmitResult_stored:
  assumes "SubmitResult C oc data source clk db = (Inr a, db')" "server_inv C db" "source_ok source" "sha256_spec C"
  shows "has_result C db' (ra_Epoch a) (ra_RequestID a) (ra_ResultDigest a)" "DecodeResultAck (MarshalResultAck a @ [newline]) = Inr a"
proof -
  have inv': "server_inv C db'" using SubmitResult_inv [OF assms(2,3), of oc data clk] assms(1) by simp
  from assms(1) obtain v n row t where v: "DecodeResult data = Inr v" and n: "authorizeCertificate C oc (clk 0) db = Inr n"
    and row: "find (\<lambda>x. tr_request x = r_RequestID v \<and> tr_agent x = n_AgentID n \<and> tr_epoch x = n_EnrollmentEpoch n) (v_tasks db) = Some row"
    and t: "DecodeTask (tr_payload row) = Inr t" "CheckAssignment v t"
    and a: "a = \<lparr>ra_Version = 1, ra_AgentID = n_AgentID n, ra_Epoch = n_EnrollmentEpoch n, ra_RequestID = r_RequestID v, ra_ResultDigest = Digest C data\<rparr>"
    and r: "(tr_result_digest row = Digest C data \<and> db' = db)
      \<or> v_tasks db' = v_tasks (set_task (r_RequestID v) (\<lambda>x. x\<lparr>tr_state := r_Status v, tr_result := Some data,
            tr_result_digest := Digest C data, tr_code := r_ErrorCode v\<rparr>) db)"
    by (auto simp: SubmitResult_def run_tx_eq_Inr andThen_eq_Inr server_append_eq_Inr Let_def split: if_splits sum.splits option.splits)
  note m = find_Some_mem [OF row]
  have h: "Hex (n_AgentID n) 32" "Hex (n_EnrollmentEpoch n) 32"
    using n FromCertificate_valid by (auto simp: authorizeCertificate_def andThen_eq_Inr Node_Validate_def split: option.splits if_splits)
  have q: "Hex (r_RequestID v) 32" using DecodeResult_valid [OF v] by (simp add: Result_Validate_def)
  show "DecodeResultAck (MarshalResultAck a @ [newline]) = Inr a"
    by (rule DecodeResultAck_Marshal) (simp_all add: a h q Hex_Digest [OF assms(4)])
  from r have "\<exists>x\<in>set (v_tasks db'). tr_request x = r_RequestID v \<and> tr_epoch x = n_EnrollmentEpoch n \<and> tr_result_digest x = Digest C data"
  proof
    assume "tr_result_digest row = Digest C data \<and> db' = db"
    with m show ?thesis by blast
  next
    assume "v_tasks db' = v_tasks (set_task (r_RequestID v) (\<lambda>x. x\<lparr>tr_state := r_Status v, tr_result := Some data,
            tr_result_digest := Digest C data, tr_code := r_ErrorCode v\<rparr>) db)"
    with m show ?thesis
      by (intro bexI [of _ "row\<lparr>tr_state := r_Status v, tr_result := Some data, tr_result_digest := Digest C data,
          tr_code := r_ErrorCode v\<rparr>"]) (force simp: set_task_def)+
  qed
  then obtain x where x: "x \<in> set (v_tasks db')" "tr_request x = r_RequestID v" "tr_epoch x = n_EnrollmentEpoch n" "tr_result_digest x = Digest C data"
    by blast
  have "\<exists>bs. tr_result x = Some bs \<and> Digest C bs = Digest C data"
    using row_okD [OF inv_tables [OF inv'] x(1)] x(4) Hex_nonempty [OF Hex_Digest [OF assms(4)]]
    by (auto simp: trow_ok_def split: option.splits)
  with x show "has_result C db' (ra_Epoch a) (ra_RequestID a) (ra_ResultDigest a)" unfolding has_result_def a by auto
qed

subsection \<open>The wire\<close>

text \<open>The connection of one probe: its certificate, the chains the server verified for it, and its address.\<close>

record link =
  ln_tls :: tls_state
  ln_peer :: string

record hop =
  ho_before :: "server_op list"
  ho_request_lost :: bool
  ho_handling :: handling
  ho_enrolling :: enrolling
  ho_response_lost :: bool
  ho_after :: "server_op list"

definition hop_ok :: "hop \<Rightarrow> bool" where
  "hop_ok h \<longleftrightarrow> list_all op_ok (ho_before h) \<and> handling_ok (ho_handling h) \<and> list_all op_ok (ho_after h)"

text \<open>The server of one deployment: its fixed parts.\<close>

record service =
  sv_pki :: pki
  sv_x509 :: x509
  sv_kdf :: kdf
  sv_marshal :: "Heartbeat \<Rightarrow> bytes"
  sv_key :: bytes
  sv_issuer :: "issuer option"

definition serve :: "crypto \<Rightarrow> service \<Rightarrow> hop \<Rightarrow> http_request \<Rightarrow> server_db \<times> budget \<Rightarrow> http_response \<times> server_db \<times> budget" where
  "serve C S h = HandlerWithRenewal C (sv_pki S) (sv_kdf S) (sv_marshal S) (Some (Authorize C)) (TaskService (sv_key S))
     (Some (RenewalHandler C (sv_pki S) (sv_x509 S) (sv_issuer S) (ho_enrolling h))) (ho_handling h)"

fun wire :: "crypto \<Rightarrow> service \<Rightarrow> link \<Rightarrow> ((server_db \<times> budget) \<times> hop list) network" where
  "wire C S lk req (s, []) = (Inl (Err ''connection refused''), s, [])"
| "wire C S lk req ((db, bg), h # hs) =
     (let db1 = server_run C (sv_pki S) (sv_kdf S) (ho_before h) db in
      if ho_request_lost h then (Inl (Err ''timeout awaiting response''), (db1, bg), hs)
      else case serve C S h (req\<lparr>hq_TLS := Some (ln_tls lk), hq_Peer := ln_peer lk\<rparr>) (db1, bg) of (resp, db2, bg2) \<Rightarrow>
        let db3 = server_run C (sv_pki S) (sv_kdf S) (ho_after h) db2 in
        (if ho_response_lost h then Inl (Err ''timeout awaiting response'') else Inr resp, (db3, bg2), hs))"

definition wire_ok :: "crypto \<Rightarrow> (server_db \<times> budget) \<times> hop list \<Rightarrow> bool" where
  "wire_ok C w \<longleftrightarrow> server_inv C (fst (fst w)) \<and> list_all hop_ok (snd w)"

lemma serve_evolves:
  "source_ok (hq_Peer r) \<Longrightarrow> hop_ok h \<Longrightarrow> evolves C (fst s) (fst (snd (serve C S h r s)))"
  unfolding serve_def kept_def [symmetric] hop_ok_def by (intro Handler_kept) (auto intro: RenewalHandler_kept)

lemma wire_step:
  assumes "source_ok (ln_peer lk)" "wire_ok C w"
  shows "evolves C (fst (fst w)) (fst (fst (snd (wire C S lk req w)))) \<and> wire_ok C (snd (wire C S lk req w))"
proof (cases "(C, S, lk, req, w)" rule: wire.cases)
  case (1 C' S' lk' req' s)
  with assms(2) show ?thesis by simp
next
  case (2 C' S' lk' req' db bg h hs)
  have h: "hop_ok h" "list_all hop_ok hs" "server_inv C db" using assms(2) 2 by (simp_all add: wire_ok_def)
  let ?db1 = "server_run C (sv_pki S) (sv_kdf S) (ho_before h) db"
  obtain resp db2 bg2 where s: "serve C S h (req\<lparr>hq_TLS := Some (ln_tls lk), hq_Peer := ln_peer lk\<rparr>) (?db1, bg) = (resp, db2, bg2)"
    by (metis prod_cases3)
  have b: "evolves C db ?db1" using h(1) by (intro server_run_evolves) (simp add: hop_ok_def)
  have m: "evolves C ?db1 db2"
    using serve_evolves [of "req\<lparr>hq_TLS := Some (ln_tls lk), hq_Peer := ln_peer lk\<rparr>" h C "(?db1, bg)" S] assms(1) h(1) s by simp
  have a: "evolves C db2 (server_run C (sv_pki S) (sv_kdf S) (ho_after h) db2)" using h(1) by (intro server_run_evolves) (simp add: hop_ok_def)
  note e = evolves_trans [OF b m] evolves_trans [OF evolves_trans [OF b m] a]
  show ?thesis using 2 b e h s by (auto simp: Let_def wire_ok_def evolves_def)
qed

lemma wire_ack:
  assumes C: "sha256_spec C" and src: "source_ok (ln_peer lk)" and ok: "wire_ok C w"
    and req: "wire C S lk (post_request ResultsPath data) w = (Inr resp, w')" "hr_Status resp = 200" "DecodeResultAck (hr_Body resp) = Inr a"
  shows "has_result C (fst (fst w')) (ra_Epoch a) (ra_RequestID a) (ra_ResultDigest a)"
proof -
  obtain db bg h hs where w: "w = ((db, bg), h # hs)"
    using req(1) by (cases "(C, S, lk, post_request ResultsPath data, w)" rule: wire.cases) auto
  have h: "hop_ok h" "server_inv C db" using ok by (simp_all add: wire_ok_def w)
  define db1 where "db1 = server_run C (sv_pki S) (sv_kdf S) (ho_before h) db"
  have inv1: "server_inv C db1" using server_run_evolves [of "ho_before h" C db] h by (simp add: evolves_def db1_def hop_ok_def)
  define r where "r = (post_request ResultsPath data)\<lparr>hq_TLS := Some (ln_tls lk), hq_Peer := ln_peer lk\<rparr>"
  obtain resp' db2 bg2 where s: "serve C S h r (db1, bg) = (resp', db2, bg2)" by (metis prod_cases3)
  have w': "resp' = resp" "fst (fst w') = server_run C (sv_pki S) (sv_kdf S) (ho_after h) db2"
    using req(1) s by (auto simp: w db1_def [symmetric] r_def [symmetric] Let_def split: if_splits)
  have p: "hq_Path r = ResultsPath" "hq_Path r \<noteq> PollPath" "hq_Path r \<noteq> RenewalPath" "hq_Peer r = ln_peer lk"
    "ResultsPath \<noteq> PollPath" "ResultsPath \<noteq> RenewalPath"
    by (simp_all add: r_def post_request_def new_request_def ResultsPath_def PollPath_def RenewalPath_def)
  from s req(2) obtain oc bs where d: "dispatch_request C (sv_pki S) (sv_kdf S) (sv_key S) (ho_handling h) oc r db1 = (resp, db2)"
    unfolding w'(1) serve_def HandlerWithRenewal_def
    by (auto simp: p fail_def respond_def Let_def split: if_splits option.splits prod.splits)
  then obtain ack where k: "SubmitResult C oc (hq_Body r) (hq_Peer r) (\<lambda>k. hn_clk (ho_handling h) (k + 2)) db1 = (Inr ack, db2)"
    and b: "hr_Body resp = MarshalResultAck ack @ [newline]"
    using req(2) unfolding dispatch_request_def
    by (auto simp: p fail_def respond_def Let_def Read_def split: if_splits sum.splits prod.splits)
  note st = SubmitResult_stored [OF k inv1 _ C]
  have a: "a = ack" using st(2) src req(3) by (simp add: b p)
  have "server_inv C db2" using store_steps(2) [OF k] inv1 src by (simp add: evolves_def p)
  moreover have "evolves C db2 (fst (fst w'))" unfolding w' using h(1) by (intro server_run_evolves) (simp add: hop_ok_def)
  ultimately show ?thesis using st(1) src has_result_grows by (auto simp: a p evolves_def)
qed

text \<open>The wire is an authenticated network: what the client relies on holds of the server's own handler.\<close>

definition wire_sound :: "crypto \<Rightarrow> link \<Rightarrow> (server_db \<times> budget) \<times> hop list \<Rightarrow> bool" where
  "wire_sound C lk w \<longleftrightarrow> sha256_spec C \<and> source_ok (ln_peer lk) \<and> wire_ok C w"

lemma wire_keeps_sound: "wire_sound C lk w \<Longrightarrow> wire_sound C lk (snd (wire C S lk req w))"
  using wire_step [of lk C w S req] by (simp add: wire_sound_def)

lemma wire_keeps_results:
  assumes "wire_sound C lk w" "has_result C (fst (fst w)) e q d"
  shows "has_result C (fst (fst (snd (wire C S lk req w)))) e q d"
proof -
  have "server_inv C (fst (fst w))" "evolves C (fst (fst w)) (fst (fst (snd (wire C S lk req w))))"
    using wire_step [of lk C w S req] assms(1) by (simp_all add: wire_sound_def wire_ok_def)
  then show ?thesis using has_result_grows [OF assms(2)] by (simp add: evolves_def)
qed

lemma wire_acknowledges:
  assumes "wire_sound C lk w" "wire C S lk (post_request ResultsPath data) w = (Inr resp, w')" "hr_Status resp = 200"
    "DecodeResultAck (hr_Body resp) = Inr a"
  shows "has_result C (fst (fst w')) (ra_Epoch a) (ra_RequestID a) (ra_ResultDigest a)"
  using assms(1) wire_ack [OF _ _ _ assms(2-4)] by (simp add: wire_sound_def)

interpretation tls_wire: authenticated_network "wire C S lk" "wire_sound C lk" "\<lambda>w. has_result C (fst (fst w))" for C S lk
  by (rule authenticated_network.intro) (fact wire_keeps_sound wire_keeps_results wire_acknowledges)+

subsection \<open>A submission that gets through\<close>

text \<open>The handler's answer to a submission it accepts, and what the client makes of it.\<close>

lemma serve_result:
  assumes hn: "hn_slot (ho_handling h)" and r: "hq_Path r = ResultsPath" "hq_RawPath r = ''''" "hq_RawQuery r = ''''" "\<not> hq_ForceQuery r" "hq_Method r = ''POST''"
      "json_body_ok MaxDispatchResultBytes r" "length (hq_Body r) \<le> MaxDispatchResultBytes"
    and peer: "peer_node (Some (Authorize C)) (hn_clk (ho_handling h)) r db = Some (n, cert)"
    and sub: "SubmitResult C (Some cert) (hq_Body r) (hq_Peer r) (\<lambda>k. hn_clk (ho_handling h) (k + 2)) db = (Inr a, db')"
  shows "serve C S h r (db, bg) = (respond 200 (MarshalResultAck a @ [newline]), db', bg)"
proof -
  have "ResultsPath \<noteq> PollPath" "ResultsPath \<noteq> RenewalPath" "MaxDispatchResultBytes \<noteq> 0"
    by (simp_all add: ResultsPath_def PollPath_def RenewalPath_def MaxDispatchResultBytes_def)
  then show ?thesis
    using assms by (simp add: serve_def HandlerWithRenewal_def dispatch_request_def Read_def Let_def)
qed


lemma strict_decode_Nil: "\<not> is_ok (strict_decode [] n fs)"
  by (simp add: strict_decode_def json_parse_def is_ok_def)

lemma DecodeResult_Nil: "\<not> is_ok (DecodeResult [])"
  using strict_decode_Nil [of MaxResultBytes result_fields] by (auto simp: DecodeResult_def is_ok_iff andThen_eq_Inr)

lemma strict_decode_length: "strict_decode d n fs = Inr ms \<Longrightarrow> length d \<le> n"
  by (auto simp: strict_decode_def split: if_splits)

lemma DecodeResultAck_length:
  assumes "DecodeResultAck d = Inr a"
  shows "length d \<le> 1024"
proof -
  obtain ms where "strict_decode d 1024 [''version'', ''agent_id'', ''epoch'', ''request_id'', ''result_digest''] = Inr ms"
    using assms unfolding DecodeResultAck_def andThen_eq_Inr by blast
  then show ?thesis by (rule strict_decode_length)
qed

definition post_over :: "link \<Rightarrow> bytes \<Rightarrow> http_request" where
  "post_over lk data = (post_request ResultsPath data)\<lparr>hq_TLS := Some (ln_tls lk), hq_Peer := ln_peer lk\<rparr>"

lemma SubmitResult_over_wire:
  assumes C: "sha256_spec C" and ok: "wire_ok C ((sdb, bg), h # hs)" and src: "source_ok (ln_peer lk)" "length (ln_peer lk) \<le> 256"
    and clk: "0 < wrap64 (hn_clk (ho_handling h) 3)" and hop: "\<not> ho_request_lost h" "\<not> ho_response_lost h" "hn_slot (ho_handling h)"
    and store: "db1 = server_run C (sv_pki S) (sv_kdf S) (ho_before h) sdb"
    and peer: "peer_node (Some (Authorize C)) (hn_clk (ho_handling h)) (post_over lk data) db1 = Some (n, cert)"
      "authorizeCertificate C (Some cert) (hn_clk (ho_handling h) 2) db1 = Inr (cl_node c)"
    and dec: "DecodeResult data = Inr v" "length data \<le> MaxDispatchResultBytes"
    and row: "row \<in> set (v_tasks db1)" "tr_state row = ''dispatched'' \<or> tr_result row = Some data" "row_task row t" "CheckAssignment v t"
    and own: "tr_agent row = n_AgentID (cl_node c)" "tr_epoch row = n_EnrollmentEpoch (cl_node c)"
    and pol: "r_Status v = Rejected \<or> r_Status v = Expired \<or> r_PolicyDigest v = t_PolicyDigest t"
  shows "\<exists>w'. Client_SubmitResult C (wire C S lk) c data ((sdb, bg), h # hs) = (Inr \<lparr>ra_Version = 1, ra_AgentID = n_AgentID (cl_node c),
      ra_Epoch = n_EnrollmentEpoch (cl_node c), ra_RequestID = r_RequestID v, ra_ResultDigest = Digest C data\<rparr>, w')"
proof -
  let ?a = "\<lparr>ra_Version = 1, ra_AgentID = n_AgentID (cl_node c), ra_Epoch = n_EnrollmentEpoch (cl_node c), ra_RequestID = r_RequestID v,
      ra_ResultDigest = Digest C data\<rparr>"
  have h: "hop_ok h" "server_inv C sdb" using ok by (simp_all add: wire_ok_def)
  have inv1: "server_inv C db1" using server_run_evolves [of "ho_before h" C sdb] h by (simp add: evolves_def store hop_ok_def)
  have "data \<noteq> []" using dec(1) DecodeResult_Nil by (auto simp: is_ok_iff)
  then have body: "json_body_ok MaxDispatchResultBytes (post_over lk data)" "hq_Body (post_over lk data) = data" "hq_Path (post_over lk data) = ResultsPath"
    "hq_RawPath (post_over lk data) = []" "hq_RawQuery (post_over lk data) = []" "\<not> hq_ForceQuery (post_over lk data)"
    "hq_Method (post_over lk data) = ''POST''" "hq_Peer (post_over lk data) = ln_peer lk"
    using dec(2) by (simp_all add: json_body_ok_def post_over_def post_request_def new_request_def)
  define ck where "ck = (\<lambda>k. hn_clk (ho_handling h) (k + 2))"
  have ck: "ck 0 = hn_clk (ho_handling h) 2" "ck 1 = hn_clk (ho_handling h) 3" by (simp_all add: ck_def eval_nat_numeral)
  obtain db2 where s: "SubmitResult C (Some cert) data (ln_peer lk) ck db1 = (Inr ?a, db2)"
    using SubmitResult_takes [where clk = ck, OF C inv1 src _ _ dec row own pol, of "Some cert"] clk peer(2) unfolding ck by blast
  note st = SubmitResult_stored [OF s inv1 src(1) C]
  have srv: "serve C S h (post_over lk data) (db1, bg) = (respond 200 (MarshalResultAck ?a @ [newline]), db2, bg)"
    by (rule serve_result [OF hop(3) body(3-7,1) _ peer(1)]) (simp_all only: body dec(2) s [unfolded ck_def])
  have len: "length (MarshalResultAck ?a @ [newline]) \<le> 1024"
    using st(2) by (rule DecodeResultAck_length)
  have "r_AgentID v = n_AgentID (cl_node c)" "r_Epoch v = n_EnrollmentEpoch (cl_node c)"
    using row(3,4) own by (auto simp: CheckAssignment_def row_task_def)
  moreover obtain w' where "wire C S lk (post_request ResultsPath data) ((sdb, bg), h # hs) = (Inr (respond 200 (MarshalResultAck ?a @ [newline])), w')"
    using srv hop(1,2) by (simp add: post_over_def [symmetric] store [symmetric] Let_def)
  moreover have "json_response 1024 x y (respond 200 (MarshalResultAck ?a @ [newline])) = Inr (MarshalResultAck ?a @ [newline])" for x y
    using len by (simp add: json_response_def respond_def Read_def del: length_append)
  ultimately show ?thesis
    using st(2) dec by (simp add: Client_SubmitResult_def)
qed

end
