(* ===== verification/System_Properties.thy ===== *)
theory System_Properties
  imports Network Probe_Properties Server_Properties Dispatch_Properties Admin_Properties
begin

section \<open>Properties of the probe and the server together\<close>

text \<open>
  What holds of the probe's cycle over the server's own handler: no delivered outcome is lost, a stored outcome is delivered by
  the first request that gets through, and every request keeps the store's invariant.
\<close>

definition demo_link :: link where
  "demo_link = \<lparr>ln_tls = \<lparr>tl_TLS13 = True, tl_VerifiedChains = [[demo_cert]], tl_PeerCertificates = [demo_cert]\<rparr>, ln_peer = ''local''\<rparr>"

definition demo_client :: client where
  "demo_client = \<lparr>cl_origin = ''https://c2'', cl_node = demo_node, cl_credential = demo_cert\<rparr>"

lemma demo_client [simp]: "st_node demo_state = cl_node demo_client" "source_ok (cl_origin demo_client)" "source_ok (ln_peer demo_link)"
  by (simp_all add: demo_state_def demo_client_def demo_link_def source_ok_def source_char_def plain_char_def alnum_def char_in_def code_def)

definition demo_hop :: hop where
  "demo_hop = \<lparr>ho_before = [], ho_request_lost = False,
     ho_handling = \<lparr>hn_slot = True, hn_clk = demo_clk, hn_tries = [\<lparr>pt_clk = demo_clk, pt_poll_over = False, pt_request_over = False, pt_between = []\<rparr>],
        hn_over = False\<rparr>,
     ho_enrolling = \<lparr>eg_slot = True, eg_clk = demo_clk, eg_agent = [], eg_epoch = [], eg_serial = 0\<rparr>, ho_response_lost = False, ho_after = []\<rparr>"

lemma demo_hop_ok [simp]: "hop_ok demo_hop"
  by (simp add: hop_ok_def demo_hop_def handling_ok_def)

text \<open>C34: nothing the probe takes for delivered is ever lost. Let the probe's cycle run over any number of passes against the
  server's own handler, with requests and responses lost at will and every other operation of the server in between. If the
  outcomes delivered before are stored at the server, then every outcome that is marked delivered afterwards is stored in the
  server's row of that request and enrollment, as the very same bytes, or the two byte strings are a SHA-256 collision.\<close>

theorem no_result_lost:
  assumes C: "sha256_spec C"
    and server: "server_inv C (fst (fst w))" "list_all hop_ok (snd w)" "source_ok (ln_peer lk)"
    and probe: "probe_inv C db" "source_ok (cl_origin c)" "\<forall>st. os = Some st \<longrightarrow> st_node st = cl_node c"
    and before: "\<forall>x\<in>set (d_execs db). x_delivered x \<longrightarrow> has_result C (fst (fst w)) (x_epoch x) (x_request x) (x_result_digest x)"
    and run: "RunTasks C (wire C S lk) marshal c os once as (ag, w, db) = (v, ag', w', db')"
  shows "\<forall>x\<in>set (d_execs db'). x_delivered x \<longrightarrow>
    (\<exists>row\<in>set (v_tasks (fst (fst w'))). tr_request row = x_request x \<and> tr_epoch row = x_epoch x
       \<and> (\<exists>data res. tr_result row = Some data \<and> x_result x = Some res \<and> (data = res \<or> collision C data res)))"
proof (intro ballI impI)
  fix x assume x: "x \<in> set (d_execs db')" "x_delivered x"
  have "tls_wire.safe_state C lk C (w, db)"
    using C server probe before by (simp add: tls_wire.safe_state_def tls_wire.backed_def wire_sound_def wire_ok_def)
  from tls_wire.RunTasks_safe [OF run] this C probe have s: "tls_wire.safe_state C lk C (w', db')" by simp
  then have "has_result C (fst (fst w')) (x_epoch x) (x_request x) (x_result_digest x)" and ok: "row_ok C x"
    using x by (auto simp: tls_wire.safe_state_def tls_wire.backed_def probe_inv_def rows_inv_def list_all_iff)
  then obtain row data where row: "row \<in> set (v_tasks (fst (fst w')))" "tr_request row = x_request x" "tr_epoch row = x_epoch x"
    "tr_result row = Some data" "Digest C data = x_result_digest x" unfolding has_result_def by blast
  obtain res where res: "x_result x = Some res" "x_result_digest x = Digest C res"
    using ok x(2) by (auto simp: row_ok_def stored_ok_def split: if_splits)
  have "data = res \<or> collision C data res" using Digest_eqD [of C data res] row(5) res(2) by simp
  with row res(1) show "\<exists>row\<in>set (v_tasks (fst (fst w'))). tr_request row = x_request x \<and> tr_epoch row = x_epoch x
       \<and> (\<exists>data res. tr_result row = Some data \<and> x_result x = Some res \<and> (data = res \<or> collision C data res))" by blast
qed

definition demo_service :: service where
  "demo_service = \<lparr>sv_pki = demo_pki,
     sv_x509 = \<lparr>x5_ParseCSR = (\<lambda>_. None), x5_TBS = (\<lambda>_. False), x5_CreateCertificate = (\<lambda>_ _ _ _. Inl (Err ''unsupported'')), x5_PEM = id\<rparr>,
     sv_kdf = demo_kdf, sv_marshal = (\<lambda>_. ''{}''), sv_key = demo_private, sv_issuer = None\<rparr>"

text \<open>A probe whose outbox holds the refusal of the task that \<open>demo_server\<close> has handed out.\<close>

definition demo_done :: exec_row where
  "demo_done = \<lparr>x_request = t_RequestID demo_task2, x_epoch = n_EnrollmentEpoch demo_node, x_payload = demo_payload2, x_payload_digest = zeros,
     x_policy_digest = zeros, x_state = Rejected, x_started_at = 1008, x_accepted_ms = 1008000, x_executed = False, x_expires_at = 1060,
     x_result = Some demo_result_bytes, x_result_digest = zeros, x_delivered = False\<rparr>"

definition demo_outbox :: probe_db where
  "demo_outbox = demo_db\<lparr>d_execs := [demo_done]\<rparr>"

lemma demo_outbox:
  "probe_inv demo_crypto demo_outbox" "outbox demo_outbox = [demo_done]" "Pending demo_crypto demo_outbox = Inr (Some demo_result_bytes)"
proof -
  have v: "Result_Validate demo_result" by code_simp
  then have m: "MarshalResult demo_result = Inr demo_result_bytes" using MarshalResult_valid [OF v] by (auto simp: demo_result_bytes_def)
  have z: "Hex zeros 64" by code_simp
  have "row_ok demo_crypto demo_done"
    using m v z demo_assignment demo_marshal2(2)
    by (auto simp: row_ok_def stored_ok_def demo_done_def demo_task2_def demo_task_def demo_result_def)
  then show "probe_inv demo_crypto demo_outbox"
    using demo_initialize(2,3,7) by (simp add: probe_inv_def rows_inv_def demo_outbox_def running_count_def demo_done_def MaxRecords_def)
  show "outbox demo_outbox = [demo_done]" by (simp add: outbox_def demo_outbox_def demo_done_def)
  then show "Pending demo_crypto demo_outbox = Inr (Some demo_result_bytes)"
    using demo_result(1) by (simp add: Pending_def demo_done_def is_ok_def)
qed

definition demo_pass :: pass where
  "demo_pass = \<lparr>ps_policy = Inr demo_policy, ps_now = demo_clk 0, ps_clk = demo_clk, ps_before = demo_clk 0, ps_after = demo_clk 0,
     ps_sample = Inl (Err ''no sample''), ps_env = demo_env, ps_task_clk = demo_clk, ps_beat_rand = None, ps_rand = None, ps_cancelled = False, ps_wait_cancelled = False\<rparr>"

theorem no_result_lost_witness:
  "case RunTasks demo_crypto (wire demo_crypto demo_service demo_link) (\<lambda>_. Inr ''{}'') demo_client (Some demo_state) False [demo_pass, demo_pass]
      (\<lparr>ag_next = 0, ag_failures = 0\<rparr>, ((demo_server, \<lparr>bg_window = 0, bg_count = 0\<rparr>), [demo_hop, demo_hop\<lparr>ho_response_lost := True\<rparr>, demo_hop]), demo_outbox)
   of (v, ag, w, db) \<Rightarrow> \<forall>x\<in>set (d_execs db). x_delivered x \<longrightarrow> (\<exists>row\<in>set (v_tasks (fst (fst w))). tr_request row = x_request x \<and> tr_result row \<noteq> None)"
proof -
  let ?w = "((demo_server, \<lparr>bg_window = 0, bg_count = 0\<rparr>), [demo_hop, demo_hop\<lparr>ho_response_lost := True\<rparr>, demo_hop])"
  obtain v ag w db where run: "RunTasks demo_crypto (wire demo_crypto demo_service demo_link) (\<lambda>_. Inr ''{}'') demo_client (Some demo_state) False
      [demo_pass, demo_pass] (\<lparr>ag_next = 0, ag_failures = 0\<rparr>, ?w, demo_outbox) = (v, ag, w, db)" by (metis prod_cases4)
  have s: "server_inv demo_crypto (fst (fst ?w))" "list_all hop_ok (snd ?w)" "\<forall>st. Some demo_state = Some st \<longrightarrow> st_node st = cl_node demo_client"
    "\<forall>x\<in>set (d_execs demo_outbox). x_delivered x \<longrightarrow> has_result demo_crypto (fst (fst ?w)) (x_epoch x) (x_request x) (x_result_digest x)"
    using demo_server_inv demo_hop_ok by (simp_all add: demo_outbox_def demo_done_def hop_ok_def)
  from no_result_lost [OF demo_sha256 s(1,2) demo_client(3) demo_outbox(1) demo_client(2) s(3,4) run] show ?thesis
    unfolding run prod.case by fastforce
qed

subsection \<open>Delivery\<close>

lemma outbox_set: "set (outbox db) = {x \<in> set (d_execs db). \<not> x_delivered x \<and> x_state x \<noteq> Running}"
  by (auto simp: outbox_def)

lemma Pending_head:
  assumes "Pending C db = Inr (Some data)"
  obtains x xs v where "outbox db = x # xs" "x_result x = Some data" "x_result_digest x = Digest C data" "DecodeResult data = Inr v"
  using assms by (auto simp: Pending_def is_ok_iff split: list.splits option.splits if_splits)

lemma distinct_single: "distinct ys \<Longrightarrow> set ys = {x} \<Longrightarrow> ys = [x]"
  by (cases ys) (auto simp: subset_singleton_iff)

text \<open>Acknowledging the head of the outbox removes exactly the head.\<close>

lemma Acknowledge_head:
  assumes inv: "probe_inv C db" and out: "outbox db = x # xs" and e: "x_epoch x = n_EnrollmentEpoch (st_node st)"
  shows "\<exists>db'. Acknowledge st (x_request x) (x_result_digest x) db = (Inr (), db') \<and> set (outbox db') = set xs
    \<and> length (outbox db') = length xs"
proof -
  define hit where "hit = (\<lambda>y :: exec_row. x_request y = x_request x \<and> x_epoch y = n_EnrollmentEpoch (st_node st) \<and> x_result_digest y = x_result_digest x \<and> x_state y \<noteq> Running)"
  define f where "f = (\<lambda>y :: exec_row. if hit y then y\<lparr>x_delivered := True\<rparr> else y)"
  have x: "x \<in> set (d_execs db)" "\<not> x_delivered x" "x_state x \<noteq> Running" using outbox_set [of db] out by auto
  have d: "distinct (map exec_key (d_execs db))" using inv by (simp add: probe_inv_def rows_inv_def)
  have same: "y = x" if "y \<in> set (d_execs db)" "hit y" for y
    using inj_onD [of exec_key "set (d_execs db)" y x] d that x(1) e by (simp add: hit_def exec_key_def distinct_map)
  have hx: "hit x" using x e by (simp add: hit_def)
  have flt: "filter hit (d_execs db) = [x]"
  proof -
    have "distinct (filter hit (d_execs db))" using d by (simp add: distinct_map)
    moreover have "set (filter hit (d_execs db)) = {x}"
    proof (intro set_eqI iffI)
      fix y assume "y \<in> set (filter hit (d_execs db))"
      then have "y = x" using same [of y] by simp
      then show "y \<in> {x}" by simp
    next
      fix y assume "y \<in> {x}"
      then show "y \<in> set (filter hit (d_execs db))" using hx x(1) by simp
    qed
    ultimately show ?thesis by (rule distinct_single)
  qed
  have a: "Acknowledge st (x_request x) (x_result_digest x) db = (Inr (), db\<lparr>d_execs := map f (d_execs db)\<rparr>)"
    using flt by (simp add: Acknowledge_def Let_def hit_def f_def)
  have ds: "distinct (outbox db)" using d by (simp add: outbox_def distinct_map)
  have "\<not> (x_request y = x_request x \<and> x_epoch y = n_EnrollmentEpoch (st_node st) \<and> x_result_digest y = x_result_digest x) \<longleftrightarrow> y \<noteq> x"
    if "y \<in> set (outbox db)" for y
    using that same [of y] e unfolding outbox_set hit_def by blast
  then have "set (filter (\<lambda>y. \<not> (x_request y = x_request x \<and> x_epoch y = n_EnrollmentEpoch (st_node st)
      \<and> x_result_digest y = x_result_digest x)) (outbox db)) = set (outbox db) - {x}"
    by (auto simp only: set_filter Diff_iff mem_Collect_eq singleton_iff)
  with Acknowledge_outbox [OF a] have "set (outbox (db\<lparr>d_execs := map f (d_execs db)\<rparr>)) = set (outbox db) - {x}" by metis
  then have "set (outbox (db\<lparr>d_execs := map f (d_execs db)\<rparr>)) = set xs" using ds by (simp add: out)
  moreover have "distinct (outbox (db\<lparr>d_execs := map f (d_execs db)\<rparr>))"
  proof -
    have "exec_key (f y) = exec_key y" for y by (simp add: f_def exec_key_def)
    then have "map exec_key (map f (d_execs db)) = map exec_key (d_execs db)" by simp
    then have "distinct (map f (d_execs db))" using d by (metis distinct_map)
    then show ?thesis by (simp add: outbox_def)
  qed
  ultimately have "length (outbox (db\<lparr>d_execs := map f (d_execs db)\<rparr>)) = length xs" "set (outbox (db\<lparr>d_execs := map f (d_execs db)\<rparr>)) = set xs"
    using ds distinct_card [of xs] distinct_card [of "outbox (db\<lparr>d_execs := map f (d_execs db)\<rparr>)"] by (simp_all add: out)
  with a show ?thesis by blast
qed

text \<open>C35: the first submission that gets through delivers. Let the head of the probe's outbox be the outcome of a task that the
  server has handed out, or whose outcome it holds already because only the acknowledgement was lost. If neither request nor
  response is lost and the connection authenticates, \<open>flush\<close> succeeds: the server's row holds the result, and exactly this
  outcome leaves the outbox, so that repeating it empties the outbox.\<close>

theorem result_delivered:
  assumes C: "sha256_spec C" and ok: "wire_ok C ((sdb, bg), h # hs)" and src: "source_ok (ln_peer lk)" "length (ln_peer lk) \<le> 256"
    and clk: "0 < wrap64 (hn_clk (ho_handling h) 3)" and hop: "\<not> ho_request_lost h" "\<not> ho_response_lost h" "hn_slot (ho_handling h)"
    and store: "db1 = server_run C (sv_pki S) (sv_kdf S) (ho_before h) sdb"
    and peer: "peer_node (Some (Authorize C)) (hn_clk (ho_handling h)) (post_over lk data) db1 = Some (n, cert)"
      "authorizeCertificate C (Some cert) (hn_clk (ho_handling h) 2) db1 = Inr (cl_node c)"
    and probe: "probe_inv C db" "st_node st = cl_node c" "outbox db = x # xs" "Pending C db = Inr (Some data)"
      "length data \<le> MaxDispatchResultBytes" "DecodeResult data = Inr v"
    and row: "row \<in> set (v_tasks db1)" "tr_state row = ''dispatched'' \<or> tr_result row = Some data" "row_task row t" "CheckAssignment v t"
    and own: "tr_agent row = n_AgentID (cl_node c)" "tr_epoch row = n_EnrollmentEpoch (cl_node c)" "tr_request row = x_request x" "x_epoch x = tr_epoch row"
    and pol: "r_Status v = Rejected \<or> r_Status v = Expired \<or> r_PolicyDigest v = t_PolicyDigest t"
  shows "\<exists>w' db'. flush C (wire C S lk) c st (((sdb, bg), h # hs), db) = (Inr (), w', db')
    \<and> set (outbox db') = set xs \<and> length (outbox db') = length xs
    \<and> has_result C (fst (fst w')) (x_epoch x) (x_request x) (Digest C data)"
proof -
  obtain w' where s: "Client_SubmitResult C (wire C S lk) c data ((sdb, bg), h # hs) = (Inr \<lparr>ra_Version = 1, ra_AgentID = n_AgentID (cl_node c),
      ra_Epoch = n_EnrollmentEpoch (cl_node c), ra_RequestID = r_RequestID v, ra_ResultDigest = Digest C data\<rparr>, w')"
    using SubmitResult_over_wire [OF C ok src clk hop store peer probe(6,5) row own(1,2) pol] by blast
  have q: "r_RequestID v = x_request x" using row(3,4) own(3) by (auto simp: CheckAssignment_def row_task_def)
  have d: "x_result_digest x = Digest C data" using Pending_head [OF probe(4)] probe(3) by (metis list.inject)
  have e: "x_epoch x = n_EnrollmentEpoch (st_node st)" using own(2,4) probe(2) by simp
  obtain db' where a: "Acknowledge st (x_request x) (Digest C data) db = (Inr (), db')" "set (outbox db') = set xs" "length (outbox db') = length xs"
    using Acknowledge_head [OF probe(1,3) e] unfolding d by blast
  have "data \<noteq> []" using probe(6) DecodeResult_Nil by (auto simp: is_ok_iff)
  then have f: "flush C (wire C S lk) c st (((sdb, bg), h # hs), db) = (Inr (), w', db')"
    using probe(4) a(1) s q by (simp add: flush_def deliver_def)
  have "has_result C (fst (fst w')) (n_EnrollmentEpoch (cl_node c)) (r_RequestID v) (Digest C data)"
    using tls_wire.SubmitResult_stores [OF s] C ok src(1) by (simp add: wire_sound_def)
  with f a q e probe(2) show ?thesis by auto
qed

lemma demo_peer:
  "peer_node (Some (Authorize demo_crypto)) demo_clk (post_over demo_link demo_result_bytes) demo_server = Some (demo_node, demo_cert)"
proof -
  have "\<not> demo_clk 0 < c_NotBefore demo_cert" "demo_clk 0 < c_NotAfter demo_cert" by (simp_all add: demo_clk_def demo_cert_def seconds_def)
  then show ?thesis
    using demo_authorize [of 1] by (simp add: peer_node_def post_over_def demo_link_def Authorize_def)
qed

theorem result_delivered_witness:
  "\<exists>w' db'. flush demo_crypto (wire demo_crypto demo_service demo_link) demo_client demo_state
      (((demo_server, \<lparr>bg_window = 0, bg_count = 0\<rparr>), [demo_hop]), demo_outbox) = (Inr (), w', db')
    \<and> outbox db' = [] \<and> has_result demo_crypto (fst (fst w')) (n_EnrollmentEpoch demo_node) (t_RequestID demo_task2) zeros"
proof -
  have h: "\<not> ho_request_lost demo_hop" "\<not> ho_response_lost demo_hop" "hn_slot (ho_handling demo_hop)" "hn_clk (ho_handling demo_hop) = demo_clk"
    "ho_before demo_hop = []" by (simp_all add: demo_hop_def)
  have l: "source_ok (ln_peer demo_link)" "length (ln_peer demo_link) \<le> 256" by (simp_all add: demo_link_def)
  have w: "wire_ok demo_crypto ((demo_server, \<lparr>bg_window = 0, bg_count = 0\<rparr>), [demo_hop])" using demo_server_inv by (simp add: wire_ok_def)
  have m: "demo_row2 \<in> set (v_tasks demo_server)" "tr_state demo_row2 = ''dispatched'' \<or> tr_result demo_row2 = Some demo_result_bytes"
    by (simp_all add: demo_server_def demo_row2_def)
  have st: "demo_server = server_run demo_crypto (sv_pki demo_service) (sv_kdf demo_service) (ho_before demo_hop) demo_server"
    by (simp add: h server_run_def)
  have c: "cl_node demo_client = demo_node" by (simp add: demo_client_def)
  have o: "tr_agent demo_row2 = n_AgentID demo_node" "tr_epoch demo_row2 = n_EnrollmentEpoch demo_node" "tr_request demo_row2 = x_request demo_done"
    "x_epoch demo_done = tr_epoch demo_row2" "r_Status demo_result = Rejected" by (simp_all add: demo_row2_def demo_done_def demo_result_def)
  from result_delivered [where h = demo_hop, OF demo_sha256 w l _ h(1-3) st _ _ demo_outbox(1) _ demo_outbox(2,3) demo_result(2,1) m demo_rows(2) demo_assignment,
      of demo_node demo_cert demo_client demo_state] demo_peer demo_authorize [of 2] o
  show ?thesis by (auto simp: h c demo_state_def demo_done_def)
qed

subsection \<open>Requests\<close>

text \<open>C36: every request, to the probes' handler and to the enrollment handler alike, takes the store from one that satisfies the
  invariant to one that does and undoes nothing final; a request without a free slot, or from a connection whose certificate
  the registry does not authorise right now, is answered with 429 or 401 and changes nothing.\<close>

theorem requests_keep_store:
  assumes inv: "server_inv C db" and src: "source_ok (hq_Peer r)" "handling_ok hn"
    and renewal: "renewal = None \<or> renewal = Some (RenewalHandler C X Y mounted eg)"
    and req: "HandlerWithRenewal C X K marshal au sink renewal hn r (db, bg) = (resp, db1, bg1)"
    and enr: "EnrollmentHandler C X Y mounted eg r (db, bg) = (resp2, db2, bg2)"
  shows "server_inv C db1 \<and> grows db db1 \<and> server_inv C db2 \<and> grows db db2
    \<and> (\<not> hn_slot hn \<or> peer_node au (hn_clk hn) r db = None
        \<longrightarrow> db1 = db \<and> bg1 = bg \<and> (hr_Status resp = 429 \<or> hr_Status resp = 401))"
proof -
  have h: "kept C (fst (db, bg)) (h r (db, bg))" if "renewal = Some h" for h
    using renewal that RenewalHandler_kept [OF src(1)] by auto
  have "kept C db (HandlerWithRenewal C X K marshal au sink renewal hn r (db, bg))"
    using Handler_kept [where s = "(db, bg)" and renewal = renewal, OF src] h by simp
  moreover have "kept C db (EnrollmentHandler C X Y mounted eg r (db, bg))"
    using EnrollmentHandler_kept [OF src(1), of C "(db, bg)"] by simp
  moreover have "\<not> hn_slot hn \<or> peer_node au (hn_clk hn) r db = None
        \<longrightarrow> db1 = db \<and> bg1 = bg \<and> (hr_Status resp = 429 \<or> hr_Status resp = 401)"
    using req by (auto simp: HandlerWithRenewal_def fail_def respond_def split: if_splits)
  ultimately show ?thesis using inv by (simp add: kept_def evolves_def req enr)
qed

theorem requests_keep_store_witness:
  "case HandlerWithRenewal demo_crypto demo_pki demo_kdf (\<lambda>_. ''{}'') None NoSink None (ho_handling demo_hop) (post_over demo_link [])
      (demo_server, \<lparr>bg_window = 0, bg_count = 0\<rparr>) of (resp, db, bg) \<Rightarrow> db = demo_server \<and> server_inv demo_crypto db \<and> (hr_Status resp = 429 \<or> hr_Status resp = 401)"
proof -
  let ?s = "(demo_server, \<lparr>bg_window = 0, bg_count = 0\<rparr>)"
  obtain resp db bg where h: "HandlerWithRenewal demo_crypto demo_pki demo_kdf (\<lambda>_. ''{}'') None NoSink None (ho_handling demo_hop) (post_over demo_link []) ?s = (resp, db, bg)"
    by (metis prod_cases3)
  obtain resp2 db2 bg2 where e: "EnrollmentHandler demo_crypto demo_pki (sv_x509 demo_service) None (ho_enrolling demo_hop) (post_over demo_link []) ?s = (resp2, db2, bg2)"
    by (metis prod_cases3)
  have p: "source_ok (hq_Peer (post_over demo_link []))" by (simp add: post_over_def demo_link_def)
  have hn: "handling_ok (ho_handling demo_hop)" by (simp add: handling_ok_def demo_hop_def)
  have n: "peer_node None (hn_clk (ho_handling demo_hop)) (post_over demo_link []) demo_server = None" by (simp add: peer_node_def)
  from requests_keep_store [OF demo_server_inv p hn disjI1 [OF refl] h e] n show ?thesis unfolding h prod.case by blast
qed

subsection \<open>Waiting\<close>

lemma retry_loop_power: "0 < d \<Longrightarrow> min (seconds 300) (retry_loop n d) = min (seconds 300) (d * 2 ^ n)"
proof (induction n arbitrary: d)
  case (Suc n)
  show ?case
  proof (cases "d < seconds 300")
    case True
    with Suc show ?thesis by (simp add: mult.assoc)
  next
    case False
    have "d * 1 \<le> d * 2 ^ Suc n" using Suc.prems by (intro mult_left_mono one_le_power) auto
    with False show ?thesis by simp
  qed
qed simp

lemma retryDelay_power: "retryDelay n = min (seconds 300) (seconds 5 * 2 ^ (n - 1))"
  using retry_loop_power [of "seconds 5" "n - 1"] by (simp add: retryDelay_def Let_def min_def seconds_def split: if_splits)

lemma retryDelay_bounds: "seconds 5 \<le> retryDelay n \<and> retryDelay n \<le> seconds 300"
proof -
  have "seconds 5 * 1 \<le> seconds 5 * 2 ^ (n - 1)" by (intro mult_left_mono one_le_power) (auto simp: seconds_def)
  then show ?thesis unfolding retryDelay_power by (simp add: seconds_def)
qed

lemma jitter_bounds:
  assumes "0 \<le> d" "d \<le> seconds 300" "\<And>k. rnd = Some k \<Longrightarrow> 0 \<le> k \<and> k \<le> d div 5"
  shows "d - d div 10 \<le> jitter rnd d \<and> jitter rnd d \<le> seconds 300 \<and> jitter rnd d \<le> d + d div 10 + 1"
  using assms by (cases rnd) (fastforce simp: jitter_def Let_def)+


lemma Policy_Digest_valid: "Policy_Digest C p = Inr d \<Longrightarrow> Policy_Validate p"
  by (simp add: Policy_Digest_def split: if_splits)

text \<open>C37: the probe neither spins nor stalls. After a pass it waits for the policy's poll interval, or, after a failure of the
  network, for five seconds doubled with each failure in a row and capped at five minutes; chance moves the wait by at most a
  tenth, and never beyond five minutes.\<close>

theorem waiting_bounded:
  assumes run: "run_pass C net marshal c os once a (ag, w, db) = (Again d, ag', w', db')"
  shows "\<exists>d0. d = jitter (ps_rand a) d0 \<and> seconds 5 \<le> d0 \<and> d0 \<le> seconds 300
    \<and> (ag_failures ag' = 0 \<and> (\<exists>p. ps_policy a = Inr p \<and> d0 = seconds (p_PollSeconds p))
       \<or> ag_failures ag' = min 16 (ag_failures ag + 1) \<and> d0 = min (seconds 300) (seconds 5 * 2 ^ (ag_failures ag' - 1)))
    \<and> ((\<forall>k. ps_rand a = Some k \<longrightarrow> 0 \<le> k \<and> k \<le> d0 div 5) \<longrightarrow>
        d0 - d0 div 10 \<le> d \<and> d \<le> seconds 300 \<and> d \<le> d0 + d0 div 10 + 1)"
proof -
  from run obtain p digest where p: "ps_policy a = Inr p" "Policy_Digest C p = Inr digest"
    by (auto simp: run_pass_def split: sum.splits)
  obtain mode e1 db1 where r: "readiness C os p a db = (mode, e1, db1)" by (metis prod_cases3)
  obtain e2 ag1 w1 where b: "beat net marshal c p digest mode a ag w = (e2, ag1, w1)" by (metis prod_cases3)
  have f: "ag_failures ag1 = ag_failures ag"
    using b by (auto simp: beat_def split: if_splits sum.splits prod.splits)
  have poll: "seconds 5 \<le> seconds (p_PollSeconds p) \<and> seconds (p_PollSeconds p) \<le> seconds 300"
    using Policy_Digest_valid [OF p(2)] by (auto simp: Policy_Validate_def seconds_def)
  have "ag_failures ag' = min 16 (ag_failures ag + 1) \<and> d = jitter (ps_rand a) (retryDelay (ag_failures ag'))
      \<or> ag_failures ag' = 0 \<and> d = jitter (ps_rand a) (seconds (p_PollSeconds p))"
  proof -
    have tail: "(if x then (Stop s1, ag1, y) else if once then (Stop s2, ag1, y)
        else if n \<noteq> None then let m = min 16 (ag_failures ag1 + 1) in (Again (jitter (ps_rand a) (retryDelay m)), ag1\<lparr>ag_failures := m\<rparr>, y)
        else (Again (jitter (ps_rand a) (seconds (p_PollSeconds p))), ag1\<lparr>ag_failures := 0\<rparr>, y)) = (Again d, ag', w', db')
      \<Longrightarrow> ag_failures ag' = min 16 (ag_failures ag + 1) \<and> d = jitter (ps_rand a) (retryDelay (ag_failures ag'))
      \<or> ag_failures ag' = 0 \<and> d = jitter (ps_rand a) (seconds (p_PollSeconds p))" for x y s1 s2 n
      by (auto simp: Let_def f split: if_splits)
    show ?thesis
    proof (cases os)
      case None
      from run show ?thesis unfolding run_pass_def p prod.case sum.case None r [unfolded None] b Let_def option.case
        by (rule tail [unfolded Let_def])
    next
      case (Some st)
      obtain x w2 db2 where y: "flush C net c st (w1, db1) = (x, w2, db2)" by (metis prod_cases3)
      obtain n k w3 db3 where g: "fetch C net c st digest a (w2, db2) = (n, k, w3, db3)" by (metis prod_cases3 surj_pair)
      show ?thesis
        using run by (cases x) (auto simp: run_pass_def p r [unfolded Some] b f y g Some Let_def split: if_splits)
    qed
  qed
  then show ?thesis
    using poll p(1) retryDelay_bounds [of "ag_failures ag'"] jitter_bounds [of "seconds (p_PollSeconds p)" "ps_rand a"]
      jitter_bounds [of "retryDelay (ag_failures ag')" "ps_rand a"] retryDelay_power [of "ag_failures ag'"]
    by (elim disjE) (auto simp: seconds_def)
qed


definition demo_idle :: pass where
  "demo_idle = \<lparr>ps_policy = Inr demo_policy, ps_now = demo_clk 0, ps_clk = demo_clk, ps_before = 0, ps_after = 0, ps_sample = Inl (Err ''no sample''),
     ps_env = demo_env, ps_task_clk = demo_clk, ps_beat_rand = None, ps_rand = Some 0, ps_cancelled = False, ps_wait_cancelled = False\<rparr>"

theorem waiting_bounded_witness:
  "\<exists>d ag w db. run_pass demo_crypto (wire demo_crypto demo_service demo_link) (\<lambda>_. Inr ''{}'') demo_client None False demo_idle
      (\<lparr>ag_next = 1, ag_failures = 0\<rparr>, ((demo_server, \<lparr>bg_window = 0, bg_count = 0\<rparr>), []), demo_outbox) = (Again d, ag, w, db)
    \<and> 4 * seconds 1 \<le> d \<and> d \<le> seconds 300"
proof -
  have "\<exists>d ag w db. run_pass demo_crypto (wire demo_crypto demo_service demo_link) (\<lambda>_. Inr ''{}'') demo_client None False demo_idle
      (\<lparr>ag_next = 1, ag_failures = 0\<rparr>, ((demo_server, \<lparr>bg_window = 0, bg_count = 0\<rparr>), []), demo_outbox) = (Again d, ag, w, db)"
    using demo_policy_digest by (simp add: run_pass_def demo_idle_def readiness_def beat_def Let_def)
  then obtain d ag w db where r: "run_pass demo_crypto (wire demo_crypto demo_service demo_link) (\<lambda>_. Inr ''{}'') demo_client None False demo_idle
      (\<lparr>ag_next = 1, ag_failures = 0\<rparr>, ((demo_server, \<lparr>bg_window = 0, bg_count = 0\<rparr>), []), demo_outbox) = (Again d, ag, w, db)" by blast
  have k: "ps_rand demo_idle = Some 0" by (simp add: demo_idle_def)
  from waiting_bounded [OF r] obtain d0 where "seconds 5 \<le> d0" "(\<forall>k. ps_rand demo_idle = Some k \<longrightarrow> 0 \<le> k \<and> k \<le> d0 div 5) \<longrightarrow>
        d0 - d0 div 10 \<le> d \<and> d \<le> seconds 300 \<and> d \<le> d0 + d0 div 10 + 1" by blast
  then have "4 * seconds 1 \<le> d \<and> d \<le> seconds 300" unfolding k by (auto simp: seconds_def)
  with r show ?thesis by blast
qed

subsection \<open>Enrollment over HTTP\<close>







end
