(* ===== verification/Management.thy ===== *)
theory Management
  imports Server_Http
begin

section \<open>The administrator API\<close>

text \<open>
  \<open>internal/management/http.go\<close>: the handler in front of \<open>Store.Login\<close> and \<open>Store.Manage\<close>. A request is read by
  \<open>admin_request\<close> into the request for the store, or answered at once; \<open>encode\<close> is \<open>json.Encoder\<close> on the answer of the
  store, \<open>None\<close> when it fails. The handler's budget is a state next to the store, as in the other handlers.
\<close>

definition MaxRequestBytes :: nat where "MaxRequestBytes = 8192"
definition MaxResponseBytes :: nat where "MaxResponseBytes = 4194304"
definition LoginPath :: string where "LoginPath = ''/api/v1/auth/login''"

definition DecodeLogin :: "bytes \<Rightarrow> (string \<times> string) result" where
  "DecodeLogin data = andThen (strict_decode data 1024 [''username'', ''password'']) (\<lambda>ob.
     andThen (get_str ob ''username'') (\<lambda>u. andThen (get_str ob ''password'') (\<lambda>p.
       if \<not> Username u \<or> \<not> PasswordInput p then Inl ErrManagementRequest else Inr (u, p))))"

text \<open>The zero value with an operation.\<close>

definition management_request :: "string \<Rightarrow> ManagementRequest" where
  "management_request op = \<lparr>mr_Operation = op, mr_AgentID = '''', mr_RequestID = '''', mr_AfterNode = '''', mr_After = 0, mr_Limit = 0,
     mr_Type = '''', mr_Params = [], mr_TTLSeconds = 0\<rparr>"

definition DecodeSubmit :: "bytes \<Rightarrow> ManagementRequest result" where
  "DecodeSubmit data = andThen (strict_decode data MaxRequestBytes [''agent_id'', ''task_type'', ''params'', ''ttl_seconds'']) (\<lambda>ob.
     andThen (get_str ob ''agent_id'') (\<lambda>ai. andThen (get_str ob ''task_type'') (\<lambda>ty. andThen (get_raw ob ''params'') (\<lambda>pa.
     andThen (get_int ob ''ttl_seconds'') (\<lambda>ttl.
       Inr ((management_request ''submit'')\<lparr>mr_AgentID := ai, mr_Type := ty, mr_Params := pa, mr_TTLSeconds := ttl\<rparr>))))))"

definition bearer :: "http_request \<Rightarrow> string result" where
  "bearer r = (case hq_Authorization r of
     [v] \<Rightarrow> if \<not> has_prefix v ''Bearer '' then Inl ErrAdminUnauthorized
       else if \<not> Hex (trim_prefix v ''Bearer '') 64 then Inl ErrAdminUnauthorized
       else Inr (trim_prefix v ''Bearer '')
   | _ \<Rightarrow> Inl ErrAdminUnauthorized)"

definition body :: "http_request \<Rightarrow> nat \<Rightarrow> bytes result" where
  "body r limit = (case hq_Media r of None \<Rightarrow> Inl ErrManagementRequest | Some (media, params) \<Rightarrow>
     if media \<noteq> app_json \<or> params \<noteq> 0 \<or> hq_ContentLength r \<le> 0 \<or> hq_ContentLength r > int limit \<or> hq_TransferEncoding r \<noteq> 0
        \<or> hq_ContentEncoding r \<noteq> ''''
     then Inl ErrManagementRequest else Read (hq_Body r) limit)"

subsection \<open>Queries\<close>

text \<open>\<open>strings.Cut\<close>.\<close>

definition Cut :: "string \<Rightarrow> char \<Rightarrow> (string \<times> string) option" where
  "Cut s sep = (if sep \<in> set s then Some (takeWhile (\<lambda>c. c \<noteq> sep) s, tl (dropWhile (\<lambda>c. c \<noteq> sep) s)) else None)"

definition query_part :: "string \<Rightarrow> (string \<times> string) list \<Rightarrow> (string \<times> string) list result" where
  "query_part part q = (case Cut part (CHR ''='') of None \<Rightarrow> Inl ErrManagementRequest | Some (k, v) \<Rightarrow>
     if (k \<noteq> ''after'' \<and> k \<noteq> ''limit'') \<or> v = '''' \<or> contains_any v ''%+;'' then Inl ErrManagementRequest
     else if map_of q k \<noteq> None then Inl ErrManagementRequest
     else Inr ((k, v) # q))"

definition urlQuery :: "http_request \<Rightarrow> (string \<times> string) list result" where
  "urlQuery r =
     (if hq_RawQuery r = '''' then (if hq_ForceQuery r then Inl ErrManagementRequest else Inr [])
      else fold_res query_part (split_on (CHR ''&'') (hq_RawQuery r)) [])"

text \<open>A decimal in the form in which it is printed. (\<open>ParseInt\<close> also reads a plus sign and leading zeros, which the second
  condition refuses.)\<close>

definition canonical_int :: "string \<Rightarrow> int option" where
  "canonical_int s = (case ParseInt s of None \<Rightarrow> None | Some n \<Rightarrow> if show_int n \<noteq> s then None else Some n)"

definition page_limit :: "(string \<times> string) list \<Rightarrow> ManagementRequest \<Rightarrow> ManagementRequest result" where
  "page_limit q m = (case map_of q ''limit'' of None \<Rightarrow> Inr m | Some v \<Rightarrow> (case canonical_int v of
       None \<Rightarrow> Inl ErrManagementRequest
     | Some n \<Rightarrow> if n < 1 \<or> n > 50 then Inl ErrManagementRequest else Inr (m\<lparr>mr_Limit := n\<rparr>)))"

definition page_after :: "string \<Rightarrow> (string \<times> string) list \<Rightarrow> ManagementRequest \<Rightarrow> ManagementRequest result" where
  "page_after op q m = (case map_of q ''after'' of None \<Rightarrow> Inr m | Some v \<Rightarrow>
     if op = ''agents'' then (if \<not> Hex v 32 then Inl ErrManagementRequest else Inr (m\<lparr>mr_AfterNode := v\<rparr>))
     else (case canonical_int v of
       None \<Rightarrow> Inl ErrManagementRequest
     | Some n \<Rightarrow> if n < 0 then Inl ErrManagementRequest else Inr (m\<lparr>mr_After := n\<rparr>)))"

definition page :: "http_request \<Rightarrow> string \<Rightarrow> ManagementRequest result" where
  "page r op = andThen (urlQuery r) (\<lambda>q. andThen (page_limit q ((management_request op)\<lparr>mr_Limit := 50\<rparr>)) (page_after op q))"

subsection \<open>Routes\<close>

definition trim_suffix :: "string \<Rightarrow> string \<Rightarrow> string" where
  "trim_suffix s p = (if has_suffix s p then take (length s - length p) s else s)"

definition agents_path :: string where "agents_path = ''/api/v1/agents/''"
definition tasks_path :: string where "tasks_path = ''/api/v1/tasks/''"

text \<open>The operation a path and a method stand for; \<open>None\<close> is the answer 404.\<close>

definition admin_route :: "string \<Rightarrow> string \<Rightarrow> ManagementRequest option" where
  "admin_route path meth =
     (if path = ''/api/v1/agents'' then Some (management_request ''agents'')
      else if path = ''/api/v1/tasks'' then Some (management_request (if meth = ''POST'' then ''submit'' else ''tasks''))
      else if path = ''/api/v1/audit'' then Some (management_request ''audit'')
      else if path = ''/api/v1/auth/me'' then Some (management_request ''whoami'')
      else if path = ''/api/v1/auth/logout'' then Some (management_request ''logout'')
      else if path = ''/api/v1/auth/revoke'' then Some (management_request ''revoke'')
      else if path = ''/api/v1/enrollment-tokens'' then Some (management_request ''token'')
      else if has_prefix path agents_path then
        (let i = trim_prefix path agents_path; disable = has_suffix i ''/disable''; j = trim_suffix i ''/disable'' in
         if \<not> Hex j 32 then None
         else Some ((management_request (if disable then ''disable'' else ''agents''))\<lparr>mr_Limit := 1, mr_AgentID := j\<rparr>))
      else if has_prefix path tasks_path then
        (let i = trim_prefix path tasks_path in
         if \<not> Hex i 32 then None else Some ((management_request ''tasks'')\<lparr>mr_RequestID := i, mr_Limit := 1\<rparr>))
      else None)"

definition posted :: "string \<Rightarrow> bool" where
  "posted op \<longleftrightarrow> op = ''submit'' \<or> op = ''token'' \<or> op = ''disable'' \<or> op = ''logout'' \<or> op = ''revoke''"

definition decode_posted :: "ManagementRequest \<Rightarrow> bytes \<Rightarrow> ManagementRequest result" where
  "decode_posted m data =
     (if mr_Operation m = ''submit'' then DecodeSubmit data
      else if mr_Operation m = ''token'' then andThen (strict_decode data 256 [''ttl_seconds'']) (\<lambda>ob.
        andThen (get_int ob ''ttl_seconds'') (\<lambda>ttl. Inr (m\<lparr>mr_TTLSeconds := ttl\<rparr>)))
      else andThen (strict_decode data 64 []) (\<lambda>_. Inr m))"

text \<open>The request for the store, or the answer when there is none.\<close>

definition admin_request :: "http_request \<Rightarrow> http_response + ManagementRequest" where
  "admin_request r = (case admin_route (hq_Path r) (hq_Method r) of
     None \<Rightarrow> Inl (fail 404 ''not_found'')
   | Some m \<Rightarrow>
       let meth = (if posted (mr_Operation m) then ''POST'' else ''GET''); invalid = Inl (fail 400 ''invalid_request'') in
       if hq_Method r \<noteq> meth then Inl ((fail 405 ''method_not_allowed'')\<lparr>hr_Allow := meth\<rparr>)
       else if posted (mr_Operation m) then
         (if hq_RawQuery r \<noteq> '''' \<or> hq_ForceQuery r then invalid
          else case andThen (body r MaxRequestBytes) (decode_posted m) of Inl _ \<Rightarrow> invalid | Inr m1 \<Rightarrow> Inr m1)
       else if hq_ContentLength r \<noteq> 0 then invalid
       else if mr_Operation m \<noteq> ''whoami'' \<and> mr_AgentID m = '''' \<and> mr_RequestID m = ''''
         then (case page r (mr_Operation m) of Inl _ \<Rightarrow> invalid | Inr m1 \<Rightarrow> Inr m1)
       else if hq_RawQuery r \<noteq> '''' \<or> hq_ForceQuery r then invalid else Inr m)"

subsection \<open>The handler\<close>

datatype admin_reply = LoggedIn Login_reply | Managed manage_result

text \<open>One call of the handler: its slot, the readings of the budget and of the store, the password slot, whether the request
  was cancelled after the password check, and the random bytes.\<close>

record admin_call =
  ac_slot :: bool
  ac_now :: instant
  ac_clk :: sreadings
  ac_clk2 :: sreadings
  ac_acquired :: bool
  ac_cancelled :: bool
  ac_rnd :: "nat \<Rightarrow> bytes"

definition login_request :: "http_request \<Rightarrow> http_response + (string \<times> string)" where
  "login_request r =
     (if hq_Method r \<noteq> ''POST'' then Inl ((fail 405 ''method_not_allowed'')\<lparr>hr_Allow := ''POST''\<rparr>)
      else if hq_RawQuery r \<noteq> '''' \<or> hq_ForceQuery r \<or> hq_Authorization r \<noteq> [] then Inl (fail 400 ''invalid_request'')
      else case andThen (body r 1024) DecodeLogin of Inl _ \<Rightarrow> Inl (fail 400 ''invalid_request'') | Inr q \<Rightarrow> Inr q)"

definition admin_failure :: "error \<Rightarrow> http_response" where
  "admin_failure e =
     (if e = ErrAdminUnauthorized then fail 401 ''unauthorized''
      else if e = ErrAdminForbidden then fail 403 ''forbidden''
      else if e = ErrAdminLimited then (fail 429 ''rate_limited'')\<lparr>hr_RetryAfter := ''60''\<rparr>
      else if e = ErrManagementRequest then fail 400 ''invalid_request''
      else if e = ErrManagementNotFound then fail 404 ''not_found''
      else if e = ErrManagementConflict then fail 409 ''operation_rejected''
      else fail 503 ''unavailable'')"

definition admin_response :: "(admin_reply \<Rightarrow> bytes option) \<Rightarrow> admin_reply result \<Rightarrow> http_response" where
  "admin_response encode res = (case res of
     Inl e \<Rightarrow> admin_failure e
   | Inr x \<Rightarrow> (case encode x of
       None \<Rightarrow> fail 503 ''unavailable''
     | Some b \<Rightarrow> if length b > MaxResponseBytes then fail 503 ''unavailable'' else respond 200 b))"

definition crossed :: "http_request \<Rightarrow> bool" where
  "crossed r \<longleftrightarrow> hq_RawPath r \<noteq> '''' \<or> length (hq_RequestURI r) > 512 \<or> hq_Origin r \<noteq> [] \<or> hq_Cookie r \<noteq> []
     \<or> hq_ContentEncoding r \<noteq> '''' \<or> hq_TransferEncoding r \<noteq> 0"

definition admin_dispatch :: "crypto \<Rightarrow> kdf \<Rightarrow> (admin_reply \<Rightarrow> bytes option) \<Rightarrow> admin_call \<Rightarrow> http_request \<Rightarrow> server_db
    \<Rightarrow> http_response \<times> server_db" where
  "admin_dispatch C K encode a r db =
     (let rnd = ac_rnd a in
      if hq_Path r = LoginPath then (case login_request r of
          Inl resp \<Rightarrow> (resp, db)
        | Inr (name, password) \<Rightarrow> (case Login C K name password (hq_Peer r) (ac_acquired a) (ac_cancelled a) (rnd 0) (rnd 1) (rnd 2)
              (ac_clk a) (ac_clk2 a) db of
            (res, db1) \<Rightarrow> (admin_response encode (map_sum id LoggedIn res), db1)))
      else (case bearer r of
          Inl _ \<Rightarrow> (fail 401 ''unauthorized'', db)
        | Inr token \<Rightarrow> (case admin_request r of
            Inl resp \<Rightarrow> (resp, db)
          | Inr m \<Rightarrow> (case Manage C token (hq_Peer r) m (rnd 0) (rnd 1) (rnd 2) (rnd 3) (ac_clk a) db of
              (res, db1) \<Rightarrow> (admin_response encode (map_sum id Managed res), db1)))))"

definition admin_Handler :: "crypto \<Rightarrow> kdf \<Rightarrow> (admin_reply \<Rightarrow> bytes option) \<Rightarrow> admin_call \<Rightarrow> http_request \<Rightarrow> server_db \<times> budget
    \<Rightarrow> http_response \<times> server_db \<times> budget" where
  "admin_Handler C K encode a r = (\<lambda>(db, bg).
     if (case hq_TLS r of None \<Rightarrow> True | Some conn \<Rightarrow> \<not> tl_TLS13 conn) then (fail 401 ''unauthorized'', db, bg)
     else let (allowed, bg1) = take_budget 120 (ac_now a) bg in
       if \<not> allowed then ((fail 429 ''rate_limited'')\<lparr>hr_RetryAfter := ''60''\<rparr>, db, bg1)
       else if \<not> ac_slot a then (fail 429 ''rate_limited'', db, bg1)
       else if crossed r then (fail 400 ''invalid_request'', db, bg1)
       else (case admin_dispatch C K encode a r db of (resp, db1) \<Rightarrow> (resp, db1, bg1)))"

end
