(* ===== verification/Management_Properties.thy ===== *)
theory Management_Properties
  imports Management Admin_Properties Network
begin

section \<open>Properties of the administrator API and of the request budgets\<close>

subsection \<open>Requests the handler forms\<close>








subsection \<open>The handler and the store\<close>





lemma take_budget_count: "bg_count b \<le> n \<Longrightarrow> bg_count (snd (take_budget n now b)) \<le> n"
  by (simp add: take_budget_def Let_def)




lemma admin_Handler_cases:
  assumes "admin_Handler C K encode a r (db, bg) = (resp, db', bg')"
  shows "db' = db \<and> hr_Status resp \<in> {400, 401, 429}
    \<or> admin_dispatch C K encode a r db = (resp, db') \<and> fst (take_budget 120 (ac_now a) bg) \<and> bg' = snd (take_budget 120 (ac_now a) bg)
      \<and> (\<exists>conn. hq_TLS r = Some conn \<and> tl_TLS13 conn) \<and> \<not> crossed r"
  using assms by (auto simp: admin_Handler_def fail_def respond_def split: if_splits prod.splits option.splits)

lemma admin_Handler_budget:
  assumes "admin_Handler C K encode a r (db, bg) = (resp, db', bg')"
  shows "bg' = bg \<and> db' = db \<or> bg' = snd (take_budget 120 (ac_now a) bg)"
  using assms by (auto simp: admin_Handler_def split: if_splits prod.splits option.splits)

subsection \<open>The property of a request\<close>


subsection \<open>The rate\<close>

text \<open>What a budget lets through of requests at the given times.\<close>

fun budget_run :: "nat \<Rightarrow> instant list \<Rightarrow> budget \<Rightarrow> nat" where
  "budget_run n [] b = 0"
| "budget_run n (t # ts) b = (let (ok, b1) = take_budget n t b in (if ok then 1 else 0) + budget_run n ts b1)"

lemma budget_run_window:
  assumes "\<forall>t\<in>set ts. t - bg_window b < seconds 60"
  shows "budget_run n ts b \<le> n - bg_count b"
  using assms
proof (induction ts arbitrary: b)
  case (Cons t ts)
  then have "take_budget n t b = (bg_count b < n, if bg_count b < n then b\<lparr>bg_count := bg_count b + 1\<rparr> else b)"
    by (simp add: take_budget_def Let_def)
  with Cons.IH [of b] Cons.IH [of "b\<lparr>bg_count := bg_count b + 1\<rparr>"] Cons.prems show ?case by auto
qed simp

lemma budget_run_minute:
  assumes "sorted ts" "\<forall>t\<in>set ts. lo \<le> t \<and> t < lo + seconds 60"
  shows "budget_run n ts b \<le> (n - bg_count b) + n"
  using assms
proof (induction ts arbitrary: b)
  case (Cons t ts)
  show ?case
  proof (cases "t - bg_window b \<ge> seconds 60")
    case True
    let ?b = "\<lparr>bg_window = t, bg_count = (if 0 < n then 1 else 0)\<rparr>"
    have "\<forall>u\<in>set ts. u - t < seconds 60" using Cons.prems by auto
    then have "budget_run n ts ?b \<le> n - bg_count ?b" by (intro budget_run_window) simp
    moreover have "take_budget n t b = (0 < n, ?b)" using True by (simp add: take_budget_def Let_def)
    ultimately show ?thesis by auto
  next
    case False
    then have "take_budget n t b = (bg_count b < n, if bg_count b < n then b\<lparr>bg_count := bg_count b + 1\<rparr> else b)"
      by (simp add: take_budget_def Let_def)
    with Cons.IH [of b] Cons.IH [of "b\<lparr>bg_count := bg_count b + 1\<rparr>"] Cons.prems show ?thesis by auto
  qed
qed simp

text \<open>The number of requests, with other uses of the store before each, that change the store.\<close>

fun admin_changes :: "crypto \<Rightarrow> pki \<Rightarrow> kdf \<Rightarrow> (admin_reply \<Rightarrow> bytes option) \<Rightarrow> (server_op list \<times> admin_call \<times> http_request) list
    \<Rightarrow> server_db \<times> budget \<Rightarrow> nat" where
  "admin_changes C X K encode [] s = 0"
| "admin_changes C X K encode ((ops, a, r) # cs) (db, bg) =
     (let db0 = server_run C X K ops db; (resp, db1, bg1) = admin_Handler C K encode a r (db0, bg)
      in (if db1 \<noteq> db0 then 1 else 0) + admin_changes C X K encode cs (db1, bg1))"

lemma admin_changes_budget:
  "admin_changes C X K encode cs (db, bg)
     \<le> budget_run 120 (map (\<lambda>(ops, a, r). ac_now a) (filter (\<lambda>(ops, a, r). \<exists>conn. hq_TLS r = Some conn \<and> tl_TLS13 conn) cs)) bg"
proof (induction cs arbitrary: db bg)
  case (Cons x cs)
  obtain ops a r where x: "x = (ops, a, r)" by (cases x) auto
  let ?db0 = "server_run C X K ops db"
  obtain resp db1 bg1 where h: "admin_Handler C K encode a r (?db0, bg) = (resp, db1, bg1)" by (metis prod_cases3)
  note IH = Cons.IH [of db1 bg1]
  show ?case
  proof (cases "\<exists>conn. hq_TLS r = Some conn \<and> tl_TLS13 conn")
    case False
    then have "db1 = ?db0 \<and> bg1 = bg" using h by (auto simp: admin_Handler_def split: option.splits)
    with IH False show ?thesis by (auto simp: x h)
  next
    case True
    then have "bg1 = snd (take_budget 120 (ac_now a) bg)" using h by (auto simp: admin_Handler_def Let_def split: if_splits prod.splits)
    moreover have "db1 \<noteq> ?db0 \<longrightarrow> fst (take_budget 120 (ac_now a) bg)" using admin_Handler_cases [OF h] by auto
    ultimately show ?thesis using IH True by (auto simp: x h case_prod_beta Let_def)
  qed
qed simp

text \<open>C31: Within any minute at most 240 requests to the administrator API change the store, whatever they contain, and however
  other uses of the store come between them: a window of 120 that is nearly over, and the next one.\<close>

theorem admin_rate_bounded:
  assumes "sorted (map (\<lambda>(ops, a, r). ac_now a) cs)" "\<forall>(ops, a, r)\<in>set cs. lo \<le> ac_now a \<and> ac_now a < lo + seconds 60"
  shows "admin_changes C X K encode cs (db, bg) \<le> 240"
proof -
  let ?ts = "map (\<lambda>(ops, a, r). ac_now a) (filter (\<lambda>(ops, a, r). \<exists>conn. hq_TLS r = Some conn \<and> tl_TLS13 conn) cs)"
  have "sorted ?ts" using assms(1) by (rule sorted_filter)
  moreover have "\<forall>t\<in>set ?ts. lo \<le> t \<and> t < lo + seconds 60" using assms(2) by fastforce
  ultimately have "budget_run 120 ?ts bg \<le> (120 - bg_count bg) + 120" by (rule budget_run_minute)
  with admin_changes_budget [of C X K encode cs db bg] show ?thesis by simp
qed

subsection \<open>An example\<close>

definition demo_call :: admin_call where
  "demo_call = \<lparr>ac_slot = True, ac_now = 0, ac_clk = demo_clk, ac_clk2 = demo_clk, ac_acquired = True, ac_cancelled = False,
     ac_rnd = (\<lambda>_. replicate 16 (CHR 0x00))\<rparr>"

definition demo_admin_request :: http_request where
  "demo_admin_request = \<lparr>hq_Method = ''POST'', hq_Path = agents_path @ n_AgentID demo_node @ ''/disable'', hq_RawPath = [], hq_RawQuery = [],
     hq_ForceQuery = False, hq_RequestURI = [], hq_TLS = Some \<lparr>tl_TLS13 = True, tl_VerifiedChains = [], tl_PeerCertificates = []\<rparr>,
     hq_Media = Some (app_json, 0), hq_ContentEncoding = [], hq_ContentLength = 2, hq_TransferEncoding = 0,
     hq_Authorization = [''Bearer '' @ zeros], hq_Origin = [], hq_Cookie = [], hq_Body = ''{}'', hq_Peer = ''local''\<rparr>"




theorem admin_rate_bounded_witness:
  "admin_changes demo_crypto demo_pki demo_kdf (\<lambda>_. Some ''{}'') (replicate 1000 ([], demo_call, demo_admin_request))
     (demo_server, \<lparr>bg_window = 0, bg_count = 0\<rparr>) \<le> 240"
  by (rule admin_rate_bounded [where lo = 0]) (simp_all add: demo_call_def seconds_def map_replicate_const sorted_replicate)

end
