(* ===== verification/Guard.thy ===== *)
theory Guard
  imports Encoding
begin

unbundle bit_operations_syntax

section \<open>The filter in front of the D-Bus decoder\<close>

text \<open>
  \<open>internal/service/guard.go\<close>: the connection to the system bus that checks every frame before the general decoder sees it.
  Lengths in a frame are 32-bit words and their sum is formed in 64 bits, as in the code; positions are natural numbers, which
  the code's \<open>int\<close> never leaves. A connection is what the peer will still send; \<open>chunk\<close> is how much of it one system call
  returns before the handshake is over.
\<close>

abbreviation errFrame :: error where
  "errFrame \<equiv> Err ''unapproved or oversized D-Bus response''"

datatype byte_order = LittleEndian | BigEndian

definition byteOrder :: "char \<Rightarrow> byte_order result" where
  "byteOrder b = (if b = CHR ''l'' then Inr LittleEndian else if b = CHR ''B'' then Inr BigEndian else Inl errFrame)"

definition Uint32 :: "byte_order \<Rightarrow> bytes \<Rightarrow> 32 word" where
  "Uint32 order b = (let v = (case order of LittleEndian \<Rightarrow> b | BigEndian \<Rightarrow> rev b) in
     word_of_nat (code (v ! 0)) OR push_bit 8 (word_of_nat (code (v ! 1))) OR push_bit 16 (word_of_nat (code (v ! 2)))
       OR push_bit 24 (word_of_nat (code (v ! 3))))"

definition subslice :: "'a list \<Rightarrow> nat \<Rightarrow> nat \<Rightarrow> 'a list" where
  "subslice xs i j = take (j - i) (drop i xs)"

definition round_up :: "int \<Rightarrow> int \<Rightarrow> int" where
  "round_up n x = (x + n - 1) AND NOT (n - 1)"

lemma and_not_mask: "x AND NOT (mask n) = x div 2 ^ n * 2 ^ n" for x :: int
proof -
  have "x AND NOT (mask n) = push_bit n (drop_bit n x)"
    by (rule bit_eqI) (auto simp: bit_simps)
  then show ?thesis by (simp add: push_bit_eq_mult drop_bit_eq_div)
qed

lemma round_up_4: "round_up 4 x = (x + 3) div 4 * 4"
  using and_not_mask [of "x + 3" 2] by (simp add: round_up_def mask_eq_exp_minus_1 algebra_simps)

lemma round_up_8: "round_up 8 x = (x + 7) div 8 * 8"
  using and_not_mask [of "x + 7" 3] by (simp add: round_up_def mask_eq_exp_minus_1 algebra_simps)

lemma round_up_le: "n = 4 \<or> n = 8 \<Longrightarrow> x \<le> nat (round_up (int n) (int x)) \<and> nat (round_up (int n) (int x)) < x + n"
proof (elim disjE)
  assume n: "n = 4"
  have "(int x + 3) div 4 * 4 = int ((x + 3) div 4 * 4)" by simp
  then show ?thesis unfolding n of_nat_numeral round_up_4 by (simp only: nat_int) presburger
next
  assume n: "n = 8"
  have "(int x + 7) div 8 * 8 = int ((x + 7) div 8 * 8)" by simp
  then show ?thesis unfolding n of_nat_numeral round_up_8 by (simp only: nat_int) presburger
qed

subsection \<open>Reading a frame\<close>

record cursor =
  cu_b :: bytes
  cu_pos :: nat
  cu_order :: byte_order

definition align :: "nat \<Rightarrow> cursor \<Rightarrow> cursor option" where
  "align n c = (let e = nat (round_up (int n) (int (cu_pos c))) in
     if e > length (cu_b c) then None
     else if list_ex (\<lambda>v. v \<noteq> CHR 0x00) (subslice (cu_b c) (cu_pos c) e) then None
     else Some (c\<lparr>cu_pos := e\<rparr>))"

definition number :: "cursor \<Rightarrow> (32 word \<times> cursor) option" where
  "number c = (case align 4 c of None \<Rightarrow> None | Some c1 \<Rightarrow>
     if length (cu_b c1) < cu_pos c1 + 4 then None
     else Some (Uint32 (cu_order c1) (subslice (cu_b c1) (cu_pos c1) (cu_pos c1 + 4)), c1\<lparr>cu_pos := cu_pos c1 + 4\<rparr>))"

definition signature :: "cursor \<Rightarrow> (string \<times> cursor) option" where
  "signature c =
     (if length (cu_b c) < cu_pos c + 2 then None
      else let n = code (cu_b c ! cu_pos c); p = cu_pos c + 1 in
        if n > 1 \<or> length (cu_b c) < p + n + 1 \<or> cu_b c ! (p + n) \<noteq> CHR 0x00 then None
        else Some (subslice (cu_b c) p (p + n), c\<lparr>cu_pos := p + n + 1\<rparr>))"

definition text_value :: "cursor \<Rightarrow> (string \<times> cursor) option" where
  "text_value c = (case number c of None \<Rightarrow> None | Some (w, c1) \<Rightarrow>
     if w > 256 \<or> length (cu_b c1) < cu_pos c1 + unat w + 1 then None
     else let b = subslice (cu_b c1) (cu_pos c1) (cu_pos c1 + unat w) in
       if cu_b c1 ! (cu_pos c1 + unat w) \<noteq> CHR 0x00 \<or> \<not> utf8_Valid b \<or> CHR 0x00 \<in> set b then None
       else Some (b, c1\<lparr>cu_pos := cu_pos c1 + unat w + 1\<rparr>))"

subsection \<open>The header fields\<close>

definition want_signature :: "nat \<Rightarrow> string" where
  "want_signature field = [''o'', ''s'', ''s'', ''s'', ''u'', ''s'', ''s'', ''g'', ''u''] ! (field - 1)"

record header =
  hd_cursor :: cursor
  hd_fields :: "nat set"
  hd_signature :: string
  hd_sender :: string

text \<open>One round of the loop: \<open>None\<close> rejects the frame, \<open>Inl\<close> leaves the loop, \<open>Inr\<close> goes on.\<close>

definition field_value :: "nat \<Rightarrow> string \<Rightarrow> cursor \<Rightarrow> header \<Rightarrow> header option" where
  "field_value field sg c h =
     (if sg = ''s'' \<or> sg = ''o'' then (case text_value c of None \<Rightarrow> None | Some (v, c1) \<Rightarrow>
         Some (h\<lparr>hd_cursor := c1, hd_sender := (if field = 7 then v else hd_sender h)\<rparr>))
      else if sg = ''u'' then (case number c of None \<Rightarrow> None | Some (v, c1) \<Rightarrow>
         if field = 9 \<and> v \<noteq> 0 then None else Some (h\<lparr>hd_cursor := c1\<rparr>))
      else (case signature c of None \<Rightarrow> None | Some (v, c1) \<Rightarrow> Some (h\<lparr>hd_cursor := c1, hd_signature := v\<rparr>)))"

definition field_step :: "header \<Rightarrow> (header + header) option" where
  "field_step h = (case align 8 (hd_cursor h) of None \<Rightarrow> None | Some c \<Rightarrow>
     if cu_pos c = length (cu_b c) then Some (Inl (h\<lparr>hd_cursor := c\<rparr>))
     else let field = code (cu_b c ! cu_pos c); c1 = c\<lparr>cu_pos := cu_pos c + 1\<rparr> in
       if field < 1 \<or> field > 9 \<or> field \<in> hd_fields h then None
       else (case signature c1 of None \<Rightarrow> None | Some (sg, c2) \<Rightarrow>
         if sg \<noteq> want_signature field then None
         else (case field_value field sg c2 (h\<lparr>hd_fields := insert field (hd_fields h)\<rparr>) of None \<Rightarrow> None | Some h1 \<Rightarrow> Some (Inr h1))))"

lemma align_pos: "n = 4 \<or> n = 8 \<Longrightarrow> align n c = Some c1 \<Longrightarrow> cu_pos c \<le> cu_pos c1 \<and> cu_b c1 = cu_b c \<and> cu_pos c1 \<le> length (cu_b c)"
  using round_up_le [of n "cu_pos c"] by (auto simp: align_def Let_def split: if_splits)

lemma number_pos: "number c = Some (w, c1) \<Longrightarrow> cu_pos c \<le> cu_pos c1 \<and> cu_b c1 = cu_b c"
  using align_pos [of 4 c] by (auto simp: number_def split: option.splits if_splits)

lemma signature_pos: "signature c = Some (s, c1) \<Longrightarrow> cu_pos c \<le> cu_pos c1 \<and> cu_b c1 = cu_b c"
  by (auto simp: signature_def Let_def split: if_splits)

lemma text_value_pos: "text_value c = Some (s, c1) \<Longrightarrow> cu_pos c \<le> cu_pos c1 \<and> cu_b c1 = cu_b c"
  by (auto simp: text_value_def Let_def split: option.splits if_splits dest!: number_pos)

lemma field_value_pos:
  "field_value f sg c h = Some h1 \<Longrightarrow> cu_pos c \<le> cu_pos (hd_cursor h1) \<and> cu_b (hd_cursor h1) = cu_b c"
  by (auto simp: field_value_def split: if_splits option.splits dest!: number_pos signature_pos text_value_pos)

text \<open>Every round of the loop moves on.\<close>

lemma field_step_moves:
  assumes "field_step h = Some (Inr h1)" "cu_pos (hd_cursor h) < length (cu_b (hd_cursor h))"
  shows "length (cu_b (hd_cursor h1)) - cu_pos (hd_cursor h1) < length (cu_b (hd_cursor h)) - cu_pos (hd_cursor h)"
proof -
  from assms(1) obtain c sg c2 h2 where "align 8 (hd_cursor h) = Some c"
    "signature (c\<lparr>cu_pos := cu_pos c + 1\<rparr>) = Some (sg, c2)" "field_value (code (cu_b c ! cu_pos c)) sg c2 h2 = Some h1"
    by (auto simp: field_step_def Let_def split: option.splits if_splits)
  then have "cu_pos (hd_cursor h) < cu_pos (hd_cursor h1)" "cu_b (hd_cursor h1) = cu_b (hd_cursor h)"
    using align_pos [of 8 "hd_cursor h" c] by (auto dest!: signature_pos field_value_pos)
  then show ?thesis using assms(2) by simp
qed

function header_fields :: "header \<Rightarrow> header option" where
  "header_fields h =
     (if cu_pos (hd_cursor h) < length (cu_b (hd_cursor h)) then (case field_step h of
        None \<Rightarrow> None
      | Some (Inl h1) \<Rightarrow> Some h1
      | Some (Inr h1) \<Rightarrow> header_fields h1)
      else Some h)"
  by pat_completeness auto
termination
  by (relation "measure (\<lambda>h. length (cu_b (hd_cursor h)) - cu_pos (hd_cursor h))") (auto dest: field_step_moves)

declare header_fields.simps [simp del]

subsection \<open>A whole frame\<close>

definition body_ok :: "string \<Rightarrow> cursor \<Rightarrow> cursor option" where
  "body_ok sg c =
     (if sg = ''s'' \<or> sg = ''o'' then map_option snd (text_value c)
      else if sg = ''u'' then map_option snd (number c)
      else if sg = ''v'' then (case signature c of None \<Rightarrow> None | Some (s, c1) \<Rightarrow>
        if s \<noteq> ''s'' then None else map_option snd (text_value c1))
      else if sg = '''' then Some c else None)"

definition bus_name :: string where "bus_name = ''org.freedesktop.DBus''"

definition validateFrame :: "bytes \<Rightarrow> string \<Rightarrow> unit result" where
  "validateFrame frame owner =
     (if length frame < 16 \<or> frame ! 3 \<noteq> CHR 0x01 \<or> code (frame ! 1) < 2 \<or> code (frame ! 1) > 4 then Inl errFrame
      else andThen (byteOrder (frame ! 0)) (\<lambda>order.
        let hlen = uint (Uint32 order (subslice frame 12 16)); blen = uint (Uint32 order (subslice frame 4 8)); bodyAt = round_up 8 (16 + hlen) in
        if hlen > 4096 \<or> blen > 4096 \<or> bodyAt + blen \<noteq> int (length frame) then Inl errFrame
        else (case header_fields \<lparr>hd_cursor = \<lparr>cu_b = take (nat (16 + hlen)) frame, cu_pos = 16, cu_order = order\<rparr>,
               hd_fields = {}, hd_signature = '''', hd_sender = ''''\<rparr> of
            None \<Rightarrow> Inl errFrame
          | Some h \<Rightarrow>
              if hd_sender h \<noteq> bus_name \<and> (owner = '''' \<or> hd_sender h \<noteq> owner) then Inl errFrame
              else if list_ex (\<lambda>b. b \<noteq> CHR 0x00) (subslice frame (nat (16 + hlen)) (nat bodyAt)) then Inl errFrame
              else (case body_ok (hd_signature h) \<lparr>cu_b = drop (nat bodyAt) frame, cu_pos = 0, cu_order = order\<rparr> of
                  None \<Rightarrow> Inl errFrame
                | Some c \<Rightarrow> if cu_pos c \<noteq> length (cu_b c) then Inl errFrame else Inr ()))))"

subsection \<open>The connection\<close>

record guard =
  gd_binary :: bool
  gd_owner :: string
  gd_authLeft :: nat
  gd_total :: nat
  gd_frame :: bytes

definition newGuard :: guard where
  "newGuard = \<lparr>gd_binary = False, gd_owner = '''', gd_authLeft = 4096, gd_total = 0, gd_frame = []\<rparr>"

definition Guard_Write :: "bytes \<Rightarrow> guard \<Rightarrow> guard" where
  "Guard_Write p g = (if p = ''BEGIN'' @ [CHR 0x0D, CHR 0x0A] then g\<lparr>gd_binary := True\<rparr> else g)"

definition frame_total :: "64 word \<Rightarrow> 64 word \<Rightarrow> 64 word" where
  "frame_total hdr body = 16 + ((hdr + 7) AND NOT 7) + body"

text \<open>The bytes of the next frame, or why there is none, and what is left of the input.\<close>

definition short_read :: "bytes \<Rightarrow> error" where
  "short_read input = (if input = [] then Err ''EOF'' else Err ''unexpected EOF'')"

definition read_frame :: "guard \<Rightarrow> bytes \<Rightarrow> bytes result \<times> bytes" where
  "read_frame g input =
     (if length input < 16 then (Inl (short_read input), [])
      else case byteOrder (input ! 0) of
        Inl e \<Rightarrow> (Inl e, drop 16 input)
      | Inr order \<Rightarrow>
          let body = ucast (Uint32 order (subslice input 4 8)) :: 64 word; hdr = ucast (Uint32 order (subslice input 12 16)) :: 64 word;
              total = frame_total hdr body in
          if hdr > 4096 \<or> body > 4096 \<or> total > 8192 \<or> word_of_nat (gd_total g) + total > 65536 then (Inl errFrame, drop 16 input)
          else if length input < unat total then (Inl (short_read (drop 16 input)), [])
          else (case validateFrame (take (unat total) input) (gd_owner g) of
              Inl e \<Rightarrow> (Inl e, drop (unat total) input)
            | Inr _ \<Rightarrow> (Inr (take (unat total) input), drop (unat total) input)))"

definition Guard_Read :: "nat \<Rightarrow> nat \<Rightarrow> guard \<times> bytes \<Rightarrow> bytes result \<times> guard \<times> bytes" where
  "Guard_Read room chunk = (\<lambda>(g, input).
     if room = 0 then (Inr [], g, input)
     else if \<not> gd_binary g then
       if gd_authLeft g = 0 then (Inl errFrame, g, input)
       else if input = [] then (Inl (Err ''EOF''), g, input)
       else let n = min chunk (min room (gd_authLeft g)) in
         (Inr (take n input), g\<lparr>gd_authLeft := gd_authLeft g - length (take n input)\<rparr>, drop n input)
     else
       let hand = (\<lambda>g inp. (Inr (take room (gd_frame g)), g\<lparr>gd_frame := drop room (gd_frame g)\<rparr>, inp)) in
       if gd_frame g = [] then (case read_frame g input of
           (Inl e, inp) \<Rightarrow> (Inl e, g, inp)
         | (Inr frame, inp) \<Rightarrow> hand (g\<lparr>gd_total := gd_total g + length frame, gd_frame := frame\<rparr>) inp)
       else hand g input)"

end
