(* ===== verification/Guard_Laws.thy ===== *)
theory Guard_Laws
  imports Guard
begin

section \<open>What the filter lets through\<close>

text \<open>
  The grammar of the frames that are allowed: how D-Bus encodes numbers, texts, signatures and header fields, at which
  alignment, and what a whole frame consists of; the validator accepts only frames of the grammar. Then the bytes that leave
  the filter over any use of the connection.
\<close>

subsection \<open>The grammar\<close>

definition pad :: "nat \<Rightarrow> nat \<Rightarrow> bytes" where
  "pad n p = replicate (nat (round_up (int n) (int p)) - p) (CHR 0x00)"

definition number_enc :: "byte_order \<Rightarrow> nat \<Rightarrow> 32 word \<Rightarrow> bytes \<Rightarrow> bool" where
  "number_enc order p w bs \<longleftrightarrow> (\<exists>q. bs = pad 4 p @ q \<and> length q = 4 \<and> Uint32 order q = w)"

definition text_enc :: "byte_order \<Rightarrow> nat \<Rightarrow> string \<Rightarrow> bytes \<Rightarrow> bool" where
  "text_enc order p s bs \<longleftrightarrow> (\<exists>w q. number_enc order p w q \<and> unat w = length s \<and> bs = q @ s @ [CHR 0x00])
     \<and> length s \<le> 256 \<and> utf8_Valid s \<and> CHR 0x00 \<notin> set s"

definition signature_enc :: "string \<Rightarrow> bytes" where
  "signature_enc s = byte (length s) # s @ [CHR 0x00]"

datatype field_content = Text string | Number "32 word" | Signature string

fun content_enc :: "byte_order \<Rightarrow> nat \<Rightarrow> string \<Rightarrow> field_content \<Rightarrow> bytes \<Rightarrow> bool" where
  "content_enc order p sg (Text s) bs \<longleftrightarrow> (sg = ''s'' \<or> sg = ''o'') \<and> text_enc order p s bs"
| "content_enc order p sg (Number w) bs \<longleftrightarrow> sg = ''u'' \<and> number_enc order p w bs"
| "content_enc order p sg (Signature s) bs \<longleftrightarrow> sg = ''g'' \<and> length s \<le> 1 \<and> bs = signature_enc s"

inductive fields_enc :: "byte_order \<Rightarrow> nat \<Rightarrow> (nat \<times> field_content) list \<Rightarrow> bytes \<Rightarrow> bool" for order where
  fields_end: "fields_enc order p [] []"
| fields_pad: "fields_enc order p [] (pad 8 p)"
| fields_cons: "1 \<le> f \<Longrightarrow> f \<le> 9 \<Longrightarrow> q = p + length (pad 8 p) + 1 + length (signature_enc (want_signature f))
    \<Longrightarrow> content_enc order q (want_signature f) v vb \<Longrightarrow> f = 9 \<longrightarrow> v = Number 0 \<Longrightarrow> fields_enc order (q + length vb) fs rest
    \<Longrightarrow> fields_enc order p ((f, v) # fs) (pad 8 p @ byte f # signature_enc (want_signature f) @ vb @ rest)"

definition body_enc :: "byte_order \<Rightarrow> string \<Rightarrow> bytes \<Rightarrow> bool" where
  "body_enc order sg bs \<longleftrightarrow> (sg = ''s'' \<or> sg = ''o'') \<and> (\<exists>s. text_enc order 0 s bs) \<or> sg = ''u'' \<and> (\<exists>w. number_enc order 0 w bs)
     \<or> sg = ''v'' \<and> (\<exists>s tb. bs = signature_enc ''s'' @ tb \<and> text_enc order 3 s tb) \<or> sg = [] \<and> bs = []"

definition sender_of :: "(nat \<times> field_content) list \<Rightarrow> string" where
  "sender_of fs = (case map_of fs 7 of Some (Text s) \<Rightarrow> s | _ \<Rightarrow> [])"

definition signature_of :: "(nat \<times> field_content) list \<Rightarrow> string" where
  "signature_of fs = (case map_of fs 8 of Some (Signature s) \<Rightarrow> s | _ \<Rightarrow> [])"

text \<open>A frame of the grammar that \<open>owner\<close> or the bus itself sent.\<close>

definition allowed_frame :: "string \<Rightarrow> bytes \<Rightarrow> bool" where
  "allowed_frame owner frame \<longleftrightarrow> (\<exists>order hd fs fb body. frame = hd @ fb @ pad 8 (16 + length fb) @ body
     \<and> length hd = 16 \<and> byteOrder (hd ! 0) = Inr order \<and> 2 \<le> code (hd ! 1) \<and> code (hd ! 1) \<le> 4 \<and> hd ! 3 = CHR 0x01
     \<and> unat (Uint32 order (subslice hd 12 16)) = length fb \<and> length fb \<le> 4096
     \<and> unat (Uint32 order (subslice hd 4 8)) = length body \<and> length body \<le> 4096
     \<and> fields_enc order 16 fs fb \<and> distinct (map fst fs) \<and> body_enc order (signature_of fs) body
     \<and> (sender_of fs = bus_name \<or> owner \<noteq> [] \<and> sender_of fs = owner))"

subsection \<open>The readers follow the grammar\<close>

definition at :: "cursor \<Rightarrow> bytes \<Rightarrow> cursor \<Rightarrow> bool" where
  "at c bs c1 \<longleftrightarrow> c1 = c\<lparr>cu_pos := cu_pos c + length bs\<rparr> \<and> cu_pos c + length bs \<le> length (cu_b c)
     \<and> subslice (cu_b c) (cu_pos c) (cu_pos c + length bs) = bs"

lemma subslice_append: "i \<le> j \<Longrightarrow> j \<le> k \<Longrightarrow> subslice xs i k = subslice xs i j @ subslice xs j k"
proof -
  assume "i \<le> j" "j \<le> k"
  then have "k - i = (j - i) + (k - j)" "(j - i) + i = j" by simp_all
  then show ?thesis unfolding subslice_def by (simp only: take_add drop_drop)
qed

lemma subslice_length: "j \<le> length xs \<Longrightarrow> length (subslice xs i j) = j - i"
  by (simp add: subslice_def)

lemma subslice_nth: "i < length xs \<Longrightarrow> subslice xs i (i + 1) = [xs ! i]"
  by (simp add: subslice_def take_Suc_conv_app_nth hd_drop_conv_nth take_Suc)

lemma at_trans: "at c x c1 \<Longrightarrow> at c1 y c2 \<Longrightarrow> at c (x @ y) c2"
  using subslice_append [of "cu_pos c" "cu_pos c + length x" "cu_pos c + length x + length y" "cu_b c"]
  by (auto simp: at_def add.assoc)

lemma at_sel: "at c bs c1 \<Longrightarrow> cu_b c1 = cu_b c \<and> cu_order c1 = cu_order c \<and> cu_pos c1 = cu_pos c + length bs"
  by (simp add: at_def)

lemma align_at:
  assumes "n = 4 \<or> n = 8" "align n c = Some c1"
  shows "at c (pad n (cu_pos c)) c1"
proof -
  let ?e = "nat (round_up (int n) (int (cu_pos c)))"
  have e: "cu_pos c \<le> ?e" using round_up_le [OF assms(1), of "cu_pos c"] by simp
  have c1: "?e \<le> length (cu_b c)" "\<not> list_ex (\<lambda>v. v \<noteq> CHR 0x00) (subslice (cu_b c) (cu_pos c) ?e)" "c1 = c\<lparr>cu_pos := ?e\<rparr>"
    using assms(2) by (auto simp: align_def Let_def split: if_splits)
  have "subslice (cu_b c) (cu_pos c) ?e = replicate (?e - cu_pos c) (CHR 0x00)"
    using c1(1,2) subslice_length [OF c1(1), of "cu_pos c"] by (intro replicate_eqI) (auto simp: list_ex_iff)
  then show ?thesis using e c1 by (simp add: at_def pad_def)
qed

lemma number_at:
  assumes "number c = Some (w, c1)"
  shows "\<exists>bs. number_enc (cu_order c) (cu_pos c) w bs \<and> at c bs c1"
proof -
  from assms obtain c0 where c0: "align 4 c = Some c0" "cu_pos c0 + 4 \<le> length (cu_b c0)"
    "w = Uint32 (cu_order c0) (subslice (cu_b c0) (cu_pos c0) (cu_pos c0 + 4))" "c1 = c0\<lparr>cu_pos := cu_pos c0 + 4\<rparr>"
    by (auto simp: number_def split: option.splits if_splits)
  let ?q = "subslice (cu_b c0) (cu_pos c0) (cu_pos c0 + 4)"
  have q: "length ?q = 4" using c0(2) by (simp add: subslice_length)
  then have "at c0 ?q c1" using c0 by (simp add: at_def)
  moreover have a: "at c (pad 4 (cu_pos c)) c0" using align_at [OF _ c0(1)] by simp
  ultimately have "at c (pad 4 (cu_pos c) @ ?q) c1" by (intro at_trans)
  moreover have "cu_order c0 = cu_order c" using a by (simp add: at_def)
  ultimately show ?thesis using q c0(3) unfolding number_enc_def by (intro exI [of _ "pad 4 (cu_pos c) @ ?q"]) auto
qed

lemma signature_at:
  assumes "signature c = Some (s, c1)"
  shows "length s \<le> 1 \<and> at c (signature_enc s) c1"
proof -
  let ?n = "code (cu_b c ! cu_pos c)"
  have s: "cu_pos c + 2 \<le> length (cu_b c)" "?n \<le> 1" "cu_pos c + 1 + ?n + 1 \<le> length (cu_b c)" "cu_b c ! (cu_pos c + 1 + ?n) = CHR 0x00"
    "s = subslice (cu_b c) (cu_pos c + 1) (cu_pos c + 1 + ?n)" "c1 = c\<lparr>cu_pos := cu_pos c + 1 + ?n + 1\<rparr>"
    using assms by (auto simp: signature_def Let_def split: if_splits)
  have l: "length s = ?n" using s(3,5) by (simp add: subslice_length)
  have "subslice (cu_b c) (cu_pos c) (cu_pos c + 1 + ?n + 1) = subslice (cu_b c) (cu_pos c) (cu_pos c + 1) @ s @ subslice (cu_b c) (cu_pos c + 1 + ?n) (cu_pos c + 1 + ?n + 1)"
    unfolding s(5) using subslice_append [of "cu_pos c" "cu_pos c + 1" "cu_pos c + 1 + ?n + 1" "cu_b c"]
      subslice_append [of "cu_pos c + 1" "cu_pos c + 1 + ?n" "cu_pos c + 1 + ?n + 1" "cu_b c"] by simp
  also have "\<dots> = signature_enc s"
    using subslice_nth [of "cu_pos c" "cu_b c"] subslice_nth [of "cu_pos c + 1 + ?n" "cu_b c"] s(1,3,4) l by (simp add: signature_enc_def)
  finally show ?thesis using s l by (simp add: at_def signature_enc_def)
qed

lemma text_at:
  assumes "text_value c = Some (s, c1)"
  shows "\<exists>bs. text_enc (cu_order c) (cu_pos c) s bs \<and> at c bs c1"
proof -
  from assms obtain w c0 where n: "number c = Some (w, c0)" and t: "w \<le> 256" "cu_pos c0 + unat w + 1 \<le> length (cu_b c0)"
    "s = subslice (cu_b c0) (cu_pos c0) (cu_pos c0 + unat w)" "cu_b c0 ! (cu_pos c0 + unat w) = CHR 0x00" "utf8_Valid s" "CHR 0x00 \<notin> set s"
    "c1 = c0\<lparr>cu_pos := cu_pos c0 + unat w + 1\<rparr>"
    by (auto simp: text_value_def Let_def not_le split: option.splits if_splits)
  obtain q where q: "number_enc (cu_order c) (cu_pos c) w q" "at c q c0" using number_at [OF n] by blast
  have l: "length s = unat w" using t(2,3) by (simp add: subslice_length)
  have "subslice (cu_b c0) (cu_pos c0) (cu_pos c0 + unat w + 1) = s @ [CHR 0x00]"
    using subslice_append [of "cu_pos c0" "cu_pos c0 + unat w" "cu_pos c0 + unat w + 1" "cu_b c0"] subslice_nth [of "cu_pos c0 + unat w" "cu_b c0"] t(2-4) by simp
  then have "at c0 (s @ [CHR 0x00]) c1" using t(2,7) l by (simp add: at_def)
  then have "at c (q @ s @ [CHR 0x00]) c1" by (rule at_trans [OF q(2)])
  moreover have "length s \<le> 256" using t(1) l by (simp add: word_le_nat_alt)
  ultimately show ?thesis
    using q(1) l t(5,6) unfolding text_enc_def by (intro exI [of _ "q @ s @ [CHR 0x00]"] conjI) (auto intro: exI [of _ w])
qed

lemma field_value_at:
  assumes "field_value f (want_signature f) c h = Some h1" "1 \<le> f" "f \<le> 9"
  shows "\<exists>v vb. content_enc (cu_order c) (cu_pos c) (want_signature f) v vb \<and> (f = 9 \<longrightarrow> v = Number 0) \<and> at c vb (hd_cursor h1)
    \<and> hd_fields h1 = hd_fields h \<and> hd_sender h1 = (case v of Text s \<Rightarrow> if f = 7 then s else hd_sender h | _ \<Rightarrow> hd_sender h)
    \<and> hd_signature h1 = (case v of Signature s \<Rightarrow> s | _ \<Rightarrow> hd_signature h)"
proof -
  let ?sg = "want_signature f"
  have f: "f \<in> {1, 2, 3, 4, 5, 6, 7, 8, 9}" using assms(2,3) by auto
  then have w: "?sg = ''s'' \<or> ?sg = ''o'' \<or> ?sg = ''u'' \<or> ?sg = ''g''" by (auto simp: want_signature_def)
  show ?thesis
  proof (cases "?sg = ''s'' \<or> ?sg = ''o''")
    case True
    then obtain s c1 where s: "text_value c = Some (s, c1)" "h1 = h\<lparr>hd_cursor := c1, hd_sender := (if f = 7 then s else hd_sender h)\<rparr>"
      using assms(1) by (auto simp: field_value_def split: option.splits)
    obtain bs where "text_enc (cu_order c) (cu_pos c) s bs" "at c bs c1" using text_at [OF s(1)] by blast
    moreover have "f \<noteq> 9" using True by (auto simp: want_signature_def)
    ultimately show ?thesis using True s(2) by (intro exI [of _ "Text s"] exI [of _ bs]) auto
  next
    case False
    show ?thesis
    proof (cases "?sg = ''u''")
      case True
      then obtain x c1 where x: "number c = Some (x, c1)" "h1 = h\<lparr>hd_cursor := c1\<rparr>" "f = 9 \<longrightarrow> x = 0"
        using assms(1) by (auto simp: field_value_def split: option.splits if_splits)
      obtain bs where "number_enc (cu_order c) (cu_pos c) x bs" "at c bs c1" using number_at [OF x(1)] by blast
      then show ?thesis using True x(2,3) by (intro exI [of _ "Number x"] exI [of _ bs]) auto
    next
      case g: False
      with False w have sg: "?sg = ''g''" by blast
      then obtain s c1 where s: "signature c = Some (s, c1)" "h1 = h\<lparr>hd_cursor := c1, hd_signature := s\<rparr>"
        using assms(1) by (auto simp: field_value_def split: option.splits)
      have "f \<noteq> 9" using sg by (auto simp: want_signature_def)
      then show ?thesis using sg s(2) signature_at [OF s(1)] by (intro exI [of _ "Signature s"] exI [of _ "signature_enc s"]) auto
    qed
  qed
qed

text \<open>What the loop has found, from the fields in front of it and those it reads.\<close>

definition found :: "header \<Rightarrow> (nat \<times> field_content) list \<Rightarrow> header \<Rightarrow> bool" where
  "found h fs h1 \<longleftrightarrow> hd_fields h1 = hd_fields h \<union> set (map fst fs) \<and> distinct (map fst fs) \<and> set (map fst fs) \<inter> hd_fields h = {}
     \<and> hd_sender h1 = (case map_of fs 7 of Some (Text s) \<Rightarrow> s | _ \<Rightarrow> hd_sender h)
     \<and> hd_signature h1 = (case map_of fs 8 of Some (Signature s) \<Rightarrow> s | _ \<Rightarrow> hd_signature h)"

lemma content_kind:
  assumes "content_enc order p (want_signature f) v vb" "1 \<le> f" "f \<le> 9"
  shows "(f = 8 \<longleftrightarrow> (\<exists>s. v = Signature s)) \<and> (f = 7 \<longrightarrow> (\<exists>s. v = Text s))"
proof -
  have "f = 1 \<or> f = 2 \<or> f = 3 \<or> f = 4 \<or> f = 5 \<or> f = 6 \<or> f = 7 \<or> f = 8 \<or> f = 9" using assms(2,3) by auto
  then show ?thesis using assms(1) by (cases v; elim disjE; simp add: want_signature_def)
qed

lemma found_cons:
  assumes ih: "found h2 fs h1" and h2: "hd_fields h2 = insert f (hd_fields h)" "f \<notin> hd_fields h"
    and s: "hd_sender h2 = (case v of Text s \<Rightarrow> if f = 7 then s else hd_sender h | _ \<Rightarrow> hd_sender h)"
      "hd_signature h2 = (case v of Signature s \<Rightarrow> s | _ \<Rightarrow> hd_signature h)"
    and t: "f = 8 \<longleftrightarrow> (\<exists>s. v = Signature s)" "f = 7 \<longrightarrow> (\<exists>s. v = Text s)"
  shows "found h ((f, v) # fs) h1"
proof -
  have n: "f \<notin> set (map fst fs)" using ih h2(1) by (auto simp: found_def)
  then have m: "map_of fs f = None" by (metis map_of_eq_None_iff set_map)
  have sender: "hd_sender h1 = (case map_of ((f, v) # fs) 7 of Some (Text s) \<Rightarrow> s | _ \<Rightarrow> hd_sender h)"
  proof (cases "f = 7")
    case True
    then obtain s where "v = Text s" using t(2) by blast
    with True m ih s(1) show ?thesis by (simp add: found_def)
  next
    case False
    then have e: "hd_sender h2 = hd_sender h" using s(1) by (cases v) simp_all
    from ih have "hd_sender h1 = (case map_of fs 7 of Some (Text s) \<Rightarrow> s | _ \<Rightarrow> hd_sender h2)" unfolding found_def by blast
    with False show ?thesis unfolding e by simp
  qed
  have signature: "hd_signature h1 = (case map_of ((f, v) # fs) 8 of Some (Signature s) \<Rightarrow> s | _ \<Rightarrow> hd_signature h)"
  proof (cases "f = 8")
    case True
    then obtain s where "v = Signature s" using t(1) by blast
    with True m ih s(2) show ?thesis by (simp add: found_def)
  next
    case False
    then have e: "hd_signature h2 = hd_signature h" using s(2) t(1) by (cases v) simp_all
    from ih have "hd_signature h1 = (case map_of fs 8 of Some (Signature s) \<Rightarrow> s | _ \<Rightarrow> hd_signature h2)" unfolding found_def by blast
    with False show ?thesis unfolding e by simp
  qed
  have "hd_fields h1 = hd_fields h \<union> set (map fst ((f, v) # fs))" "distinct (map fst ((f, v) # fs))" "set (map fst ((f, v) # fs)) \<inter> hd_fields h = {}"
    using ih h2 n by (auto simp: found_def)
  with sender signature show ?thesis unfolding found_def by blast
qed

lemma header_fields_at:
  assumes "header_fields h = Some h1" "cu_pos (hd_cursor h) \<le> length (cu_b (hd_cursor h))"
  shows "\<exists>fs bs. fields_enc (cu_order (hd_cursor h)) (cu_pos (hd_cursor h)) fs bs \<and> at (hd_cursor h) bs (hd_cursor h1)
    \<and> cu_pos (hd_cursor h1) = length (cu_b (hd_cursor h)) \<and> found h fs h1"
  using assms
proof (induction h rule: header_fields.induct)
  case (1 h)
  show ?case
  proof (cases "cu_pos (hd_cursor h) < length (cu_b (hd_cursor h))")
    case False
    with 1(2,3) have "h1 = h" "cu_pos (hd_cursor h) = length (cu_b (hd_cursor h))" by (simp_all add: header_fields.simps [of h])
    then show ?thesis by (intro exI [of _ "[]"]) (simp add: fields_end at_def found_def subslice_def)
  next
    case less: True
    with 1(2) obtain r where r: "field_step h = Some r" by (auto simp: header_fields.simps [of h] split: option.splits)
    then obtain c where c: "align 8 (hd_cursor h) = Some c" by (auto simp: field_step_def split: option.splits)
    have ca: "at (hd_cursor h) (pad 8 (cu_pos (hd_cursor h))) c" using align_at [OF _ c] by simp
    show ?thesis
    proof (cases r)
      case (Inl h0)
      with r c have h0: "cu_pos c = length (cu_b c)" "h0 = h\<lparr>hd_cursor := c\<rparr>"
        by (auto simp: field_step_def Let_def split: if_splits option.splits)
      have "h1 = h0" using 1(2) less r Inl by (simp add: header_fields.simps [of h])
      with h0 ca show ?thesis
        by (intro exI [of _ "[]"] exI [of _ "pad 8 (cu_pos (hd_cursor h))"]) (simp add: fields_pad found_def at_def)
    next
      case (Inr h2)
      let ?f = "code (cu_b c ! cu_pos c)" and ?c1 = "c\<lparr>cu_pos := cu_pos c + 1\<rparr>"
      from r Inr c obtain c2 where f: "cu_pos c \<noteq> length (cu_b c)" "1 \<le> ?f" "?f \<le> 9" "?f \<notin> hd_fields h"
        "signature ?c1 = Some (want_signature ?f, c2)" "field_value ?f (want_signature ?f) c2 (h\<lparr>hd_fields := insert ?f (hd_fields h)\<rparr>) = Some h2"
        by (auto simp: field_step_def Let_def not_less split: if_splits option.splits)
      have sel: "hd_sender (h\<lparr>hd_fields := X\<rparr>) = hd_sender h" "hd_signature (h\<lparr>hd_fields := X\<rparr>) = hd_signature h"
        "hd_fields (h\<lparr>hd_fields := X\<rparr>) = X" for X by simp_all
      have pl: "cu_pos c < length (cu_b c)" using f(1) ca by (simp add: at_def)
      have a1: "at c [byte ?f] ?c1" using pl subslice_nth [OF pl] by (simp add: at_def)
      have a2: "at ?c1 (signature_enc (want_signature ?f)) c2" using signature_at [OF f(5)] by simp
      obtain v vb where v: "content_enc (cu_order c2) (cu_pos c2) (want_signature ?f) v vb" "?f = 9 \<longrightarrow> v = Number 0" "at c2 vb (hd_cursor h2)"
        "hd_fields h2 = insert ?f (hd_fields h)" "hd_sender h2 = (case v of Text s \<Rightarrow> if ?f = 7 then s else hd_sender h | _ \<Rightarrow> hd_sender h)"
        "hd_signature h2 = (case v of Signature s \<Rightarrow> s | _ \<Rightarrow> hd_signature h)"
        using field_value_at [OF f(6,2,3)] unfolding sel by blast
      let ?pre = "pad 8 (cu_pos (hd_cursor h)) @ [byte ?f] @ signature_enc (want_signature ?f) @ vb"
      have pre: "at (hd_cursor h) ?pre (hd_cursor h2)" by (intro at_trans [OF ca] at_trans [OF a1] at_trans [OF a2] v(3))
      have "header_fields h2 = Some h1" using 1(2) less r Inr by (simp add: header_fields.simps [of h])
      moreover have "cu_pos (hd_cursor h2) \<le> length (cu_b (hd_cursor h2))" using v(3) by (simp add: at_def)
      ultimately obtain fs bs where ih: "fields_enc (cu_order (hd_cursor h2)) (cu_pos (hd_cursor h2)) fs bs"
        "at (hd_cursor h2) bs (hd_cursor h1)" "cu_pos (hd_cursor h1) = length (cu_b (hd_cursor h2))" "found h2 fs h1"
        using 1(1) [OF less r Inr] by blast
      have o: "cu_order (hd_cursor h2) = cu_order (hd_cursor h)" "cu_order c2 = cu_order (hd_cursor h)" "cu_b (hd_cursor h2) = cu_b (hd_cursor h)"
        using at_sel [OF pre] at_sel [OF v(3)] by simp_all
      have q: "cu_pos c2 = cu_pos (hd_cursor h) + length (pad 8 (cu_pos (hd_cursor h))) + 1 + length (signature_enc (want_signature ?f))"
        "cu_pos (hd_cursor h2) = cu_pos c2 + length vb" using at_sel [OF ca] at_sel [OF a2] at_sel [OF v(3)] by simp_all
      have "fields_enc (cu_order (hd_cursor h)) (cu_pos (hd_cursor h)) ((?f, v) # fs)
          (pad 8 (cu_pos (hd_cursor h)) @ byte ?f # signature_enc (want_signature ?f) @ vb @ bs)"
        using f(2,3) q(1) v(1,2) ih(1) unfolding o q(2) by (intro fields_cons) auto
      moreover have "at (hd_cursor h) (?pre @ bs) (hd_cursor h1)" by (rule at_trans [OF pre ih(2)])
      moreover have "found h ((?f, v) # fs) h1"
        using content_kind [OF v(1) f(2,3)] by (intro found_cons [OF ih(4) v(4) f(4) v(5,6)]) blast+
      ultimately show ?thesis using ih(3) o(3) by (intro exI [of _ "(?f, v) # fs"] exI [of _ "?pre @ bs"]) simp
    qed
  qed
qed

subsection \<open>Frames\<close>

lemma subslice_whole: "subslice xs 0 (length xs) = xs"
  by (simp add: subslice_def)

lemma body_at:
  assumes "body_ok sg \<lparr>cu_b = body, cu_pos = 0, cu_order = order\<rparr> = Some c1" "cu_pos c1 = length (cu_b c1)"
  shows "body_enc order sg body"
proof -
  let ?c = "\<lparr>cu_b = body, cu_pos = 0, cu_order = order\<rparr>"
  have whole: "bs = body" if "at ?c bs c1" for bs
    using that assms(2) by (auto simp: at_def subslice_def)
  consider "sg = ''s'' \<or> sg = ''o''" "\<exists>s. text_value ?c = Some (s, c1)" | "sg = ''u''" "\<exists>w. number ?c = Some (w, c1)"
    | "sg = ''v''" "\<exists>c2 s. signature ?c = Some (''s'', c2) \<and> text_value c2 = Some (s, c1)" | "sg = []" "c1 = ?c"
    using assms(1) by (auto simp: body_ok_def split: if_splits option.splits)
  then show ?thesis
  proof cases
    case 1
    then obtain s bs where "text_enc order 0 s bs" "at ?c bs c1" using text_at [of ?c] by auto
    with 1(1) whole show ?thesis unfolding body_enc_def by blast
  next
    case 2
    then obtain w bs where "number_enc order 0 w bs" "at ?c bs c1" using number_at [of ?c] by auto
    with 2(1) whole show ?thesis unfolding body_enc_def by blast
  next
    case 3
    then obtain c2 s where c2: "signature ?c = Some (''s'', c2)" "text_value c2 = Some (s, c1)" by blast
    have g: "at ?c (signature_enc ''s'') c2" using signature_at [OF c2(1)] by blast
    obtain tb where t: "text_enc (cu_order c2) (cu_pos c2) s tb" "at c2 tb c1" using text_at [OF c2(2)] by blast
    have "cu_order c2 = order" "cu_pos c2 = 3" using at_sel [OF g] by (simp_all add: signature_enc_def)
    with t(1) have "text_enc order 3 s tb" by simp
    moreover have "signature_enc ''s'' @ tb = body" by (rule whole [OF at_trans [OF g t(2)]])
    ultimately show ?thesis using 3(1) unfolding body_enc_def by blast
  next
    case 4
    with assms(2) show ?thesis by (simp add: body_enc_def)
  qed
qed

lemma validateFrame_allowed:
  assumes "validateFrame frame owner = Inr ()"
  shows "allowed_frame owner frame"
proof -
  from assms have f: "16 \<le> length frame" "frame ! 3 = CHR 0x01" "2 \<le> code (frame ! 1)" "code (frame ! 1) \<le> 4"
    by (auto simp: validateFrame_def not_less split: if_splits)
  from assms obtain order where o: "byteOrder (frame ! 0) = Inr order"
    by (auto simp: validateFrame_def andThen_eq_Inr split: if_splits)
  define hl where "hl = unat (Uint32 order (subslice frame 12 16))"
  define bl where "bl = unat (Uint32 order (subslice frame 4 8))"
  define at' where "at' = nat (round_up 8 (int (16 + hl)))"
  have u: "uint (Uint32 order (subslice frame 12 16)) = int hl" "uint (Uint32 order (subslice frame 4 8)) = int bl"
    by (simp_all add: hl_def bl_def)
  have n: "nat (16 + int hl) = 16 + hl" "16 + int hl = int (16 + hl)" by simp_all
  have rp: "16 + hl \<le> at'" "round_up 8 (int (16 + hl)) = int at'"
    using round_up_le [of 8 "16 + hl"] unfolding at'_def by (simp_all add: round_up_8)
  define c where "c = \<lparr>cu_b = take (16 + hl) frame, cu_pos = 16, cu_order = order\<rparr>"
  note v0 = assms [unfolded validateFrame_def o andThen_Inr Let_def u n rp(2) nat_int, folded c_def]
  from v0 obtain h c1 where v: "hl \<le> 4096" "bl \<le> 4096" "at' + bl = length frame"
    "header_fields \<lparr>hd_cursor = c, hd_fields = {}, hd_signature = [], hd_sender = []\<rparr> = Some h"
    "hd_sender h = bus_name \<or> owner \<noteq> [] \<and> hd_sender h = owner" "\<not> list_ex (\<lambda>b. b \<noteq> CHR 0x00) (subslice frame (16 + hl) at')"
    "body_ok (hd_signature h) \<lparr>cu_b = drop at' frame, cu_pos = 0, cu_order = order\<rparr> = Some c1" "cu_pos c1 = length (cu_b c1)"
    by (auto simp: not_less split: if_splits option.splits)
  let ?h0 = "\<lparr>hd_cursor = c, hd_fields = {}, hd_signature = [], hd_sender = []\<rparr>"
  have len: "length (take (16 + hl) frame) = 16 + hl" using rp(1) v(3) by simp
  have "cu_pos (hd_cursor ?h0) \<le> length (cu_b (hd_cursor ?h0))" using len by (simp add: c_def)
  from header_fields_at [OF v(4) this] obtain fs fb where fs: "fields_enc order 16 fs fb" "at c fb (hd_cursor h)"
    "cu_pos (hd_cursor h) = 16 + hl" "found ?h0 fs h" using len by (auto simp: c_def)
  have lf: "length fb = hl" using at_sel [OF fs(2)] fs(3) by (simp add: c_def)
  have fb: "fb = subslice frame 16 (16 + hl)" using fs(2) lf by (simp add: at_def c_def subslice_def drop_take)
  have pd: "subslice frame (16 + hl) at' = pad 8 (16 + hl)"
    using v(3,6) rp subslice_length [of at' frame "16 + hl"] unfolding pad_def at'_def [symmetric] of_nat_numeral
    by (intro replicate_eqI) (auto simp: list_ex_iff)
  have "frame = subslice frame 0 16 @ subslice frame 16 (16 + hl) @ subslice frame (16 + hl) at' @ subslice frame at' (length frame)"
    using subslice_append [of 0 16 "length frame" frame] subslice_append [of 16 "16 + hl" "length frame" frame]
      subslice_append [of "16 + hl" at' "length frame" frame] rp(1) v(3) f(1) by (simp add: subslice_whole)
  then have frame: "frame = take 16 frame @ fb @ pad 8 (16 + length fb) @ drop at' frame"
    unfolding fb [symmetric] pd lf by (simp add: subslice_def)
  have b: "body_enc order (signature_of fs) (drop at' frame)"
    using body_at [OF v(7,8)] fs(4) unfolding found_def signature_of_def header.select_convs by metis
  have s: "sender_of fs = hd_sender h" "distinct (map fst fs)"
    using fs(4) unfolding found_def sender_of_def header.select_convs by metis+
  have sl: "subslice (take 16 frame) 12 16 = subslice frame 12 16" "subslice (take 16 frame) 4 8 = subslice frame 4 8"
    by (simp_all add: subslice_def drop_take)
  show ?thesis unfolding allowed_frame_def
  proof (intro exI conjI)
    show "frame = take 16 frame @ fb @ pad 8 (16 + length fb) @ drop at' frame" by (rule frame)
    show "length (take 16 frame) = 16" "byteOrder (take 16 frame ! 0) = Inr order" "2 \<le> code (take 16 frame ! 1)"
      "code (take 16 frame ! 1) \<le> 4" "take 16 frame ! 3 = CHR 0x01" using f o by simp_all
    show "unat (Uint32 order (subslice (take 16 frame) 12 16)) = length fb" "length fb \<le> 4096"
      "unat (Uint32 order (subslice (take 16 frame) 4 8)) = length (drop at' frame)" "length (drop at' frame) \<le> 4096"
      using v(1-3) by (simp_all add: sl lf hl_def [symmetric] bl_def [symmetric])
    show "fields_enc order 16 fs fb" "distinct (map fst fs)" "body_enc order (signature_of fs) (drop at' frame)" by (fact fs(1) s(2) b)+
    show "sender_of fs = bus_name \<or> owner \<noteq> [] \<and> sender_of fs = owner" using v(5) s(1) by simp
  qed
qed

subsection \<open>The bytes that leave the filter\<close>

datatype guard_op = GRead nat nat | GWrite bytes | GOwner string

text \<open>A use of the connection: the bytes read before and after the handshake, and the final state.\<close>

fun guard_run :: "guard_op list \<Rightarrow> guard \<times> bytes \<Rightarrow> bytes \<times> bytes \<times> guard \<times> bytes" where
  "guard_run [] s = ([], [], s)"
| "guard_run (GWrite p # ops) (g, input) = guard_run ops (Guard_Write p g, input)"
| "guard_run (GOwner i # ops) (g, input) = guard_run ops (g\<lparr>gd_owner := i\<rparr>, input)"
| "guard_run (GRead room chunk # ops) (g, input) =
     (let (r, s1) = Guard_Read room chunk (g, input); data = (case r of Inl _ \<Rightarrow> [] | Inr d \<Rightarrow> d); (early, out, s2) = guard_run ops s1
      in if gd_binary g then (early, data @ out, s2) else (data @ early, out, s2))"

lemma read_frame_sound:
  assumes "read_frame g input = (Inr frame, rest)" "gd_total g \<le> 65536"
  shows "allowed_frame (gd_owner g) frame \<and> length frame \<le> 8192 \<and> gd_total g + length frame \<le> 65536"
proof -
  from assms(1) obtain total :: "64 word" where t: "total \<le> 8192" "word_of_nat (gd_total g) + total \<le> 65536"
    "frame = take (unat total) input" "unat total \<le> length input" "validateFrame frame (gd_owner g) = Inr ()"
    by (auto simp: read_frame_def Let_def not_less split: if_splits sum.splits)
  have l: "length frame = unat total" using t(3,4) by simp
  have le: "unat total \<le> 8192" using t(1) by (simp add: word_le_nat_alt)
  have g: "unat (word_of_nat (gd_total g) :: 64 word) = gd_total g" using assms(2) by (simp add: unat_of_nat take_bit_nat_eq_self)
  have "unat (word_of_nat (gd_total g) + total) = gd_total g + unat total"
    using assms(2) le by (simp add: unat_word_ariths g)
  then have "gd_total g + unat total \<le> 65536" using t(2) by (simp add: word_le_nat_alt)
  with l le validateFrame_allowed [OF t(5)] show ?thesis by simp
qed

text \<open>What one read does to the state of the filter.\<close>

lemma Guard_Read_step:
  assumes "Guard_Read room chunk (g, input) = (r, g1, rest)" "gd_total g \<le> 65536"
  defines "data \<equiv> (case r of Inl _ \<Rightarrow> [] | Inr d \<Rightarrow> d)"
  shows "gd_binary g1 = gd_binary g \<and> gd_owner g1 = gd_owner g"
    and "\<not> gd_binary g \<Longrightarrow> gd_frame g1 = gd_frame g \<and> gd_total g1 = gd_total g \<and> length data + gd_authLeft g1 = gd_authLeft g"
    and "gd_binary g \<Longrightarrow> gd_authLeft g1 = gd_authLeft g \<and> (\<exists>frames. gd_frame g @ concat frames = data @ gd_frame g1
      \<and> gd_total g1 = gd_total g + length (concat frames) \<and> gd_total g1 \<le> 65536
      \<and> (\<forall>f\<in>set frames. length f \<le> 8192 \<and> allowed_frame (gd_owner g) f))"
proof -
  show "gd_binary g1 = gd_binary g \<and> gd_owner g1 = gd_owner g"
    using assms(1) by (auto simp: Guard_Read_def Let_def split: if_splits sum.splits prod.splits)
  show "gd_frame g1 = gd_frame g \<and> gd_total g1 = gd_total g \<and> length data + gd_authLeft g1 = gd_authLeft g" if "\<not> gd_binary g"
    using assms(1) that unfolding data_def by (auto simp: Guard_Read_def Let_def split: if_splits)
  show "gd_authLeft g1 = gd_authLeft g \<and> (\<exists>frames. gd_frame g @ concat frames = data @ gd_frame g1
      \<and> gd_total g1 = gd_total g + length (concat frames) \<and> gd_total g1 \<le> 65536
      \<and> (\<forall>f\<in>set frames. length f \<le> 8192 \<and> allowed_frame (gd_owner g) f))" if b: "gd_binary g"
  proof (cases "room = 0 \<or> gd_frame g \<noteq> [] \<or> (\<exists>e. fst (read_frame g input) = Inl e)")
    case True
    then have "gd_authLeft g1 = gd_authLeft g \<and> gd_frame g = data @ gd_frame g1 \<and> gd_total g1 = gd_total g"
      using assms(1) b unfolding data_def by (auto simp: Guard_Read_def Let_def split: if_splits prod.splits)
    then show ?thesis using assms(2) by (intro conjI exI [of _ "[]"]) auto
  next
    case False
    then obtain frame inp where f: "read_frame g input = (Inr frame, inp)" by (cases "read_frame g input"; cases "fst (read_frame g input)") auto
    have "gd_authLeft g1 = gd_authLeft g \<and> frame = data @ gd_frame g1 \<and> gd_total g1 = gd_total g + length frame"
      using assms(1) b False f unfolding data_def by (auto simp: Guard_Read_def Let_def split: if_splits)
    then show ?thesis using read_frame_sound [OF f assms(2)] False by (intro conjI exI [of _ "[frame]"]) auto
  qed
qed

lemma guard_run_sound:
  assumes "guard_run ops (g, input) = (early, out, g1, rest)" "gd_total g \<le> 65536"
  shows "length early + gd_authLeft g1 = gd_authLeft g \<and> (\<exists>frames. gd_frame g @ concat frames = out @ gd_frame g1
    \<and> gd_total g1 = gd_total g + length (concat frames) \<and> gd_total g1 \<le> 65536
    \<and> (\<forall>f\<in>set frames. length f \<le> 8192 \<and> (\<exists>i. (i = gd_owner g \<or> GOwner i \<in> set ops) \<and> allowed_frame i f)))"
  using assms
proof (induction ops "(g, input)" arbitrary: g input early out rule: guard_run.induct)
  case 1
  then show ?case by (intro conjI exI [of _ "[]"]) auto
next
  case (2 p ops g input)
  have "gd_total (Guard_Write p g) = gd_total g" "gd_authLeft (Guard_Write p g) = gd_authLeft g" "gd_frame (Guard_Write p g) = gd_frame g"
    "gd_owner (Guard_Write p g) = gd_owner g" by (simp_all add: Guard_Write_def)
  with 2 show ?case by fastforce
next
  case (3 i ops g input)
  from 3(1) 3(2,3) obtain frames where "length early + gd_authLeft g1 = gd_authLeft g" "gd_frame g @ concat frames = out @ gd_frame g1"
    "gd_total g1 = gd_total g + length (concat frames)" "gd_total g1 \<le> 65536"
    "\<forall>f\<in>set frames. length f \<le> 8192 \<and> (\<exists>j. (j = i \<or> GOwner j \<in> set ops) \<and> allowed_frame j f)" by auto
  then show ?case by (intro conjI exI [of _ frames]) auto
next
  case (4 room chunk ops g input)
  obtain r g2 inp where r: "Guard_Read room chunk (g, input) = (r, g2, inp)" by (metis prod_cases3)
  define data where "data = (case r of Inl _ \<Rightarrow> [] | Inr d \<Rightarrow> d)"
  obtain e2 o2 s2 where n: "guard_run ops (g2, inp) = (e2, o2, s2)" by (metis prod_cases3)
  have fin: "s2 = (g1, rest)" "early = (if gd_binary g then e2 else data @ e2)" "out = (if gd_binary g then data @ o2 else o2)"
    using 4(2) by (auto simp: r n data_def Let_def split: if_splits)
  note st = Guard_Read_step [OF r 4(3), folded data_def]
  have tot: "gd_total g2 \<le> 65536" using st(2,3) 4(3) by (cases "gd_binary g") auto
  obtain frames2 where ih: "length e2 + gd_authLeft g1 = gd_authLeft g2" "gd_frame g2 @ concat frames2 = o2 @ gd_frame g1"
    "gd_total g1 = gd_total g2 + length (concat frames2)" "gd_total g1 \<le> 65536"
    "\<forall>f\<in>set frames2. length f \<le> 8192 \<and> (\<exists>i. (i = gd_owner g \<or> GOwner i \<in> set ops) \<and> allowed_frame i f)"
    using 4(1) [OF r [symmetric] refl refl n [unfolded fin(1)] tot] st(1) by auto
  show ?case
  proof (cases "gd_binary g")
    case False
    then show ?thesis using st(2) ih fin by (intro conjI exI [of _ frames2]) auto
  next
    case True
    with st(3) obtain frames where f: "gd_authLeft g2 = gd_authLeft g" "gd_frame g @ concat frames = data @ gd_frame g2"
      "gd_total g2 = gd_total g + length (concat frames)" "\<forall>f\<in>set frames. length f \<le> 8192 \<and> allowed_frame (gd_owner g) f" by blast
    have "gd_frame g @ concat (frames @ frames2) = out @ gd_frame g1"
    proof -
      have "gd_frame g @ concat (frames @ frames2) = (gd_frame g @ concat frames) @ concat frames2" by simp
      also have "\<dots> = data @ (gd_frame g2 @ concat frames2)" unfolding f(2) by simp
      also have "\<dots> = out @ gd_frame g1" unfolding ih(2) using True fin(3) by simp
      finally show ?thesis .
    qed
    then show ?thesis using True ih f fin(2) by (intro conjI exI [of _ "frames @ frames2"]) auto
  qed
qed

end
