(* ===== verification/Safe_Read.thy ===== *)
theory Safe_Read
  imports Policy "HOL-Library.State_Monad" "HOL-Library.Word"
begin

unbundle bit_operations_syntax

section \<open>Reading mapped files\<close>

text \<open>
  \<open>internal/saferead\<close> (\<open>read.go\<close>, \<open>linux.go\<close>) on Linux. The operating system is a record of calls that may answer anything
  and change the world between any two of them, so that whatever others do to the file system is among its behaviours;
  closing descriptors is left out. The state of the monad is the world.
\<close>

datatype errno = ENOENT | EACCES | EPERM | ENOSYS | EINVAL | E2BIG | ELOOP | EXDEV | ENOTDIR | EAGAIN | Errno int

datatype open_flag = O_PATH | O_DIRECTORY | O_CLOEXEC | O_RDONLY | O_NONBLOCK | O_NOCTTY

datatype resolve_flag = RESOLVE_BENEATH | RESOLVE_NO_SYMLINKS | RESOLVE_NO_MAGICLINKS | RESOLVE_NO_XDEV

record stat =
  st_Dev :: int
  st_Ino :: int
  st_Mode :: "32 word"
  st_Nlink :: int
  st_Uid :: int
  st_Gid :: int
  st_Size :: int
  st_Mtim :: "int \<times> int"
  st_Ctim :: "int \<times> int"

text \<open>\<open>sy_open_root\<close> is \<open>Open("/")\<close>, \<open>sy_read\<close> is \<open>io.ReadAll\<close> of a \<open>LimitReader\<close>, which returns at most so many bytes;
  \<open>sy_over\<close> says whether the context is over.\<close>

record 'w system =
  sy_open_root :: "('w, errno + nat) state"
  sy_Openat2 :: "nat \<Rightarrow> string \<Rightarrow> open_flag list \<Rightarrow> resolve_flag list \<Rightarrow> ('w, errno + nat) state"
  sy_Fstat :: "nat \<Rightarrow> ('w, stat option) state"
  sy_Dup :: "nat \<Rightarrow> ('w, nat option) state"
  sy_read :: "nat \<Rightarrow> nat \<Rightarrow> ('w, bytes option) state"
  sy_over :: "('w, bool) state"

record Observation =
  ob_Data :: bytes
  ob_Metadata :: FileMetadata
  ob_MetadataAvailable :: bool
  ob_Code :: string

abbreviation S_IFMT :: "32 word" where "S_IFMT \<equiv> 0xF000"
abbreviation S_IFDIR :: "32 word" where "S_IFDIR \<equiv> 0x4000"
abbreviation S_IFREG :: "32 word" where "S_IFREG \<equiv> 0x8000"
abbreviation S_ISVTX :: "32 word" where "S_ISVTX \<equiv> 0x200"

definition noLinks :: "resolve_flag list" where
  "noLinks = [RESOLVE_BENEATH, RESOLVE_NO_SYMLINKS, RESOLVE_NO_MAGICLINKS]"

definition saferead_classify :: "errno \<Rightarrow> string" where
  "saferead_classify e =
     (if e = ENOENT then ''missing''
      else if e = EACCES \<or> e = EPERM then ''permission_denied''
      else if e = ENOSYS \<or> e = EINVAL \<or> e = E2BIG then ''unsupported''
      else if e = ELOOP \<or> e = EXDEV \<or> e = ENOTDIR \<or> e = EAGAIN then ''unsafe_path''
      else ''io_error'')"

definition trusted_stat :: "stat \<Rightarrow> int \<Rightarrow> bool \<Rightarrow> bool" where
  "trusted_stat st uid ancestor \<longleftrightarrow> \<not> (st_Mode st AND S_IFMT \<noteq> S_IFDIR \<or> (st_Uid st \<noteq> 0 \<and> st_Uid st \<noteq> uid))
     \<and> (st_Mode st AND 0x12 = 0 \<or> (ancestor \<and> st_Uid st = 0 \<and> st_Mode st AND S_ISVTX \<noteq> 0))"

definition trustedDir :: "'w system \<Rightarrow> nat \<Rightarrow> int \<Rightarrow> bool \<Rightarrow> ('w, bool) state" where
  "trustedDir S fd uid ancestor = do {
     st \<leftarrow> sy_Fstat S fd;
     State_Monad.return (case st of None \<Rightarrow> False | Some s \<Rightarrow> trusted_stat s uid ancestor) }"

primrec walk_base :: "'w system \<Rightarrow> int \<Rightarrow> nat \<Rightarrow> string list \<Rightarrow> ('w, errno + nat) state" where
  "walk_base S uid fd [] = State_Monad.return (Inr fd)"
| "walk_base S uid fd (part # parts) = do {
     r \<leftarrow> sy_Openat2 S fd part [O_PATH, O_DIRECTORY, O_CLOEXEC] noLinks;
     (case r of
        Inl e \<Rightarrow> State_Monad.return (Inl e)
      | Inr next \<Rightarrow> do {
          ok \<leftarrow> trustedDir S next uid (parts \<noteq> []);
          if ok then walk_base S uid next parts else State_Monad.return (Inl EACCES) }) }"

definition openBase :: "'w system \<Rightarrow> string \<Rightarrow> int \<Rightarrow> ('w, errno + nat) state" where
  "openBase S path uid = do {
     r \<leftarrow> sy_open_root S;
     (case r of
        Inl e \<Rightarrow> State_Monad.return (Inl e)
      | Inr fd \<Rightarrow> walk_base S uid fd (if path = ''/'' then [] else split_on (CHR ''/'') (trim_prefix path ''/''))) }"

text \<open>The walk to the parent: \<open>Some\<close> is the code with which the read ends.\<close>

primrec walk_parent :: "'w system \<Rightarrow> int \<Rightarrow> nat \<Rightarrow> string list \<Rightarrow> ('w, string option) state" where
  "walk_parent S uid fd [] = State_Monad.return None"
| "walk_parent S uid fd (part # parts) = do {
     r \<leftarrow> sy_Openat2 S fd part [O_PATH, O_DIRECTORY, O_CLOEXEC] (noLinks @ [RESOLVE_NO_XDEV]);
     (case r of
        Inl e \<Rightarrow> State_Monad.return (Some (saferead_classify e))
      | Inr next \<Rightarrow> do {
          ok \<leftarrow> trustedDir S next uid False;
          if ok then walk_parent S uid next parts else State_Monad.return (Some ''unsafe_path'') }) }"

definition no_observation :: "string \<Rightarrow> Observation" where
  "no_observation ec = \<lparr>ob_Data = [], ob_Metadata = no_metadata, ob_MetadataAvailable = False, ob_Code = ec\<rparr>"

definition metadata_of :: "stat \<Rightarrow> FileMetadata" where
  "metadata_of st = \<lparr>fm_UID = st_Uid st, fm_GID = st_Gid st, fm_Mode = uint (st_Mode st AND 0xFFF), fm_Size = max (st_Size st) 0\<rparr>"

definition observed :: "stat \<Rightarrow> string \<Rightarrow> Observation" where
  "observed st ec = \<lparr>ob_Data = [], ob_Metadata = metadata_of st, ob_MetadataAvailable = True, ob_Code = ec\<rparr>"

definition same_file :: "stat \<Rightarrow> stat \<Rightarrow> bool" where
  "same_file before after \<longleftrightarrow> st_Dev before = st_Dev after \<and> st_Ino before = st_Ino after \<and> st_Size before = st_Size after
     \<and> st_Mtim before = st_Mtim after \<and> st_Ctim before = st_Ctim after \<and> st_Mode before = st_Mode after
     \<and> st_Nlink before = st_Nlink after \<and> st_Uid before = st_Uid after \<and> st_Gid before = st_Gid after"

text \<open>What is read of an open file: the checks of its metadata, the bytes, and the checks that nothing moved meanwhile.\<close>

definition snapshot_checks :: "'w system \<Rightarrow> SSHFile \<Rightarrow> nat \<Rightarrow> nat \<Rightarrow> stat \<Rightarrow> bytes \<Rightarrow> ('w, Observation) state" where
  "snapshot_checks S f base fd before data = do {
     after \<leftarrow> sy_Fstat S fd;
     (case after of
        None \<Rightarrow> State_Monad.return (observed before ''changed_during_read'')
      | Some st \<Rightarrow>
          if \<not> same_file before st \<or> int (length data) \<noteq> st_Size before
          then State_Monad.return (observed before ''changed_during_read'')
          else do {
            r \<leftarrow> sy_Openat2 S base (fl_RelativePath f) [O_PATH, O_CLOEXEC] (noLinks @ [RESOLVE_NO_XDEV]);
            (case r of
               Inl _ \<Rightarrow> State_Monad.return (observed before ''changed_during_read'')
             | Inr check \<Rightarrow> do {
                 current \<leftarrow> sy_Fstat S check;
                 State_Monad.return (case current of
                   None \<Rightarrow> observed before ''changed_during_read''
                 | Some cur \<Rightarrow>
                     if st_Dev cur \<noteq> st_Dev before \<or> st_Ino cur \<noteq> st_Ino before
                     then observed before ''changed_during_read''
                     else (observed before ''ok'')\<lparr>ob_Data := data\<rparr>) }) }) }"

definition read_open :: "'w system \<Rightarrow> SSHFile \<Rightarrow> nat \<Rightarrow> nat \<Rightarrow> ('w, Observation) state" where
  "read_open S f base fd = do {
     st \<leftarrow> sy_Fstat S fd;
     (case st of
        None \<Rightarrow> State_Monad.return (no_observation ''io_error'')
      | Some before \<Rightarrow>
          if st_Mode before AND S_IFMT \<noteq> S_IFREG \<or> st_Nlink before \<noteq> 1 then State_Monad.return (observed before ''unsafe_type'')
          else if st_Uid before \<noteq> fl_OwnerUID f \<or> st_Gid before \<noteq> fl_OwnerGID f
          then State_Monad.return (observed before ''owner_mismatch'')
          else if st_Size before < 0 \<or> st_Size before > fl_MaxBytes f then State_Monad.return (observed before ''too_large'')
          else do {
            r \<leftarrow> sy_read S fd (nat (fl_MaxBytes f) + 1);
            over \<leftarrow> sy_over S;
            (case r of
               None \<Rightarrow> State_Monad.return (observed before ''io_error'')
             | Some data \<Rightarrow>
                 if over then State_Monad.return (observed before ''io_error'')
                 else if int (length data) > fl_MaxBytes f then State_Monad.return (observed before ''too_large'')
                 else snapshot_checks S f base fd before data) }) }"

definition readSnapshot :: "'w system \<Rightarrow> SSHFile \<Rightarrow> ('w, Observation) state" where
  "readSnapshot S f = do {
     b \<leftarrow> openBase S (fl_BaseDir f) (fl_OwnerUID f);
     (case b of
        Inl e \<Rightarrow> State_Monad.return (no_observation (saferead_classify e))
      | Inr base \<Rightarrow> do {
          d \<leftarrow> sy_Dup S base;
          (case d of
             None \<Rightarrow> State_Monad.return (no_observation ''io_error'')
           | Some parent \<Rightarrow> do {
               w \<leftarrow> walk_parent S (fl_OwnerUID f) parent (butlast (split_on (CHR ''/'') (fl_RelativePath f)));
               (case w of
                  Some ec \<Rightarrow> State_Monad.return (no_observation ec)
                | None \<Rightarrow> do {
                    r \<leftarrow> sy_Openat2 S base (fl_RelativePath f) [O_RDONLY, O_NONBLOCK, O_NOCTTY, O_CLOEXEC] (noLinks @ [RESOLVE_NO_XDEV]);
                    (case r of
                       Inl e \<Rightarrow> State_Monad.return (no_observation (saferead_classify e))
                     | Inr fd \<Rightarrow> read_open S f base fd) }) }) }) }"

definition saferead_Read :: "'w system \<Rightarrow> SSHFile \<Rightarrow> ('w, Observation) state" where
  "saferead_Read S f =
     (if \<not> SSHFile_Validate f then State_Monad.return (no_observation ''unsafe_path'')
      else do {
        over \<leftarrow> sy_over S;
        if over then State_Monad.return (no_observation ''io_error'') else readSnapshot S f })"

subsection \<open>Every observation is well formed\<close>

definition file_codes :: "string list" where
  "file_codes = [''missing'', ''permission_denied'', ''unsafe_path'', ''unsafe_type'', ''owner_mismatch'', ''too_large'',
     ''changed_during_read'', ''unsupported'', ''io_error'']"

text \<open>What a caller may rely on, whatever the system answers: data comes only with the code \<open>ok\<close>, and then the file was a
  regular file of the mapped owner and group, of exactly the size that its metadata states and within the mapped limit.\<close>

definition observation_ok :: "SSHFile \<Rightarrow> Observation \<Rightarrow> bool" where
  "observation_ok f ob \<longleftrightarrow> (if ob_Code ob = ''ok''
       then ob_MetadataAvailable ob \<and> fm_UID (ob_Metadata ob) = fl_OwnerUID f \<and> fm_GID (ob_Metadata ob) = fl_OwnerGID f
         \<and> fm_Size (ob_Metadata ob) = int (length (ob_Data ob)) \<and> int (length (ob_Data ob)) \<le> fl_MaxBytes f \<and> SSHFile_Validate f
       else ob_Code ob \<in> set file_codes \<and> ob_Data ob = [])
     \<and> (if ob_MetadataAvailable ob then 0 \<le> fm_Mode (ob_Metadata ob) \<and> fm_Mode (ob_Metadata ob) \<le> 4095 \<and> 0 \<le> fm_Size (ob_Metadata ob)
        else ob_Metadata ob = no_metadata)"

lemma pred_state_return [simp]: "pred_state P (State_Monad.return x) = P x"
  by (auto simp: State_Monad.return_def)

lemma pred_state_bind: "(\<And>a. pred_state P (f a)) \<Longrightarrow> pred_state P (State_Monad.bind m f)"
  by (rule bind_predI, rule pred_stateI) simp

lemma no_observation_ok: "ec \<in> set file_codes \<Longrightarrow> observation_ok f (no_observation ec)"
  by (auto simp: observation_ok_def no_observation_def file_codes_def)

lemma mode_bound: "uint (m AND 0xFFF) \<le> 4095" for m :: "32 word"
proof -
  have "m AND 0xFFF \<le> 0xFFF" by (rule word_and_le1)
  then show ?thesis by (simp add: word_le_def)
qed

lemma observed_ok: "ec \<in> set file_codes \<Longrightarrow> observation_ok f (observed st ec)"
  using mode_bound by (auto simp: observation_ok_def observed_def metadata_of_def file_codes_def)

lemma observed_data_ok:
  assumes "SSHFile_Validate f" "st_Uid st = fl_OwnerUID f" "st_Gid st = fl_OwnerGID f" "int (length data) = st_Size st"
    "int (length data) \<le> fl_MaxBytes f"
  shows "observation_ok f ((observed st ''ok'')\<lparr>ob_Data := data\<rparr>)"
  using assms mode_bound by (simp add: observation_ok_def observed_def metadata_of_def)

lemma classify_codes: "saferead_classify e \<in> set file_codes"
  by (simp add: saferead_classify_def file_codes_def)

lemma code_members [simp]:
  "''unsafe_path'' \<in> set file_codes" "''io_error'' \<in> set file_codes" "''unsafe_type'' \<in> set file_codes"
  "''owner_mismatch'' \<in> set file_codes" "''too_large'' \<in> set file_codes" "''changed_during_read'' \<in> set file_codes"
  by (simp_all add: file_codes_def)

lemma snapshot_checks_ok:
  assumes "SSHFile_Validate f" "st_Uid st = fl_OwnerUID f" "st_Gid st = fl_OwnerGID f" "int (length data) \<le> fl_MaxBytes f"
  shows "pred_state (observation_ok f) (snapshot_checks S f base fd st data)"
  unfolding snapshot_checks_def using assms observed_data_ok [OF assms(1-3) _ assms(4)]
  by (intro pred_state_bind) (auto simp: observed_ok split: option.split sum.split intro!: pred_state_bind)

lemma read_open_ok: "SSHFile_Validate f \<Longrightarrow> pred_state (observation_ok f) (read_open S f base fd)"
  unfolding read_open_def using snapshot_checks_ok [of f]
  by (intro pred_state_bind) (auto simp: observed_ok no_observation_ok not_less split: option.split intro!: pred_state_bind)

lemma walk_parent_codes: "pred_state (\<lambda>w. case w of None \<Rightarrow> True | Some ec \<Rightarrow> ec \<in> set file_codes) (walk_parent S uid fd parts)"
  by (induction parts arbitrary: fd) (auto simp: classify_codes split: sum.split intro!: pred_state_bind)

lemma saferead_ok: "pred_state (observation_ok f) (saferead_Read S f)"
proof -
  have r: "pred_state (observation_ok f) (do {
      r \<leftarrow> sy_Openat2 S base p fl rs;
      (case r of Inl e \<Rightarrow> State_Monad.return (no_observation (saferead_classify e)) | Inr fd \<Rightarrow> read_open S f base fd) })"
    if "SSHFile_Validate f" for base p fl rs
    using read_open_ok [OF that] by (auto simp: no_observation_ok classify_codes split: sum.split intro!: pred_state_bind)
  have w: "pred_state (observation_ok f) (do {
      w \<leftarrow> walk_parent S uid fd parts;
      (case w of Some ec \<Rightarrow> State_Monad.return (no_observation ec) | None \<Rightarrow> m) })"
    if "pred_state (observation_ok f) m" for uid fd parts m
  proof (rule bind_predI, rule pred_stateI)
    fix x s s'
    assume "run_state (walk_parent S uid fd parts) s = (x, s')"
    with walk_parent_codes have "case x of None \<Rightarrow> True | Some ec \<Rightarrow> ec \<in> set file_codes" by (rule pred_stateD)
    with that show "pred_state (observation_ok f) (case x of Some ec \<Rightarrow> State_Monad.return (no_observation ec) | None \<Rightarrow> m)"
      by (auto simp: no_observation_ok split: option.split)
  qed
  show ?thesis
    unfolding saferead_Read_def readSnapshot_def
    using w [OF r] by (auto simp: no_observation_ok classify_codes split: sum.split option.split intro!: pred_state_bind)
qed

end
