(* ===== verification/Ssh_Audit.thy ===== *)
theory Ssh_Audit
  imports Safe_Read Adminauth
begin

section \<open>The SSH audit\<close>

text \<open>
  \<open>internal/sshaudit/audit.go\<close>: observations of \<open>sshd_config\<close> and \<open>authorized_keys\<close> files. The parser of key lines and the
  fingerprint belong to \<open>golang.org/x/crypto/ssh\<close> and are the parameter \<open>L\<close>; \<open>ssh_spec\<close> states what is documented of them. Text
  functions of \<open>strings\<close> work on the runes of UTF-8.
\<close>

record ssh_key =
  sk_Type :: string
  sk_Blob :: bytes
  sk_Certificate :: bool

record ssh_lib =
  sl_ParseAuthorizedKey :: "string \<Rightarrow> (ssh_key \<times> string list \<times> bytes) option"
  sl_FingerprintSHA256 :: "ssh_key \<Rightarrow> string"

text \<open>A key has a clean name of its algorithm; a fingerprint is \<open>SHA256:\<close> and the unpadded base64 of a SHA-256.\<close>

definition ssh_spec :: "ssh_lib \<Rightarrow> bool" where
  "ssh_spec L \<longleftrightarrow> (\<forall>line k os rest. sl_ParseAuthorizedKey L line = Some (k, os, rest) \<longrightarrow> sk_Type k \<noteq> '''' \<and> CleanText (sk_Type k) 64)
     \<and> (\<forall>k. \<exists>h. length h = 32 \<and> sl_FingerprintSHA256 L k = ''SHA256:'' @ RawStd_EncodeToString h)"

subsection \<open>Text\<close>

function rune_list :: "string \<Rightarrow> string list" where
  "rune_list s = (if s = [] then [] else let n = max 1 (utf8_len s) in take n s # rune_list (drop n s))"
  by pat_completeness auto
termination
  by (relation "measure length") auto

declare rune_list.simps [simp del]

text \<open>\<open>unicode.IsSpace\<close>: the white space of ASCII, U+0085, U+00A0, U+1680, U+2000 to U+200A, U+2028, U+2029, U+202F, U+205F
  and U+3000.\<close>

definition is_space :: "string \<Rightarrow> bool" where
  "is_space r \<longleftrightarrow> (case map code r of
       [a] \<Rightarrow> (9 \<le> a \<and> a \<le> 13) \<or> a = 32
     | [a, b] \<Rightarrow> a = 0xC2 \<and> (b = 0x85 \<or> b = 0xA0)
     | [a, b, c] \<Rightarrow> (a = 0xE1 \<and> b = 0x9A \<and> c = 0x80)
         \<or> (a = 0xE2 \<and> b = 0x80 \<and> ((0x80 \<le> c \<and> c \<le> 0x8A) \<or> c = 0xA8 \<or> c = 0xA9 \<or> c = 0xAF))
         \<or> (a = 0xE2 \<and> b = 0x81 \<and> c = 0x9F) \<or> (a = 0xE3 \<and> b = 0x80 \<and> c = 0x80)
     | _ \<Rightarrow> False)"

definition TrimSpace :: "string \<Rightarrow> string" where
  "TrimSpace s = concat (rev (dropWhile is_space (rev (dropWhile is_space (rune_list s)))))"

fun Fields_loop :: "string \<Rightarrow> string list \<Rightarrow> string list" where
  "Fields_loop acc [] = (if acc = [] then [] else [acc])"
| "Fields_loop acc (r # rs) =
     (if is_space r then (if acc = [] then Fields_loop [] rs else acc # Fields_loop [] rs) else Fields_loop (acc @ r) rs)"

definition Fields :: "string \<Rightarrow> string list" where
  "Fields s = Fields_loop [] (rune_list s)"

text \<open>\<open>strings.ToLower\<close>, exact on ASCII and on the two other letters whose lower case is ASCII, U+0130 and U+212A. Every other
  rune stays outside ASCII; the only caller refuses a name with such a rune.\<close>

definition lower_rune :: "string \<Rightarrow> string" where
  "lower_rune r = (case map code r of
       [a] \<Rightarrow> if 65 \<le> a \<and> a \<le> 90 then [byte (a + 32)] else r
     | [a, b] \<Rightarrow> if a = 0xC4 \<and> b = 0xB0 then ''i'' else r
     | [a, b, c] \<Rightarrow> if a = 0xE2 \<and> b = 0x84 \<and> c = 0xAA then ''k'' else r
     | _ \<Rightarrow> r)"

definition ToLower :: "string \<Rightarrow> string" where
  "ToLower s = concat (map lower_rune (rune_list s))"

definition trim_newline :: "string \<Rightarrow> string" where
  "trim_newline s = (if has_suffix s [CHR 0x0D] then butlast s else s)"

subsection \<open>One file\<close>

definition finding :: "string \<Rightarrow> SSHFileObservation \<Rightarrow> SSHFileObservation" where
  "finding ec f = (if ec \<in> set (elems (sf_Findings f)) then f else f\<lparr>sf_Findings := Some (elems (sf_Findings f) @ [ec])\<rparr>)"

definition partial :: "string \<Rightarrow> SSHFileObservation \<Rightarrow> SSHFileObservation" where
  "partial ec f = finding ec (if sf_Status f = ''ok'' then f\<lparr>sf_Status := ''partial''\<rparr> else f)"

definition invalid :: "string \<Rightarrow> SSHFileObservation \<Rightarrow> SSHFileObservation" where
  "invalid ec f = finding ec (f\<lparr>sf_Status := ''parse_error''\<rparr>)"

text \<open>The observation, whether a Match block has begun, and the directives seen.\<close>

type_synonym parse_state = "SSHFileObservation \<times> bool \<times> string set"

text \<open>\<open>Inl\<close> leaves the loop over the lines, \<open>Inr\<close> goes on with the next one.\<close>

definition key_line :: "ssh_lib \<Rightarrow> nat \<Rightarrow> string \<Rightarrow> parse_state \<Rightarrow> SSHFileObservation + parse_state" where
  "key_line L i line = (\<lambda>(f, matched, seen). case sl_ParseAuthorizedKey L line of
     None \<Rightarrow> Inl (invalid ''invalid_line'' f)
   | Some (key, options, rest) \<Rightarrow>
       if length (TrimSpace rest) \<noteq> 0 then Inl (invalid ''invalid_line'' f)
       else if length (elems (sf_Keys f)) \<ge> 8 then Inr (partial ''key_limit'' f, matched, seen)
       else let f1 = f\<lparr>sf_Keys := Some (elems (sf_Keys f) @ [\<lparr>ko_Line = int (i + 1), ko_Type = sk_Type key,
                   ko_Fingerprint = sl_FingerprintSHA256 L key, ko_HasOptions = options \<noteq> []\<rparr>])\<rparr>;
                f2 = (if options \<noteq> [] then partial ''key_options_not_evaluated'' f1 else f1);
                f3 = (if sk_Certificate key then partial ''key_certificate_not_evaluated'' f2 else f2)
            in Inr (f3, matched, seen))"

definition dynamic_auth :: "string list" where
  "dynamic_auth = [''authorizedkeyscommand'', ''authorizedprincipalscommand'', ''authorizedkeysfile'', ''authorizedprincipalsfile'',
     ''trustedusercakeys'']"

definition directive_name :: "string \<Rightarrow> string" where
  "directive_name name = (if name = ''challengeresponseauthentication'' then ''kbdinteractiveauthentication'' else name)"

definition directive :: "nat \<Rightarrow> string \<Rightarrow> string list \<Rightarrow> parse_state \<Rightarrow> SSHFileObservation + parse_state" where
  "directive i name0 ws = (\<lambda>(f, matched, seen).
     let name = directive_name name0; val = ws ! 1 in
     if \<not> DirectiveValue name val then Inr (partial ''other_directives_not_evaluated'' f, matched, seen)
     else if length ws \<noteq> 2 then Inr (partial ''invalid_value'' f, matched, seen)
     else if name \<in> seen then Inr (partial ''duplicate_directive'' f, matched, seen)
     else if length (elems (sf_Directives f)) \<ge> 8 then Inr (partial ''directive_limit'' f, matched, insert name seen)
     else Inr (f\<lparr>sf_Directives := Some (elems (sf_Directives f) @ [\<lparr>do_Line = int (i + 1), do_Name = name, do_Value = val\<rparr>])\<rparr>,
           matched, insert name seen))"

definition config_line :: "nat \<Rightarrow> string \<Rightarrow> parse_state \<Rightarrow> SSHFileObservation + parse_state" where
  "config_line i line = (\<lambda>(f, matched, seen).
     let ws = Fields line; name = ToLower (hd ws) in
     if contains_any name [CHR ''='', CHR 0x22, CHR 0x27, CHR 0x5C] then Inl (invalid ''invalid_line'' f)
     else if \<not> list_all (char_in (CHR ''a'') (CHR ''z'')) name then Inl (invalid ''invalid_line'' f)
     else if length ws < 2 then Inl (invalid ''invalid_line'' f)
     else if name = ''match'' then Inr (partial ''match_not_evaluated'' f, True, seen)
     else if name = ''include'' then Inr (partial ''include_not_expanded'' f, matched, seen)
     else if name \<in> set dynamic_auth then Inr (partial ''dynamic_auth_not_evaluated'' f, matched, seen)
     else if matched then Inr (f, matched, seen)
     else directive i name ws (f, matched, seen))"

definition parse_line :: "ssh_lib \<Rightarrow> nat \<Rightarrow> string \<Rightarrow> parse_state \<Rightarrow> SSHFileObservation + parse_state" where
  "parse_line L i raw0 = (\<lambda>(f, matched, seen).
     let raw = trim_newline raw0; line = TrimSpace raw in
     if CHR 0x0D \<in> set raw then Inl (invalid ''invalid_line'' f)
     else if length raw > 8192 then Inl (invalid ''line_limit'' f)
     else if line = '''' \<or> has_prefix line ''#'' then Inr (f, matched, seen)
     else if sf_Kind f = ''authorized_keys'' then key_line L i line (f, matched, seen)
     else config_line i line (f, matched, seen))"

fun parse_lines :: "ssh_lib \<Rightarrow> nat \<Rightarrow> string list \<Rightarrow> parse_state \<Rightarrow> SSHFileObservation" where
  "parse_lines L i [] s = fst s"
| "parse_lines L i (raw # raws) s = (case parse_line L i raw s of Inl f \<Rightarrow> f | Inr s1 \<Rightarrow> parse_lines L (i + 1) raws s1)"

definition bad_control :: "char \<Rightarrow> bool" where
  "bad_control b \<longleftrightarrow> (code b < 32 \<and> b \<noteq> CHR 0x0D \<and> b \<noteq> CHR 0x0A \<and> b \<noteq> CHR 0x09) \<or> code b = 127"

definition ssh_parse :: "ssh_lib \<Rightarrow> bytes \<Rightarrow> SSHFileObservation \<Rightarrow> SSHFileObservation" where
  "ssh_parse L data f =
     (if length data > 65536 \<or> \<not> utf8_Valid data \<or> contains data ''PRIVATE KEY'' then f\<lparr>sf_Status := ''sensitive_content''\<rparr>
      else if list_ex bad_control data then f\<lparr>sf_Status := ''parse_error''\<rparr>
      else let raws = split_on (CHR 0x0A) data in
        if length raws > 513 \<or> (length raws = 513 \<and> length (raws ! 512) \<noteq> 0) then invalid ''line_limit'' f
        else let f1 = parse_lines L 0 raws (f, False, {});
                 f2 = (if sf_Status f1 = ''parse_error'' then f1\<lparr>sf_Keys := Some [], sf_Directives := Some []\<rparr> else f1)
             in if sf_Kind f2 = ''authorized_keys'' \<and> sf_Status f2 = ''ok'' \<and> length (elems (sf_Keys f2)) = 0
                then finding ''empty_key_file'' f2 else f2)"

subsection \<open>The profile\<close>

definition opened :: "SSHFile \<Rightarrow> Observation \<Rightarrow> SSHFileObservation" where
  "opened mapping ob =
     (let f = \<lparr>sf_ID = fl_ID mapping, sf_Kind = fl_Kind mapping, sf_Status = ob_Code ob, sf_MetadataAvailable = ob_MetadataAvailable ob,
               sf_Metadata = ob_Metadata ob, sf_SHA256 = '''', sf_Baseline = ''unavailable'', sf_Keys = Some [], sf_Directives = Some [],
               sf_Findings = Some []\<rparr>
      in if sf_MetadataAvailable f \<and> (word_of_int (fm_Mode (sf_Metadata f)) :: 32 word) AND 0x12 \<noteq> 0
         then finding ''group_or_other_writable'' f else f)"

definition with_baseline :: "crypto \<Rightarrow> SSHFile \<Rightarrow> bytes \<Rightarrow> SSHFileObservation \<Rightarrow> SSHFileObservation" where
  "with_baseline C mapping data f =
     (let d = Digest C data; f1 = f\<lparr>sf_SHA256 := d, sf_Baseline := ''unconfigured''\<rparr> in
      if fl_BaselineSHA256 mapping = '''' then f1
      else if fl_BaselineSHA256 mapping \<noteq> d then finding ''baseline_changed'' (f1\<lparr>sf_Baseline := ''changed''\<rparr>)
      else f1\<lparr>sf_Baseline := ''match''\<rparr>)"

definition observe_file :: "crypto \<Rightarrow> ssh_lib \<Rightarrow> SSHFile \<Rightarrow> Observation \<Rightarrow> SSHFileObservation" where
  "observe_file C L mapping ob =
     (let f = opened mapping ob in
      if ob_Code ob \<noteq> ''ok'' then f
      else let f1 = ssh_parse L (ob_Data ob) f in
        if sf_Status f1 = ''ok'' \<or> sf_Status f1 = ''partial'' then with_baseline C mapping (ob_Data ob) f1 else f1)"

text \<open>The loop over the files; \<open>None\<close> when the context was over before one of them.\<close>

primrec observe_files :: "crypto \<Rightarrow> ssh_lib \<Rightarrow> 'w system \<Rightarrow> SSHFile list \<Rightarrow> ('w, SSHFileObservation list option) state" where
  "observe_files C L S [] = State_Monad.return (Some [])"
| "observe_files C L S (m # ms) = do {
     over \<leftarrow> sy_over S;
     if over then State_Monad.return None
     else do {
       ob \<leftarrow> saferead_Read S m;
       r \<leftarrow> observe_files C L S ms;
       State_Monad.return (map_option ((#) (observe_file C L m ob)) r) } }"

definition read_status :: "SSHFileObservation \<Rightarrow> bool" where
  "read_status f \<longleftrightarrow> sf_Status f = ''ok'' \<or> sf_Status f = ''partial''"

definition coverage :: "SSHFileObservation list \<Rightarrow> string" where
  "coverage fs =
     (if \<not> list_ex read_status fs then ''unavailable''
      else if list_ex (\<lambda>f. sf_Status f \<noteq> ''ok'') fs then ''partial''
      else ''complete'')"

definition ssh_Collect :: "crypto \<Rightarrow> ssh_lib \<Rightarrow> 'w system \<Rightarrow> int \<Rightarrow> SSHProfile \<Rightarrow> ('w, SSHReport result) state" where
  "ssh_Collect C L S now p =
     (if \<not> SSHProfile_Validate p then State_Monad.return (Inl (Err ''invalid local SSH profile''))
      else do {
        fs \<leftarrow> observe_files C L S (elems (sp_Files p));
        over \<leftarrow> sy_over S;
        State_Monad.return (case fs of
          None \<Rightarrow> Inl (Err ''context canceled'')
        | Some files \<Rightarrow>
            if over then Inl (Err ''context canceled'')
            else Inr \<lparr>sr_ProfileID = sp_ID p, sr_ObservedAt = now, sr_Coverage = coverage files, sr_Files = Some files\<rparr>) })"

end
