(* ===== verification/Ssh_Audit_Laws.thy ===== *)
theory Ssh_Audit_Laws
  imports Ssh_Audit
begin

section \<open>What an SSH audit reports\<close>

text \<open>Every report of the collector is one the server accepts, and what it says of a file is in the file.\<close>

subsection \<open>Findings\<close>

lemma finding_sel [simp]:
  "sf_ID (finding ec f) = sf_ID f" "sf_Kind (finding ec f) = sf_Kind f" "sf_Status (finding ec f) = sf_Status f"
  "sf_MetadataAvailable (finding ec f) = sf_MetadataAvailable f" "sf_Metadata (finding ec f) = sf_Metadata f"
  "sf_SHA256 (finding ec f) = sf_SHA256 f" "sf_Baseline (finding ec f) = sf_Baseline f" "sf_Keys (finding ec f) = sf_Keys f"
  "sf_Directives (finding ec f) = sf_Directives f"
  by (simp_all add: finding_def)

lemma partial_sel [simp]:
  "sf_ID (partial ec f) = sf_ID f" "sf_Kind (partial ec f) = sf_Kind f"
  "sf_Status (partial ec f) = (if sf_Status f = ''ok'' then ''partial'' else sf_Status f)"
  "sf_MetadataAvailable (partial ec f) = sf_MetadataAvailable f" "sf_Metadata (partial ec f) = sf_Metadata f"
  "sf_SHA256 (partial ec f) = sf_SHA256 f" "sf_Baseline (partial ec f) = sf_Baseline f" "sf_Keys (partial ec f) = sf_Keys f"
  "sf_Directives (partial ec f) = sf_Directives f"
  by (simp_all add: partial_def)

lemma invalid_sel [simp]:
  "sf_ID (invalid ec f) = sf_ID f" "sf_Kind (invalid ec f) = sf_Kind f" "sf_Status (invalid ec f) = ''parse_error''"
  "sf_MetadataAvailable (invalid ec f) = sf_MetadataAvailable f" "sf_Metadata (invalid ec f) = sf_Metadata f"
  "sf_SHA256 (invalid ec f) = sf_SHA256 f" "sf_Baseline (invalid ec f) = sf_Baseline f" "sf_Keys (invalid ec f) = sf_Keys f"
  "sf_Directives (invalid ec f) = sf_Directives f"
  by (simp_all add: invalid_def)

definition findings_ok :: "string slice \<Rightarrow> bool" where
  "findings_ok fs \<longleftrightarrow> fs \<noteq> None \<and> distinct (elems fs) \<and> list_all SSHFinding (elems fs)"

lemma findings_finding: "findings_ok (sf_Findings f) \<Longrightarrow> SSHFinding ec \<Longrightarrow> findings_ok (sf_Findings (finding ec f))"
  by (auto simp: finding_def findings_ok_def elems_def)

lemma findings_partial: "findings_ok (sf_Findings f) \<Longrightarrow> SSHFinding ec \<Longrightarrow> findings_ok (sf_Findings (partial ec f))"
  by (auto simp: partial_def intro: findings_finding)

lemma findings_invalid: "findings_ok (sf_Findings f) \<Longrightarrow> SSHFinding ec \<Longrightarrow> findings_ok (sf_Findings (invalid ec f))"
  by (auto simp: invalid_def intro: findings_finding)

lemma oneOf_iff: "oneOf s vs \<longleftrightarrow> s \<in> set vs"
  by (auto simp: oneOf_def list_ex_iff)

lemma findings_bound: "findings_ok fs \<Longrightarrow> fs \<noteq> None \<and> length (elems fs) \<le> 16 \<and> seen_loop id SSHFinding {} (elems fs)"
proof -
  assume f: "findings_ok fs"
  define all where "all = [''group_or_other_writable'', ''match_not_evaluated'', ''include_not_expanded'',
     ''dynamic_auth_not_evaluated'', ''other_directives_not_evaluated'', ''invalid_line'',
     ''key_options_not_evaluated'', ''key_certificate_not_evaluated'', ''key_limit'', ''line_limit'',
     ''duplicate_directive'', ''empty_key_file'', ''baseline_changed'', ''invalid_value'', ''directive_limit'']"
  have "SSHFinding s \<longleftrightarrow> s \<in> set all" for s unfolding SSHFinding_def oneOf_iff all_def ..
  then have "set (elems fs) \<subseteq> set all" using f by (simp add: findings_ok_def list_all_iff subset_iff)
  then have "card (set (elems fs)) \<le> card (set all)" by (intro card_mono) simp_all
  also have "\<dots> \<le> length all" by (rule card_length)
  finally have "length (elems fs) \<le> 15" using f by (simp add: findings_ok_def distinct_card all_def)
  then show ?thesis using f by (simp add: findings_ok_def seen_loop_iff)
qed

lemma known_findings [simp]:
  "SSHFinding ''group_or_other_writable''" "SSHFinding ''match_not_evaluated''" "SSHFinding ''include_not_expanded''"
  "SSHFinding ''dynamic_auth_not_evaluated''" "SSHFinding ''other_directives_not_evaluated''" "SSHFinding ''invalid_line''"
  "SSHFinding ''key_options_not_evaluated''" "SSHFinding ''key_certificate_not_evaluated''" "SSHFinding ''key_limit''"
  "SSHFinding ''line_limit''" "SSHFinding ''duplicate_directive''" "SSHFinding ''empty_key_file''" "SSHFinding ''baseline_changed''"
  "SSHFinding ''invalid_value''" "SSHFinding ''directive_limit''"
  by (simp_all add: SSHFinding_def oneOf_def)

subsection \<open>The loop over the lines\<close>

text \<open>A directive that is reported stands, as two words, on the line that is reported with it.\<close>

definition from_line :: "string list \<Rightarrow> DirectiveObservation \<Rightarrow> bool" where
  "from_line ls d \<longleftrightarrow> (\<exists>j w. j < length ls \<and> do_Line d = int (j + 1) \<and> Fields (TrimSpace (trim_newline (ls ! j))) = [w, do_Value d]
     \<and> do_Name d = directive_name (ToLower w))"

definition entries_ok :: "string list \<Rightarrow> SSHFileObservation \<Rightarrow> bool" where
  "entries_ok ls f \<longleftrightarrow> sf_Keys f \<noteq> None \<and> sf_Directives f \<noteq> None \<and> findings_ok (sf_Findings f)
     \<and> length (elems (sf_Keys f)) \<le> 8 \<and> length (elems (sf_Directives f)) \<le> 8
     \<and> (sf_Kind f \<noteq> ''authorized_keys'' \<longrightarrow> elems (sf_Keys f) = []) \<and> (sf_Kind f = ''authorized_keys'' \<longrightarrow> elems (sf_Directives f) = [])
     \<and> list_all Key_ok (elems (sf_Keys f)) \<and> list_all (\<lambda>d. Directive_ok d \<and> from_line ls d) (elems (sf_Directives f))"

definition same_frame :: "SSHFileObservation \<Rightarrow> SSHFileObservation \<Rightarrow> bool" where
  "same_frame f g \<longleftrightarrow> sf_ID g = sf_ID f \<and> sf_Kind g = sf_Kind f \<and> sf_MetadataAvailable g = sf_MetadataAvailable f
     \<and> sf_Metadata g = sf_Metadata f \<and> sf_SHA256 g = sf_SHA256 f \<and> sf_Baseline g = sf_Baseline f"

lemma same_frame_refl [simp]: "same_frame f f" by (simp add: same_frame_def)

lemma same_frame_trans: "same_frame f g \<Longrightarrow> same_frame g h \<Longrightarrow> same_frame f h" by (simp add: same_frame_def)

lemma same_frame_steps [simp]: "same_frame f (finding ec f)" "same_frame f (partial ec f)" "same_frame f (invalid ec f)"
  by (simp_all add: same_frame_def)

definition kept_file :: "string list \<Rightarrow> SSHFileObservation \<Rightarrow> SSHFileObservation \<Rightarrow> bool" where
  "kept_file ls f g \<longleftrightarrow> same_frame f g \<and> entries_ok ls g \<and> (read_status g \<or> sf_Status g = ''parse_error'')"

lemma entries_partial: "entries_ok ls f \<Longrightarrow> SSHFinding ec \<Longrightarrow> entries_ok ls (partial ec f)"
  by (simp add: entries_ok_def findings_partial)

lemma entries_invalid: "entries_ok ls f \<Longrightarrow> SSHFinding ec \<Longrightarrow> entries_ok ls (invalid ec f)"
  by (simp add: entries_ok_def findings_invalid)

lemma entries_finding: "entries_ok ls f \<Longrightarrow> SSHFinding ec \<Longrightarrow> entries_ok ls (finding ec f)"
  by (simp add: entries_ok_def findings_finding)

lemma kept_partial: "entries_ok ls f \<Longrightarrow> read_status f \<Longrightarrow> SSHFinding ec \<Longrightarrow> kept_file ls f (partial ec f)"
  by (auto simp: kept_file_def read_status_def entries_partial)

lemma kept_invalid: "entries_ok ls f \<Longrightarrow> SSHFinding ec \<Longrightarrow> kept_file ls f (invalid ec f)"
  by (simp add: kept_file_def entries_invalid)

text \<open>The outcome of one line.\<close>

definition line_ok :: "string list \<Rightarrow> SSHFileObservation \<Rightarrow> SSHFileObservation + parse_state \<Rightarrow> bool" where
  "line_ok ls f r \<longleftrightarrow> (case r of Inl g \<Rightarrow> kept_file ls f g | Inr (g, _, _) \<Rightarrow> kept_file ls f g \<and> read_status g)"

lemma line_partial: "entries_ok ls f \<Longrightarrow> read_status f \<Longrightarrow> SSHFinding ec \<Longrightarrow> line_ok ls f (Inr (partial ec f, m, seen))"
  using kept_partial [of ls f ec] by (auto simp: line_ok_def read_status_def)

lemma line_invalid: "entries_ok ls f \<Longrightarrow> SSHFinding ec \<Longrightarrow> line_ok ls f (Inl (invalid ec f))"
  by (simp add: line_ok_def kept_invalid)

lemma line_same: "entries_ok ls f \<Longrightarrow> read_status f \<Longrightarrow> line_ok ls f (Inr (f, m, seen))"
  by (simp add: line_ok_def kept_file_def)

lemma key_line_ok:
  assumes L: "ssh_spec L" and f: "entries_ok ls f" "read_status f" "sf_Kind f = ''authorized_keys''" and i: "i < 512"
  shows "line_ok ls f (key_line L i line (f, m, seen))"
proof (cases "\<exists>key os rest. sl_ParseAuthorizedKey L line = Some (key, os, rest) \<and> length (TrimSpace rest) = 0 \<and> length (elems (sf_Keys f)) < 8")
  case False
  then show ?thesis using f by (auto simp: key_line_def line_partial line_invalid split: option.split)
next
  case True
  then obtain key os rest where k: "sl_ParseAuthorizedKey L line = Some (key, os, rest)" "length (TrimSpace rest) = 0"
    "length (elems (sf_Keys f)) < 8" by blast
  let ?k = "\<lparr>ko_Line = int (i + 1), ko_Type = sk_Type key, ko_Fingerprint = sl_FingerprintSHA256 L key, ko_HasOptions = os \<noteq> []\<rparr>"
  obtain h where h: "length h = 32" "sl_FingerprintSHA256 L key = ''SHA256:'' @ RawStd_EncodeToString h" using L unfolding ssh_spec_def by blast
  have "sk_Type key \<noteq> [] \<and> CleanText (sk_Type key) 64" using L k(1) by (auto simp: ssh_spec_def)
  then have ok: "Key_ok ?k" using i h by (simp add: Key_ok_def trim_prefix_def has_prefix_def b64_text_roundtrip)
  define f1 where "f1 = f\<lparr>sf_Keys := Some (elems (sf_Keys f) @ [?k])\<rparr>"
  define f2 where "f2 = (if os \<noteq> [] then partial ''key_options_not_evaluated'' f1 else f1)"
  define f3 where "f3 = (if sk_Certificate key then partial ''key_certificate_not_evaluated'' f2 else f2)"
  define Q where "Q = (\<lambda>g. entries_ok ls g \<and> same_frame f g \<and> read_status g)"
  have p: "Q (partial ec g)" if "Q g" "SSHFinding ec" for ec g
    using that entries_partial [of ls g ec] same_frame_trans [of f g "partial ec g"] by (auto simp: Q_def read_status_def)
  have "Q f1" using f k(3) ok by (auto simp: Q_def f1_def entries_ok_def elems_def same_frame_def read_status_def)
  then have "Q f2" using p by (simp add: f2_def)
  then have "Q f3" using p by (simp add: f3_def)
  moreover have "key_line L i line (f, m, seen) = Inr (f3, m, seen)"
    using k by (simp add: key_line_def Let_def f1_def f2_def f3_def)
  ultimately show ?thesis by (simp add: Q_def line_ok_def kept_file_def)
qed

lemma directive_ok:
  assumes f: "entries_ok ls f" "read_status f" "sf_Kind f \<noteq> ''authorized_keys''" and i: "i < 512" "i < length ls"
    and w: "Fields (TrimSpace (trim_newline (ls ! i))) = ws" "ws \<noteq> []"
  shows "line_ok ls f (directive i (ToLower (hd ws)) ws (f, m, seen))"
proof -
  let ?name = "directive_name (ToLower (hd ws))"
  let ?d = "\<lparr>do_Line = int (i + 1), do_Name = ?name, do_Value = ws ! 1\<rparr>"
  have "line_ok ls f (Inr (f\<lparr>sf_Directives := Some (elems (sf_Directives f) @ [?d])\<rparr>, m, insert ?name seen))"
    if "DirectiveValue ?name (ws ! 1)" "length ws = 2" "length (elems (sf_Directives f)) < 8"
  proof -
    have "from_line ls ?d" unfolding from_line_def
      using that(2) w i by (intro exI [of _ i] exI [of _ "hd ws"]) (auto simp: length_Suc_conv numeral_2_eq_2)
    moreover have "Directive_ok ?d" using that(1) i(1) by (simp add: Directive_ok_def)
    ultimately have "entries_ok ls (f\<lparr>sf_Directives := Some (elems (sf_Directives f) @ [?d])\<rparr>)"
      using f that(3) by (simp add: entries_ok_def elems_def)
    then show ?thesis using f(2) by (auto simp: line_ok_def kept_file_def same_frame_def read_status_def)
  qed
  then show ?thesis using f by (simp add: directive_def Let_def line_partial)
qed

lemma parse_line_ok:
  assumes L: "ssh_spec L" and f: "entries_ok ls f" "read_status f" and i: "i < length ls" "512 \<le> i \<longrightarrow> ls ! i = []"
  shows "line_ok ls f (parse_line L i (ls ! i) (f, m, seen))"
proof -
  let ?line = "TrimSpace (trim_newline (ls ! i))"
  have empty: "TrimSpace (trim_newline []) = []"
    by (simp add: TrimSpace_def trim_newline_def has_suffix_def rune_list.simps)
  have l: "i < 512" if "?line \<noteq> []" using i(2) that empty by (cases "i < 512") auto
  have fields: "Fields ?line \<noteq> []" if "\<not> length (Fields ?line) < 2" using that by auto
  show ?thesis
  proof (cases "?line = [] \<or> has_prefix ?line ''#'' \<or> CHR 0x0D \<in> set (trim_newline (ls ! i)) \<or> length (trim_newline (ls ! i)) > 8192")
    case True
    then show ?thesis using f by (auto simp: parse_line_def Let_def line_same line_invalid)
  next
    case False
    then have eq: "parse_line L i (ls ! i) (f, m, seen)
        = (if sf_Kind f = ''authorized_keys'' then key_line L i ?line (f, m, seen) else config_line i ?line (f, m, seen))"
      by (simp add: parse_line_def Let_def)
    show ?thesis
    proof (cases "sf_Kind f = ''authorized_keys''")
      case True
      with eq key_line_ok [OF L f _ l] False show ?thesis by simp
    next
      case k: False
      have "line_ok ls f (config_line i ?line (f, m, seen))"
        unfolding config_line_def Let_def prod.case
        using f line_same [OF f] line_partial [OF f] line_invalid [OF f(1)] directive_ok [OF f k l i(1) refl fields] False
        by (simp split: if_split)
      with eq k show ?thesis by simp
    qed
  qed
qed

lemma parse_lines_ok:
  assumes L: "ssh_spec L" and b: "\<forall>j<length ls. 512 \<le> j \<longrightarrow> ls ! j = []"
  shows "entries_ok ls f \<Longrightarrow> read_status f \<Longrightarrow> raws = drop i ls \<Longrightarrow> kept_file ls f (parse_lines L i raws (f, m, seen))"
proof (induction raws arbitrary: i f m seen)
  case Nil
  then show ?case by (simp add: kept_file_def)
next
  case (Cons raw raws)
  have i: "i < length ls" using Cons.prems(3) by (metis drop_eq_Nil linorder_not_less list.distinct(1))
  then have raw: "raw = ls ! i" "raws = drop (i + 1) ls" using Cons.prems(3) by (simp_all add: Cons_nth_drop_Suc [OF i, symmetric])
  have ok: "line_ok ls f (parse_line L i raw (f, m, seen))"
    unfolding raw using b i by (intro parse_line_ok [OF L Cons.prems(1,2) i]) blast
  show ?case
  proof (cases "parse_line L i raw (f, m, seen)")
    case (Inl g)
    then show ?thesis using ok by (simp add: line_ok_def)
  next
    case (Inr s)
    obtain g m' seen' where s: "s = (g, m', seen')" by (cases s) auto
    have "kept_file ls f g" "read_status g" using ok Inr s by (simp_all add: line_ok_def)
    moreover from this have "kept_file ls g (parse_lines L (i + 1) raws (g, m', seen'))"
      using Cons.IH [OF _ _ raw(2)] by (simp add: kept_file_def)
    ultimately show ?thesis using Inr s by (auto simp: kept_file_def intro: same_frame_trans)
  qed
qed

subsection \<open>A file\<close>

definition parsed :: "string list \<Rightarrow> SSHFileObservation \<Rightarrow> SSHFileObservation \<Rightarrow> bool" where
  "parsed ls f g \<longleftrightarrow> same_frame f g \<and> findings_ok (sf_Findings g) \<and> sf_Keys g \<noteq> None \<and> sf_Directives g \<noteq> None
     \<and> (if read_status g then entries_ok ls g
        else (sf_Status g = ''sensitive_content'' \<or> sf_Status g = ''parse_error'') \<and> elems (sf_Keys g) = [] \<and> elems (sf_Directives g) = [])"

lemma elems_Some [simp]: "elems (Some xs) = xs" by (simp add: elems_def)

lemma ssh_parse_ok:
  assumes L: "ssh_spec L" and f: "entries_ok (split_on (CHR 0x0A) data) f" "read_status f" "sf_Keys f = Some []" "sf_Directives f = Some []"
  shows "parsed (split_on (CHR 0x0A) data) f (ssh_parse L data f) \<and> (read_status (ssh_parse L data f) \<longrightarrow> \<not> contains data ''PRIVATE KEY'')"
proof -
  let ?ls = "split_on (CHR 0x0A) data"
  have fi: "findings_ok (sf_Findings f)" using f(1) by (simp add: entries_ok_def)
  have early: "parsed ?ls f (f\<lparr>sf_Status := s\<rparr>) \<and> \<not> read_status (f\<lparr>sf_Status := s\<rparr>)" if "s = ''sensitive_content'' \<or> s = ''parse_error''" for s
    using that fi f(3,4) by (auto simp: parsed_def same_frame_def read_status_def)
  have limit: "parsed ?ls f (invalid ''line_limit'' f) \<and> \<not> read_status (invalid ''line_limit'' f)"
    using fi f(3,4) by (auto simp: parsed_def read_status_def findings_invalid)
  have run: "parsed ?ls f (let f1 = parse_lines L 0 ?ls (f, False, {});
                 f2 = (if sf_Status f1 = ''parse_error'' then f1\<lparr>sf_Keys := Some [], sf_Directives := Some []\<rparr> else f1)
             in if sf_Kind f2 = ''authorized_keys'' \<and> sf_Status f2 = ''ok'' \<and> length (elems (sf_Keys f2)) = 0
                then finding ''empty_key_file'' f2 else f2)"
    if b: "\<not> (length ?ls > 513 \<or> (length ?ls = 513 \<and> length (?ls ! 512) \<noteq> 0))"
  proof -
    have "?ls ! j = []" if "j < length ?ls" "512 \<le> j" for j
    proof -
      have "j = 512" "length ?ls = 513" using b that by linarith+
      then show ?thesis using b by auto
    qed
    then have k: "kept_file ?ls f (parse_lines L 0 ?ls (f, False, {}))" by (intro parse_lines_ok [OF L _ f(1,2)]) auto
    define f1 where "f1 = parse_lines L 0 ?ls (f, False, {})"
    define f2 where "f2 = (if sf_Status f1 = ''parse_error'' then f1\<lparr>sf_Keys := Some [], sf_Directives := Some []\<rparr> else f1)"
    have "parsed ?ls f f2"
      using k by (auto simp: kept_file_def parsed_def f1_def [symmetric] f2_def read_status_def entries_ok_def same_frame_def)
    moreover from this have "parsed ?ls f (finding ''empty_key_file'' f2)" if "sf_Status f2 = ''ok''"
      using that by (auto simp: parsed_def read_status_def entries_finding findings_finding same_frame_def)
    ultimately show ?thesis by (simp add: Let_def f1_def [symmetric] f2_def [symmetric])
  qed
  show ?thesis using early limit run by (auto simp: ssh_parse_def Let_def)
qed

text \<open>What a report promises of a file: if it was read, it was a file of the mapped owner and group and limit, the digest is that
  of its bytes, and the comparison with the local baseline is right.\<close>

definition file_sound :: "crypto \<Rightarrow> SSHFile \<Rightarrow> SSHFileObservation \<Rightarrow> bool" where
  "file_sound C m f \<longleftrightarrow> sf_ID f = fl_ID m \<and> sf_Kind f = fl_Kind m \<and> (read_status f \<longrightarrow>
     (\<exists>data. sf_SHA256 f = Digest C data \<and> fm_Size (sf_Metadata f) = int (length data) \<and> int (length data) \<le> fl_MaxBytes m
        \<and> \<not> contains data ''PRIVATE KEY'' \<and> (\<forall>d\<in>set (elems (sf_Directives f)). from_line (split_on (CHR 0x0A) data) d))
     \<and> fm_UID (sf_Metadata f) = fl_OwnerUID m \<and> fm_GID (sf_Metadata f) = fl_OwnerGID m
     \<and> (sf_Baseline f = ''match'' \<longleftrightarrow> fl_BaselineSHA256 m = sf_SHA256 f)
     \<and> (sf_Baseline f = ''changed'' \<longleftrightarrow> fl_BaselineSHA256 m \<noteq> '''' \<and> fl_BaselineSHA256 m \<noteq> sf_SHA256 f))"

lemma SSHFile_Validate_parts:
  "SSHFile_Validate m \<Longrightarrow> ResourceID (fl_ID m) \<and> (fl_Kind m = ''sshd_config'' \<or> fl_Kind m = ''authorized_keys'')"
  by (auto simp: SSHFile_Validate_def split: if_splits)

lemma observe_file_ok:
  assumes C: "sha256_spec C" and L: "ssh_spec L" and m: "SSHFile_Validate m" and ob: "observation_ok m ob"
  shows "SSHFile_ok (observe_file C L m ob) \<and> file_sound C m (observe_file C L m ob)"
proof -
  define f1 where "f1 = opened m ob"
  have fr: "sf_Status f1 = ob_Code ob" "sf_Keys f1 = Some []" "sf_Directives f1 = Some []" "findings_ok (sf_Findings f1)"
    using findings_finding by (auto simp: f1_def opened_def Let_def findings_ok_def finding_def)
  have sel: "sf_ID f1 = fl_ID m" "sf_Kind f1 = fl_Kind m" "sf_MetadataAvailable f1 = ob_MetadataAvailable ob"
    "sf_Metadata f1 = ob_Metadata ob" "sf_SHA256 f1 = []" "sf_Baseline f1 = ''unavailable''" by (simp_all add: f1_def opened_def Let_def)
  note parts = SSHFile_Validate_parts [OF m]
  have meta: "fm_Mode (ob_Metadata ob) \<le> 4095" "0 \<le> fm_Size (ob_Metadata ob)" "\<not> ob_MetadataAvailable ob \<longrightarrow> ob_Metadata ob = no_metadata"
    using ob by (auto simp: observation_ok_def no_metadata_def split: if_splits)
  show ?thesis
  proof (cases "ob_Code ob = ''ok''")
    case False
    then have c: "ob_Code ob \<in> set file_codes" using ob by (simp add: observation_ok_def)
    have st: "InspectionCode (ob_Code ob) \<and> ob_Code ob \<noteq> ''ok'' \<and> ob_Code ob \<noteq> ''partial''"
      using c unfolding InspectionCode_def oneOf_iff file_codes_def by auto
    have "observe_file C L m ob = f1" using False by (simp add: observe_file_def Let_def f1_def)
    then show ?thesis using fr sel parts meta st findings_bound [OF fr(4)]
      by (auto simp: SSHFile_ok_def file_sound_def read_status_def oneOf_def)
  next
    case True
    then have o: "ob_MetadataAvailable ob" "fm_UID (ob_Metadata ob) = fl_OwnerUID m" "fm_GID (ob_Metadata ob) = fl_OwnerGID m"
      "fm_Size (ob_Metadata ob) = int (length (ob_Data ob))" "int (length (ob_Data ob)) \<le> fl_MaxBytes m"
      using ob by (simp_all add: observation_ok_def)
    let ?ls = "split_on (CHR 0x0A) (ob_Data ob)"
    have e: "entries_ok ?ls f1" using fr by (simp add: entries_ok_def)
    have r: "read_status f1" using fr True by (simp add: read_status_def)
    define f2 where "f2 = ssh_parse L (ob_Data ob) f1"
    have p: "parsed ?ls f1 f2" "read_status f2 \<longrightarrow> \<not> contains (ob_Data ob) ''PRIVATE KEY''"
      using ssh_parse_ok [OF L e r fr(2,3)] by (simp_all add: f2_def)
    have sel2: "sf_ID f2 = fl_ID m" "sf_Kind f2 = fl_Kind m" "sf_MetadataAvailable f2 = ob_MetadataAvailable ob"
      "sf_Metadata f2 = ob_Metadata ob" "sf_SHA256 f2 = []" "sf_Baseline f2 = ''unavailable''" "findings_ok (sf_Findings f2)"
      "sf_Keys f2 \<noteq> None" "sf_Directives f2 \<noteq> None"
      using p(1) sel by (simp_all add: parsed_def same_frame_def)
    show ?thesis
    proof (cases "read_status f2")
      case rd: False
      then have "observe_file C L m ob = f2"
        using True by (simp add: observe_file_def Let_def f1_def f2_def read_status_def)
      moreover have "(sf_Status f2 = ''sensitive_content'' \<or> sf_Status f2 = ''parse_error'') \<and> elems (sf_Keys f2) = [] \<and> elems (sf_Directives f2) = []"
        using p(1) rd by (simp add: parsed_def)
      ultimately show ?thesis using rd sel2 parts meta findings_bound [OF sel2(7)]
        by (auto simp: SSHFile_ok_def file_sound_def read_status_def oneOf_def InspectionCode_def)
    next
      case rd: True
      define d where "d = Digest C (ob_Data ob)"
      define g where "g = with_baseline C m (ob_Data ob) f2"
      have g: "observe_file C L m ob = g"
        using True rd by (simp add: observe_file_def Let_def f1_def f2_def g_def read_status_def)
      have h: "Hex d 64" "d \<noteq> []" using Hex_Digest [OF C, of "ob_Data ob"] by (auto simp: d_def Hex_def)
      have e2: "entries_ok ?ls f2" using p(1) rd by (simp add: parsed_def)
      have gs: "sf_ID g = fl_ID m" "sf_Kind g = fl_Kind m" "sf_MetadataAvailable g = ob_MetadataAvailable ob" "sf_Metadata g = ob_Metadata ob"
        "sf_SHA256 g = d" "sf_Keys g = sf_Keys f2" "sf_Directives g = sf_Directives f2" "sf_Status g = sf_Status f2"
        "sf_Baseline g = (if fl_BaselineSHA256 m = [] then ''unconfigured'' else if fl_BaselineSHA256 m \<noteq> d then ''changed'' else ''match'')"
        by (simp_all add: g_def with_baseline_def Let_def d_def sel2)
      have gf: "findings_ok (sf_Findings g)" using sel2(7) findings_finding by (auto simp: g_def with_baseline_def Let_def)
      have en: "length (elems (sf_Keys g)) \<le> 8" "length (elems (sf_Directives g)) \<le> 8" "sf_Kind g \<noteq> ''authorized_keys'' \<longrightarrow> elems (sf_Keys g) = []"
        "sf_Kind g = ''authorized_keys'' \<longrightarrow> elems (sf_Directives g) = []" "list_all Key_ok (elems (sf_Keys g))"
        "list_all Directive_ok (elems (sf_Directives g))" "\<forall>d\<in>set (elems (sf_Directives g)). from_line ?ls d"
        using e2 by (auto simp: entries_ok_def gs sel2 list_all_iff)
      have st: "sf_Status g = ''ok'' \<or> sf_Status g = ''partial''" using rd by (simp add: gs read_status_def)
      have "SSHFile_ok g" using gs gf sel2 parts meta o h en st findings_bound [OF gf]
        unfolding SSHFile_ok_def oneOf_iff InspectionCode_def by auto
      moreover have "file_sound C m g"
        unfolding file_sound_def using gs o h p(2) rd en(7) by (auto simp: d_def read_status_def)
      ultimately show ?thesis by (simp add: g)
    qed
  qed
qed

subsection \<open>A report\<close>

lemma observe_files_ok:
  assumes "sha256_spec C" "ssh_spec L" "list_all SSHFile_Validate ms"
  shows "pred_state (\<lambda>r. case r of None \<Rightarrow> True | Some fs \<Rightarrow> list_all2 (\<lambda>m f. SSHFile_ok f \<and> file_sound C m f) ms fs) (observe_files C L S ms)"
  using assms(3)
proof (induction ms)
  case (Cons m ms)
  let ?P = "\<lambda>ms r. case r of None \<Rightarrow> True | Some fs \<Rightarrow> list_all2 (\<lambda>m f. SSHFile_ok f \<and> file_sound C m f) ms fs"
  have m: "SSHFile_Validate m" and IH: "pred_state (?P ms) (observe_files C L S ms)" using Cons by simp_all
  have "pred_state (?P (m # ms)) (do {
      ob \<leftarrow> saferead_Read S m;
      r \<leftarrow> observe_files C L S ms;
      State_Monad.return (map_option ((#) (observe_file C L m ob)) r) })"
  proof (rule bind_predI, rule pred_stateI, rule bind_predI, rule pred_stateI)
    fix ob s s' r t t'
    assume "run_state (saferead_Read S m) s = (ob, s')" and r: "run_state (observe_files C L S ms) t = (r, t')"
    then have "observation_ok m ob" using saferead_ok by (metis pred_stateD)
    moreover have "?P ms r" using IH r by (rule pred_stateD)
    ultimately show "pred_state (?P (m # ms)) (State_Monad.return (map_option ((#) (observe_file C L m ob)) r))"
      using observe_file_ok [OF assms(1,2) m] by (auto split: option.split)
  qed
  then show ?case by (auto intro!: pred_state_bind)
qed simp

lemma coverage_want: "coverage fs = want_coverage fs" if "fs \<noteq> []"
  using that by (cases fs) (auto simp: coverage_def want_coverage_def read_status_def list_ex_iff list_all_iff)

lemma ssh_Collect_ok:
  assumes C: "sha256_spec C" and L: "ssh_spec L" and t: "1 \<le> t" "t \<le> now"
  shows "pred_state (\<lambda>res. case res of Inl e \<Rightarrow> \<not> SSHProfile_Validate p \<or> e = Err ''context canceled''
     | Inr r \<Rightarrow> SSHReport_Validate r now \<and> sr_ProfileID r = sp_ID p \<and> list_all2 (file_sound C) (elems (sp_Files p)) (elems (sr_Files r)))
     (ssh_Collect C L S t p)"
proof (cases "SSHProfile_Validate p")
  case False
  then show ?thesis by (simp add: ssh_Collect_def)
next
  case True
  then have v: "ResourceID (sp_ID p)" "1 \<le> length (elems (sp_Files p))" "length (elems (sp_Files p)) \<le> 4"
    "list_all SSHFile_Validate (elems (sp_Files p))" "distinct (map fl_ID (elems (sp_Files p)))"
    by (simp_all add: SSHProfile_Validate_def seen_loop_iff MaxFiles_def)
  have rep: "SSHReport_Validate \<lparr>sr_ProfileID = sp_ID p, sr_ObservedAt = t, sr_Coverage = coverage fs, sr_Files = Some fs\<rparr> now
      \<and> list_all2 (file_sound C) (elems (sp_Files p)) fs"
    if fs: "list_all2 (\<lambda>m f. SSHFile_ok f \<and> file_sound C m f) (elems (sp_Files p)) fs" for fs
  proof -
    have "map sf_ID fs = map fl_ID (elems (sp_Files p))"
      using fs by (auto simp: list_all2_conv_all_nth file_sound_def intro: nth_equalityI)
    then have d: "distinct (map sf_ID fs)" using v(5) by simp
    have len: "length fs = length (elems (sp_Files p))" using fs by (simp add: list_all2_lengthD)
    then have ne: "fs \<noteq> []" using v(2) by auto
    have ok: "list_all SSHFile_ok fs" using fs by (auto simp: list_all2_conv_all_nth list_all_length)
    have "oneOf (coverage fs) [''complete'', ''partial'', ''unavailable'']" by (simp add: coverage_def oneOf_def)
    then have "SSHReport_Validate \<lparr>sr_ProfileID = sp_ID p, sr_ObservedAt = t, sr_Coverage = coverage fs, sr_Files = Some fs\<rparr> now"
      using v t d ok len coverage_want [OF ne] by (simp add: SSHReport_Validate_def seen_loop_iff)
    moreover have "list_all2 (file_sound C) (elems (sp_Files p)) fs" using fs by (rule list_all2_mono) simp
    ultimately show ?thesis ..
  qed
  define Q where "Q = (\<lambda>res. case res of Inl e \<Rightarrow> \<not> SSHProfile_Validate p \<or> e = Err ''context canceled''
     | Inr r \<Rightarrow> SSHReport_Validate r now \<and> sr_ProfileID r = sp_ID p \<and> list_all2 (file_sound C) (elems (sp_Files p)) (elems (sr_Files r)))"
  have "pred_state Q (ssh_Collect C L S t p)" unfolding ssh_Collect_def
  proof (simp only: True not_True_eq_False if_False, rule bind_predI, rule pred_stateI, rule pred_state_bind)
    fix r s s' over
    assume "run_state (observe_files C L S (elems (sp_Files p))) s = (r, s')"
    with observe_files_ok [OF C L v(4)] have
      "case r of None \<Rightarrow> True | Some fs \<Rightarrow> list_all2 (\<lambda>m f. SSHFile_ok f \<and> file_sound C m f) (elems (sp_Files p)) fs" by (rule pred_stateD)
    with rep show "pred_state Q (State_Monad.return (case r of
          None \<Rightarrow> Inl (Err ''context canceled'')
        | Some files \<Rightarrow>
            if over then Inl (Err ''context canceled'')
            else Inr \<lparr>sr_ProfileID = sp_ID p, sr_ObservedAt = t, sr_Coverage = coverage files, sr_Files = Some files\<rparr>))"
      by (auto simp: Q_def split: option.split)
  qed
  then show ?thesis by (simp add: Q_def)
qed

end
