(* ===== verification/Service_Status.thy ===== *)
theory Service_Status
  imports Safe_Read
begin

unbundle bit_operations_syntax

section \<open>The service status query\<close>

text \<open>
  \<open>internal/service\<close> (\<open>status.go\<close>, \<open>linux.go\<close>) on Linux. The operating system and the bus are a record of calls that may answer
  anything; the D-Bus library behind them is \<open>godbus\<close>, and the filter in front of it is the theory \<open>Guard\<close>. The owner that \<open>query\<close>
  verifies is handed to that filter by \<open>bs_set_owner\<close>.
\<close>

datatype bus_failure = NoSuchUnit | BusFailure

text \<open>\<open>bs_Dial\<close> is the connection with its deadline and raw descriptor, \<open>bs_peer\<close> the user of the socket's other end, \<open>bs_Auth\<close>
  the library's connection, authentication and greeting; \<open>bs_Get\<close> answers with a string, or \<open>None\<close> in the inner option
  for a value of another type; \<open>bs_IsValid\<close> is \<open>ObjectPath.IsValid\<close>.\<close>

record 'w bus_system =
  bs_Lstat :: "string \<Rightarrow> ('w, stat option) state"
  bs_Dial :: "('w, bool) state"
  bs_peer :: "('w, int option) state"
  bs_Auth :: "('w, bool) state"
  bs_GetNameOwner :: "string \<Rightarrow> ('w, string option) state"
  bs_GetConnectionUnixUser :: "string \<Rightarrow> ('w, int option) state"
  bs_set_owner :: "string \<Rightarrow> ('w, unit) state"
  bs_GetUnit :: "string \<Rightarrow> string \<Rightarrow> ('w, bus_failure + string) state"
  bs_Get :: "string \<Rightarrow> string \<Rightarrow> string \<Rightarrow> ('w, string option option) state"
  bs_IsValid :: "string \<Rightarrow> bool"
  bs_over :: "('w, string option) state"
  bs_now :: "('w, int) state"

definition service_code :: "string \<Rightarrow> ServiceReport" where
  "service_code ec = \<lparr>sv_ServiceID = [], sv_ObservedAt = 0, sv_Available = False, sv_Code = ec, sv_Unit = [], sv_LoadState = [],
     sv_ActiveState = [], sv_SubState = []\<rparr>"

abbreviation S_IFSOCK :: "32 word" where "S_IFSOCK \<equiv> 0xC000"

definition bus_dir :: "stat \<Rightarrow> bool" where
  "bus_dir st \<longleftrightarrow> st_Mode st AND S_IFMT = S_IFDIR \<and> st_Uid st = 0 \<and> st_Mode st AND 0x12 = 0"

text \<open>The four properties, in order; \<open>None\<close> as soon as one fails.\<close>

primrec unit_values :: "'w bus_system \<Rightarrow> string \<Rightarrow> string \<Rightarrow> string list \<Rightarrow> ('w, string list option) state" where
  "unit_values B owner path [] = State_Monad.return (Some [])"
| "unit_values B owner path (name # names) = do {
     v \<leftarrow> bs_Get B owner path name;
     (case v of
        Some (Some val) \<Rightarrow> do {
          vs \<leftarrow> unit_values B owner path names;
          State_Monad.return (map_option ((#) val) vs) }
      | _ \<Rightarrow> State_Monad.return None) }"

definition queryUnit :: "'w bus_system \<Rightarrow> string \<Rightarrow> Service \<Rightarrow> ('w, ServiceReport) state" where
  "queryUnit B owner s = do {
     r \<leftarrow> bs_GetUnit B owner (sc_Unit s);
     (case r of
        Inl NoSuchUnit \<Rightarrow> State_Monad.return (service_code ''unit_not_loaded'')
      | Inl BusFailure \<Rightarrow> State_Monad.return (service_code ''invalid_response'')
      | Inr path \<Rightarrow>
          if \<not> bs_IsValid B path \<or> \<not> has_prefix path ''/org/freedesktop/systemd1/unit/'' \<or> length path > 256
          then State_Monad.return (service_code ''invalid_response'')
          else do {
            vs \<leftarrow> unit_values B owner path [''Id'', ''LoadState'', ''ActiveState'', ''SubState''];
            (case vs of
               None \<Rightarrow> State_Monad.return (service_code ''invalid_response'')
             | Some values \<Rightarrow>
                 if values ! 0 \<noteq> sc_Unit s then State_Monad.return (service_code ''alias_mismatch'')
                 else do {
                   t \<leftarrow> bs_now B;
                   now \<leftarrow> bs_now B;
                   let rep = \<lparr>sv_ServiceID = sc_ID s, sv_ObservedAt = t, sv_Available = True, sv_Code = [], sv_Unit = values ! 0,
                     sv_LoadState = values ! 1, sv_ActiveState = values ! 2, sv_SubState = values ! 3\<rparr>;
                   State_Monad.return (if ServiceReport_Validate rep now then rep else service_code ''invalid_response'') }) }) }"

text \<open>The verification of systemd's name on the bus.\<close>

definition verify_owner :: "'w bus_system \<Rightarrow> Service \<Rightarrow> ('w, ServiceReport) state" where
  "verify_owner B s = do {
     r \<leftarrow> bs_GetNameOwner B ''org.freedesktop.systemd1'';
     (case r of
        None \<Rightarrow> State_Monad.return (service_code ''bus_unavailable'')
      | Some owner \<Rightarrow>
          if \<not> has_prefix owner '':'' \<or> length owner > 128 then State_Monad.return (service_code ''invalid_response'')
          else do {
            uid \<leftarrow> bs_GetConnectionUnixUser B owner;
            if uid \<noteq> Some 0 then State_Monad.return (service_code ''permission_denied'')
            else do {
              bs_set_owner B owner;
              queryUnit B owner s } }) }"

text \<open>The connection: the same socket before and after dialling, and a peer that owns it unless root does.\<close>

definition bus_connect :: "'w bus_system \<Rightarrow> stat \<Rightarrow> Service \<Rightarrow> ('w, ServiceReport) state" where
  "bus_connect B socket s = do {
     dialled \<leftarrow> bs_Dial B;
     if \<not> dialled then State_Monad.return (service_code ''bus_unavailable'')
     else do {
       current \<leftarrow> bs_Lstat B ''/run/dbus/system_bus_socket'';
       (case current of
          None \<Rightarrow> State_Monad.return (service_code ''bus_unavailable'')
        | Some cur \<Rightarrow>
            if st_Dev cur \<noteq> st_Dev socket \<or> st_Ino cur \<noteq> st_Ino socket
            then State_Monad.return (service_code ''bus_unavailable'')
            else do {
              peer \<leftarrow> bs_peer B;
              (case peer of
                 None \<Rightarrow> State_Monad.return (service_code ''permission_denied'')
               | Some uid \<Rightarrow>
                   if uid \<noteq> st_Uid socket \<and> st_Uid socket \<noteq> 0 then State_Monad.return (service_code ''permission_denied'')
                   else do {
                     ok \<leftarrow> bs_Auth B;
                     if ok then verify_owner B s else State_Monad.return (service_code ''bus_unavailable'') }) }) } }"

primrec bus_dirs :: "'w bus_system \<Rightarrow> string list \<Rightarrow> ('w, bool) state" where
  "bus_dirs B [] = State_Monad.return True"
| "bus_dirs B (path # paths) = do {
     st \<leftarrow> bs_Lstat B path;
     (case st of
        None \<Rightarrow> State_Monad.return False
      | Some d \<Rightarrow> if bus_dir d then bus_dirs B paths else State_Monad.return False) }"

definition service_query :: "'w bus_system \<Rightarrow> Service \<Rightarrow> ('w, ServiceReport) state" where
  "service_query B s = do {
     ok \<leftarrow> bus_dirs B [''/run'', ''/run/dbus''];
     if \<not> ok then State_Monad.return (service_code ''bus_unavailable'')
     else do {
       socket \<leftarrow> bs_Lstat B ''/run/dbus/system_bus_socket'';
       (case socket of
          None \<Rightarrow> State_Monad.return (service_code ''bus_unavailable'')
        | Some st \<Rightarrow>
            if st_Mode st AND S_IFMT \<noteq> S_IFSOCK then State_Monad.return (service_code ''bus_unavailable'')
            else bus_connect B st s) } }"

definition service_Collect :: "'w bus_system \<Rightarrow> Service \<Rightarrow> ('w, ServiceReport result) state" where
  "service_Collect B s =
     (if \<not> Service_Validate s then State_Monad.return (Inl (Err ''invalid local service mapping''))
      else do {
        e \<leftarrow> bs_over B;
        (case e of
           Some m \<Rightarrow> State_Monad.return (Inl (Err m))
         | None \<Rightarrow> do {
             r \<leftarrow> service_query B s;
             t \<leftarrow> bs_now B;
             e2 \<leftarrow> bs_over B;
             State_Monad.return (case e2 of
               Some m \<Rightarrow> Inl (Err m)
             | None \<Rightarrow> Inr (r\<lparr>sv_ServiceID := sc_ID s, sv_ObservedAt := t\<rparr>)) }) })"

subsection \<open>Every report is well formed\<close>

text \<open>Up to its identifier and time, which \<open>Collect\<close> sets, what a query returns is a valid report, and one of an available
  service is of the mapped unit.\<close>

definition query_ok :: "Service \<Rightarrow> ServiceReport \<Rightarrow> bool" where
  "query_ok s r \<longleftrightarrow> (\<forall>i t now. ResourceID i \<longrightarrow> 1 \<le> t \<longrightarrow> t \<le> now \<longrightarrow> ServiceReport_Validate (r\<lparr>sv_ServiceID := i, sv_ObservedAt := t\<rparr>) now)
     \<and> (sv_Available r \<longrightarrow> sv_Unit r = sc_Unit s)"

lemma service_code_ok:
  "ec \<in> {''bus_unavailable'', ''permission_denied'', ''unit_not_loaded'', ''alias_mismatch'', ''invalid_response''} \<Longrightarrow> query_ok s (service_code ec)"
  by (auto simp: query_ok_def service_code_def ServiceReport_Validate_def oneOf_def)

lemma service_codes [simp]:
  "query_ok s (service_code ''bus_unavailable'')" "query_ok s (service_code ''permission_denied'')"
  "query_ok s (service_code ''unit_not_loaded'')" "query_ok s (service_code ''alias_mismatch'')" "query_ok s (service_code ''invalid_response'')"
  by (simp_all add: service_code_ok)

lemma queryUnit_ok: "pred_state (query_ok s) (queryUnit B owner s)"
proof -
  have v: "query_ok s rep" if "ServiceReport_Validate rep now" "sv_Available rep" "sv_Unit rep = sc_Unit s" for rep now
    using that by (auto simp: query_ok_def ServiceReport_Validate_def)
  show ?thesis unfolding queryUnit_def
    by (auto simp: Let_def split: sum.split bus_failure.split option.split intro!: pred_state_bind) (rule v, assumption, simp_all)
qed

lemma service_query_ok: "pred_state (query_ok s) (service_query B s)"
proof -
  have o: "pred_state (query_ok s) (verify_owner B s)"
    unfolding verify_owner_def by (auto simp: queryUnit_ok split: option.split intro!: pred_state_bind)
  have c: "pred_state (query_ok s) (bus_connect B st s)" for st
    unfolding bus_connect_def by (auto simp: o split: option.split intro!: pred_state_bind)
  show ?thesis unfolding service_query_def by (auto simp: c split: option.split intro!: pred_state_bind)
qed

lemma service_Collect_ok:
  assumes "run_state (service_Collect B s) w = (Inr r, w')" "1 \<le> sv_ObservedAt r" "sv_ObservedAt r \<le> now"
  shows "ServiceReport_Validate r now \<and> sv_ServiceID r = sc_ID s \<and> (sv_Available r \<longrightarrow> sv_Unit r = sc_Unit s)"
proof -
  define Q where "Q = (\<lambda>res. case res of Inl (e :: error) \<Rightarrow> True | Inr x \<Rightarrow>
    Service_Validate s \<and> (\<exists>q t. query_ok s q \<and> x = q\<lparr>sv_ServiceID := sc_ID s, sv_ObservedAt := t\<rparr>))"
  have "pred_state Q (do {
      q \<leftarrow> service_query B s;
      t \<leftarrow> bs_now B;
      e2 \<leftarrow> bs_over B;
      State_Monad.return (case e2 of Some m \<Rightarrow> Inl (Err m) | None \<Rightarrow> Inr (q\<lparr>sv_ServiceID := sc_ID s, sv_ObservedAt := t\<rparr>)) })"
    if "Service_Validate s"
  proof (rule bind_predI, rule pred_stateI)
    fix q a b
    assume "run_state (service_query B s) a = (q, b)"
    then have "query_ok s q" using service_query_ok by (metis pred_stateD)
    with that show "pred_state Q (bs_now B \<bind> (\<lambda>t. bs_over B \<bind> (\<lambda>e2. State_Monad.return
        (case e2 of Some m \<Rightarrow> Inl (Err m) | None \<Rightarrow> Inr (q\<lparr>sv_ServiceID := sc_ID s, sv_ObservedAt := t\<rparr>)))))"
      by (auto simp: Q_def split: option.split intro!: pred_state_bind) blast
  qed
  then have "pred_state Q (service_Collect B s)"
    unfolding service_Collect_def by (auto simp: Q_def split: option.split intro!: pred_state_bind)
  from pred_stateD [OF this assms(1)] obtain q t where q: "Service_Validate s" "query_ok s q"
    "r = q\<lparr>sv_ServiceID := sc_ID s, sv_ObservedAt := t\<rparr>" by (auto simp: Q_def)
  then show ?thesis using assms(2,3) by (auto simp: query_ok_def Service_Validate_def)
qed

end
