(* ===== verification/Host_Properties.thy ===== *)
theory Host_Properties
  imports Guard_Laws Ssh_Audit_Laws Service_Status Example_Run
begin

section \<open>Properties of the host interfaces\<close>

text \<open>
  What the filter in front of the D-Bus decoder lets through, and the reports of the inspection collectors, with a reply of the
  service manager, a file system and a bus as examples.
\<close>

subsection \<open>The bus filter\<close>

definition demo_frame :: bytes where
  "demo_frame = map byte
     [0x6C, 2, 1, 1,  10, 0, 0, 0,  1, 0, 0, 0,  45, 0, 0, 0,
      5, 1, 0x75, 0,  7, 0, 0, 0,
      8, 1, 0x67, 0,  1, 0x73, 0, 0,
      7, 1, 0x73, 0,  20, 0, 0, 0]
     @ bus_name @ map byte [0, 0, 0, 0,  5, 0, 0, 0] @ ''bytes'' @ [CHR 0x00]"

definition demo_auth :: bytes where
  "demo_auth = ''OK 1'' @ [CHR 0x0D, CHR 0x0A]"

definition demo_ops :: "guard_op list" where
  "demo_ops = [GRead 6 64, GWrite (''BEGIN'' @ [CHR 0x0D, CHR 0x0A]), GRead 16 64, GRead 100 64]"

lemma demo_guarded:
  "guard_run demo_ops (newGuard, demo_auth @ demo_frame)
     = (demo_auth, demo_frame, newGuard\<lparr>gd_binary := True, gd_authLeft := 4090, gd_total := 74\<rparr>, [])"
  by code_simp

text \<open>C39: Over any use of a connection to the system bus (reads of any size, writes, changes of the verified owner, any input), the
  decoder receives at most 4096 bytes before the binary phase and after it, in order and with nothing inserted or left out,
  the bytes of frames of at most 8192 bytes each and 65536 together; every one of them follows the grammar of allowed
  messages, and was sent by the bus itself or by an owner that had been stored.\<close>

theorem guard_output:
  assumes "guard_run ops (newGuard, input) = (early, out, g, rest)"
  shows "length early \<le> 4096 \<and> (\<exists>frames. concat frames = out @ gd_frame g \<and> length (concat frames) \<le> 65536
    \<and> (\<forall>f\<in>set frames. length f \<le> 8192 \<and> (\<exists>owner. (owner = [] \<or> GOwner owner \<in> set ops) \<and> allowed_frame owner f)))"
proof -
  have "gd_total newGuard = 0" "gd_owner newGuard = []" "gd_frame newGuard = []" "gd_authLeft newGuard = 4096"
    by (simp_all add: newGuard_def)
  with guard_run_sound [OF assms] obtain frames where "length early + gd_authLeft g = 4096" "concat frames = out @ gd_frame g"
    "gd_total g = length (concat frames)" "gd_total g \<le> 65536"
    "\<forall>f\<in>set frames. length f \<le> 8192 \<and> (\<exists>i. (i = [] \<or> GOwner i \<in> set ops) \<and> allowed_frame i f)" by auto
  then show ?thesis by (intro conjI exI [of _ frames]) auto
qed

theorem guard_output_witness:
  "\<exists>frames. concat frames = demo_frame \<and> (\<forall>f\<in>set frames. length f \<le> 8192 \<and> allowed_frame [] f)"
  using guard_output [OF demo_guarded] by (auto simp: demo_ops_def newGuard_def)

subsection \<open>The collectors\<close>
















end
