(* ===== verification/Spec2Isabelle.thy ===== *)
theory Spec2Isabelle
  imports Probe_Properties Wire_Properties Dispatch_Properties Admin_Properties System_Properties Management_Properties Host_Properties
begin

text \<open>
  Argus C2: a server that sends signed, read-only inspection tasks to enrolled probes, which check every task against a local
  policy before they run it. This development models the program's own logic and proves what its design promises.

  The program. An administrator's request (\<open>internal/management\<close>) reaches the server's store (\<open>internal/state\<close>), one SQLite file
  that keeps nodes, credentials, enrollment tokens, the task queue, accounts, sessions and a hash-chained audit log
  (\<open>internal/audit\<close>). A probe enrolls with a one-time token (\<open>internal/enrollment\<close>), keeps a connection with a client
  certificate (\<open>internal/identity\<close>, \<open>internal/server\<close>), sends heartbeats, polls for signed tasks and submits results
  (\<open>internal/agent\<close>). Messages are strict JSON (\<open>internal/strictjson\<close>, \<open>internal/protocol\<close>); task envelopes are signed
  (\<open>internal/signing\<close>). On the probe, the engine (\<open>internal/probe\<close>) authenticates an envelope, decides under the local policy
  (\<open>internal/policy\<close>), records the decision before it runs a collector (\<open>internal/tasks\<close>), and keeps the result until the server
  has acknowledged it.

  Definitions, in the order of the code's layers, each in the theory that names its files in its own introduction:
  \<^item> \<open>Prelude\<close>, \<open>Encoding\<close>: error values, results, Go's wrap-around, strings, hexadecimal, base64, UTF-8, decimal numbers.
  \<^item> \<open>Json\<close>: the reader of \<open>encoding/json\<close>, \<open>strictjson.go\<close>, and the printer; \<open>Json_Laws\<close>, \<open>Task_Params\<close>, \<open>Result_Codec\<close>,
    \<open>Trust_Codec\<close>: the round trips and the reader's fuel.
  \<^item> \<open>Identity\<close> (\<open>identity.go\<close>), \<open>Telemetry\<close>, \<open>Inspection\<close>, \<open>Protocol\<close> (all of \<open>internal/protocol\<close>), \<open>Audit_Log\<close> (\<open>audit.go\<close>),
    \<open>Policy\<close> (\<open>resources.go\<close>, the configuration in \<open>collector.go\<close>, \<open>policy.go\<close>), \<open>Signing\<close> (\<open>signing.go\<close>, \<open>envelope_v2.go\<close>,
    \<open>trust.go\<close>, \<open>health.go\<close>), \<open>Adminauth\<close> (\<open>password.go\<close>).
  \<^item> \<open>Probe\<close> (\<open>state.go\<close>, \<open>trust.go\<close>, \<open>engine.go\<close>, \<open>tasks.go\<close>): the probe's database is the record \<open>probe_db\<close>; \<open>Probe_Laws\<close> has its
    invariant \<open>probe_inv\<close> and the step relation \<open>probe_step\<close>, \<open>Probe_Engine\<close> the consequences for a call of the engine.
  \<^item> \<open>Server\<close>, \<open>Server_Tasks\<close>, \<open>Server_Admin\<close> (all of \<open>internal/state\<close>): the store is the record \<open>server_db\<close>, one list of rows per
    table; \<open>Server_Laws\<close> and \<open>Server_Inv\<close> have its invariant \<open>server_inv\<close>, \<open>Server_Run\<close> the operations as one datatype and their
    histories, \<open>Server_History\<close> what never goes back (\<open>grows\<close>), \<open>Server_Results\<close> the acceptance of results.
  \<^item> \<open>Http\<close>, \<open>Server_Http\<close> (\<open>server.go\<close>, \<open>tasks.go\<close> of \<open>internal/server\<close>), \<open>Issuer\<close> (\<open>internal/enrollment\<close>), \<open>Management\<close>
    (\<open>management/http.go\<close>): handlers as functions from a request and the store to a response and the store.
  \<^item> \<open>Agent\<close> (\<open>client.go\<close>, \<open>tasks.go\<close>, \<open>runner.go\<close> of \<open>internal/agent\<close>): the probe's client and cycle over a network that is an
    argument; \<open>System\<close> proves its laws for any authenticated network, \<open>Network\<close> connects it to the server's handler.
  \<^item> \<open>Guard\<close> (\<open>service/guard.go\<close>): the filter in front of the D-Bus decoder; \<open>Guard_Laws\<close> the grammar of what it lets through.
    \<open>Service_Status\<close> (\<open>status.go\<close>, \<open>linux.go\<close> of \<open>internal/service\<close>), \<open>Safe_Read\<close> (\<open>internal/saferead\<close>), \<open>Ssh_Audit\<close>
    (\<open>sshaudit/audit.go\<close>) with \<open>Ssh_Audit_Laws\<close>: the inspection collectors over a system that may answer anything.
  \<^item> \<open>Example_Run\<close>, \<open>Example_Server\<close>: the concrete data of the closed instances.

  How the model corresponds to the code. A Go record is a \<open>record\<close> with a prefix per type, a database table a list of rows in
  insertion order, a transaction \<open>run_tx\<close>: a function that returns the new database or an error, which leaves the old one. A
  returned error is the left side of \<open>'a result\<close>, with the sentinel errors as constructors. Every reading of the clock is an
  argument (\<open>clk k\<close> is the k-th reading of a call), and so are random bytes and whether a bounded slot was free. Integers
  are unbounded where the code compares them within checked limits, \<open>wrap64\<close> writes out the wrap-around of durations, and the
  frame lengths of the bus are machine words. Histories are lists of operations, in any order and with any arguments; a crash
  is a prefix of the steps of a call.

  Interfaces. \<open>reserving_log\<close> (the contract of the audit log with reserved slots; \<open>log\<close> is \<open>Append\<close>), \<open>closing_loop\<close> (a loop that
  closes tasks and gives back their slots; \<open>expiring\<close>, \<open>cancelling\<close> and \<open>withdrawing\<close> are the three loops of the store) and
  \<open>authenticated_network\<close> (an acknowledged result is stored; \<open>tls_wire\<close> is the server's handler behind a lossy connection).

  Parameters. SHA-256 and Ed25519 (\<open>crypto\<close>, with \<open>sha256_spec\<close> and \<open>ed25519_spec\<close>), argon2 (\<open>kdf\<close>), parsing and creating
  certificates (\<open>pki\<close> and the issuer's record), system calls, the SSH and bus libraries, the collectors of the host's
  measurements, the JSON printing of floating point numbers and of the answers
  to administrators. The specifications state only documented behaviour: lengths of outputs, and that what was signed
  verifies. Where a property would need collision resistance it exhibits the collision instead.

  Properties. \<open>Probe_Properties\<close>: at most one run per request, authority and confinement of what runs, rates, the clock latch,
  completion, recovery, refinement of the engine to its database steps. \<open>Server_Properties\<close>: the invariant over all histories,
  immutability of tasks and results, revocation, disabling. \<open>Wire_Properties\<close>: strict decoding, envelopes, trust sets, the log as
  evidence, policies. \<open>Dispatch_Properties\<close>: poll, enqueue, tokens. \<open>Admin_Properties\<close>, \<open>Management_Properties\<close>: sessions,
  roles, refused calls, the administrator API and its rate. \<open>System_Properties\<close>: probe and server together, over a network that
  loses and delays. \<open>Host_Properties\<close>: the bus filter and the reports of the inspection collectors.

  Bounds and fuel. The JSON reader takes two steps per byte plus two; \<open>parse_value_fuel\<close> shows that more changes nothing.
  \<open>header_fields\<close> and \<open>show_nat\<close> end by a measure. The long poll and the probe's cycle run for ever in the code; they take the list
  of their rounds as an argument, and the properties hold for every list.

  Not modelled, with the reason. Reading operator files, process locks, SQLite itself and its pragmas (\<open>localfile\<close>, \<open>localdb\<close>,
  \<open>signing/keys.go\<close>, \<open>identity/files.go\<close>): operating system calls. The measurements of \<open>collector/linux.go\<close>: readings of \<open>/proc\<close>,
  a parameter of the executor. TLS configuration and certificate files (\<open>tlsconfig\<close>, \<open>pki\<close>, \<open>devpki\<close>, the client side of enrollment and
  renewal in \<open>agent\<close>): configuration of \<open>crypto/tls\<close> and \<open>crypto/x509\<close>. The administration client and the commands
  (\<open>adminclient\<close>, \<open>secretinput\<close>, \<open>cmd\<close>): wiring, flags and terminal input. Response headers that no modelled part reads.

  What modelling showed. \<open>Append\<close> stores an event of any size although a row of more than 2048 bytes makes the log unreadable; no
  caller builds one. The comment on \<open>ChangeUser\<close> that reducing rights works at full audit capacity holds only for accounts
  that have a session.
\<close>

end
